(* ===== verification/Prelude.thy ===== *)
theory Prelude
  imports Main "HOL-Library.State_Monad" "HOL-Library.Word"
begin

text \<open>
  Shared vocabulary of the development: machine-integer arithmetic written out on \<open>nat\<close> and
  \<open>int\<close> (saturating additions, checked multiplications), instants and durations, list helpers, and
  a small program logic for the state monad of \<open>HOL-Library.State_Monad\<close>, in which every stateful
  operation of the daemon is written.

  Durations and instants are natural numbers of nanoseconds: Rust's \<open>Duration\<close> holds whole
  nanoseconds, and \<open>Instant::saturating_duration_since\<close> is exactly subtraction on \<open>nat\<close>, which
  stops at zero.
\<close>

section \<open>Collections\<close>

named_theorems wp \<open>triples for the operations of the daemon\<close>
named_theorems sat_simps \<open>saturating and clamped machine arithmetic\<close>

section \<open>Machine integers\<close>

abbreviation U32_MAX :: nat where "U32_MAX \<equiv> 4294967295"
abbreviation U64_MAX :: nat where "U64_MAX \<equiv> 18446744073709551615"
abbreviation I64_MAX :: int where "I64_MAX \<equiv> 9223372036854775807"
abbreviation I64_MIN :: int where "I64_MIN \<equiv> - 9223372036854775808"

definition u32_sat_add :: "nat \<Rightarrow> nat \<Rightarrow> nat" where
  "u32_sat_add a b = min (a + b) U32_MAX"

definition u64_sat_add :: "nat \<Rightarrow> nat \<Rightarrow> nat" where
  "u64_sat_add a b = min (a + b) U64_MAX"

definition u64_sat_mul :: "nat \<Rightarrow> nat \<Rightarrow> nat" where
  "u64_sat_mul a b = min (a * b) U64_MAX"

definition i64_sat :: "int \<Rightarrow> int" where
  "i64_sat z = max I64_MIN (min I64_MAX z)"

lemma u32_sat_add_le [sat_simps]: "u32_sat_add a b \<le> U32_MAX"
  by (simp add: u32_sat_add_def)

lemma u32_sat_add_ge: "a \<le> U32_MAX \<Longrightarrow> a \<le> u32_sat_add a b"
  by (simp add: u32_sat_add_def)

lemma u32_sat_add_pos: "0 < b \<Longrightarrow> 0 < u32_sat_add a b"
  by (simp add: u32_sat_add_def)

lemma i64_sat_bounds: "I64_MIN \<le> i64_sat z \<and> i64_sat z \<le> I64_MAX"
  by (auto simp: i64_sat_def)

text \<open>Rust's integer division truncates towards zero.\<close>

definition trunc_div :: "int \<Rightarrow> int \<Rightarrow> int" where
  "trunc_div a b = sgn a * sgn b * (\<bar>a\<bar> div \<bar>b\<bar>)"

section \<open>Instants and durations\<close>

type_synonym instant = nat
type_synonym duration = nat

definition NANOS_PER_SEC :: nat where "NANOS_PER_SEC = 1000000000"

text \<open>\<open>Duration::from_secs\<close> and \<open>Duration::as_secs\<close> (the latter drops the sub-second part).\<close>

definition from_secs :: "nat \<Rightarrow> duration" where
  "from_secs s = s * NANOS_PER_SEC"

definition as_secs :: "duration \<Rightarrow> nat" where
  "as_secs d = d div NANOS_PER_SEC"

text \<open>The largest \<open>Duration\<close>: \<open>u64::MAX\<close> seconds and \<open>999_999_999\<close> nanoseconds.\<close>

definition DURATION_MAX :: duration where
  "DURATION_MAX = U64_MAX * NANOS_PER_SEC + (NANOS_PER_SEC - 1)"

definition dur_checked_mul :: "duration \<Rightarrow> nat \<Rightarrow> duration option" where
  "dur_checked_mul d k = (if d * k \<le> DURATION_MAX then Some (d * k) else None)"

text \<open>\<open>Instant::saturating_duration_since\<close>.\<close>

definition since :: "instant \<Rightarrow> instant \<Rightarrow> duration" where
  "since a b = a - b"

lemma as_secs_from_secs [simp]: "as_secs (from_secs s) = s"
  by (simp add: as_secs_def from_secs_def NANOS_PER_SEC_def)

lemma from_secs_mono: "a \<le> b \<Longrightarrow> from_secs a \<le> from_secs b"
  by (simp add: from_secs_def)

lemma as_secs_mono: "a \<le> b \<Longrightarrow> as_secs a \<le> as_secs b"
  by (simp add: as_secs_def div_le_mono)

lemma since_self [simp]: "since a a = 0"
  by (simp add: since_def)

section \<open>Lists\<close>

text \<open>\<open>iter().position(p)\<close>: the first index whose element satisfies the predicate.\<close>

fun position :: "('a \<Rightarrow> bool) \<Rightarrow> 'a list \<Rightarrow> nat option" where
  "position p [] = None"
| "position p (x # xs) = (if p x then Some 0 else map_option Suc (position p xs))"

lemma position_Some:
  "position p xs = Some i \<Longrightarrow> i < length xs \<and> p (xs ! i) \<and> (\<forall>j < i. \<not> p (xs ! j))"
proof (induction xs arbitrary: i)
  case Nil
  then show ?case by simp
next
  case (Cons x xs)
  show ?case
  proof (cases "p x")
    case True
    with Cons.prems show ?thesis by auto
  next
    case False
    with Cons.prems obtain k where k: "position p xs = Some k" "i = Suc k" by auto
    have "k < length xs \<and> p (xs ! k) \<and> (\<forall>j < k. \<not> p (xs ! j))"
      using Cons.IH [OF k(1)] .
    with False k(2) show ?thesis by (auto simp: less_Suc_eq_0_disj)
  qed
qed

lemma position_None: "position p xs = None \<longleftrightarrow> (\<forall>x \<in> set xs. \<not> p x)"
  by (induction xs) auto

lemma position_less: "position p xs = Some i \<Longrightarrow> i < length xs"
  by (drule position_Some) simp

section \<open>Partial-correctness triples for the state monad\<close>

text \<open>
  \<open>triple P m Q\<close>: started in a state satisfying \<open>P\<close>, the computation \<open>m\<close> ends in a state (with a
  result) satisfying \<open>Q\<close>. Computations of the state monad are total functions, so this is total
  correctness as well.
\<close>

definition triple :: "('s \<Rightarrow> bool) \<Rightarrow> ('s, 'a) state \<Rightarrow> ('a \<Rightarrow> 's \<Rightarrow> bool) \<Rightarrow> bool" where
  "triple P m Q \<longleftrightarrow> (\<forall>s. P s \<longrightarrow> Q (fst (run_state m s)) (snd (run_state m s)))"

definition sget :: "('s \<Rightarrow> 'a) \<Rightarrow> ('s, 'a) state" where
  "sget f = State (\<lambda>s. (f s, s))"

definition smod :: "('s \<Rightarrow> 's) \<Rightarrow> ('s, unit) state" where
  "smod f = State (\<lambda>s. ((), f s))"

definition swhen :: "bool \<Rightarrow> ('s, unit) state \<Rightarrow> ('s, unit) state" where
  "swhen b m = (if b then m else State_Monad.return ())"

lemma run_sget [simp]: "run_state (sget f) s = (f s, s)"
  by (simp add: sget_def)

lemma run_smod [simp]: "run_state (smod f) s = ((), f s)"
  by (simp add: smod_def)

lemma run_swhen [simp]: "run_state (swhen b m) s = (if b then run_state m s else ((), s))"
  by (simp add: swhen_def)

lemma tripleI: "(\<And>s a s'. P s \<Longrightarrow> run_state m s = (a, s') \<Longrightarrow> Q a s') \<Longrightarrow> triple P m Q"
  by (simp add: triple_def)

lemma tripleD: "triple P m Q \<Longrightarrow> P s \<Longrightarrow> run_state m s = (a, s') \<Longrightarrow> Q a s'"
  by (metis triple_def fst_conv snd_conv)

lemma triple_return [wp]: "triple (Q a) (State_Monad.return a) Q"
  by (simp add: triple_def)

lemma triple_sget [wp]: "triple (\<lambda>s. Q (f s) s) (sget f) Q"
  by (simp add: triple_def)

lemma triple_smod [wp]: "triple (\<lambda>s. Q () (f s)) (smod f) Q"
  by (simp add: triple_def)

lemma triple_weaken:
  "triple P m Q \<Longrightarrow> (\<And>s. P' s \<Longrightarrow> P s) \<Longrightarrow> (\<And>a s. Q a s \<Longrightarrow> Q' a s) \<Longrightarrow> triple P' m Q'"
  by (simp add: triple_def)

lemma triple_pre: "triple P m Q \<Longrightarrow> (\<And>s. P' s \<Longrightarrow> P s) \<Longrightarrow> triple P' m Q"
  by (simp add: triple_def)

lemma triple_bind:
  "triple P m R \<Longrightarrow> (\<And>a. triple (R a) (f a) Q) \<Longrightarrow> triple P (State_Monad.bind m f) Q"
  by (simp add: triple_def split_beta)

lemma triple_if:
  "(b \<Longrightarrow> triple P m Q) \<Longrightarrow> (\<not> b \<Longrightarrow> triple P n Q) \<Longrightarrow> triple P (if b then m else n) Q"
  by simp

lemma triple_swhen:
  "(b \<Longrightarrow> triple P m Q) \<Longrightarrow> (\<And>s. \<not> b \<Longrightarrow> P s \<Longrightarrow> Q () s) \<Longrightarrow> triple P (swhen b m) Q"
  by (cases b) (simp_all add: swhen_def triple_def)

lemma triple_case_option:
  "(x = None \<Longrightarrow> triple P m Q) \<Longrightarrow> (\<And>a. x = Some a \<Longrightarrow> triple P (f a) Q) \<Longrightarrow>
   triple P (case x of None \<Rightarrow> m | Some a \<Rightarrow> f a) Q"
  by (cases x) auto

lemma triple_case_sum:
  "(\<And>a. x = Inl a \<Longrightarrow> triple P (f a) Q) \<Longrightarrow> (\<And>b. x = Inr b \<Longrightarrow> triple P (g b) Q) \<Longrightarrow>
   triple P (case x of Inl a \<Rightarrow> f a | Inr b \<Rightarrow> g b) Q"
  by (cases x) auto

lemma triple_conj:
  "triple P m Q \<Longrightarrow> triple P m R \<Longrightarrow> triple P m (\<lambda>a s. Q a s \<and> R a s)"
  by (simp add: triple_def)

text \<open>An invariant \<open>I\<close> kept by a computation whatever its result.\<close>

abbreviation keeps :: "('s \<Rightarrow> bool) \<Rightarrow> ('s, 'a) state \<Rightarrow> bool" where
  "keeps I m \<equiv> triple I m (\<lambda>_. I)"

lemma keeps_return [wp]: "keeps I (State_Monad.return a)"
  by (simp add: triple_def)

lemma keeps_sget [wp]: "keeps I (sget f)"
  by (simp add: triple_def)

lemma keeps_bind: "keeps I m \<Longrightarrow> (\<And>a. keeps I (f a)) \<Longrightarrow> keeps I (State_Monad.bind m f)"
  by (rule triple_bind)

lemma triple_bind_keep:
  "keeps I m \<Longrightarrow> (\<And>a. triple I (f a) Q) \<Longrightarrow> triple I (State_Monad.bind m f) Q"
  by (rule triple_bind)

lemma keeps_smod: "(\<And>s. I s \<Longrightarrow> I (f s)) \<Longrightarrow> keeps I (smod f)"
  by (simp add: triple_def)

lemma keeps_swhen: "(b \<Longrightarrow> keeps I m) \<Longrightarrow> keeps I (swhen b m)"
  by (simp add: swhen_def triple_def)

lemmas keeps_rules =
  keeps_return keeps_sget keeps_bind keeps_swhen triple_if triple_case_option triple_case_sum

end
