(* ===== verification/F64.thy ===== *)
theory F64
  imports Prelude Complex_Main
begin

text \<open>
  Rust's \<open>f64\<close>: IEEE-754 binary64 values with round-to-nearest-even arithmetic. A finite value is
  the rational it denotes; every arithmetic operation computes the exact rational result and
  rounds it to the nearest representable value (\<open>rnd\<close>), or to an infinity on overflow. The two
  zeros are identified (the model code compares and sorts usage fractions, where the sign of a
  zero is never read), and all NaNs are one value, placed above \<open>+\<infinity>\<close> by \<open>total_cmp\<close> as Rust places
  the positive NaNs.

  The comparison operators of the code (\<open><\<close>, \<open>>=\<close>, \dots) are \<open>f_lt\<close>, \<open>f_le\<close>: false whenever an
  operand is NaN. The linear order of the type class \<open>linorder\<close> is \<open>f64::total_cmp\<close>.
\<close>

datatype f64 = NInf | Fin rat | PInf | NaN

section \<open>Rounding to nearest, ties to even\<close>

fun flog2 :: "nat \<Rightarrow> nat" where
  "flog2 n = (if n < 2 then 0 else Suc (flog2 (n div 2)))"

declare flog2.simps [simp del]

text \<open>The binary exponent of a positive rational: \<open>2 ^ e \<le> q < 2 ^ (e + 1)\<close>.\<close>

definition exp2 :: "rat \<Rightarrow> int" where
  "exp2 q = (case quotient_of q of (a, b) \<Rightarrow>
     (let e = int (flog2 (nat a)) - int (flog2 (nat b))
      in if 2 powi e \<le> q then e else e - 1))"

definition ulp_exp :: "rat \<Rightarrow> int" where
  "ulp_exp q = max (- 1074) (exp2 q - 52)"

text \<open>Nearest integer, ties to the even one.\<close>

definition rne :: "rat \<Rightarrow> int" where
  "rne q = (let f = \<lfloor>q\<rfloor>; d = q - of_int f
            in if d < 1 / 2 then f else if 1 / 2 < d then f + 1
               else if even f then f else f + 1)"

definition rnd :: "rat \<Rightarrow> rat" where
  "rnd q = (if q = 0 then 0
            else of_int (rne (q / 2 powi ulp_exp \<bar>q\<bar>)) * 2 powi ulp_exp \<bar>q\<bar>)"

definition f64_max :: rat where
  "f64_max = (2 ^ 53 - 1) * 2 ^ 971"

text \<open>The value of a decimal literal, and of every exact result: rounded, or an infinity.\<close>

definition to_f64 :: "rat \<Rightarrow> f64" where
  "to_f64 q = (let r = rnd q
     in if f64_max < r then PInf else if r < - f64_max then NInf else Fin r)"

section \<open>Order\<close>

fun f64_rank :: "f64 \<Rightarrow> nat" where
  "f64_rank NInf = 0"
| "f64_rank (Fin _) = 1"
| "f64_rank PInf = 2"
| "f64_rank NaN = 3"

instantiation f64 :: linorder
begin

fun less_eq_f64 :: "f64 \<Rightarrow> f64 \<Rightarrow> bool" where
  "less_eq_f64 (Fin a) (Fin b) = (a \<le> b)"
| "less_eq_f64 x y = (f64_rank x \<le> f64_rank y)"

definition less_f64 :: "f64 \<Rightarrow> f64 \<Rightarrow> bool" where
  "less_f64 x y = (x \<le> y \<and> \<not> y \<le> x)"

instance
proof
  fix x y z :: f64
  show "(x < y) = (x \<le> y \<and> \<not> y \<le> x)" by (simp add: less_f64_def)
  show "x \<le> x" by (cases x) simp_all
  show "x \<le> y \<Longrightarrow> y \<le> z \<Longrightarrow> x \<le> z"
    by (cases x; cases y; cases z) simp_all
  show "x \<le> y \<Longrightarrow> y \<le> x \<Longrightarrow> x = y"
    by (cases x; cases y) simp_all
  show "x \<le> y \<or> y \<le> x"
    by (cases x; cases y) auto
qed

end

lemma Fin_less [simp]: "Fin a < Fin b \<longleftrightarrow> a < b"
  by (auto simp: less_f64_def)

lemma f64_less_simps [simp]:
  "Fin a < PInf" "Fin a < NaN" "NInf < Fin a" "NInf < PInf" "NInf < NaN" "PInf < NaN"
  "\<not> PInf < Fin a" "\<not> NaN < x" "\<not> x < NInf" "\<not> Fin a < NInf"
  by (cases x; simp add: less_f64_def)+

lemma NaN_top: "x \<le> NaN"
  by (cases x) simp_all

text \<open>The comparison operators of \<open>PartialOrd\<close>.\<close>

definition f_lt :: "f64 \<Rightarrow> f64 \<Rightarrow> bool" where
  "f_lt x y \<longleftrightarrow> x \<noteq> NaN \<and> y \<noteq> NaN \<and> x < y"

definition f_le :: "f64 \<Rightarrow> f64 \<Rightarrow> bool" where
  "f_le x y \<longleftrightarrow> x \<noteq> NaN \<and> y \<noteq> NaN \<and> x \<le> y"

abbreviation f_ge :: "f64 \<Rightarrow> f64 \<Rightarrow> bool" where "f_ge x y \<equiv> f_le y x"
abbreviation f_gt :: "f64 \<Rightarrow> f64 \<Rightarrow> bool" where "f_gt x y \<equiv> f_lt y x"

lemma f_lt_not_le: "f_lt x y \<Longrightarrow> \<not> f_le y x"
  by (auto simp: f_lt_def f_le_def)

lemma f_not_le_lt: "x \<noteq> NaN \<Longrightarrow> y \<noteq> NaN \<Longrightarrow> \<not> f_le y x \<longleftrightarrow> f_lt x y"
  by (auto simp: f_lt_def f_le_def)

lemma f_lt_le_trans: "f_lt x y \<Longrightarrow> f_le y z \<Longrightarrow> f_lt x z"
  by (auto simp: f_lt_def f_le_def)

lemma f_le_trans: "f_le x y \<Longrightarrow> f_le y z \<Longrightarrow> f_le x z"
  by (auto simp: f_le_def)

lemma f_le_refl: "x \<noteq> NaN \<Longrightarrow> f_le x x"
  by (simp add: f_le_def)

lemma f_cmp_Fin [simp]: "f_lt (Fin a) (Fin b) \<longleftrightarrow> a < b" "f_le (Fin a) (Fin b) \<longleftrightarrow> a \<le> b"
  by (simp_all add: f_lt_def f_le_def)

lemma f_cmp_NaN [simp]: "\<not> f_lt NaN x" "\<not> f_lt x NaN" "\<not> f_le NaN x" "\<not> f_le x NaN"
  by (simp_all add: f_lt_def f_le_def)

section \<open>Arithmetic\<close>

fun f_neg :: "f64 \<Rightarrow> f64" where
  "f_neg NaN = NaN"
| "f_neg PInf = NInf"
| "f_neg NInf = PInf"
| "f_neg (Fin a) = Fin (- a)"

fun f_add :: "f64 \<Rightarrow> f64 \<Rightarrow> f64" where
  "f_add (Fin a) (Fin b) = to_f64 (a + b)"
| "f_add NaN _ = NaN"
| "f_add _ NaN = NaN"
| "f_add PInf NInf = NaN"
| "f_add NInf PInf = NaN"
| "f_add PInf _ = PInf"
| "f_add _ PInf = PInf"
| "f_add NInf _ = NInf"
| "f_add _ NInf = NInf"

definition f_sub :: "f64 \<Rightarrow> f64 \<Rightarrow> f64" where
  "f_sub x y = f_add x (f_neg y)"

fun inf_sgn :: "rat \<Rightarrow> f64" where
  "inf_sgn a = (if a = 0 then NaN else if 0 < a then PInf else NInf)"

fun f_mul :: "f64 \<Rightarrow> f64 \<Rightarrow> f64" where
  "f_mul (Fin a) (Fin b) = to_f64 (a * b)"
| "f_mul NaN _ = NaN"
| "f_mul _ NaN = NaN"
| "f_mul PInf (Fin b) = inf_sgn b"
| "f_mul (Fin a) PInf = inf_sgn a"
| "f_mul NInf (Fin b) = f_neg (inf_sgn b)"
| "f_mul (Fin a) NInf = f_neg (inf_sgn a)"
| "f_mul PInf PInf = PInf"
| "f_mul NInf NInf = PInf"
| "f_mul PInf NInf = NInf"
| "f_mul NInf PInf = NInf"

text \<open>
  Division; the code divides by non-zero constants and by positive counts only. With the zeros
  identified a non-zero dividend over zero takes the dividend's sign.
\<close>

fun f_div :: "f64 \<Rightarrow> f64 \<Rightarrow> f64" where
  "f_div (Fin a) (Fin b) = (if b = 0 then inf_sgn a else to_f64 (a / b))"
| "f_div NaN _ = NaN"
| "f_div _ NaN = NaN"
| "f_div (Fin a) PInf = Fin 0"
| "f_div (Fin a) NInf = Fin 0"
| "f_div PInf (Fin b) = (if b < 0 then NInf else PInf)"
| "f_div NInf (Fin b) = (if b < 0 then PInf else NInf)"
| "f_div _ _ = NaN"

text \<open>\<open>f64::max\<close> and \<open>f64::min\<close> return the other operand when one is NaN.\<close>

definition f_max :: "f64 \<Rightarrow> f64 \<Rightarrow> f64" where
  "f_max x y = (if x = NaN then y else if y = NaN then x else max x y)"

definition f_min :: "f64 \<Rightarrow> f64 \<Rightarrow> f64" where
  "f_min x y = (if x = NaN then y else if y = NaN then x else min x y)"

text \<open>
  \<open>f64::clamp\<close>; its assertion \<open>lo <= hi\<close> holds at every call of the code, which passes constants.
\<close>

definition f_clamp :: "f64 \<Rightarrow> f64 \<Rightarrow> f64 \<Rightarrow> f64" where
  "f_clamp x lo hi = (if f_lt x lo then lo else if f_gt x hi then hi else x)"

fun f_abs :: "f64 \<Rightarrow> f64" where
  "f_abs (Fin a) = Fin \<bar>a\<bar>"
| "f_abs NaN = NaN"
| "f_abs _ = PInf"

text \<open>\<open>f64::round\<close>: the nearest integer, halves away from zero.\<close>

fun f_round :: "f64 \<Rightarrow> f64" where
  "f_round (Fin a) = Fin (of_int (if 0 \<le> a then \<lfloor>a + 1 / 2\<rfloor> else - \<lfloor>1 / 2 - a\<rfloor>))"
| "f_round x = x"

text \<open>Casts: \<open>as u8\<close>, \<open>as u64\<close> truncate and saturate, NaN becomes 0; integers convert with rounding.\<close>

fun f_as_uint :: "nat \<Rightarrow> f64 \<Rightarrow> nat" where
  "f_as_uint m (Fin a) = min m (nat \<lfloor>a\<rfloor>)"
| "f_as_uint m PInf = m"
| "f_as_uint m _ = 0"

definition f_of_nat :: "nat \<Rightarrow> f64" where
  "f_of_nat n = to_f64 (of_nat n)"

section \<open>Correctness of the rounding\<close>

lemma flog2_bounds: "0 < n \<Longrightarrow> 2 ^ flog2 n \<le> n \<and> n < 2 * 2 ^ flog2 n"
proof (induction n rule: flog2.induct)
  case (1 n)
  show ?case
  proof (cases "n < 2")
    case True
    with 1 show ?thesis by (subst (1 2) flog2.simps) simp
  next
    case False
    with 1 have "2 ^ flog2 (n div 2) \<le> n div 2 \<and> n div 2 < 2 * 2 ^ flog2 (n div 2)"
      by simp
    with False show ?thesis by (subst (1 2) flog2.simps) auto
  qed
qed

lemma powi_pos [simp]: "0 < (2::rat) powi e"
  by simp

lemma powi_less_iff: "(2::rat) powi a < 2 powi b \<longleftrightarrow> a < b"
  by (metis linorder_less_linear one_less_numeral_iff order_less_asym
      power_int_strict_increasing semiring_norm(76))

lemma powi_le_iff: "(2::rat) powi a \<le> 2 powi b \<longleftrightarrow> a \<le> b"
  by (meson linorder_not_le powi_less_iff)

lemma powi_diff_int: "b \<le> a \<Longrightarrow> (2::rat) powi a / 2 powi b = of_int (2 ^ nat (a - b))"
proof -
  assume "b \<le> a"
  then have "(2::rat) powi (a - b) = 2 ^ nat (a - b)" by (simp add: power_int_def)
  then show ?thesis by (simp add: power_int_diff)
qed

lemma powi_split: "b \<le> a \<Longrightarrow> of_int (2 ^ nat (a - b)) * (2::rat) powi b = 2 powi a"
  using powi_diff_int [of b a] by (simp add: field_simps)

lemma exp2_bounds:
  assumes "0 < q"
  shows "2 powi exp2 q \<le> q \<and> q < 2 powi (exp2 q + 1)"
proof -
  obtain a b where ab: "quotient_of q = (a, b)" by fastforce
  have b: "0 < b" using quotient_of_denom_pos [OF ab] .
  have q: "q = of_int a / of_int b" using quotient_of_div [OF ab] .
  have a: "0 < a" using assms b by (simp add: q zero_less_divide_iff)
  let ?fa = "flog2 (nat a)" and ?fb = "flog2 (nat b)"
  have fa: "(2::rat) ^ ?fa \<le> of_int a" "of_int a < (2::rat) * 2 ^ ?fa"
    using flog2_bounds [of "nat a"] a by (simp_all flip: of_nat_le_iff [where 'a = rat] of_nat_less_iff [where 'a = rat])
  have fb: "(2::rat) ^ ?fb \<le> of_int b" "of_int b < (2::rat) * 2 ^ ?fb"
    using flog2_bounds [of "nat b"] b by (simp_all flip: of_nat_le_iff [where 'a = rat] of_nat_less_iff [where 'a = rat])
  define e where "e = int ?fa - int ?fb"
  have pe: "(2::rat) powi e = 2 ^ ?fa / 2 ^ ?fb"
    by (simp add: e_def power_int_diff)
  have up: "q < 2 powi (e + 1)"
  proof -
    have "of_int a * (2::rat) ^ ?fb < (2 * 2 ^ ?fa) * of_int b"
      by (rule mult_less_le_imp_less) (use fa fb a in auto)
    then show ?thesis using b by (simp add: q power_int_add pe field_simps)
  qed
  have lo: "2 powi (e - 1) \<le> q"
  proof -
    have "(2::rat) ^ ?fa * of_int b \<le> of_int a * (2 * 2 ^ ?fb)"
      by (rule mult_mono) (use fa fb a b in auto)
    then show ?thesis using b by (simp add: q power_int_diff pe field_simps)
  qed
  have "exp2 q = (if 2 powi e \<le> q then e else e - 1)"
    by (simp add: exp2_def ab e_def Let_def)
  with up lo show ?thesis by auto
qed

lemma exp2_unique:
  assumes "2 powi e \<le> q" "q < 2 powi (e + 1)"
  shows "exp2 q = e"
proof -
  have q: "0 < q" using assms(1) powi_pos [of e] by linarith
  note b = exp2_bounds [OF q]
  from b assms have "(2::rat) powi e < 2 powi (exp2 q + 1)" "(2::rat) powi exp2 q < 2 powi (e + 1)"
    by linarith+
  then show ?thesis by (simp add: powi_less_iff)
qed

lemma exp2_mono: "0 < q \<Longrightarrow> q \<le> r \<Longrightarrow> exp2 q \<le> exp2 r"
proof -
  assume q: "0 < q" and le: "q \<le> r"
  have "(2::rat) powi exp2 q < 2 powi (exp2 r + 1)"
    using exp2_bounds [OF q] exp2_bounds [of r] q le by linarith
  then show ?thesis by (simp add: powi_less_iff)
qed

lemma rne_of_int [simp]: "rne (of_int k) = k"
  by (simp add: rne_def)

lemma rne_near: "\<bar>of_int (rne q) - q\<bar> \<le> 1 / 2"
proof -
  have "of_int \<lfloor>q\<rfloor> \<le> q" "q < of_int \<lfloor>q\<rfloor> + 1" by linarith+
  then show ?thesis unfolding rne_def Let_def by (auto simp: abs_le_iff)
qed

lemma rne_mono:
  assumes "q \<le> r"
  shows "rne q \<le> rne r"
proof (cases "\<lfloor>q\<rfloor> = \<lfloor>r\<rfloor>")
  case True
  then show ?thesis using assms by (auto simp: rne_def Let_def)
next
  case False
  then have "\<lfloor>q\<rfloor> + 1 \<le> \<lfloor>r\<rfloor>" using floor_mono [OF assms] by linarith
  then show ?thesis by (auto simp: rne_def Let_def)
qed

lemma rne_minus: "rne (- q) = - rne q"
proof (cases "q = of_int \<lfloor>q\<rfloor>")
  case True
  then show ?thesis by (metis of_int_minus rne_of_int)
next
  case False
  then have "\<lfloor>- q\<rfloor> = - \<lfloor>q\<rfloor> - 1" by linarith
  then show ?thesis by (auto simp: rne_def Let_def)
qed

lemma rnd_minus: "rnd (- q) = - rnd q"
  by (simp add: rnd_def rne_minus)

lemma rnd_0 [simp]: "rnd 0 = 0"
  by (simp add: rnd_def)

text \<open>A binary64 significand times a power of two is representable: rounding leaves it alone.\<close>

lemma rnd_representable:
  assumes k: "\<bar>k\<bar> \<le> 2 ^ 53" and m: "- 1074 \<le> m"
  shows "rnd (of_int k * 2 powi m) = of_int k * 2 powi m"
proof (cases "k = 0")
  case True
  then show ?thesis by simp
next
  case False
  let ?q = "of_int k * 2 powi m :: rat"
  have pos: "0 < \<bar>?q\<bar>" using False by simp
  define u where "u = ulp_exp \<bar>?q\<bar>"
  have "\<exists>j. ?q / 2 powi u = of_int j"
  proof (cases "u \<le> m")
    case True
    then have "?q / 2 powi u = of_int (k * 2 ^ nat (m - u))"
      using powi_diff_int [OF True] by (simp flip: times_divide_eq_right)
    then show ?thesis by blast
  next
    case False
    then have u: "u = exp2 \<bar>?q\<bar> - 52" using m by (auto simp: u_def ulp_exp_def)
    have absq: "\<bar>?q\<bar> = of_int \<bar>k\<bar> * 2 powi m" by (simp add: abs_mult)
    have "of_int \<bar>k\<bar> \<le> (of_int (2 ^ 53) :: rat)" using k by (simp only: of_int_le_iff)
    then have "\<bar>?q\<bar> \<le> 2 ^ 53 * 2 powi m"
      unfolding absq by (intro mult_right_mono) simp_all
    also have "(2::rat) ^ 53 * 2 powi m = 2 powi (53 + m)"
      by (simp add: power_int_add)
    finally have le: "\<bar>?q\<bar> \<le> 2 powi (53 + m)" .
    with exp2_bounds [OF pos] have "(2::rat) powi exp2 \<bar>?q\<bar> \<le> 2 powi (53 + m)" by linarith
    then have "exp2 \<bar>?q\<bar> \<le> 53 + m" by (simp add: powi_le_iff)
    with False u have um: "u = m + 1" by linarith
    then have "2 powi (53 + m) \<le> \<bar>?q\<bar>" using exp2_bounds [OF pos] u by (simp add: algebra_simps)
    with le have "\<bar>?q\<bar> = 2 powi (53 + m)" by linarith
    then have "of_int \<bar>k\<bar> = (of_int (2 ^ 53) :: rat)"
      by (simp add: abs_mult power_int_add)
    then have "\<bar>k\<bar> = 2 ^ 53" by (simp only: of_int_eq_iff)
    then have "k = 2 ^ 53 \<or> k = - (2 ^ 53)" by arith
    moreover have "(2::rat) powi m / 2 powi (m + 1) = 1 / 2"
      by (simp add: power_int_add)
    ultimately have "?q / 2 powi u = of_int (2 ^ 52) \<or> ?q / 2 powi u = of_int (- (2 ^ 52))"
      by (auto simp: um power_int_add)
    then show ?thesis by blast
  qed
  then obtain j where j: "?q / 2 powi u = of_int j" by blast
  have "rnd ?q = of_int (rne (?q / 2 powi u)) * 2 powi u"
    using pos unfolding rnd_def u_def by auto
  also have "\<dots> = of_int j * 2 powi u" by (simp only: j rne_of_int)
  also have "\<dots> = ?q" by (simp flip: j)
  finally show ?thesis .
qed

lemma rnd_form: "\<exists>k m. rnd q = of_int k * 2 powi m \<and> \<bar>k\<bar> \<le> 2 ^ 53 \<and> - 1074 \<le> m"
proof (cases "q = 0")
  case True
  then show ?thesis by (intro exI [of _ 0] exI [of _ 0]) simp
next
  case False
  let ?u = "ulp_exp \<bar>q\<bar>" and ?k = "rne (q / 2 powi ulp_exp \<bar>q\<bar>)"
  have pos: "0 < \<bar>q\<bar>" using False by simp
  have "\<bar>q\<bar> < 2 powi (exp2 \<bar>q\<bar> + 1)" using exp2_bounds [OF pos] by blast
  also have "(2::rat) powi (exp2 \<bar>q\<bar> + 1) \<le> 2 powi (53 + ?u)"
    by (simp add: powi_le_iff ulp_exp_def)
  finally have lt: "\<bar>q\<bar> < 2 ^ 53 * 2 powi ?u" by (simp add: power_int_add)
  then have "q / 2 powi ?u \<le> of_int (2 ^ 53)" "of_int (- (2 ^ 53)) \<le> q / 2 powi ?u"
    by (simp_all add: field_simps)
  then have "?k \<le> 2 ^ 53" "- (2 ^ 53) \<le> ?k"
    using rne_mono rne_of_int by metis+
  then have "\<bar>?k\<bar> \<le> 2 ^ 53" by linarith
  moreover have "rnd q = of_int ?k * 2 powi ?u" using False by (simp add: rnd_def)
  moreover have "- 1074 \<le> ?u" by (simp add: ulp_exp_def)
  ultimately show ?thesis by blast
qed

lemma rnd_idem [simp]: "rnd (rnd q) = rnd q"
proof -
  obtain k m where "rnd q = of_int k * 2 powi m" "\<bar>k\<bar> \<le> 2 ^ 53" "- 1074 \<le> m"
    using rnd_form by blast
  then show ?thesis by (metis rnd_representable)
qed

lemma rnd_nonneg: "0 \<le> q \<Longrightarrow> 0 \<le> rnd q"
proof -
  assume "0 \<le> q"
  then have "rne 0 \<le> rne (q / 2 powi ulp_exp \<bar>q\<bar>)" by (intro rne_mono) simp
  moreover have "rne 0 = 0" using rne_of_int [of 0] by simp
  ultimately have "0 \<le> rne (q / 2 powi ulp_exp \<bar>q\<bar>)" by linarith
  then show ?thesis by (simp add: rnd_def)
qed

lemma rnd_mono_pos:
  assumes q: "0 < q" and le: "q \<le> r"
  shows "rnd q \<le> rnd r"
proof -
  let ?u = "ulp_exp q" and ?v = "ulp_exp r"
  have r: "0 < r" using q le by linarith
  have rq: "rnd q = of_int (rne (q / 2 powi ?u)) * 2 powi ?u"
    and rr: "rnd r = of_int (rne (r / 2 powi ?v)) * 2 powi ?v"
    using q r by (simp_all add: rnd_def)
  have uv: "?u \<le> ?v" using exp2_mono [OF q le] by (simp add: ulp_exp_def)
  show ?thesis
  proof (cases "?u = ?v")
    case True
    have "rne (q / 2 powi ?u) \<le> rne (r / 2 powi ?u)"
      by (intro rne_mono divide_right_mono le) simp
    then show ?thesis by (simp add: rq rr True mult_right_mono)
  next
    case False
    let ?e = "exp2 r"
    have v: "?v = ?e - 52" and e: "exp2 q < ?e" "?u \<le> ?e"
      using False uv by (auto simp: ulp_exp_def)
    have "q < 2 powi (exp2 q + 1)" using exp2_bounds [OF q] by blast
    also have "(2::rat) powi (exp2 q + 1) \<le> 2 powi ?e" using e by (simp add: powi_le_iff)
    finally have "q / 2 powi ?u \<le> 2 powi ?e / 2 powi ?u"
      by (intro divide_right_mono) simp_all
    then have "rne (q / 2 powi ?u) \<le> 2 ^ nat (?e - ?u)"
      using rne_mono rne_of_int unfolding powi_diff_int [OF e(2)] by metis
    then have "rnd q \<le> of_int (2 ^ nat (?e - ?u)) * 2 powi ?u"
      unfolding rq by (intro mult_right_mono) (simp_all only: of_int_le_iff, simp)
    then have lo: "rnd q \<le> 2 powi ?e" by (simp only: powi_split [OF e(2)])
    have ve: "?v \<le> ?e" using v by simp
    have "2 powi ?e / 2 powi ?v \<le> r / 2 powi ?v"
      using exp2_bounds [OF r] by (intro divide_right_mono) simp_all
    then have "2 ^ nat (?e - ?v) \<le> rne (r / 2 powi ?v)"
      using rne_mono rne_of_int unfolding powi_diff_int [OF ve] by metis
    then have "of_int (2 ^ nat (?e - ?v)) * 2 powi ?v \<le> rnd r"
      unfolding rr by (intro mult_right_mono) (simp_all only: of_int_le_iff, simp)
    then have "2 powi ?e \<le> rnd r" by (simp only: powi_split [OF ve])
    with lo show ?thesis by linarith
  qed
qed

lemma rnd_mono: "q \<le> r \<Longrightarrow> rnd q \<le> rnd r"
proof -
  assume le: "q \<le> r"
  consider "0 < q" | "q \<le> 0" "0 \<le> r" | "r < 0" by linarith
  then show ?thesis
  proof cases
    case 1
    then show ?thesis by (rule rnd_mono_pos [OF _ le])
  next
    case 2
    then show ?thesis using rnd_nonneg [of r] rnd_nonneg [of "- q"] by (simp add: rnd_minus)
  next
    case 3
    then show ?thesis using rnd_mono_pos [of "- r" "- q"] le by (simp add: rnd_minus)
  qed
qed

section \<open>Representable values\<close>

text \<open>
  The values an \<open>f64\<close> variable can hold: a finite one is its own rounding and does not exceed the
  largest finite value. Every arithmetic result is one.
\<close>

fun f64_ok :: "f64 \<Rightarrow> bool" where
  "f64_ok (Fin r) = (rnd r = r \<and> \<bar>r\<bar> \<le> f64_max)"
| "f64_ok _ = True"

lemma f64_max_large: "2 ^ 64 < f64_max"
proof -
  have "(2::rat) ^ 64 * 1 < (2 ^ 53 - 1) * 2 ^ 971"
  proof -
    have "(2::rat) ^ 64 * 1 \<le> 2 ^ 64 * (2 ^ 53 - 1)" by (intro mult_left_mono) simp_all
    also have "\<dots> < 2 ^ 971 * (2 ^ 53 - 1)"
      by (intro mult_strict_right_mono power_strict_increasing) simp_all
    finally show ?thesis by (simp add: mult.commute)
  qed
  then show ?thesis by (simp add: f64_max_def)
qed

lemma f64_max_pos [simp]: "0 < f64_max"
  using f64_max_large by (rule less_trans [rotated]) simp

lemma f64_max_nonneg [simp]: "0 \<le> f64_max"
  using f64_max_pos by (rule less_imp_le)

lemma to_f64_ok [simp, intro]: "f64_ok (to_f64 q)"
  by (auto simp: to_f64_def Let_def)

lemma to_f64_id: "f64_ok (Fin r) \<Longrightarrow> to_f64 r = Fin r"
  by (auto simp: to_f64_def Let_def)

lemma to_f64_mono: "q \<le> r \<Longrightarrow> to_f64 q \<le> to_f64 r"
  using rnd_mono [of q r] f64_max_pos by (auto simp: to_f64_def Let_def simp del: f64_max_pos)

lemma to_f64_not_NaN [simp]: "to_f64 q \<noteq> NaN"
  by (simp add: to_f64_def Let_def)

lemma to_f64_0 [simp]: "to_f64 0 = Fin 0"
  using f64_max_pos by (simp add: to_f64_def Let_def less_imp_le not_less del: f64_max_pos)

text \<open>Evaluation: values of ordinary size never overflow, and the exponent can be supplied.\<close>

lemma to_f64_small: "\<bar>q\<bar> \<le> 2 ^ 64 \<Longrightarrow> to_f64 q = Fin (rnd q)"
proof -
  assume q: "\<bar>q\<bar> \<le> 2 ^ 64"
  have "rnd (of_int (2 ^ 52) * 2 powi 12) = of_int (2 ^ 52) * 2 powi 12"
    by (rule rnd_representable) simp_all
  then have p: "rnd (2 ^ 64) = 2 ^ 64" by simp
  have "rnd q \<le> 2 ^ 64" "rnd (- q) \<le> 2 ^ 64"
    using q rnd_mono [of q "2 ^ 64"] rnd_mono [of "- q" "2 ^ 64"] unfolding p by (simp_all add: abs_le_iff)
  then show ?thesis
    using f64_max_large by (simp add: to_f64_def Let_def rnd_minus)
qed

lemma rnd_eval:
  assumes "2 powi e \<le> \<bar>q\<bar>" "\<bar>q\<bar> < 2 powi (e + 1)" "- 1022 \<le> e"
  shows "rnd q = of_int (rne (q / 2 powi (e - 52))) * 2 powi (e - 52)"
proof -
  have "exp2 \<bar>q\<bar> = e" by (rule exp2_unique) (use assms in auto)
  moreover have "q \<noteq> 0" using assms(1) powi_pos [of e] by (metis abs_zero not_le)
  ultimately show ?thesis using assms(3) by (simp add: rnd_def ulp_exp_def)
qed

lemma rne_eqI: "\<bar>q - of_int k\<bar> < 1 / 2 \<Longrightarrow> rne q = k"
proof -
  assume "\<bar>q - of_int k\<bar> < 1 / 2"
  then have "\<bar>of_int (rne q) - of_int k\<bar> < (1 :: rat)" using rne_near [of q] by linarith
  then have "\<bar>of_int (rne q - k)\<bar> < (1 :: rat)" by simp
  then show ?thesis by linarith
qed

lemma rnd_eval_frac:
  assumes "1 \<le> \<bar>q\<bar> * 2 ^ n" "\<bar>q\<bar> * 2 ^ n < 2" "n \<le> 1022"
    and k: "\<bar>q * 2 ^ (n + 52) - of_int k\<bar> < 1 / 2"
  shows "rnd q = of_int k / 2 ^ (n + 52)"
proof -
  have p: "(2::rat) powi (- int m) = 1 / 2 ^ m" for m
    by (simp add: power_int_minus divide_inverse)
  have e: "(2::rat) powi (- int n - 52) = 1 / 2 ^ (n + 52)"
    using p [of "n + 52"] by (simp add: algebra_simps)
  have u: "(2::rat) powi (- int n + 1) = 2 / 2 ^ n"
    by (simp add: power_int_diff)
  have "rnd q = of_int (rne (q / 2 powi (- int n - 52))) * 2 powi (- int n - 52)"
    by (rule rnd_eval) (use assms(1-3) in \<open>simp_all only: p u, simp_all add: field_simps\<close>)
  then show ?thesis unfolding e using rne_eqI [OF k] by simp
qed

lemma rnd_dyadic: "\<bar>k\<bar> \<le> 2 ^ 53 \<Longrightarrow> n \<le> 1074 \<Longrightarrow> rnd (of_int k / 2 ^ n) = of_int k / 2 ^ n"
  using rnd_representable [of k "- int n"] by (simp add: power_int_minus divide_inverse)

lemma to_f64_nat: "n \<le> 2 ^ 53 \<Longrightarrow> to_f64 (of_nat n) = Fin (of_nat n)"
proof -
  assume n: "n \<le> 2 ^ 53"
  then have "\<bar>int n\<bar> \<le> int (2 ^ 53)" by (simp only: of_nat_le_iff abs_of_nat)
  then have "\<bar>int n\<bar> \<le> 2 ^ 53" by simp
  then have "rnd (of_int (int n) * 2 powi 0) = of_int (int n) * 2 powi 0"
    by (rule rnd_representable) simp
  moreover have "rat_of_nat n \<le> rat_of_nat (2 ^ 53)" using n by (simp only: of_nat_le_iff)
  then have "\<bar>rat_of_nat n\<bar> \<le> 2 ^ 64" by simp
  ultimately show ?thesis by (simp add: to_f64_small)
qed

lemma f_add_ok [simp]: "f64_ok (f_add x y)"
  by (cases x; cases y) simp_all

lemma f_sub_ok [simp]: "f64_ok (f_sub x y)"
  by (simp add: f_sub_def)

lemma f_mul_ok [simp]: "f64_ok (f_mul x y)"
  by (cases x; cases y) simp_all

lemma f_div_ok [simp]: "f64_ok (f_div x y)"
  by (cases x; cases y) (simp_all add: less_imp_le)

lemma unit_le_big: "0 \<le> x \<Longrightarrow> x \<le> 1 \<Longrightarrow> \<bar>x\<bar> \<le> (2::rat) ^ 64"
  by simp

text \<open>Subtracting a non-negative amount never exceeds the minuend, adding one never falls below.\<close>

lemma f_sub_le:
  assumes ok: "f64_ok x" and x: "x \<noteq> NaN" "x \<noteq> PInf" and y: "f_le (Fin 0) y"
  shows "f_le (f_sub x y) x"
proof (cases x)
  case (Fin a)
  show ?thesis
  proof (cases y)
    case (Fin b)
    then have "to_f64 (a - b) \<le> to_f64 a" using y by (intro to_f64_mono) simp
    then show ?thesis
      using ok \<open>x = Fin a\<close> Fin to_f64_id [of a] by (simp add: f_sub_def f_le_def)
  qed (use Fin y in \<open>auto simp: f_sub_def f_le_def\<close>)
next
  case NInf
  then show ?thesis using y by (cases y) (auto simp: f_sub_def f_le_def)
qed (use x in simp_all)

lemma f_add_ge:
  assumes ok: "f64_ok x" and x: "x \<noteq> NaN" "x \<noteq> NInf" and y: "f_le (Fin 0) y"
  shows "f_ge (f_add x y) x"
proof (cases x)
  case (Fin a)
  show ?thesis
  proof (cases y)
    case (Fin b)
    then have "to_f64 a \<le> to_f64 (a + b)" using y by (intro to_f64_mono) simp
    then show ?thesis
      using ok \<open>x = Fin a\<close> Fin to_f64_id [of a] by (simp add: f_le_def)
  qed (use Fin y in \<open>auto simp: f_le_def\<close>)
next
  case PInf
  then show ?thesis using y by (cases y) (auto simp: f_le_def)
qed (use x in simp_all)

lemma f_clamp_range:
  assumes "f_le lo hi" "x \<noteq> NaN"
  shows "f_le lo (f_clamp x lo hi) \<and> f_le (f_clamp x lo hi) hi"
  using assms by (auto simp: f_clamp_def f_lt_def f_le_def)

lemma f_clamp_mono_up:
  assumes "f_le lo hi" "f_le x b" "f_le lo b"
  shows "f_le (f_clamp x lo hi) b"
  using assms by (auto simp: f_clamp_def f_lt_def f_le_def)

lemma f_max_assoc: "f_max (f_max a b) c = f_max a (f_max b c)"
  by (auto simp: f_max_def max_def)

end
