(* ===== verification/Timing.thy ===== *)
theory Timing
  imports F64
begin

unbundle bit_operations_syntax

text \<open>
  \<open>src/timing.rs\<close>: the jitter generator (\<open>SplitMix64\<close>, a 64-bit state with wrapping arithmetic), the
  randomness interface \<open>Rng\<close> as the locale \<open>rng\<close>, and \<open>Strategy\<close>, a base value with a jitter that is
  drawn and clamped each cycle. The transcendental functions of Rust's \<open>f64\<close> used by the Box-Muller
  transform (\<open>ln\<close>, \<open>sqrt\<close>, \<open>cos\<close>, whose precision the standard library leaves open) are the fields of
  the record \<open>libm\<close>; \<open>libm_ok\<close> states what their documentation promises and the draws rely on.
\<close>

section \<open>SplitMix64\<close>

record split_mix64 =
  rng_state :: "64 word"

definition SplitMix64_new :: "64 word \<Rightarrow> split_mix64" where
  "SplitMix64_new seed = \<lparr>rng_state = seed\<rparr>"

definition from_entropy :: "64 word \<Rightarrow> 32 word \<Rightarrow> split_mix64" where
  "from_entropy nanos pid = SplitMix64_new (nanos XOR word_rotl 32 (ucast pid))"

definition next_u64 :: "split_mix64 \<Rightarrow> 64 word \<times> split_mix64" where
  "next_u64 g =
     (let st = rng_state g + 0x9E3779B97F4A7C15;
          z = st;
          z = (z XOR drop_bit 30 z) * 0xBF58476D1CE4E5B9;
          z = (z XOR drop_bit 27 z) * 0x94D049BB133111EB
      in (z XOR drop_bit 31 z, g\<lparr>rng_state := st\<rparr>))"

definition next_unit :: "split_mix64 \<Rightarrow> f64 \<times> split_mix64" where
  "next_unit g = (case next_u64 g of (z, g') \<Rightarrow>
     (f_div (f_of_nat (unat (drop_bit 11 z))) (f_of_nat (2 ^ 53)), g'))"

section \<open>The randomness interface\<close>

text \<open>
  The trait \<open>Rng\<close>: one uniform sample in \<open>[0, 1)\<close> per call. Its clients, the draws of \<open>Strategy\<close>,
  are proved from this law alone.
\<close>

definition unit_interval :: "f64 \<Rightarrow> bool" where
  "unit_interval x \<longleftrightarrow> f64_ok x \<and> f_le (Fin 0) x \<and> f_lt x (Fin 1)"

locale rng =
  fixes nu :: "'s \<Rightarrow> f64 \<times> 's"
  assumes unit: "unit_interval (fst (nu s))"

record libm =
  f_ln :: "f64 \<Rightarrow> f64"
  f_sqrt :: "f64 \<Rightarrow> f64"
  f_cos :: "f64 \<Rightarrow> f64"

datatype jitter = JNone | Uniform f64 | Normal f64

record strategy =
  strategy_base :: f64
  strategy_jitter :: jitter

definition Strategy_fixed :: "f64 \<Rightarrow> strategy" where
  "Strategy_fixed b = \<lparr>strategy_base = b, strategy_jitter = JNone\<rparr>"

text \<open>\<open>std::f64::consts::TAU\<close>, to the precision of an \<open>f64\<close>.\<close>

definition TAU :: f64 where
  "TAU = to_f64 (6.28318530717958647692528676655900577)"

definition standard_normal :: "libm \<Rightarrow> ('s \<Rightarrow> f64 \<times> 's) \<Rightarrow> 's \<Rightarrow> f64 \<times> 's" where
  "standard_normal m nu s =
     (case nu s of (a, s1) \<Rightarrow> (case nu s1 of (u2, s2) \<Rightarrow>
       (let u1 = f_sub (Fin 1) a
        in (f_mul (f_sqrt m (f_mul (Fin (- 2)) (f_ln m u1))) (f_cos m (f_mul TAU u2)), s2))))"

definition draw ::
  "libm \<Rightarrow> ('s \<Rightarrow> f64 \<times> 's) \<Rightarrow> strategy \<Rightarrow> f64 \<Rightarrow> f64 \<Rightarrow> 's \<Rightarrow> f64 \<times> 's" where
  "draw m nu st lo hi s =
     (let (raw, s') = (case strategy_jitter st of
         JNone \<Rightarrow> (strategy_base st, s)
       | Uniform spread \<Rightarrow> (case nu s of (u, s1) \<Rightarrow>
           (f_add (strategy_base st) (f_mul (f_sub (f_mul (Fin 2) u) (Fin 1)) spread), s1))
       | Normal stddev \<Rightarrow> (case standard_normal m nu s of (z, s1) \<Rightarrow>
           (f_add (strategy_base st) (f_mul z stddev), s1)))
      in (f_clamp raw lo hi, s'))"

definition draw_downward ::
  "libm \<Rightarrow> ('s \<Rightarrow> f64 \<times> 's) \<Rightarrow> strategy \<Rightarrow> f64 \<Rightarrow> f64 \<Rightarrow> 's \<Rightarrow> f64 \<times> 's" where
  "draw_downward m nu st lo hi s =
     (let (raw, s') = (case strategy_jitter st of
         JNone \<Rightarrow> (strategy_base st, s)
       | Uniform spread \<Rightarrow> (case nu s of (u, s1) \<Rightarrow>
           (f_sub (strategy_base st) (f_mul u spread), s1))
       | Normal stddev \<Rightarrow> (case standard_normal m nu s of (z, s1) \<Rightarrow>
           (f_sub (strategy_base st) (f_mul (f_abs z) stddev), s1)))
      in (f_clamp raw lo hi, s'))"

section \<open>What the draws promise\<close>

text \<open>
  The documented behaviour of the three functions: \<open>ln\<close> of a sample in \<open>(0, 1]\<close> is a non-positive
  number, \<open>sqrt\<close> of a non-negative number is one, \<open>cos\<close> of a number is in \<open>[- 1, 1]\<close>; the first two stay
  far below \<open>2 ^ 64\<close> on the values reached from a sample.
\<close>

definition libm_ok :: "libm \<Rightarrow> bool" where
  "libm_ok m \<longleftrightarrow>
     (\<forall>a. f64_ok (Fin a) \<and> 0 < a \<and> a \<le> 1 \<longrightarrow> (\<exists>r. f_ln m (Fin a) = Fin r \<and> - (2 ^ 32) \<le> r \<and> r \<le> 0)) \<and>
     (\<forall>a. 0 \<le> a \<and> a \<le> 2 ^ 33 \<longrightarrow> (\<exists>r. f_sqrt m (Fin a) = Fin r \<and> 0 \<le> r \<and> r \<le> 2 ^ 32)) \<and>
     (\<forall>a. \<exists>r. f_cos m (Fin a) = Fin r \<and> - 1 \<le> r \<and> r \<le> 1)"

text \<open>A jitter whose spread is a non-negative number, as the configuration loader enforces.\<close>

fun jitter_ok :: "jitter \<Rightarrow> bool" where
  "jitter_ok JNone = True"
| "jitter_ok (Uniform spread) = (case spread of Fin r \<Rightarrow> 0 \<le> r | _ \<Rightarrow> False)"
| "jitter_ok (Normal stddev) = (case stddev of Fin r \<Rightarrow> 0 \<le> r | _ \<Rightarrow> False)"

lemma to_f64_bounded:
  assumes "\<bar>q\<bar> \<le> 2 ^ 63"
  shows "\<exists>r. to_f64 q = Fin r \<and> \<bar>r\<bar> \<le> 2 ^ 63"
proof -
  have p: "rnd (2 ^ 63) = 2 ^ 63"
    using rnd_representable [of "2 ^ 52" 11] by simp
  have "rnd q \<le> 2 ^ 63" "rnd (- q) \<le> 2 ^ 63"
    using assms rnd_mono [of q "2 ^ 63"] rnd_mono [of "- q" "2 ^ 63"] unfolding p
    by (simp_all add: abs_le_iff)
  then have "\<bar>rnd q\<bar> \<le> 2 ^ 63" by (simp add: rnd_minus abs_le_iff)
  moreover have "to_f64 q = Fin (rnd q)" using assms by (intro to_f64_small) simp
  ultimately show ?thesis by blast
qed

lemma to_f64_nonneg: "0 \<le> q \<Longrightarrow> f_le (Fin 0) (to_f64 q)"
  using to_f64_mono [of 0 q] by (simp add: f_le_def)

lemma TAU_small: "\<exists>t. TAU = Fin t \<and> 0 \<le> t \<and> t \<le> 8"
proof -
  let ?q = "6.28318530717958647692528676655900577 :: rat"
  have "rnd ?q \<le> rnd 8" by (rule rnd_mono) simp
  moreover have "rnd 8 = 8" using rnd_representable [of 8 0] by simp
  ultimately have "rnd ?q \<le> 8" by linarith
  moreover have "0 \<le> rnd ?q" by (rule rnd_nonneg) simp
  moreover have "TAU = Fin (rnd ?q)" unfolding TAU_def by (rule to_f64_small) simp
  ultimately show ?thesis by (metis (no_types))
qed

lemma unit_intervalE:
  assumes "unit_interval x"
  obtains r where "x = Fin r" "0 \<le> r" "r < 1"
  using assms by (cases x) (auto simp: unit_interval_def f_le_def f_lt_def)

text \<open>\<open>1 - u\<close> is positive for every representable sample \<open>u < 1\<close>: the gap is at least the least number.\<close>

lemma one_minus_pos:
  assumes ok: "f64_ok (Fin a)" and "0 \<le> a" "a < 1"
  shows "\<exists>r. f_sub (Fin 1) (Fin a) = Fin r \<and> f64_ok (Fin r) \<and> 0 < r \<and> r \<le> 1"
proof -
  obtain k m where km: "a = of_int k * 2 powi m" "- 1074 \<le> m"
    using ok rnd_form [of a] by auto
  have split: "(2::rat) powi m = of_int (2 ^ nat (m + 1074)) * 2 powi (- 1074)"
    using powi_split [of "- 1074" m] km(2) by simp
  have p: "(2::rat) powi (- 1074) * 2 ^ 1074 = 1"
    by (simp add: power_int_minus)
  then have one: "1 = of_int (2 ^ 1074) * (2::rat) powi (- 1074)"
    by (simp only: of_int_power of_int_numeral mult.commute)
  have "1 - a = of_int (2 ^ 1074 - k * 2 ^ nat (m + 1074)) * 2 powi (- 1074)"
    unfolding km(1) split
    by (subst one) (simp only: of_int_diff of_int_mult left_diff_distrib mult.assoc)
  moreover have "0 < 1 - a" using assms by simp
  ultimately have "0 < of_int (2 ^ 1074 - k * 2 ^ nat (m + 1074)) * (2::rat) powi (- 1074)"
    by (simp only:)
  then have "0 < (of_int (2 ^ 1074 - k * 2 ^ nat (m + 1074)) :: rat)"
    by (rule zero_less_mult_pos2) (rule powi_pos)
  then have "0 < 2 ^ 1074 - k * 2 ^ nat (m + 1074)" by (simp only: of_int_0_less_iff)
  then have "1 \<le> 2 ^ 1074 - k * 2 ^ nat (m + 1074)" by linarith
  then have "(of_int 1 :: rat) * 2 powi (- 1074) \<le> 1 - a"
    unfolding \<open>1 - a = _\<close> by (simp only: of_int_le_iff mult_le_cancel_right_pos [OF powi_pos])
  then have "rnd (of_int 1 * 2 powi (- 1074)) \<le> rnd (1 - a)" by (rule rnd_mono)
  moreover have "rnd (of_int 1 * 2 powi (- 1074)) = of_int 1 * 2 powi (- 1074)"
    by (rule rnd_representable) simp_all
  ultimately have pos: "0 < rnd (1 - a)" using powi_pos [of "- 1074"] by (simp only: of_int_1)
  have "rnd (1 - a) \<le> rnd 1" using assms by (intro rnd_mono) simp
  moreover have "rnd 1 = 1" using rnd_representable [of 1 0] by simp
  ultimately have le: "rnd (1 - a) \<le> 1" by simp
  have "to_f64 (1 - a) = Fin (rnd (1 - a))" using assms by (intro to_f64_small) simp
  then show ?thesis using pos le to_f64_ok [of "1 - a"] by (auto simp: f_sub_def)
qed

context rng
begin

lemma standard_normal_finite:
  assumes m: "libm_ok m"
  shows "\<exists>r. fst (standard_normal m nu s) = Fin r"
proof -
  obtain a where a: "fst (nu s) = Fin a" "f64_ok (Fin a)" "0 \<le> a" "a < 1"
    using unit [of s] by (metis unit_intervalE unit_interval_def)
  obtain b where b: "fst (nu (snd (nu s))) = Fin b" "0 \<le> b" "b < 1"
    using unit by (metis unit_intervalE)
  obtain u where u: "f_sub (Fin 1) (Fin a) = Fin u" "f64_ok (Fin u)" "0 < u" "u \<le> 1"
    using one_minus_pos [OF a(2-4)] by blast
  obtain l where l: "f_ln m (Fin u) = Fin l" "- (2 ^ 32) \<le> l" "l \<le> 0"
    using m u(2-4) unfolding libm_ok_def by blast
  have "rnd (2 ^ 33) = 2 ^ 33" using rnd_representable [of "2 ^ 33" 0] by simp
  then have r: "rnd (- (2 * l)) \<le> 2 ^ 33" "0 \<le> rnd (- (2 * l))"
    using rnd_mono [of "- (2 * l)" "2 ^ 33"] rnd_nonneg [of "- (2 * l)"] l by simp_all
  have ml: "f_mul (Fin (- 2)) (Fin l) = Fin (rnd (- (2 * l)))"
    using l to_f64_small [of "- (2 * l)"] by simp
  obtain q where q: "f_sqrt m (Fin (rnd (- (2 * l)))) = Fin q" "0 \<le> q" "q \<le> 2 ^ 32"
    using m r unfolding libm_ok_def by blast
  obtain t where t: "TAU = Fin t" "0 \<le> t" "t \<le> 8" using TAU_small by blast
  have "\<bar>t * b\<bar> \<le> 8 * 1" unfolding abs_mult using t b by (intro mult_mono) simp_all
  then obtain w where w: "f_mul TAU (Fin b) = Fin w"
    using to_f64_bounded [of "t * b"] by (auto simp: t(1))
  obtain c where c: "f_cos m (Fin w) = Fin c" "- 1 \<le> c" "c \<le> 1"
    using m unfolding libm_ok_def by blast
  have "\<bar>q * c\<bar> \<le> 2 ^ 32 * 1" unfolding abs_mult using q c by (intro mult_mono) simp_all
  then have "to_f64 (q * c) = Fin (rnd (q * c))" by (intro to_f64_small) simp
  then show ?thesis
    by (simp add: standard_normal_def split_beta a(1) b(1) u(1) l(1) ml q(1) w c(1) Let_def
        del: f_mul.simps(1)) simp
qed

lemma f_add_not_NaN: "y \<noteq> NaN \<Longrightarrow> f_add (Fin b) y \<noteq> NaN"
  by (cases y) simp_all

lemma draw_in_range:
  assumes "libm_ok m" "strategy_base st = Fin b" "jitter_ok (strategy_jitter st)" "f_le lo hi"
  shows "f_le lo (fst (draw m nu st lo hi s)) \<and> f_le (fst (draw m nu st lo hi s)) hi"
proof -
  have "\<exists>raw. fst (draw m nu st lo hi s) = f_clamp raw lo hi \<and> raw \<noteq> NaN"
  proof (cases "strategy_jitter st")
    case JNone
    then show ?thesis using assms by (intro exI [of _ "Fin b"]) (simp add: draw_def)
  next
    case (Uniform sp)
    obtain a where a: "fst (nu s) = Fin a" "0 \<le> a" "a < 1" using unit [of s] by (metis unit_intervalE)
    obtain p where "sp = Fin p" using Uniform assms(3) by (cases sp) auto
    moreover obtain w where w0: "to_f64 (2 * a) = Fin w"
      using to_f64_bounded [of "2 * a"] a by auto
    moreover have w: "0 \<le> w" "w \<le> 2"
      using to_f64_mono [of 0 "2 * a"] to_f64_mono [of "2 * a" 2] to_f64_nat [of 2] a by (simp_all add: w0)
    moreover have "\<bar>w - 1\<bar> \<le> 2 ^ 63" using w by (simp add: abs_le_iff)
    then obtain v where "to_f64 (w - 1) = Fin v" using to_f64_bounded by blast
    ultimately have "fst (draw m nu st lo hi s) = f_clamp (f_add (Fin b) (to_f64 (v * p))) lo hi"
      using Uniform a assms(2) by (simp add: draw_def split_beta f_sub_def Let_def)
    then show ?thesis using f_add_not_NaN to_f64_not_NaN by blast
  next
    case (Normal sd)
    obtain p where "sd = Fin p" using Normal assms(3) by (cases sd) auto
    moreover obtain z where "fst (standard_normal m nu s) = Fin z"
      using standard_normal_finite [OF assms(1)] by blast
    ultimately have "fst (draw m nu st lo hi s) = f_clamp (f_add (Fin b) (to_f64 (z * p))) lo hi"
      using Normal assms(2) by (simp add: draw_def split_beta Let_def)
    then show ?thesis using f_add_not_NaN to_f64_not_NaN by blast
  qed
  then show ?thesis using f_clamp_range [OF assms(4)] by metis
qed

lemma draw_downward_raw:
  assumes "libm_ok m" "strategy_base st = Fin b" "f64_ok (Fin b)" "jitter_ok (strategy_jitter st)"
  shows "\<exists>raw. fst (draw_downward m nu st lo hi s) = f_clamp raw lo hi \<and> f_le raw (Fin b)"
proof (cases "strategy_jitter st")
  case JNone
  then show ?thesis using assms by (intro exI [of _ "Fin b"]) (simp add: draw_downward_def)
next
  case (Uniform sp)
  obtain a where a: "fst (nu s) = Fin a" "0 \<le> a" using unit [of s] by (metis unit_intervalE)
  obtain p where p: "sp = Fin p" "0 \<le> p" using Uniform assms(4) by (cases sp) auto
  have "f_le (f_sub (Fin b) (f_mul (Fin a) sp)) (Fin b)"
    using assms(3) a p to_f64_nonneg [of "a * p"] by (intro f_sub_le) simp_all
  then show ?thesis using Uniform a assms(2) by (auto simp: draw_downward_def split_beta Let_def)
next
  case (Normal sd)
  obtain p where p: "sd = Fin p" "0 \<le> p" using Normal assms(4) by (cases sd) auto
  obtain z where z: "fst (standard_normal m nu s) = Fin z"
    using standard_normal_finite [OF assms(1)] by blast
  have "f_le (f_sub (Fin b) (f_mul (f_abs (Fin z)) sd)) (Fin b)"
    using assms(3) p to_f64_nonneg [of "\<bar>z\<bar> * p"] by (intro f_sub_le) simp_all
  then show ?thesis using Normal z assms(2) by (auto simp: draw_downward_def split_beta Let_def)
qed

lemma draw_downward_capped:
  assumes "libm_ok m" "strategy_base st = Fin b" "f64_ok (Fin b)" "jitter_ok (strategy_jitter st)"
    and "f_le lo (Fin b)" "f_le (Fin b) hi"
  shows "f_le lo (fst (draw_downward m nu st lo hi s)) \<and>
         f_le (fst (draw_downward m nu st lo hi s)) (Fin b)"
proof -
  obtain raw where raw: "fst (draw_downward m nu st lo hi s) = f_clamp raw lo hi" "f_le raw (Fin b)"
    using draw_downward_raw [OF assms(1-4)] by blast
  have lh: "f_le lo hi" using assms(5,6) by (rule f_le_trans)
  have "raw \<noteq> NaN" using raw(2) by (auto simp: f_le_def)
  then show ?thesis
    using raw f_clamp_range [OF lh] f_clamp_mono_up [OF lh raw(2) assms(5)] by simp
qed

end

text \<open>\<open>SplitMix64\<close> provides the interface.\<close>

lemma sample_unit_interval:
  assumes n: "n < 2 ^ 53"
  shows "f_div (f_of_nat n) (f_of_nat (2 ^ 53)) = Fin (of_nat n / 2 ^ 53)"
    and "unit_interval (f_div (f_of_nat n) (f_of_nat (2 ^ 53)))"
proof -
  have "to_f64 (of_nat n) = Fin (of_nat n)" using n by (intro to_f64_nat) simp
  moreover have "to_f64 (2 ^ 53) = Fin (2 ^ 53)" using to_f64_nat [of "2 ^ 53"] by simp
  moreover have "\<bar>int n\<bar> \<le> int (2 ^ 53)" using n by (simp only: abs_of_nat of_nat_le_iff)
  then have "rnd (of_nat n / 2 ^ 53) = of_nat n / 2 ^ 53"
    using rnd_dyadic [of "int n" 53] by simp
  moreover have lt: "rat_of_nat n < rat_of_nat (2 ^ 53)" using n by (simp only: of_nat_less_iff)
  then have "\<bar>rat_of_nat n / 2 ^ 53\<bar> \<le> 2 ^ 64" by (intro unit_le_big) simp_all
  ultimately show v: "f_div (f_of_nat n) (f_of_nat (2 ^ 53)) = Fin (of_nat n / 2 ^ 53)"
    by (simp add: f_of_nat_def to_f64_small)
  have "f64_ok (f_div (f_of_nat n) (f_of_nat (2 ^ 53)))" by (rule f_div_ok)
  then show "unit_interval (f_div (f_of_nat n) (f_of_nat (2 ^ 53)))"
    using lt unfolding v unit_interval_def by simp
qed

lemma sample_bits: "unat (drop_bit 11 (z :: 64 word)) < 2 ^ 53"
proof -
  have "unat (drop_bit 11 z) = unat z div 2 ^ 11"
    by (subst unat_drop_bit_eq) (simp add: drop_bit_eq_div)
  moreover have "unat z < 2 ^ 64" using unsigned_less [of z] by simp
  ultimately show ?thesis by (simp add: div_less_iff_less_mult)
qed

interpretation sm: rng next_unit
proof
  fix g :: split_mix64
  show "unit_interval (fst (next_unit g))"
    using sample_unit_interval(2) [OF sample_bits] by (simp only: next_unit_def split_beta fst_conv)
qed

section \<open>Properties\<close>

text \<open>
  A function table with the documented behaviour, for the concrete instances: a logarithm and a
  square root that are constant beyond the identity part, and the constant cosine.
\<close>

definition libm_sample :: libm where
  "libm_sample = \<lparr>f_ln = (\<lambda>x. if x = Fin 1 then Fin 0 else Fin (- 1)),
                  f_sqrt = (\<lambda>x. if x = Fin 0 then Fin 0 else Fin 1),
                  f_cos = (\<lambda>x. if x = Fin 0 then Fin 1 else Fin 0)\<rparr>"

lemma libm_sample_ok: "libm_ok libm_sample"
  by (auto simp: libm_ok_def libm_sample_def)

text \<open>
  A jittered value of \<open>Strategy::draw\<close>, whatever the generator's state, lies in the range it is
  clamped to: no poll interval, cool-down or ceiling of the daemon leaves its configured bounds. The
  clamp alone does not give this, because a NaN would pass through it.
\<close>

theorem strategy_draw_in_range:
  assumes "libm_ok m" "strategy_base st = Fin b" "jitter_ok (strategy_jitter st)" "f_le lo hi"
  shows "f_le lo (fst (draw m next_unit st lo hi g)) \<and> f_le (fst (draw m next_unit st lo hi g)) hi"
  using assms by (rule sm.draw_in_range)

theorem strategy_draw_in_range_witness:
  "f_le (Fin 5) (fst (draw libm_sample next_unit \<lparr>strategy_base = Fin 60, strategy_jitter = Normal (Fin 9)\<rparr>
     (Fin 5) (Fin 3600) (SplitMix64_new 42))) \<and>
   f_le (fst (draw libm_sample next_unit \<lparr>strategy_base = Fin 60, strategy_jitter = Normal (Fin 9)\<rparr>
     (Fin 5) (Fin 3600) (SplitMix64_new 42))) (Fin 3600)"
  by (rule strategy_draw_in_range [OF libm_sample_ok]) simp_all

text \<open>
  A downward draw, the one the ceilings use, never exceeds the base value it perturbs and never
  falls below the lower bound: jitter can only make the daemon leave an account earlier.
\<close>

theorem strategy_draw_downward_capped:
  assumes "libm_ok m" "strategy_base st = Fin b" "f64_ok (Fin b)" "jitter_ok (strategy_jitter st)"
    and "f_le lo (Fin b)" "f_le (Fin b) hi"
  shows "f_le lo (fst (draw_downward m next_unit st lo hi g)) \<and>
         f_le (fst (draw_downward m next_unit st lo hi g)) (Fin b)"
  using assms by (rule sm.draw_downward_capped)

theorem strategy_draw_downward_capped_witness:
  "f_le (Fin 50) (fst (draw_downward libm_sample next_unit
     \<lparr>strategy_base = Fin 95, strategy_jitter = Uniform (Fin 3)\<rparr> (Fin 50) (Fin 99) (SplitMix64_new 7))) \<and>
   f_le (fst (draw_downward libm_sample next_unit
     \<lparr>strategy_base = Fin 95, strategy_jitter = Uniform (Fin 3)\<rparr> (Fin 50) (Fin 99) (SplitMix64_new 7))) (Fin 95)"
proof (rule strategy_draw_downward_capped [OF libm_sample_ok])
  show "f64_ok (Fin 95)" using to_f64_nat [of 95] to_f64_ok [of 95] by simp
qed simp_all

end
