(* ===== verification/Errors.thy ===== *)
theory Errors
  imports Prelude
begin

text \<open>
  \<open>src/error.rs\<close>: the crate's error type, one constructor per variant with the data it carries
  (paths and messages as strings, HTTP statuses and counts as \<open>nat\<close>, durations as nanoseconds; the
  \<open>f64\<close> of \<open>ConfigPeakRunwayUnsatisfiable\<close>, a constant of the code, is left out), and the exit code
  of each. The variants no operation of the daemon inspects are grouped by the command they belong
  to, under one constructor per group. Fallible operations return \<open>error + 'a\<close>.
\<close>

datatype cli_error =
    UnknownCommand string
  | CliUsage string string
  | StatsPeriodInvalid string
  | StatsSinceInvalid string
  | StatsPeriodSinceConflict
  | StatsSerialize string
  | ReliabilitySerialize string
  | ReliabilitySinceInvalid string
  | LogSinceInvalid string
  | LogSerialize string
  | LogChannelInvalid string
  | LogFollowAllUnsupported
  | RotationLabelRequired string
  | LoginRequiresTty
  | PokeTargetActive string

datatype host_error =
    HomeUnresolved
  | ForeignOwnership string
  | UserUnresolved
  | LoginShellUnresolved
  | LoginShellPathUnharvested string string
  | UnsafeIsolatedDir string
  | NonAsciiConfigDir
  | DaemonNotRunning
  | LaunchctlFailed string
  | NoManagedService
  | UnmanagedDaemonNoRestart
  | ClaudeBinaryNotFound
  | SharedCredentialMutated

datatype use_error =
    UseTargetRequired
  | UseNextRequiresDaemon
  | UseNextNoViableTarget string
  | UseNextUnresolved string
  | UseTargetNotFound string
  | UseTargetAmbiguous string nat
  | ActiveAccountUnresolved
  | UseTargetWeeklyExhausted string
  | UseCooldownActive
  | UseTargetQuarantined string
  | UseViabilityUnverifiable string
  | DaemonSwapFailed

datatype migration_error =
    MigrationBadMagic
  | MigrationUnsupportedVersion nat nat
  | MigrationMalformed nat nat
  | MigrationInvalid string
  | MigrationEmptyPassphrase
  | MigrationEncryptFailed
  | MigrationDecryptFailed
  | MigrationCryptoParams string
  | MigrationImportPathRequired
  | MigrationImportConfigRejected string
  | MigrationImportVerifyFailed
  | MigrationImportIncomplete nat

datatype store_error =
    UsageStoreSerialize string
  | UsageRollupMalformed nat nat
  | UsageRollupNewerFormat nat nat
  | BackupNotRetained nat nat
  | RosterEmpty
  | ConfigRosterEmpty string
  | ConfigPeakRunwayUnsatisfiable int nat nat nat int

datatype (plugins only: code) error =
    Unimplemented string
  | CredentialNotFound
  | CredentialAmbiguous nat
  | KeychainLocked string
  | Keychain string int
  | ConfigNotFound string
  | PriorConfigurationWithoutConfig
  | ConfigParse string
  | ConfigInvalid string
  | ConfigTargetMaxSessionAboveTrigger int int
  | ClaudeStateNotFound string
  | ClaudeStateParse nat nat
  | OauthAccountMissing
  | OauthAccountFieldMissing string
  | OauthAccountFieldMalformed string string
  | AccountUuidNotFound string
  | StashIncomplete string
  | UsageTokenUnreadable
  | UsageTransient nat "duration option"
  | UsageRateLimited nat "duration option"
  | UsageRejected nat
  | UsageUnauthorized
  | UsageScopeMissing
  | UsageParse string
  | AlreadyRunning
  | SwapLockBusy
  | SwapWrongIdentityRestash
  | CanaryDrift string string
  | CanaryUnparseableCanonical
  | CanaryProbeNotLive string
  | UsageStoreBusy
  | ConfigWriteLockBusy
  | Io string
  | CliError cli_error
  | HostError host_error
  | UseError use_error
  | MigrationError migration_error
  | StoreError store_error

type_synonym 'a result = "error + 'a"

fun exit_code :: "error \<Rightarrow> nat" where
  "exit_code AlreadyRunning = 3"
| "exit_code (KeychainLocked _) = 4"
| "exit_code SwapLockBusy = 4"
| "exit_code UsageStoreBusy = 4"
| "exit_code ConfigWriteLockBusy = 4"
| "exit_code (UseError (UseTargetNotFound _)) = 5"
| "exit_code (UseError (UseTargetAmbiguous _ _)) = 6"
| "exit_code (UseError (UseTargetWeeklyExhausted _)) = 7"
| "exit_code (UseError UseCooldownActive) = 7"
| "exit_code (UseError (UseTargetQuarantined _)) = 7"
| "exit_code (UseError (UseNextNoViableTarget _)) = 7"
| "exit_code (StoreError (ConfigRosterEmpty _)) = 8"
| "exit_code _ = 1"

definition is_ok :: "'a result \<Rightarrow> bool" where
  "is_ok r = (case r of Inl _ \<Rightarrow> False | Inr _ \<Rightarrow> True)"

text \<open>\<open>Result::ok\<close>.\<close>

definition ok :: "'a result \<Rightarrow> 'a option" where
  "ok r = (case r of Inl _ \<Rightarrow> None | Inr a \<Rightarrow> Some a)"

text \<open>\<open>Result::and_then\<close>, which the \<open>?\<close> operator amounts to in a function that awaits nothing.\<close>

definition and_then :: "'a result \<Rightarrow> ('a \<Rightarrow> 'b result) \<Rightarrow> 'b result" where
  "and_then r f = (case r of Inl e \<Rightarrow> Inl e | Inr a \<Rightarrow> f a)"

lemma and_then_simps [simp]: "and_then (Inl e) f = Inl e" "and_then (Inr a) f = f a"
  by (simp_all add: and_then_def)

lemma and_then_Inr: "and_then r f = Inr b \<longleftrightarrow> (\<exists>a. r = Inr a \<and> f a = Inr b)"
  by (cases r) simp_all

lemma is_ok_simps [simp]: "is_ok (Inr a)" "\<not> is_ok (Inl e)"
  by (simp_all add: is_ok_def)

lemma ok_simps [simp]: "ok (Inr a) = Some a" "ok (Inl e) = None"
  by (simp_all add: ok_def)

lemma exit_code_nonzero: "exit_code e \<noteq> 0"
  by (cases e rule: exit_code.cases) simp_all

end
