(* ===== verification/Observability.thy ===== *)
theory Observability
  imports F64
begin

text \<open>
  \<open>src/observability.rs\<close>: the event and diagnostic vocabulary the daemon emits. Labels and account
  identifiers are strings, percentages \<open>nat\<close> (a \<open>u8\<close>), instants of the wall clock epoch seconds as
  \<open>int\<close>. The constructors of the \<open>Event\<close> enum are present under the
  source's names with the prefix \<open>Ev_\<close>.
\<close>

datatype swap_reason = SR_Session | SR_Weekly | SR_Manual | SR_Forced | SR_BlindPreempt | SR_VelocityPreempt

fun swap_reason_as_str :: "swap_reason \<Rightarrow> string" where
  "swap_reason_as_str SR_Session = ''session''"
| "swap_reason_as_str SR_Weekly = ''weekly''"
| "swap_reason_as_str SR_Manual = ''manual''"
| "swap_reason_as_str SR_Forced = ''forced''"
| "swap_reason_as_str SR_BlindPreempt = ''blind_preempt''"
| "swap_reason_as_str SR_VelocityPreempt = ''velocity_preempt''"

datatype backoff_class = BC_RateLimited | BC_Transient

fun backoff_class_as_str :: "backoff_class \<Rightarrow> string" where
  "backoff_class_as_str BC_RateLimited = ''rate_limited''"
| "backoff_class_as_str BC_Transient = ''transient''"

datatype refresh_event_outcome =
    REO_Refreshed bool
  | REO_RefreshedNotReStashed bool
  | REO_NoChange
  | REO_Dead
  | REO_Error

datatype refresh_event_outcome_kind =
    REK_Refreshed | REK_RefreshedNotReStashed | REK_NoChange | REK_Dead | REK_Error

fun refresh_kind :: "refresh_event_outcome \<Rightarrow> refresh_event_outcome_kind" where
  "refresh_kind (REO_Refreshed _) = REK_Refreshed"
| "refresh_kind (REO_RefreshedNotReStashed _) = REK_RefreshedNotReStashed"
| "refresh_kind REO_NoChange = REK_NoChange"
| "refresh_kind REO_Dead = REK_Dead"
| "refresh_kind REO_Error = REK_Error"

fun refresh_rotated :: "refresh_event_outcome \<Rightarrow> bool option" where
  "refresh_rotated (REO_Refreshed r) = Some r"
| "refresh_rotated (REO_RefreshedNotReStashed r) = Some r"
| "refresh_rotated _ = None"

fun refresh_kind_as_str :: "refresh_event_outcome_kind \<Rightarrow> string" where
  "refresh_kind_as_str REK_Refreshed = ''refreshed''"
| "refresh_kind_as_str REK_RefreshedNotReStashed = ''refreshed_not_restashed''"
| "refresh_kind_as_str REK_NoChange = ''no_change''"
| "refresh_kind_as_str REK_Dead = ''dead''"
| "refresh_kind_as_str REK_Error = ''error''"

definition refresh_kind_from_token :: "string \<Rightarrow> refresh_event_outcome_kind option" where
  "refresh_kind_from_token t =
     (if t = ''refreshed'' then Some REK_Refreshed
      else if t = ''refreshed_not_restashed'' then Some REK_RefreshedNotReStashed
      else if t = ''no_change'' then Some REK_NoChange
      else if t = ''dead'' then Some REK_Dead
      else if t = ''error'' then Some REK_Error
      else None)"

datatype poll_refresh_trigger = PRT_Poll401 | PRT_Recovery

fun poll_refresh_trigger_as_str :: "poll_refresh_trigger \<Rightarrow> string" where
  "poll_refresh_trigger_as_str PRT_Poll401 = ''poll_401''"
| "poll_refresh_trigger_as_str PRT_Recovery = ''recovery''"

datatype keep_warm_trigger = KWT_Proactive | KWT_Reactive | KWT_Recovery

fun keep_warm_trigger_as_str :: "keep_warm_trigger \<Rightarrow> string" where
  "keep_warm_trigger_as_str KWT_Proactive = ''proactive''"
| "keep_warm_trigger_as_str KWT_Reactive = ''reactive''"
| "keep_warm_trigger_as_str KWT_Recovery = ''recovery''"

datatype credential_health_state = CH_Healthy | CH_Unknown | CH_Stale | CH_AtRisk | CH_Degraded | CH_Dead

fun credential_health_as_str :: "credential_health_state \<Rightarrow> string" where
  "credential_health_as_str CH_Healthy = ''healthy''"
| "credential_health_as_str CH_Unknown = ''unknown''"
| "credential_health_as_str CH_Stale = ''stale''"
| "credential_health_as_str CH_AtRisk = ''at_risk''"
| "credential_health_as_str CH_Degraded = ''degraded''"
| "credential_health_as_str CH_Dead = ''dead''"

datatype expiry_horizon = EH_Unknown | EH_Beyond | EH_Within | EH_Lapsed

fun expiry_horizon_as_str :: "expiry_horizon \<Rightarrow> string" where
  "expiry_horizon_as_str EH_Unknown = ''unknown''"
| "expiry_horizon_as_str EH_Beyond = ''beyond''"
| "expiry_horizon_as_str EH_Within = ''within''"
| "expiry_horizon_as_str EH_Lapsed = ''lapsed''"

datatype expiry_provenance =
    EP_FirstObservation | EP_MyRefresh | EP_ExternalChange | EP_ReadSourceSwitched | EP_CanonicalRestash

fun expiry_provenance_as_str :: "expiry_provenance \<Rightarrow> string" where
  "expiry_provenance_as_str EP_FirstObservation = ''first_observation''"
| "expiry_provenance_as_str EP_MyRefresh = ''my_refresh''"
| "expiry_provenance_as_str EP_ExternalChange = ''external_change''"
| "expiry_provenance_as_str EP_ReadSourceSwitched = ''read_source_switched''"
| "expiry_provenance_as_str EP_CanonicalRestash = ''canonical_restash''"

datatype canonical_liveness = CL_Present | CL_Scrubbed | CL_Unknown

fun canonical_liveness_as_str :: "canonical_liveness \<Rightarrow> string" where
  "canonical_liveness_as_str CL_Present = ''present''"
| "canonical_liveness_as_str CL_Scrubbed = ''scrubbed''"
| "canonical_liveness_as_str CL_Unknown = ''unknown''"

record swap_projection =
  projected_pct :: f64
  sp_rate_pct_per_sec :: f64
  horizon_secs :: nat
  sp_ceiling_pct :: f64

record blind_velocity =
  bv_rate_pct_per_sec :: f64
  bv_inflation :: f64
  bv_ceiling_pct :: f64

datatype roster_reload_outcome =
    RRO_Adopted | RRO_Refused | RRO_Failed | RRO_Diverged | RRO_Undetermined | RRO_Converged | RRO_NotNotified

fun roster_reload_outcome_as_str :: "roster_reload_outcome \<Rightarrow> string" where
  "roster_reload_outcome_as_str RRO_Adopted = ''adopted''"
| "roster_reload_outcome_as_str RRO_Refused = ''refused''"
| "roster_reload_outcome_as_str RRO_Failed = ''failed''"
| "roster_reload_outcome_as_str RRO_Diverged = ''diverged''"
| "roster_reload_outcome_as_str RRO_Undetermined = ''undetermined''"
| "roster_reload_outcome_as_str RRO_Converged = ''converged''"
| "roster_reload_outcome_as_str RRO_NotNotified = ''not_notified''"

datatype roster_reload_reason =
    RRR_ReloadDisabled | RRR_Shrink | RRR_Absent | RRR_CountMismatch | RRR_Unreadable
  | RRR_SocketUnresolved | RRR_NotifyFailed | RRR_NotifyTimedOut

fun roster_reload_reason_as_str :: "roster_reload_reason \<Rightarrow> string" where
  "roster_reload_reason_as_str RRR_ReloadDisabled = ''reload_disabled''"
| "roster_reload_reason_as_str RRR_Shrink = ''shrink''"
| "roster_reload_reason_as_str RRR_Absent = ''absent''"
| "roster_reload_reason_as_str RRR_CountMismatch = ''count_mismatch''"
| "roster_reload_reason_as_str RRR_Unreadable = ''unreadable''"
| "roster_reload_reason_as_str RRR_SocketUnresolved = ''socket_unresolved''"
| "roster_reload_reason_as_str RRR_NotifyFailed = ''notify_failed''"
| "roster_reload_reason_as_str RRR_NotifyTimedOut = ''notify_timed_out''"

datatype refresh_event_reason = RES_SpawnFailed | RES_ReadbackUnreadable | RES_Malformed | RES_Timeout | RES_Unresolved

fun refresh_event_reason_as_str :: "refresh_event_reason \<Rightarrow> string" where
  "refresh_event_reason_as_str RES_SpawnFailed = ''spawn_failed''"
| "refresh_event_reason_as_str RES_ReadbackUnreadable = ''readback_unreadable''"
| "refresh_event_reason_as_str RES_Malformed = ''malformed''"
| "refresh_event_reason_as_str RES_Timeout = ''timeout''"
| "refresh_event_reason_as_str RES_Unresolved = ''unresolved''"

datatype capture_event_outcome =
    CEO_Captured | CEO_Refreshed | CEO_NoActiveAccount | CEO_KeychainLocked | CEO_SwapLockBusy
  | CEO_Failed | CEO_PriorConfiguration

fun capture_event_outcome_as_str :: "capture_event_outcome \<Rightarrow> string" where
  "capture_event_outcome_as_str CEO_Captured = ''captured''"
| "capture_event_outcome_as_str CEO_Refreshed = ''refreshed''"
| "capture_event_outcome_as_str CEO_NoActiveAccount = ''no_active_account''"
| "capture_event_outcome_as_str CEO_KeychainLocked = ''keychain_locked''"
| "capture_event_outcome_as_str CEO_SwapLockBusy = ''swap_lock_busy''"
| "capture_event_outcome_as_str CEO_Failed = ''failed''"
| "capture_event_outcome_as_str CEO_PriorConfiguration = ''prior_configuration''"

datatype login_event_outcome = LEO_Onboarded | LEO_Revived | LEO_Failed | LEO_Cancelled

fun login_event_outcome_as_str :: "login_event_outcome \<Rightarrow> string" where
  "login_event_outcome_as_str LEO_Onboarded = ''onboarded''"
| "login_event_outcome_as_str LEO_Revived = ''revived''"
| "login_event_outcome_as_str LEO_Failed = ''failed''"
| "login_event_outcome_as_str LEO_Cancelled = ''cancelled''"

datatype plaintext_fallback_action = PFA_Removed | PFA_Touched | PFA_Ignored | PFA_Refused | PFA_Failed

fun plaintext_fallback_action_as_str :: "plaintext_fallback_action \<Rightarrow> string" where
  "plaintext_fallback_action_as_str PFA_Removed = ''removed''"
| "plaintext_fallback_action_as_str PFA_Touched = ''touched''"
| "plaintext_fallback_action_as_str PFA_Ignored = ''ignored''"
| "plaintext_fallback_action_as_str PFA_Refused = ''refused''"
| "plaintext_fallback_action_as_str PFA_Failed = ''failed''"

datatype export_mode = EM_Full | EM_ConfigOnly

fun export_mode_as_str :: "export_mode \<Rightarrow> string" where
  "export_mode_as_str EM_Full = ''full''"
| "export_mode_as_str EM_ConfigOnly = ''config_only''"

datatype import_rollup = IR_Ok | IR_Partial | IR_Failed

definition import_rollup_from_counts :: "nat \<Rightarrow> nat \<Rightarrow> nat \<Rightarrow> nat \<Rightarrow> import_rollup" where
  "import_rollup_from_counts imported skipped overwritten failed =
     (if failed = 0 then IR_Ok else if imported + skipped + overwritten = 0 then IR_Failed else IR_Partial)"

fun import_rollup_as_str :: "import_rollup \<Rightarrow> string" where
  "import_rollup_as_str IR_Ok = ''ok''"
| "import_rollup_as_str IR_Partial = ''partial''"
| "import_rollup_as_str IR_Failed = ''failed''"

text \<open>The payloads follow the order of the source's fields.\<close>

datatype (plugins only: ) event =
    Ev_Swap string string swap_reason "nat option" "swap_projection option"
  | Ev_ReStash string
  | Ev_AllExhausted string swap_reason "int option"
  | Ev_AllExhaustedCleared
  | Ev_ActiveDeadNoTarget string swap_reason "int option"
  | Ev_ActiveDeadNoTargetCleared
  | Ev_FleetRunwayLow int int nat nat
  | Ev_FleetRunwayRecovered
  | Ev_Monitor401 string nat
  | Ev_CredentialDead string
  | Ev_EmergencySwap string string
  | Ev_CredentialRestored string
  | Ev_CanonicalScrubbed "string option"
  | Ev_CanonicalRestored "string option"
  | Ev_CanonicalRecovered string
  | Ev_CanonicalRecoveryExhausted "string option"
  | Ev_CanaryDrift string string bool
  | Ev_CanaryUnparseableCanonical bool
  | Ev_CanaryOnlineProbe string bool
  | Ev_CanaryAmbiguous nat
  | Ev_CanaryCleared
  | Ev_CredentialUnrecoverable string
  | Ev_KeychainLockedWait
  | Ev_UsageScopeFail string
  | Ev_PollRefresh string poll_refresh_trigger refresh_event_outcome
  | Ev_KeepWarm string keep_warm_trigger refresh_event_outcome
  | Ev_RefreshSystemicFailure nat
  | Ev_RefreshSystemicRecovered
  | Ev_RefreshPreflightUnresolved
  | Ev_CredentialHealth string credential_health_state
  | Ev_UsageRollup int nat
  | Ev_UsageGap string int
  | Ev_UncapturedLogin "string option"
  | Ev_UsageBackoff string backoff_class nat "nat option" nat
  | Ev_UsageBackoffCleared string
  | Ev_ExhaustedSlowPoll string nat
  | Ev_ExhaustedSlowPollCleared string
  | Ev_NearLimitPollCoverage string f64 nat
  | Ev_UsageVelocity string "int option" "int option" nat
  | Ev_BlindWindow string nat "nat option" "nat option" bool "blind_velocity option" "nat option"
  | Ev_BlindEnter string "nat option" "nat option" bool bool
  | Ev_BlindExit string nat "nat option" "nat option" "nat option" "nat option" bool bool bool
  | Ev_BlindGateEligible string bool nat nat
  | Ev_BlindPreemptReserveHold string nat nat
  | Ev_RetryAfterWalk string nat nat nat
  | Ev_CredentialExpiryHorizon string expiry_horizon int nat
  | Ev_CredentialExpiryObserved string expiry_provenance "int option" int "bool option"
  | Ev_ObservationGapEnter string nat nat bool
  | Ev_ObservationGapExit string nat bool bool
  | Ev_RosterReload roster_reload_outcome "nat option" "nat option" "roster_reload_reason option"
  | Ev_Capture "string option" capture_event_outcome
  | Ev_Login "string option" login_event_outcome
  | Ev_Refresh string refresh_event_outcome "int option" "int option" "refresh_event_reason option" "nat option"
  | Ev_RefreshBinaryResolved string
  | Ev_PlaintextFallback plaintext_fallback_action
  | Ev_Export nat bool export_mode
  | Ev_Import nat nat nat nat
  | Ev_DaemonBuild "string option" "nat option" "int option"

datatype poll_class = PC_Live | PC_Unauthorized | PC_Scope | PC_RateLimited | PC_Transient

datatype decision_class =
    DC_Hold | DC_Swap | DC_EmergencySwap | DC_PreemptiveSwap | DC_VelocityPreemptiveSwap
  | DC_AllExhausted | DC_ActiveDeadNoTarget | DC_CanonicalAdopted | DC_SkipActiveUnknown
  | DC_SkipActiveUnavailable | DC_SkipCooldown | DC_SwapFailed | DC_KeychainLocked

datatype diagnostic =
    Dg_Poll string poll_class
  | Dg_Tick decision_class "nat option" "nat option"
  | Dg_Canonical canonical_liveness "string option" "string option" "int option" "string option"

lemma refresh_kind_token_roundtrip [simp]: "refresh_kind_from_token (refresh_kind_as_str k) = Some k"
  by (cases k) (simp_all add: refresh_kind_from_token_def)

end
