(* ===== verification/Usage.thy ===== *)
theory Usage
  imports Errors Observability
begin

text \<open>
  The usage reading the decisions are made on (\<open>src/usage.rs\<close>), its percent conversions
  (\<open>src/daemon/snapshot.rs\<close>) and the pure classifiers over a poll result (\<open>src/daemon/classify.rs\<close>).
\<close>

record usage =
  session :: "f64 option"
  weekly :: "f64 option"
  weekly_resets_at :: "int option"
  session_resets_at :: "int option"

record polled_reading =
  pr_usage :: usage
  pr_severity :: "string option"

definition to_pct :: "f64 \<Rightarrow> nat" where
  "to_pct fraction = f_as_uint 255 (f_clamp (f_round (f_mul fraction (Fin 100))) (Fin 0) (Fin 100))"

definition to_pct_exact :: "f64 \<Rightarrow> f64" where
  "to_pct_exact fraction = f_mul fraction (Fin 100)"

lemma to_pct_le: "to_pct x \<le> 100"
proof -
  have "f_as_uint 255 (f_clamp y (Fin 0) (Fin 100)) \<le> 100" for y
    by (cases y) (auto simp: f_clamp_def f_lt_def nat_le_iff floor_le_iff)
  then show ?thesis by (simp add: to_pct_def)
qed

section \<open>Poll classification\<close>

datatype poll_outcome = PO_Live | PO_Unauthorized | PO_ScopeMissing | PO_Transient

fun classify_poll :: "usage result \<Rightarrow> poll_outcome" where
  "classify_poll (Inr _) = PO_Live"
| "classify_poll (Inl UsageUnauthorized) = PO_Unauthorized"
| "classify_poll (Inl UsageScopeMissing) = PO_ScopeMissing"
| "classify_poll (Inl _) = PO_Transient"

fun diag_poll_class :: "usage result \<Rightarrow> poll_class" where
  "diag_poll_class (Inr _) = PC_Live"
| "diag_poll_class (Inl UsageUnauthorized) = PC_Unauthorized"
| "diag_poll_class (Inl UsageScopeMissing) = PC_Scope"
| "diag_poll_class (Inl (UsageRateLimited _ _)) = PC_RateLimited"
| "diag_poll_class (Inl _) = PC_Transient"

record backoff_signal_rec =
  bs_class :: backoff_class
  bs_retry_after :: "duration option"

fun backoff_signal :: "usage result \<Rightarrow> backoff_signal_rec option" where
  "backoff_signal (Inl (UsageRateLimited _ ra)) = Some \<lparr>bs_class = BC_RateLimited, bs_retry_after = ra\<rparr>"
| "backoff_signal (Inl (UsageTransient _ ra)) = Some \<lparr>bs_class = BC_Transient, bs_retry_after = ra\<rparr>"
| "backoff_signal _ = None"

definition usage_velocity :: "usage \<Rightarrow> usage \<Rightarrow> int option \<times> int option" where
  "usage_velocity prev nxt =
     (let delta = (\<lambda>p n. (case (p, n) of
            (Some p', Some n') \<Rightarrow> Some (int (to_pct n') - int (to_pct p')) | _ \<Rightarrow> None))
      in (delta (session prev) (session nxt), delta (weekly prev) (weekly nxt)))"

section \<open>Failure classification\<close>

datatype swap_rejection =
    SwRej_Quarantined | SwRej_WeeklyExhausted | SwRej_Cooldown | SwRej_NoActiveAccount
  | SwRej_UnknownTarget | SwRej_AmbiguousTarget | SwRej_KeychainLocked | SwRej_SwapLockBusy | SwRej_Failed

datatype capture_rejection =
    CapRej_NoActiveAccount | CapRej_KeychainLocked | CapRej_SwapLockBusy | CapRej_Failed
  | CapRej_PriorConfiguration

datatype capture_outcome = CO_Captured | CO_Refreshed

fun classify_swap_failure :: "error \<Rightarrow> swap_rejection" where
  "classify_swap_failure (KeychainLocked _) = SwRej_KeychainLocked"
| "classify_swap_failure SwapLockBusy = SwRej_SwapLockBusy"
| "classify_swap_failure CredentialNotFound = SwRej_NoActiveAccount"
| "classify_swap_failure _ = SwRej_Failed"

fun classify_capture_failure :: "error \<Rightarrow> capture_rejection" where
  "classify_capture_failure (KeychainLocked _) = CapRej_KeychainLocked"
| "classify_capture_failure SwapLockBusy = CapRej_SwapLockBusy"
| "classify_capture_failure PriorConfigurationWithoutConfig = CapRej_PriorConfiguration"
| "classify_capture_failure (ClaudeStateNotFound _) = CapRej_NoActiveAccount"
| "classify_capture_failure OauthAccountMissing = CapRej_NoActiveAccount"
| "classify_capture_failure CredentialNotFound = CapRej_NoActiveAccount"
| "classify_capture_failure _ = CapRej_Failed"

fun capture_event_outcome_of :: "capture_outcome \<Rightarrow> capture_event_outcome" where
  "capture_event_outcome_of CO_Captured = CEO_Captured"
| "capture_event_outcome_of CO_Refreshed = CEO_Refreshed"

fun capture_event_outcome_rejected :: "capture_rejection \<Rightarrow> capture_event_outcome" where
  "capture_event_outcome_rejected CapRej_NoActiveAccount = CEO_NoActiveAccount"
| "capture_event_outcome_rejected CapRej_KeychainLocked = CEO_KeychainLocked"
| "capture_event_outcome_rejected CapRej_SwapLockBusy = CEO_SwapLockBusy"
| "capture_event_outcome_rejected CapRej_Failed = CEO_Failed"
| "capture_event_outcome_rejected CapRej_PriorConfiguration = CEO_PriorConfiguration"

text \<open>The three classifiers agree: a back-off signal comes from a transient poll failure only.\<close>

lemma backoff_signal_transient: "backoff_signal r = Some sig \<Longrightarrow> classify_poll r = PO_Transient"
  by (cases r rule: backoff_signal.cases) simp_all

lemma classify_poll_Live [simp]: "classify_poll r = PO_Live \<longleftrightarrow> is_ok r"
  by (cases r rule: classify_poll.cases) simp_all

lemma classify_poll_Unauthorized [simp]:
  "classify_poll r = PO_Unauthorized \<longleftrightarrow> r = Inl UsageUnauthorized"
  by (cases r rule: classify_poll.cases) simp_all

end
