(* ===== verification/Swap_Policy.thy ===== *)
theory Swap_Policy
  imports Usage Timing
begin

text \<open>
  The pure decision vocabulary of \<open>src/swap.rs\<close>: the threshold rule \<open>decide\<close>, the ceilings and
  tail margins, the viability boundary, the reactive threshold with its velocity allowance, and the
  per-window session high-water mark that stands in for a reading that dropped inside one window.
\<close>

datatype swap_decision = SD_Hold | SD_Swap

definition decide :: "usage \<Rightarrow> f64 \<Rightarrow> f64 \<Rightarrow> swap_decision" where
  "decide u session_threshold weekly_threshold =
     (if (case session u of None \<Rightarrow> False | Some s \<Rightarrow> f_ge s session_threshold)
         \<or> (case weekly u of None \<Rightarrow> False | Some w \<Rightarrow> f_ge w weekly_threshold)
      then SD_Swap else SD_Hold)"

section \<open>Ceilings\<close>

definition TAIL_MARGIN :: f64 where "TAIL_MARGIN = to_f64 (6 / 100)"

definition effective_ceiling :: "f64 \<Rightarrow> f64" where
  "effective_ceiling ceil = f_max (f_sub ceil TAIL_MARGIN) (Fin 0)"

definition WEEKLY_TAIL_MARGIN :: f64 where "WEEKLY_TAIL_MARGIN = to_f64 (1 / 100)"

definition weekly_effective_ceiling :: "f64 \<Rightarrow> f64" where
  "weekly_effective_ceiling ceil = f_max (f_sub ceil WEEKLY_TAIL_MARGIN) (Fin 0)"

record viability_boundary_rec =
  vb_session :: f64
  vb_weekly :: f64

definition viability_boundary :: "f64 \<Rightarrow> f64 \<Rightarrow> f64 \<Rightarrow> viability_boundary_rec" where
  "viability_boundary session_ceiling target_max_session_usage weekly_ceiling =
     \<lparr>vb_session = f_min session_ceiling target_max_session_usage,
      vb_weekly = weekly_effective_ceiling weekly_ceiling\<rparr>"

definition session_blocked :: "viability_boundary_rec \<Rightarrow> f64 \<Rightarrow> bool" where
  "session_blocked b s \<longleftrightarrow> f_ge s (vb_session b)"

definition weekly_blocked :: "viability_boundary_rec \<Rightarrow> f64 \<Rightarrow> bool" where
  "weekly_blocked b w \<longleftrightarrow> f_ge w (vb_weekly b)"

section \<open>The reactive threshold and the peak-runway reserve\<close>

definition REACTIVE_REOBSERVATION_GAP_SECS :: f64 where
  "REACTIVE_REOBSERVATION_GAP_SECS = Fin 313"

definition reactive_poll_gap_secs :: "nat \<Rightarrow> f64" where
  "reactive_poll_gap_secs near_limit_poll_secs =
     (if near_limit_poll_secs = 0 then Fin 0
      else f_max (f_mul (Fin 2) (f_of_nat near_limit_poll_secs)) REACTIVE_REOBSERVATION_GAP_SECS)"

definition reactive_session_threshold :: "f64 \<Rightarrow> f64 \<Rightarrow> f64 \<Rightarrow> f64" where
  "reactive_session_threshold eff_ceiling velocity poll_gap_secs =
     f_sub eff_ceiling (f_mul velocity poll_gap_secs)"

definition V_PEAK_SESSION_PCT_PER_MIN :: f64 where
  "V_PEAK_SESSION_PCT_PER_MIN = to_f64 (695 / 100)"

definition V_PEAK_SESSION_FRAC_PER_SEC :: f64 where
  "V_PEAK_SESSION_FRAC_PER_SEC = f_div (f_div V_PEAK_SESSION_PCT_PER_MIN (Fin 100)) (Fin 60)"

definition composed_swap_lookahead_secs :: "nat \<Rightarrow> nat \<Rightarrow> f64" where
  "composed_swap_lookahead_secs near_limit_poll_secs horizon =
     f_max (reactive_poll_gap_secs near_limit_poll_secs) (f_of_nat horizon)"

definition peak_runway_reserve_bound :: "f64 \<Rightarrow> nat \<Rightarrow> nat \<Rightarrow> f64" where
  "peak_runway_reserve_bound ceil near_limit_poll_secs horizon =
     (let window = composed_swap_lookahead_secs near_limit_poll_secs horizon
      in f_sub (effective_ceiling ceil) (f_mul V_PEAK_SESSION_FRAC_PER_SEC window))"

section \<open>The session high-water mark\<close>

record session_high_water =
  hw_window :: int
  hw_session :: f64

definition SESSION_WINDOW_MATCH_SECS :: int where "SESSION_WINDOW_MATCH_SECS = 60"

definition matches_window :: "session_high_water \<Rightarrow> int \<Rightarrow> bool" where
  "matches_window m stamp \<longleftrightarrow> \<bar>hw_window m - stamp\<bar> \<le> \<bar>SESSION_WINDOW_MATCH_SECS\<bar>"

definition high_water_fold :: "session_high_water option \<Rightarrow> usage \<Rightarrow> session_high_water option" where
  "high_water_fold mark u =
     (case session_resets_at u of None \<Rightarrow> None | Some window \<Rightarrow>
       (case session u of None \<Rightarrow> None | Some s \<Rightarrow>
         Some (case mark of
             Some prev \<Rightarrow>
               (if matches_window prev window
                then \<lparr>hw_window = hw_window prev, hw_session = f_max (hw_session prev) s\<rparr>
                else \<lparr>hw_window = window, hw_session = s\<rparr>)
           | None \<Rightarrow> \<lparr>hw_window = window, hw_session = s\<rparr>)))"

definition applies_to :: "session_high_water \<Rightarrow> usage \<Rightarrow> f64 option" where
  "applies_to m u =
     (case session_resets_at u of None \<Rightarrow> None
      | Some stamp \<Rightarrow> if matches_window m stamp then Some (hw_session m) else None)"

definition is_stale_low :: "session_high_water option \<Rightarrow> usage \<Rightarrow> bool" where
  "is_stale_low mark u =
     (case Option.bind mark (\<lambda>m. applies_to m u) of None \<Rightarrow> False
      | Some high_water \<Rightarrow> (case session u of None \<Rightarrow> False | Some s \<Rightarrow> f_lt s high_water))"

definition plausible_session :: "session_high_water option \<Rightarrow> usage \<Rightarrow> usage" where
  "plausible_session mark u =
     (case (Option.bind mark (\<lambda>m. applies_to m u), session u) of
        (Some high_water, Some s) \<Rightarrow> if f_gt high_water s then u\<lparr>session := Some high_water\<rparr> else u
      | _ \<Rightarrow> u)"

definition plausible_anchor_session :: "session_high_water option \<Rightarrow> f64 option \<Rightarrow> f64 option" where
  "plausible_anchor_session mark anchor_session =
     map_option (\<lambda>a. case mark of
         Some m \<Rightarrow> if f_gt (hw_session m) a then hw_session m else a
       | None \<Rightarrow> a) anchor_session"

section \<open>Lemmas\<close>

lemma decide_Swap_iff:
  "decide u st wt = SD_Swap \<longleftrightarrow>
   (\<exists>s. session u = Some s \<and> f_ge s st) \<or> (\<exists>w. weekly u = Some w \<and> f_ge w wt)"
  by (auto simp: decide_def split: option.splits)

lemma decide_Hold_iff:
  "decide u st wt = SD_Hold \<longleftrightarrow>
   (\<forall>s. session u = Some s \<longrightarrow> \<not> f_ge s st) \<and> (\<forall>w. weekly u = Some w \<longrightarrow> \<not> f_ge w wt)"
  by (auto simp: decide_def split: option.splits)

lemma margins_nonneg: "f_le (Fin 0) TAIL_MARGIN" "f_le (Fin 0) WEEKLY_TAIL_MARGIN"
  unfolding TAIL_MARGIN_def WEEKLY_TAIL_MARGIN_def by (rule to_f64_nonneg, simp)+

lemma f_max_ok: "f64_ok x \<Longrightarrow> f64_ok y \<Longrightarrow> f64_ok (f_max x y)"
  by (auto simp: f_max_def max_def)

lemma f_max_le: "f_le x z \<Longrightarrow> f_le y z \<Longrightarrow> f_le (f_max x y) z"
  by (auto simp: f_max_def max_def f_le_def)

lemma effective_ceiling_le:
  assumes "f64_ok c" "f_le (Fin 0) c" "c \<noteq> PInf"
  shows "f_le (effective_ceiling c) c"
  unfolding effective_ceiling_def
  by (rule f_max_le [OF f_sub_le [OF assms(1) _ assms(3) margins_nonneg(1)] assms(2)])
    (use assms in \<open>auto simp: f_le_def\<close>)

lemma effective_ceiling_ok: "f64_ok (effective_ceiling c)"
  by (simp add: effective_ceiling_def f_max_ok)

lemma effective_ceiling_nonneg: "f_le (Fin 0) (effective_ceiling c)"
  by (cases "f_sub c TAIL_MARGIN") (auto simp: effective_ceiling_def f_max_def max_def f_le_def)

lemma weekly_effective_ceiling_le:
  assumes "f64_ok c" "f_le (Fin 0) c" "c \<noteq> PInf"
  shows "f_le (weekly_effective_ceiling c) c"
  unfolding weekly_effective_ceiling_def
  by (rule f_max_le [OF f_sub_le [OF assms(1) _ assms(3) margins_nonneg(2)] assms(2)])
    (use assms in \<open>auto simp: f_le_def\<close>)

lemma f_mul_nonneg:
  "f_le (Fin 0) x \<Longrightarrow> f_le (Fin 0) y \<Longrightarrow> x \<noteq> PInf \<Longrightarrow> y \<noteq> PInf \<Longrightarrow> f_le (Fin 0) (f_mul x y)"
  by (cases x; cases y) (auto simp: f_le_def intro: to_f64_nonneg [unfolded f_le_def, THEN conjunct2, THEN conjunct2])

lemma matches_window_refl [simp]: "matches_window \<lparr>hw_window = w, hw_session = s\<rparr> w"
  by (simp add: matches_window_def SESSION_WINDOW_MATCH_SECS_def)

lemma plausible_session_fields [simp]:
  "weekly (plausible_session m u) = weekly u"
  "weekly_resets_at (plausible_session m u) = weekly_resets_at u"
  "session_resets_at (plausible_session m u) = session_resets_at u"
  "session (plausible_session m u) = None \<longleftrightarrow> session u = None"
  by (auto simp: plausible_session_def split: option.splits)

lemma plausible_session_ge:
  assumes "session u = Some s" "s \<noteq> NaN"
  shows "\<exists>p. session (plausible_session m u) = Some p \<and> f_le s p"
  using assms by (auto simp: plausible_session_def f_le_refl f_lt_def f_le_def split: option.splits)

lemma plausible_session_stale:
  "is_stale_low m u \<longleftrightarrow> session (plausible_session m u) \<noteq> session u"
  by (auto simp: plausible_session_def is_stale_low_def f_lt_def split: option.splits)

lemma high_water_fold_Some:
  assumes "high_water_fold mark u = Some m"
  obtains w s where "session_resets_at u = Some w" "session u = Some s"
    "matches_window m w" "s \<noteq> NaN \<Longrightarrow> f_le s (hw_session m)"
proof -
  from assms obtain w s where ws: "session_resets_at u = Some w" "session u = Some s"
    by (auto simp: high_water_fold_def split: option.splits)
  moreover have "matches_window m w"
    using assms ws by (auto simp: high_water_fold_def matches_window_def SESSION_WINDOW_MATCH_SECS_def
        split: option.splits if_splits)
  moreover have "s \<noteq> NaN \<Longrightarrow> f_le s (hw_session m)"
    using assms ws by (auto simp: high_water_fold_def f_max_def max_def f_le_def
        split: option.splits if_splits)
  ultimately show thesis using that by blast
qed

section \<open>Properties\<close>

lemma high_water_fold_run:
  assumes "\<forall>u \<in> set us. session_resets_at u = Some w \<and> session u \<noteq> None"
  shows "fold (\<lambda>u m. high_water_fold m u) us (Some \<lparr>hw_window = w, hw_session = s\<rparr>) =
    Some \<lparr>hw_window = w, hw_session = foldl f_max s (map (\<lambda>u. the (session u)) us)\<rparr>"
  using assms
proof (induction us arbitrary: s)
  case (Cons u us)
  then show ?case by (auto simp: high_water_fold_def)
qed simp

text \<open>
  Folding the polls of one reset window into the high-water mark yields their running maximum: after
  any sequence of readings whose reset stamps are the same instant, the mark is the window with the
  largest session utilization seen in it.
\<close>

theorem high_water_is_running_max:
  assumes "session_resets_at u = Some w" "session u = Some s"
    and "\<forall>v \<in> set us. session_resets_at v = Some w \<and> session v \<noteq> None"
  shows "fold (\<lambda>v m. high_water_fold m v) (u # us) None =
    Some \<lparr>hw_window = w, hw_session = foldl f_max s (map (\<lambda>v. the (session v)) us)\<rparr>"
  using high_water_fold_run [OF assms(3), of s] assms(1,2)
  by (simp add: high_water_fold_def [of None u])

definition reading_sample :: "rat \<Rightarrow> int \<Rightarrow> usage" where
  "reading_sample s w = \<lparr>session = Some (Fin s), weekly = Some (Fin (1 / 4)),
     weekly_resets_at = None, session_resets_at = Some w\<rparr>"

theorem high_water_is_running_max_witness:
  "fold (\<lambda>v m. high_water_fold m v) [reading_sample (1 / 2) 100, reading_sample (3 / 4) 100, reading_sample (1 / 8) 100] None =
    Some \<lparr>hw_window = 100, hw_session = Fin (3 / 4)\<rparr>"
  by (subst high_water_is_running_max [where w = 100 and s = "Fin (1 / 2)"])
    (simp_all add: reading_sample_def f_max_def)

text \<open>
  Substituting the high-water mark for a stale-low session reading is conservative: a swap the raw
  reading calls for is still called for, the session shown to the decision is never below the raw one,
  and it differs from the raw one exactly when the reading is flagged as stale low.
\<close>

theorem plausible_session_conservative:
  "(decide u st wt = SD_Swap \<longrightarrow> decide (plausible_session m u) st wt = SD_Swap) \<and>
   (is_stale_low m u \<longleftrightarrow> session (plausible_session m u) \<noteq> session u) \<and>
   (\<forall>s. session u = Some s \<and> s \<noteq> NaN \<longrightarrow> (\<exists>p. session (plausible_session m u) = Some p \<and> f_le s p))"
proof (intro conjI allI impI plausible_session_stale)
  assume "decide u st wt = SD_Swap"
  then consider s where "session u = Some s" "f_ge s st" | w where "weekly u = Some w" "f_ge w wt"
    by (auto simp: decide_Swap_iff)
  then show "decide (plausible_session m u) st wt = SD_Swap"
  proof cases
    case 1
    then have "s \<noteq> NaN" by (auto simp: f_le_def)
    with 1 show ?thesis
      using plausible_session_ge [of u s m] f_le_trans [of st s] by (auto simp: decide_Swap_iff)
  qed (simp add: decide_Swap_iff)
qed (use plausible_session_ge in blast)

theorem plausible_session_conservative_witness:
  "decide (plausible_session (Some \<lparr>hw_window = 100, hw_session = Fin (7 / 8)\<rparr>) (reading_sample (3 / 4) 100))
     (Fin (1 / 2)) (Fin 1) = SD_Swap"
  using plausible_session_conservative [of "reading_sample (3 / 4) 100" "Fin (1 / 2)" "Fin 1"
      "Some \<lparr>hw_window = 100, hw_session = Fin (7 / 8)\<rparr>"]
  by (simp add: decide_def reading_sample_def f_le_def)

text \<open>
  The thresholds the daemon decides on are ordered: the reactive session threshold is at most the
  effective ceiling, which lies between zero and the configured ceiling, for every ceiling in
  \<open>[0, 1]\<close>, every non-negative finite velocity and every configured poll gap.
\<close>

theorem thresholds_ordered:
  assumes "f64_ok (Fin c)" "0 \<le> c" "c \<le> 1" "0 \<le> v" "n \<le> 2 ^ 32"
  shows "f_le (reactive_session_threshold (effective_ceiling (Fin c)) (Fin v) (reactive_poll_gap_secs n))
           (effective_ceiling (Fin c)) \<and>
         f_le (Fin 0) (effective_ceiling (Fin c)) \<and> f_le (effective_ceiling (Fin c)) (Fin c)"
proof (intro conjI)
  show ec: "f_le (effective_ceiling (Fin c)) (Fin c)" using assms by (intro effective_ceiling_le) auto
  show nn: "f_le (Fin 0) (effective_ceiling (Fin c))" by (rule effective_ceiling_nonneg)
  have n64: "f_of_nat n = Fin (of_nat n)"
    unfolding f_of_nat_def using assms(5) by (intro to_f64_nat) simp
  have "f_mul (Fin 2) (f_of_nat n) = Fin (of_nat (2 * n))"
    using to_f64_nat [of "2 * n"] assms(5) by (simp add: n64)
  then have "reactive_poll_gap_secs n = Fin (if n = 0 then 0 else max (of_nat (2 * n)) 313)"
    by (simp add: reactive_poll_gap_secs_def REACTIVE_REOBSERVATION_GAP_SECS_def f_max_def max_def del: f_mul.simps)
  then obtain g where g: "reactive_poll_gap_secs n = Fin g" "0 \<le> g"
    by (metis (full_types) max.coboundedI2 order_refl zero_le_numeral)
  obtain e where e: "effective_ceiling (Fin c) = Fin e"
    using ec nn by (cases "effective_ceiling (Fin c)") (auto simp: f_le_def)
  have "0 \<le> v * g" using g assms(4) by simp
  then show "f_le (reactive_session_threshold (effective_ceiling (Fin c)) (Fin v) (reactive_poll_gap_secs n))
     (effective_ceiling (Fin c))"
    unfolding reactive_session_threshold_def g(1)
    using to_f64_nonneg [of "v * g"] effective_ceiling_ok [of "Fin c"] e
    by (intro f_sub_le) simp_all
qed

theorem thresholds_ordered_witness:
  "f_le (reactive_session_threshold (effective_ceiling (Fin (3 / 4))) (Fin (1 / 1024)) (reactive_poll_gap_secs 120))
     (effective_ceiling (Fin (3 / 4)))"
proof -
  have "f64_ok (Fin (3 / 4))"
    using rnd_dyadic [of 3 2] to_f64_small [of "3 / 4"] to_f64_ok [of "3 / 4"] by simp
  then show ?thesis using thresholds_ordered [of "3 / 4" "1 / 1024" 120] by simp
qed

end
