(* ===== verification/Latch.thy ===== *)
theory Latch
  imports Prelude
begin

text \<open>
  Alarm brackets. Many of the daemon's events come in pairs, an alarm and its clearing, guarded by a
  "signaled" flag of the state. \<open>bracketed r c b es\<close> says that in the event sequence \<open>es\<close>, begun with
  the bracket open iff \<open>b\<close>, an alarm (\<open>r\<close>) is only emitted while closed and a clearing (\<open>c\<close>) only while
  open; \<open>bracket_end\<close> is the state of the bracket afterwards. The locale \<open>latch\<close> is the contract of a
  component that keeps such a flag, and lifts it from one step to every run.
\<close>

fun bracketed :: "('e \<Rightarrow> bool) \<Rightarrow> ('e \<Rightarrow> bool) \<Rightarrow> bool \<Rightarrow> 'e list \<Rightarrow> bool" where
  "bracketed r c b [] = True"
| "bracketed r c b (e # es) =
     (if r e then \<not> b \<and> bracketed r c True es
      else if c e then b \<and> bracketed r c False es
      else bracketed r c b es)"

fun bracket_end :: "('e \<Rightarrow> bool) \<Rightarrow> ('e \<Rightarrow> bool) \<Rightarrow> bool \<Rightarrow> 'e list \<Rightarrow> bool" where
  "bracket_end r c b [] = b"
| "bracket_end r c b (e # es) =
     (if r e then bracket_end r c True es
      else if c e then bracket_end r c False es
      else bracket_end r c b es)"

lemma bracketed_append:
  "bracketed r c b (xs @ ys) \<longleftrightarrow> bracketed r c b xs \<and> bracketed r c (bracket_end r c b xs) ys"
  by (induction xs arbitrary: b) auto

lemma bracket_end_append: "bracket_end r c b (xs @ ys) = bracket_end r c (bracket_end r c b xs) ys"
  by (induction xs arbitrary: b) auto

lemma bracketed_neutral:
  "(\<And>e. e \<in> set es \<Longrightarrow> \<not> r e \<and> \<not> c e) \<Longrightarrow> bracketed r c b es \<and> bracket_end r c b es = b"
  by (induction es) auto

text \<open>Between two alarms there is always a clearing.\<close>

lemma bracketed_between:
  assumes "bracketed r c b (xs @ x # ys @ y # zs)" "r x" "r y" "\<And>e. r e \<Longrightarrow> \<not> c e"
  shows "\<exists>e \<in> set ys. c e"
proof (rule ccontr)
  assume none: "\<not> (\<exists>e \<in> set ys. c e)"
  have open_end: "bracket_end r c True es" if "\<not> (\<exists>e \<in> set es. c e)" for es
    using that by (induction es) auto
  have "bracketed r c True (ys @ y # zs)"
    using assms(1,2) by (simp add: bracketed_append)
  then have "bracketed r c (bracket_end r c True ys) (y # zs)"
    by (simp only: bracketed_append)
  then show False using assms(3) open_end [OF none] by simp
qed

fun run_steps :: "('s \<Rightarrow> 'i \<Rightarrow> 's \<times> 'e list) \<Rightarrow> 's \<Rightarrow> 'i list \<Rightarrow> 's \<times> 'e list" where
  "run_steps st s [] = (s, [])"
| "run_steps st s (i # is) =
     (case st s i of (s', es) \<Rightarrow> (case run_steps st s' is of (t, fs) \<Rightarrow> (t, es @ fs)))"

lemma run_steps_append:
  "run_steps st s (xs @ ys) =
     (case run_steps st s xs of (t, es) \<Rightarrow> (case run_steps st t ys of (u, fs) \<Rightarrow> (u, es @ fs)))"
  by (induction xs arbitrary: s) (simp_all add: split_beta)

text \<open>The flag may be kept under an invariant of the state only.\<close>

locale inv_latch =
  fixes inv :: "'s \<Rightarrow> bool"
    and step :: "'s \<Rightarrow> 'i \<Rightarrow> 's \<times> 'e list"
    and flag :: "'s \<Rightarrow> bool"
    and raises clears :: "'e \<Rightarrow> bool"
  assumes inv_step: "inv s \<Longrightarrow> inv (fst (step s i))"
    and inv_step_ok: "inv s \<Longrightarrow>
     bracketed raises clears (flag s) (snd (step s i)) \<and>
     bracket_end raises clears (flag s) (snd (step s i)) = flag (fst (step s i))"
begin

lemma run_inv: "inv s \<Longrightarrow> inv (fst (run_steps step s is))"
  by (induction "is" arbitrary: s) (simp_all add: split_beta inv_step)

lemma run_ok:
  "inv s \<Longrightarrow> bracketed raises clears (flag s) (snd (run_steps step s is)) \<and>
   bracket_end raises clears (flag s) (snd (run_steps step s is)) = flag (fst (run_steps step s is))"
proof (induction "is" arbitrary: s)
  case Nil
  then show ?case by simp
next
  case (Cons i "is")
  show ?case
    using inv_step_ok [OF Cons.prems, of i] Cons.IH [OF inv_step [OF Cons.prems, of i]]
    by (simp add: split_beta bracketed_append bracket_end_append)
qed

end

locale latch =
  fixes step :: "'s \<Rightarrow> 'i \<Rightarrow> 's \<times> 'e list"
    and flag :: "'s \<Rightarrow> bool"
    and raises clears :: "'e \<Rightarrow> bool"
  assumes step_ok:
    "bracketed raises clears (flag s) (snd (step s i)) \<and>
     bracket_end raises clears (flag s) (snd (step s i)) = flag (fst (step s i))"

sublocale latch \<subseteq> inv_latch "\<lambda>_. True" step flag raises clears
  by unfold_locales (simp_all add: step_ok)

end
