(* ===== verification/Systemic_Refresh.thy ===== *)
theory Systemic_Refresh
  imports Latch Errors Observability
begin

text \<open>
  \<open>src/systemic_refresh.rs\<close>: the health of the isolated-refresh machinery. Consecutive all-error
  sweeps, or one unresolvable binary at startup, raise one alarm; a working sweep clears it.
\<close>

datatype sweep_health = SW_NoSignal | SW_AllError | SW_Working

fun classify_loop :: "bool \<Rightarrow> bool \<Rightarrow> refresh_event_outcome list \<Rightarrow> bool \<times> bool" where
  "classify_loop saw_cycle all_error [] = (saw_cycle, all_error)"
| "classify_loop saw_cycle all_error (outcome # os) =
     classify_loop True (if outcome \<noteq> REO_Error then False else all_error) os"

definition classify_sweep :: "refresh_event_outcome list \<Rightarrow> sweep_health" where
  "classify_sweep outcomes =
     (case classify_loop False True outcomes of
        (False, _) \<Rightarrow> SW_NoSignal | (True, True) \<Rightarrow> SW_AllError | (True, False) \<Rightarrow> SW_Working)"

datatype preflight_health = PF_Resolved | PF_Unresolved

datatype systemic_refresh_source = SRS_Sweep | SRS_Preflight

text \<open>\<open>preflight(resolve)\<close>, given what resolving the binary returned.\<close>

definition preflight :: "'p result \<Rightarrow> preflight_health" where
  "preflight resolved = (case resolved of Inr _ \<Rightarrow> PF_Resolved | Inl _ \<Rightarrow> PF_Unresolved)"

record systemic_refresh_health =
  consecutive_error_sweeps :: nat
  sr_active :: "systemic_refresh_source option"

definition systemic_default :: systemic_refresh_health where
  "systemic_default = \<lparr>consecutive_error_sweeps = 0, sr_active = None\<rparr>"

fun sr_note :: "systemic_refresh_health \<Rightarrow> sweep_health \<Rightarrow> nat \<Rightarrow> systemic_refresh_health \<times> event option" where
  "sr_note h SW_NoSignal threshold = (h, None)"
| "sr_note h SW_AllError threshold =
     (let t = max threshold 1;
          h1 = h\<lparr>consecutive_error_sweeps := u32_sat_add (consecutive_error_sweeps h) 1\<rparr>
      in if sr_active h1 = None \<and> t \<le> consecutive_error_sweeps h1
         then (h1\<lparr>sr_active := Some SRS_Sweep\<rparr>,
               Some (Ev_RefreshSystemicFailure (consecutive_error_sweeps h1)))
         else (h1, None))"
| "sr_note h SW_Working threshold =
     (let h1 = h\<lparr>consecutive_error_sweeps := 0\<rparr>
      in if sr_active h1 \<noteq> None then (h1\<lparr>sr_active := None\<rparr>, Some Ev_RefreshSystemicRecovered)
         else (h1\<lparr>sr_active := None\<rparr>, None))"

fun sr_note_preflight ::
  "systemic_refresh_health \<Rightarrow> preflight_health \<Rightarrow> systemic_refresh_health \<times> event option" where
  "sr_note_preflight h PF_Resolved = (h, None)"
| "sr_note_preflight h PF_Unresolved =
     (if sr_active h \<noteq> None then (h, None)
      else (h\<lparr>sr_active := Some SRS_Preflight,
              consecutive_error_sweeps := max (consecutive_error_sweeps h) 1\<rparr>,
            Some Ev_RefreshPreflightUnresolved))"

definition sr_status :: "systemic_refresh_health \<Rightarrow> nat option" where
  "sr_status h = map_option (\<lambda>_. consecutive_error_sweeps h) (sr_active h)"

definition sr_source :: "systemic_refresh_health \<Rightarrow> systemic_refresh_source option" where
  "sr_source h = sr_active h"

section \<open>Runs\<close>

text \<open>What the daemon feeds it: sweeps judged against the configured threshold, and preflights.\<close>

datatype systemic_input = In_Sweep sweep_health nat | In_Preflight preflight_health

fun sr_step :: "systemic_refresh_health \<Rightarrow> systemic_input \<Rightarrow> systemic_refresh_health \<times> event list" where
  "sr_step h (In_Sweep s n) = (case sr_note h s n of (h', e) \<Rightarrow> (h', (case e of None \<Rightarrow> [] | Some x \<Rightarrow> [x])))"
| "sr_step h (In_Preflight p) =
     (case sr_note_preflight h p of (h', e) \<Rightarrow> (h', (case e of None \<Rightarrow> [] | Some x \<Rightarrow> [x])))"

fun systemic_alarm :: "event \<Rightarrow> bool" where
  "systemic_alarm (Ev_RefreshSystemicFailure _) = True"
| "systemic_alarm Ev_RefreshPreflightUnresolved = True"
| "systemic_alarm _ = False"

fun systemic_clear :: "event \<Rightarrow> bool" where
  "systemic_clear Ev_RefreshSystemicRecovered = True"
| "systemic_clear _ = False"

definition sr_flag :: "systemic_refresh_health \<Rightarrow> bool" where
  "sr_flag h \<longleftrightarrow> sr_active h \<noteq> None"

interpretation systemic: latch sr_step sr_flag systemic_alarm systemic_clear
proof
  fix h :: systemic_refresh_health and i
  show "bracketed systemic_alarm systemic_clear (sr_flag h) (snd (sr_step h i)) \<and>
    bracket_end systemic_alarm systemic_clear (sr_flag h) (snd (sr_step h i)) = sr_flag (fst (sr_step h i))"
  proof (cases i)
    case (In_Sweep s n)
    then show ?thesis by (cases s) (auto simp: sr_flag_def Let_def)
  next
    case (In_Preflight p)
    then show ?thesis by (cases p) (auto simp: sr_flag_def)
  qed
qed

definition sr_inv :: "systemic_refresh_health \<Rightarrow> bool" where
  "sr_inv h \<longleftrightarrow> consecutive_error_sweeps h \<le> U32_MAX \<and> (sr_active h \<noteq> None \<longrightarrow> 0 < consecutive_error_sweeps h)"

lemma sr_step_inv: "sr_inv h \<Longrightarrow> sr_inv (fst (sr_step h i))"
proof (cases i)
  case (In_Sweep s n)
  then show "sr_inv h \<Longrightarrow> ?thesis" by (cases s) (auto simp: sr_inv_def Let_def u32_sat_add_def)
next
  case (In_Preflight p)
  then show "sr_inv h \<Longrightarrow> ?thesis" by (cases p) (auto simp: sr_inv_def)
qed

lemma sr_run_inv: "sr_inv h \<Longrightarrow> sr_inv (fst (run_steps sr_step h is))"
proof (induction "is" arbitrary: h)
  case (Cons i "is")
  then show ?case using sr_step_inv [of h i] by (simp add: split_beta)
qed simp

lemma classify_loop_spec:
  "classify_loop sc ae os = (sc \<or> os \<noteq> [], ae \<and> (\<forall>x \<in> set os. x = REO_Error))"
  by (induction os arbitrary: sc ae) auto

lemma classify_sweep_spec:
  "classify_sweep os =
     (if os = [] then SW_NoSignal else if \<forall>x \<in> set os. x = REO_Error then SW_AllError else SW_Working)"
  by (simp add: classify_sweep_def classify_loop_spec split: bool.split)

text \<open>A quiet prefix of all-error sweeps only counts.\<close>

lemma sr_errors_count:
  assumes "sr_active h = None" "consecutive_error_sweeps h + k < t" "t \<le> U32_MAX"
  shows "run_steps sr_step h (replicate k (In_Sweep SW_AllError t)) =
    (h\<lparr>consecutive_error_sweeps := consecutive_error_sweeps h + k\<rparr>, [])"
  using assms
proof (induction k arbitrary: h)
  case (Suc k)
  have "sr_step h (In_Sweep SW_AllError t) =
      (h\<lparr>consecutive_error_sweeps := consecutive_error_sweeps h + 1\<rparr>, [])"
    using Suc.prems by (simp add: Let_def u32_sat_add_def min_def)
  then show ?case using Suc.IH [of "h\<lparr>consecutive_error_sweeps := consecutive_error_sweeps h + 1\<rparr>"] Suc.prems
    by simp
qed simp

section \<open>Properties\<close>

text \<open>
  The systemic refresh alarm is bracketed over every history of sweeps and preflights: it is never
  raised twice without a recovery in between and never cleared while not raised, and whenever it is
  raised the status reports a positive, in-range number of failed sweeps.
\<close>

theorem systemic_refresh_bracketed:
  "bracketed systemic_alarm systemic_clear False (snd (run_steps sr_step systemic_default is)) \<and>
   (bracket_end systemic_alarm systemic_clear False (snd (run_steps sr_step systemic_default is)) \<longleftrightarrow>
      sr_status (fst (run_steps sr_step systemic_default is)) \<noteq> None) \<and>
   (\<forall>n. sr_status (fst (run_steps sr_step systemic_default is)) = Some n \<longrightarrow> 1 \<le> n \<and> n \<le> U32_MAX)"
proof -
  have "sr_inv systemic_default" by (simp add: sr_inv_def systemic_default_def)
  then have "sr_inv (fst (run_steps sr_step systemic_default is))" by (rule sr_run_inv)
  moreover have "\<not> sr_flag systemic_default" by (simp add: sr_flag_def systemic_default_def)
  ultimately show ?thesis
    using systemic.run_ok [of systemic_default "is"] by (auto simp: sr_flag_def sr_status_def sr_inv_def)
qed

theorem systemic_refresh_bracketed_witness:
  "sr_status (fst (run_steps sr_step systemic_default [In_Preflight PF_Unresolved])) = Some 1 \<and> (1::nat) \<le> 1"
  using systemic_refresh_bracketed [of "[In_Preflight PF_Unresolved]"]
  by (simp add: sr_status_def systemic_default_def)

text \<open>
  From a quiet state the alarm is raised exactly at the configured number of consecutive sweeps in
  which every refresh failed, and a sweep with one success before that resets the count.
\<close>

theorem systemic_refresh_threshold:
  assumes "0 < t" "t \<le> U32_MAX" "os \<noteq> []" "\<forall>x \<in> set os. x = REO_Error"
  shows "run_steps sr_step systemic_default (replicate (t - 1) (In_Sweep (classify_sweep os) t)) =
           (systemic_default\<lparr>consecutive_error_sweeps := t - 1\<rparr>, []) \<and>
         snd (run_steps sr_step systemic_default (replicate t (In_Sweep (classify_sweep os) t))) =
           [Ev_RefreshSystemicFailure t] \<and>
         run_steps sr_step systemic_default
           (replicate (t - 1) (In_Sweep (classify_sweep os) t) @ [In_Sweep (classify_sweep (REO_NoChange # os)) t]) =
           (systemic_default, [])"
proof -
  have c: "classify_sweep os = SW_AllError" "classify_sweep (REO_NoChange # os) = SW_Working"
    using assms(3,4) by (simp_all add: classify_sweep_spec)
  have q: "run_steps sr_step systemic_default (replicate (t - 1) (In_Sweep SW_AllError t)) =
      (systemic_default\<lparr>consecutive_error_sweeps := t - 1\<rparr>, [])"
    using sr_errors_count [of systemic_default "t - 1" t] assms(1,2) by (simp add: systemic_default_def)
  have t: "replicate t (In_Sweep SW_AllError t) = replicate (t - 1) (In_Sweep SW_AllError t) @ [In_Sweep SW_AllError t]"
    using assms(1) replicate_append_same [of "t - 1" "In_Sweep SW_AllError t"]
    by (cases t) simp_all
  show ?thesis
    using assms(1,2) q
    by (auto simp: c t run_steps_append systemic_default_def u32_sat_add_def)
qed

theorem systemic_refresh_threshold_witness:
  "snd (run_steps sr_step systemic_default (replicate 3 (In_Sweep (classify_sweep [REO_Error, REO_Error]) 3))) =
     [Ev_RefreshSystemicFailure 3]"
  using systemic_refresh_threshold [of 3 "[REO_Error, REO_Error]"] by simp

end
