(* ===== verification/Records.thy ===== *)
theory Records
  imports Swap_Policy Systemic_Refresh
begin

text \<open>
  The per-account and per-decision records of the daemon (\<open>src/daemon/records.rs\<close>, the structs
  \<open>AccountHealth\<close> and \<open>AccountRuntime\<close> of \<open>src/daemon.rs\<close>), the blind-window arming predicates, and
  the views of a reading that the status snapshot and the swap gates share.
\<close>

section \<open>The outcome of a tick\<close>

datatype tick_action =
    Held
  | Swapped nat nat
  | EmergencySwapped nat nat
  | PreemptivelySwapped nat nat
  | VelocityPreemptivelySwapped nat nat
  | ActiveDeadNoTarget
  | CanonicalAdopted nat
  | NoViableTarget
  | SkippedActiveUnknown
  | SkippedActiveUnavailable
  | SkippedCooldown
  | SwapFailed
  | KeychainLockedAction

fun tick_decision_class :: "tick_action \<Rightarrow> decision_class" where
  "tick_decision_class Held = DC_Hold"
| "tick_decision_class (Swapped _ _) = DC_Swap"
| "tick_decision_class (EmergencySwapped _ _) = DC_EmergencySwap"
| "tick_decision_class (PreemptivelySwapped _ _) = DC_PreemptiveSwap"
| "tick_decision_class (VelocityPreemptivelySwapped _ _) = DC_VelocityPreemptiveSwap"
| "tick_decision_class ActiveDeadNoTarget = DC_ActiveDeadNoTarget"
| "tick_decision_class (CanonicalAdopted _) = DC_CanonicalAdopted"
| "tick_decision_class NoViableTarget = DC_AllExhausted"
| "tick_decision_class SkippedActiveUnknown = DC_SkipActiveUnknown"
| "tick_decision_class SkippedActiveUnavailable = DC_SkipActiveUnavailable"
| "tick_decision_class SkippedCooldown = DC_SkipCooldown"
| "tick_decision_class SwapFailed = DC_SwapFailed"
| "tick_decision_class KeychainLockedAction = DC_KeychainLocked"

section \<open>Retained observations\<close>

record last_good =
  lg_session :: "f64 option"
  lg_weekly :: "f64 option"
  lg_at :: instant

record blind_anchor =
  ba_session :: "f64 option"
  ba_weekly :: "f64 option"
  ba_at :: instant
  ba_was_active :: bool
  ba_near_limit :: bool

record active_designation =
  ad_account_uuid :: string
  ad_at :: instant

record observation_gap_anchor =
  og_at :: instant
  og_was_active :: bool

record blind_preempt_swap_record =
  bp_from :: string
  bp_to :: string
  bp_last_known_session_pct :: nat
  bp_at :: instant

record parked_landing =
  pl_armed_at :: instant
  pl_decision_pct :: nat

record landing_overshoot_record =
  lo_from_label :: string
  lo_decision_pct :: nat
  lo_landing_pct :: nat
  lo_at :: instant

record velocity_ema =
  ema_rate :: f64
  ema_samples :: nat

record tick_backoff =
  tb_wait :: duration
  tb_retry_after :: "duration option"

datatype swap_verdict = SV_Swap | SV_AlreadyActive | SV_Reject swap_rejection

datatype credential_read_source = CRS_Canonical | CRS_Stash

definition read_source_for_poll :: "bool \<Rightarrow> credential_read_source" where
  "read_source_for_poll is_active = (if is_active then CRS_Canonical else CRS_Stash)"

section \<open>The state of one account\<close>

record account_health =
  consec_401 :: nat
  quarantined :: bool
  recovery_successes :: nat
  access_expires_at :: "int option"
  poll_expires_at :: "int option"
  refresh_token_expires_at :: "int option"
  expires_baseline :: "int option"
  expires_baseline_source :: "credential_read_source option"
  own_refresh_since_expiry_observation :: bool
  signaled_expiry_horizon :: "expiry_horizon option"
  last_refresh_outcome :: "refresh_event_outcome option"
  consecutive_refresh_failures :: nat
  last_health :: "credential_health_state option"
  unrecoverable_signaled :: bool
  last_keep_warm_attempt :: "instant option"
  poll_backoff_streak :: nat
  poll_backoff_until :: "instant option"
  poll_backoff_retry_after :: "duration option"
  exhausted_poll_until :: "instant option"

definition account_health_default :: account_health where
  "account_health_default = \<lparr>consec_401 = 0, quarantined = False, recovery_successes = 0,
     access_expires_at = None, poll_expires_at = None, refresh_token_expires_at = None,
     expires_baseline = None, expires_baseline_source = None,
     own_refresh_since_expiry_observation = False, signaled_expiry_horizon = None,
     last_refresh_outcome = None, consecutive_refresh_failures = 0, last_health = None,
     unrecoverable_signaled = False, last_keep_warm_attempt = None, poll_backoff_streak = 0,
     poll_backoff_until = None, poll_backoff_retry_after = None, exhausted_poll_until = None\<rparr>"

record account_runtime =
  health :: account_health
  last_reading :: "usage option"
  last_reading_at :: "instant option"
  session_velocity :: "velocity_ema option"
  parked :: "parked_landing option"
  high_water :: "session_high_water option"
  blind_anchor_of :: "blind_anchor option"
  observation_gap :: "observation_gap_anchor option"
  polled_once :: bool

definition account_runtime_default :: account_runtime where
  "account_runtime_default = \<lparr>health = account_health_default, last_reading = None,
     last_reading_at = None, session_velocity = None, parked = None, high_water = None,
     blind_anchor_of = None, observation_gap = None, polled_once = False\<rparr>"

definition MIN_VELOCITY_SAMPLES :: nat where "MIN_VELOCITY_SAMPLES = 2"

definition sustained_session_velocity :: "account_runtime \<Rightarrow> velocity_ema option" where
  "sustained_session_velocity a =
     (case session_velocity a of
        Some v \<Rightarrow> if MIN_VELOCITY_SAMPLES \<le> ema_samples v then Some v else None | None \<Rightarrow> None)"

section \<open>The blind-window gates\<close>

definition BLIND_GATE_SECS :: nat where "BLIND_GATE_SECS = 300"
definition BLIND_GATE_RISK_BAND :: f64 where "BLIND_GATE_RISK_BAND = to_f64 (60 / 100)"
definition BLIND_VELOCITY_RATE_INFLATION :: f64 where "BLIND_VELOCITY_RATE_INFLATION = Fin (7 / 4)"

definition blind_gate_armed :: "nat \<Rightarrow> f64 option \<Rightarrow> bool" where
  "blind_gate_armed blind_secs anchor_session \<longleftrightarrow>
     blind_secs > BLIND_GATE_SECS \<and>
     (case anchor_session of None \<Rightarrow> False | Some s \<Rightarrow> f_ge s BLIND_GATE_RISK_BAND)"

definition blind_velocity_projected_armed ::
  "nat \<Rightarrow> f64 option \<Rightarrow> velocity_ema option \<Rightarrow> f64 \<Rightarrow> bool" where
  "blind_velocity_projected_armed blind_secs anchor_session velocity session_ceiling =
     (if blind_secs \<le> BLIND_GATE_SECS then False
      else (case anchor_session of None \<Rightarrow> False | Some anchor \<Rightarrow>
        (case velocity of None \<Rightarrow> False | Some vel \<Rightarrow>
          if ema_samples vel < MIN_VELOCITY_SAMPLES then False
          else
            let projected = f_add anchor
                  (f_mul (f_mul (ema_rate vel) BLIND_VELOCITY_RATE_INFLATION) (f_of_nat blind_secs))
            in f_ge projected session_ceiling)))"

text \<open>The deadline is a stored instant, so it is compared, not subtracted.\<close>

definition server_retry_after_holding :: "account_health \<Rightarrow> instant \<Rightarrow> duration option" where
  "server_retry_after_holding h tm =
     (case poll_backoff_retry_after h of None \<Rightarrow> None | Some retry_after \<Rightarrow>
       (case poll_backoff_until h of None \<Rightarrow> None | Some til \<Rightarrow>
         if til > tm then Some retry_after else None))"

record anchor_arm_inputs =
  aa_last_good :: "last_good option"
  aa_high_water :: "session_high_water option"

record blind_active =
  bl_blind_secs :: nat
  bl_last_known_session_pct :: nat
  auto_protection_degraded :: bool

definition blind_active_view ::
  "anchor_arm_inputs \<Rightarrow> bool \<Rightarrow> bool \<Rightarrow> bool \<Rightarrow> velocity_ema option \<Rightarrow> f64 \<Rightarrow> instant \<Rightarrow>
   blind_active option" where
  "blind_active_view inputs active_is_blind is_quarantined server_retry_after_hold velocity session_ceiling tm =
     (if is_quarantined \<or> \<not> active_is_blind then None
      else (case aa_last_good inputs of None \<Rightarrow> None | Some anchor \<Rightarrow>
        (case lg_session anchor of None \<Rightarrow> None | Some anchor_session \<Rightarrow>
          let blind_secs = as_secs (since tm (lg_at anchor));
              gate_session = plausible_anchor_session (aa_high_water inputs) (lg_session anchor)
          in Some \<lparr>bl_blind_secs = blind_secs,
                   bl_last_known_session_pct = to_pct anchor_session,
                   auto_protection_degraded =
                     blind_gate_armed blind_secs gate_session
                     \<or> (blind_secs > BLIND_GATE_SECS \<and> server_retry_after_hold)
                     \<or> blind_velocity_projected_armed blind_secs gate_session velocity session_ceiling\<rparr>)))"

section \<open>Notices with an expiry\<close>

definition BLIND_PREEMPT_NOTICE_SECS :: nat where "BLIND_PREEMPT_NOTICE_SECS = 300"
definition LANDING_OVERSHOOT_NOTICE_SECS :: nat where "LANDING_OVERSHOOT_NOTICE_SECS = 300"

text \<open>The view is the triple of the two labels and the percentage.\<close>

definition recent_blind_preempt_swap_view ::
  "blind_preempt_swap_record option \<Rightarrow> string option \<Rightarrow> instant \<Rightarrow> (string \<times> string \<times> nat) option" where
  "recent_blind_preempt_swap_view r active_label tm =
     (case r of None \<Rightarrow> None | Some rc \<Rightarrow>
       if active_label \<noteq> Some (bp_to rc) then None
       else if as_secs (since tm (bp_at rc)) \<ge> BLIND_PREEMPT_NOTICE_SECS then None
       else Some (bp_from rc, bp_to rc, bp_last_known_session_pct rc))"

definition recent_landing_overshoot_view ::
  "landing_overshoot_record option \<Rightarrow> instant \<Rightarrow> (string \<times> nat \<times> nat) option" where
  "recent_landing_overshoot_view r tm =
     (case r of None \<Rightarrow> None | Some rc \<Rightarrow>
       if as_secs (since tm (lo_at rc)) \<ge> LANDING_OVERSHOOT_NOTICE_SECS then None
       else Some (lo_from_label rc, lo_decision_pct rc, lo_landing_pct rc))"

end
