(* ===== verification/Selection.thy ===== *)
theory Selection
  imports Records "HOL-Library.Product_Lexorder" "HOL-Library.Option_ord"
begin

text \<open>
  \<open>src/daemon/selection.rs\<close> and the relief classification of \<open>src/daemon.rs\<close>: which account the daemon
  swaps to, and, when there is none, which blocked account comes back first. The comparison closure of
  the Rust code is modelled as written, with \<open>Ordering\<close> as a datatype, \<open>then_with\<close> and \<open>min_by\<close>; the
  locale \<open>comparator\<close> states what \<open>min_by\<close> needs of it, and the interpretation \<open>sel\<close> discharges it by
  exhibiting the lexicographic key the closure compares.
\<close>

section \<open>Comparators\<close>

datatype ordering = OLess | OEqual | OGreater

definition ord_cmp :: "'a::linorder \<Rightarrow> 'a \<Rightarrow> ordering" where
  "ord_cmp a b = (if a < b then OLess else if a = b then OEqual else OGreater)"

definition then_with :: "ordering \<Rightarrow> ordering \<Rightarrow> ordering" where
  "then_with x y = (if x = OEqual then y else x)"

text \<open>\<open>Iterator::min_by\<close> keeps the earlier of two equal elements.\<close>

fun min_by :: "('a \<Rightarrow> 'a \<Rightarrow> ordering) \<Rightarrow> 'a list \<Rightarrow> 'a option" where
  "min_by cmp [] = None"
| "min_by cmp (x # xs) = Some (fold (\<lambda>y m. if cmp m y = OGreater then y else m) xs x)"

lemma ord_cmp_simps [simp]:
  "ord_cmp a b = OLess \<longleftrightarrow> a < b" "ord_cmp a b = OEqual \<longleftrightarrow> a = b" "ord_cmp a b = OGreater \<longleftrightarrow> b < a"
  by (auto simp: ord_cmp_def)

lemma then_with_ord_cmp: "then_with (ord_cmp a b) (ord_cmp c d) = ord_cmp (a, c) (b, d)"
  by (auto simp: then_with_def ord_cmp_def less_prod_def)

lemma ord_cmp_nest: "ord_cmp ((a, b), c) ((a', b'), c') = ord_cmp (a, b, c) (a', b', c')"
  by (auto simp: ord_cmp_def less_prod_simp less_eq_prod_simp)

lemma then_with_assoc: "then_with (then_with x y) z = then_with x (then_with y z)"
  by (simp add: then_with_def)

lemma min_by_None [simp]: "min_by cmp xs = None \<longleftrightarrow> xs = []"
  by (cases xs) simp_all

locale comparator =
  fixes cmp :: "'a \<Rightarrow> 'a \<Rightarrow> ordering"
  assumes cmp_flip: "cmp a b = OGreater \<longleftrightarrow> cmp b a = OLess"
    and cmp_trans: "cmp a b \<noteq> OGreater \<Longrightarrow> cmp b c \<noteq> OGreater \<Longrightarrow> cmp a c \<noteq> OGreater"
begin

lemma cmp_refl: "cmp a a \<noteq> OGreater"
  using cmp_flip [of a a] by auto

lemma fold_least:
  "(let m = fold (\<lambda>y m. if cmp m y = OGreater then y else m) xs x
    in m \<in> set (x # xs) \<and> (\<forall>y \<in> set (x # xs). cmp m y \<noteq> OGreater))"
proof (induction xs arbitrary: x)
  case Nil
  then show ?case by (simp add: cmp_refl)
next
  case (Cons z xs)
  let ?x = "if cmp x z = OGreater then z else x"
  let ?m = "fold (\<lambda>y m. if cmp m y = OGreater then y else m) xs ?x"
  have ih: "?m \<in> set (?x # xs)" "\<forall>y \<in> set (?x # xs). cmp ?m y \<noteq> OGreater"
    using Cons.IH [of ?x] unfolding Let_def by blast+
  have "cmp ?x x \<noteq> OGreater" "cmp ?x z \<noteq> OGreater"
    using cmp_flip [of x z] cmp_flip [of z x] by (auto simp: cmp_refl)
  moreover have "cmp ?m ?x \<noteq> OGreater" using ih(2) by simp
  ultimately have "cmp ?m x \<noteq> OGreater" "cmp ?m z \<noteq> OGreater" using cmp_trans by blast+
  with ih show ?case by (auto simp: Let_def split: if_splits)
qed

lemma min_by_least:
  assumes "min_by cmp xs = Some m"
  shows "m \<in> set xs \<and> (\<forall>y \<in> set xs. cmp m y \<noteq> OGreater)"
proof (cases xs)
  case (Cons x ys)
  then show ?thesis using assms fold_least [of ys x] by (simp add: Let_def)
qed (use assms in simp)

end

section \<open>Picking the target\<close>

datatype next_swap_reason = NSR_SoonestReset int | NSR_OnlyCandidate | NSR_RosterOrder

record selection_tiebreak =
  st_accounts :: "account_runtime list"
  st_seed :: "64 word option"

definition observed_climb :: "usage \<Rightarrow> account_runtime list \<Rightarrow> nat \<Rightarrow> f64 option" where
  "observed_climb u accounts idx =
     (case session u of None \<Rightarrow> None | Some _ \<Rightarrow>
       (if idx < length accounts
        then (case sustained_session_velocity (accounts ! idx) of
            Some v \<Rightarrow> if f_gt (ema_rate v) (Fin 0) then Some (ema_rate v) else None
          | None \<Rightarrow> None)
        else None))"

definition selection_tiebreak_key :: "64 word \<Rightarrow> nat \<Rightarrow> 64 word" where
  "selection_tiebreak_key seed index =
     fst (next_u64 (SplitMix64_new (seed + of_nat index * 0x9E3779B97F4A7C15)))"

definition reset_key :: "usage \<Rightarrow> bool \<times> int" where
  "reset_key u = (case weekly_resets_at u of None \<Rightarrow> (True, I64_MAX) | Some r \<Rightarrow> (False, r))"

definition climb_cmp :: "f64 option \<Rightarrow> f64 option \<Rightarrow> ordering" where
  "climb_cmp a b = (case (a, b) of
      (None, None) \<Rightarrow> OEqual
    | (None, Some _) \<Rightarrow> OLess
    | (Some _, None) \<Rightarrow> OGreater
    | (Some a_rate, Some b_rate) \<Rightarrow> ord_cmp a_rate b_rate)"

definition target_cmp :: "selection_tiebreak \<Rightarrow> nat \<times> usage \<Rightarrow> nat \<times> usage \<Rightarrow> ordering" where
  "target_cmp sel x y =
     (case x of (a_idx, a) \<Rightarrow> (case y of (b_idx, b) \<Rightarrow>
       then_with
         (then_with (ord_cmp (reset_key a) (reset_key b))
           (case st_seed sel of
              Some seed \<Rightarrow>
                then_with (climb_cmp (observed_climb a (st_accounts sel) a_idx)
                                     (observed_climb b (st_accounts sel) b_idx))
                  (ord_cmp (selection_tiebreak_key seed a_idx) (selection_tiebreak_key seed b_idx))
            | None \<Rightarrow> OEqual))
         (ord_cmp a_idx b_idx)))"

text \<open>\<open>Option::is_none_or(|x| x < line)\<close>.\<close>

definition none_or_below :: "f64 option \<Rightarrow> f64 \<Rightarrow> bool" where
  "none_or_below v line = (case v of None \<Rightarrow> True | Some x \<Rightarrow> f_lt x line)"

text \<open>
  The iterator chain. The code indexes \<open>enabled\<close> by the position of the reading; both slices have one
  entry per roster account.
\<close>

definition viable_targets ::
  "nat \<Rightarrow> usage option list \<Rightarrow> bool list \<Rightarrow> f64 option \<Rightarrow> f64 \<Rightarrow> f64 \<Rightarrow> (nat \<times> usage) list" where
  "viable_targets act readings enabled floor_line session_ceiling weekly_ceiling =
     filter (\<lambda>(_, u). case floor_line of None \<Rightarrow> True | Some f \<Rightarrow> none_or_below (session u) f)
      (filter (\<lambda>(_, u). none_or_below (session u) session_ceiling)
       (filter (\<lambda>(_, u). none_or_below (weekly u) weekly_ceiling)
        (List.map_filter (\<lambda>(i, reading). map_option (Pair i) reading)
         (filter (\<lambda>(i, _). enabled ! i)
          (filter (\<lambda>(i, _). i \<noteq> act) (enumerate 0 readings))))))"

definition pick_target_with_reason_ranked ::
  "nat \<Rightarrow> usage option list \<Rightarrow> bool list \<Rightarrow> f64 option \<Rightarrow> f64 \<Rightarrow> f64 \<Rightarrow> selection_tiebreak \<Rightarrow>
   (nat \<times> next_swap_reason) option" where
  "pick_target_with_reason_ranked act readings enabled floor_line session_ceiling weekly_ceiling sel =
     (let viable = viable_targets act readings enabled floor_line session_ceiling weekly_ceiling;
          candidate_count = length viable
      in (case min_by (target_cmp sel) viable of
            None \<Rightarrow> None
          | Some (idx, u) \<Rightarrow>
              Some (idx,
                if candidate_count < 2 then NSR_OnlyCandidate
                else (case weekly_resets_at u of
                    Some resets_at \<Rightarrow> NSR_SoonestReset resets_at
                  | None \<Rightarrow> NSR_RosterOrder))))"

definition pick_target_ranked ::
  "nat \<Rightarrow> usage option list \<Rightarrow> bool list \<Rightarrow> f64 option \<Rightarrow> f64 \<Rightarrow> f64 \<Rightarrow> selection_tiebreak \<Rightarrow> nat option" where
  "pick_target_ranked act readings enabled floor_line session_ceiling weekly_ceiling sel =
     map_option fst (pick_target_with_reason_ranked act readings enabled floor_line session_ceiling weekly_ceiling sel)"

definition pick_target_with_reason ::
  "nat \<Rightarrow> usage option list \<Rightarrow> bool list \<Rightarrow> f64 option \<Rightarrow> f64 \<Rightarrow> f64 \<Rightarrow> (nat \<times> next_swap_reason) option" where
  "pick_target_with_reason act readings enabled floor_line session_ceiling weekly_ceiling =
     pick_target_with_reason_ranked act readings enabled floor_line session_ceiling weekly_ceiling
       \<lparr>st_accounts = [], st_seed = None\<rparr>"

definition pick_target ::
  "nat \<Rightarrow> usage option list \<Rightarrow> bool list \<Rightarrow> f64 option \<Rightarrow> f64 \<Rightarrow> f64 \<Rightarrow> nat option" where
  "pick_target act readings enabled floor_line session_ceiling weekly_ceiling =
     map_option fst (pick_target_with_reason act readings enabled floor_line session_ceiling weekly_ceiling)"

section \<open>The key the comparison sorts by\<close>

definition target_key :: "selection_tiebreak \<Rightarrow> nat \<times> usage \<Rightarrow> (bool \<times> int) \<times> (f64 option \<times> 64 word) \<times> nat" where
  "target_key sel x =
     (reset_key (snd x),
      (case st_seed sel of
         Some seed \<Rightarrow> (observed_climb (snd x) (st_accounts sel) (fst x), selection_tiebreak_key seed (fst x))
       | None \<Rightarrow> (None, 0)),
      fst x)"

lemma climb_cmp_ord: "climb_cmp a b = ord_cmp a b"
  by (cases a; cases b) (auto simp: climb_cmp_def ord_cmp_def)

lemma target_cmp_key: "target_cmp sel x y = ord_cmp (target_key sel x) (target_key sel y)"
proof (cases "st_seed sel")
  case None
  have "then_with (ord_cmp a b) OEqual = ord_cmp a b" for a b :: "bool \<times> int"
    by (auto simp: then_with_def ord_cmp_def)
  with None show ?thesis
    by (simp add: target_cmp_def target_key_def split_beta flip: then_with_ord_cmp)
      (simp add: then_with_def ord_cmp_def)
next
  case (Some seed)
  then show ?thesis
    by (simp add: target_cmp_def target_key_def split_beta climb_cmp_ord then_with_ord_cmp ord_cmp_nest)
qed

interpretation sel: comparator "target_cmp sel" for sel
  by unfold_locales (auto simp: target_cmp_key)

lemma target_key_reset: "target_key sel x \<le> target_key sel y \<Longrightarrow> reset_key (snd x) \<le> reset_key (snd y)"
  unfolding target_key_def less_eq_prod_simp by (meson order_less_imp_le)

lemma target_key_climb:
  assumes "target_key sel x \<le> target_key sel y" "reset_key (snd x) = reset_key (snd y)" "st_seed sel = Some seed"
  shows "observed_climb (snd x) (st_accounts sel) (fst x) \<le> observed_climb (snd y) (st_accounts sel) (fst y)"
  using assms(1) unfolding target_key_def less_eq_prod_simp less_prod_simp assms(2,3)
  by (auto dest: order_less_imp_le)

lemma reset_key_inj: "reset_key u = reset_key v \<longleftrightarrow> weekly_resets_at u = weekly_resets_at v"
  by (auto simp: reset_key_def split: option.splits)

lemma target_key_inj: "target_key sel x = target_key sel y \<Longrightarrow> fst x = fst y"
  by (simp add: target_key_def)

lemma viable_targets_iff:
  "(i, u) \<in> set (viable_targets act readings enabled floor_line sc wc) \<longleftrightarrow>
     i < length readings \<and> readings ! i = Some u \<and> i \<noteq> act \<and> enabled ! i \<and>
     none_or_below (weekly u) wc \<and> none_or_below (session u) sc \<and>
     (\<forall>f. floor_line = Some f \<longrightarrow> none_or_below (session u) f)"
  by (auto simp: viable_targets_def List.map_filter_def in_set_enumerate_eq image_iff split: option.splits)

lemma pick_ranked_Some:
  assumes "pick_target_with_reason_ranked act readings enabled floor_line sc wc sel = Some (t, why)"
  obtains u where "(t, u) \<in> set (viable_targets act readings enabled floor_line sc wc)"
    "\<forall>y \<in> set (viable_targets act readings enabled floor_line sc wc). target_key sel (t, u) \<le> target_key sel y"
    "min_by (target_cmp sel) (viable_targets act readings enabled floor_line sc wc) = Some (t, u)"
proof -
  let ?vs = "viable_targets act readings enabled floor_line sc wc"
  obtain u where u: "min_by (target_cmp sel) ?vs = Some (t, u)"
    using assms by (auto simp: pick_target_with_reason_ranked_def Let_def split: option.splits prod.splits)
  from sel.min_by_least [OF this] show thesis
    using that [of u] u by (simp add: target_cmp_key not_less)
qed

lemma pick_ranked_None:
  "pick_target_with_reason_ranked act readings enabled floor_line sc wc sel = None \<longleftrightarrow>
   viable_targets act readings enabled floor_line sc wc = []"
  by (auto simp: pick_target_with_reason_ranked_def Let_def split: option.splits)

lemma none_or_below_not_ge: "none_or_below v l \<Longrightarrow> v = Some x \<Longrightarrow> \<not> f_ge x l"
  by (auto simp: none_or_below_def f_lt_def f_le_def)

section \<open>Properties\<close>

definition usage_sample :: "rat \<Rightarrow> rat \<Rightarrow> int option \<Rightarrow> usage" where
  "usage_sample s w r = \<lparr>session = Some (Fin s), weekly = Some (Fin w), weekly_resets_at = r, session_resets_at = None\<rparr>"

definition readings_sample :: "usage option list" where
  "readings_sample = [Some (usage_sample 1 (1 / 4) None), Some (usage_sample (1 / 4) (1 / 4) (Some 500)),
     Some (usage_sample (1 / 8) (1 / 4) (Some 200)), Some (usage_sample 0 1 (Some 100)), None]"

lemma readings_sample_targets:
  "viable_targets 0 readings_sample [True, True, True, True, True] (Some (Fin (3 / 4))) (Fin (7 / 8)) (Fin (7 / 8)) =
     [(1, usage_sample (1 / 4) (1 / 4) (Some 500)), (2, usage_sample (1 / 8) (1 / 4) (Some 200))]"
  by (simp add: viable_targets_def readings_sample_def usage_sample_def none_or_below_def f_lt_def
      enumerate_simps List.map_filter_def)

lemma readings_sample_pick:
  "pick_target_ranked 0 readings_sample [True, True, True, True, True] (Some (Fin (3 / 4))) (Fin (7 / 8)) (Fin (7 / 8))
     \<lparr>st_accounts = [], st_seed = None\<rparr> = Some 2"
  unfolding pick_target_ranked_def pick_target_with_reason_ranked_def readings_sample_targets
  by (simp add: target_cmp_def reset_key_def usage_sample_def then_with_def ord_cmp_def)



text \<open>
  C13: The picker misses nothing and ranks as documented: it returns no target exactly when no enabled,
  other account has a viable reading, and the target it returns has the soonest known weekly reset among
  all viable accounts (an account with an unknown reset is taken only when no viable one has a known
  reset).
\<close>

theorem pick_target_complete_minimal:
  "(pick_target_ranked act readings enabled flr sc wc sel = None \<longleftrightarrow>
      viable_targets act readings enabled flr sc wc = []) \<and>
   (\<forall>t. pick_target_ranked act readings enabled flr sc wc sel = Some t \<longrightarrow>
      (\<exists>u. readings ! t = Some u \<and>
        (\<forall>(i, v) \<in> set (viable_targets act readings enabled flr sc wc).
           (case (weekly_resets_at u, weekly_resets_at v) of
              (Some r, Some q) \<Rightarrow> r \<le> q | (None, Some _) \<Rightarrow> False | _ \<Rightarrow> True))))"
proof (intro conjI allI impI)
  show "pick_target_ranked act readings enabled flr sc wc sel = None \<longleftrightarrow>
      viable_targets act readings enabled flr sc wc = []"
    by (simp add: pick_target_ranked_def pick_ranked_None)
next
  fix t
  assume "pick_target_ranked act readings enabled flr sc wc sel = Some t"
  then obtain why where "pick_target_with_reason_ranked act readings enabled flr sc wc sel = Some (t, why)"
    by (auto simp: pick_target_ranked_def)
  then obtain u where u: "(t, u) \<in> set (viable_targets act readings enabled flr sc wc)"
    "\<forall>y \<in> set (viable_targets act readings enabled flr sc wc). target_key sel (t, u) \<le> target_key sel y"
    by (rule pick_ranked_Some)
  have "reset_key u \<le> reset_key v" if "(i, v) \<in> set (viable_targets act readings enabled flr sc wc)" for i v
    using target_key_reset [of sel "(t, u)" "(i, v)"] u(2) that by simp
  moreover have "readings ! t = Some u" using u(1) by (simp add: viable_targets_iff)
  ultimately show "\<exists>u. readings ! t = Some u \<and>
        (\<forall>(i, v) \<in> set (viable_targets act readings enabled flr sc wc).
           (case (weekly_resets_at u, weekly_resets_at v) of
              (Some r, Some q) \<Rightarrow> r \<le> q | (None, Some _) \<Rightarrow> False | _ \<Rightarrow> True))"
    by (fastforce simp: reset_key_def split: option.splits)
qed

theorem pick_target_complete_minimal_witness:
  "\<exists>u. readings_sample ! 2 = Some u \<and>
    (\<forall>(i, v) \<in> set (viable_targets 0 readings_sample [True, True, True, True, True] (Some (Fin (3 / 4))) (Fin (7 / 8)) (Fin (7 / 8))).
       (case (weekly_resets_at u, weekly_resets_at v) of
          (Some r, Some q) \<Rightarrow> r \<le> q | (None, Some _) \<Rightarrow> False | _ \<Rightarrow> True))"
  using pick_target_complete_minimal [THEN conjunct2, rule_format, OF readings_sample_pick] .

text \<open>
  The seeded tie-break decides among equals only: whatever the seed and the observed velocities, the
  seeded pick has the same weekly reset as the unseeded one, so the documented soonest-reset axis is
  never overridden; and among the viable accounts that share this reset it is one whose observed session
  velocity is least (an account with none observed coming first).
\<close>

theorem seeded_pick_refines:
  assumes "pick_target_ranked act readings enabled flr sc wc \<lparr>st_accounts = accs, st_seed = Some seed\<rparr> = Some t"
    and "pick_target act readings enabled flr sc wc = Some t'"
  shows "\<exists>u u'. readings ! t = Some u \<and> readings ! t' = Some u' \<and> weekly_resets_at u = weekly_resets_at u' \<and>
    (\<forall>(i, v) \<in> set (viable_targets act readings enabled flr sc wc).
       weekly_resets_at v = weekly_resets_at u \<longrightarrow> observed_climb u accs t \<le> observed_climb v accs i)"
proof -
  let ?vs = "viable_targets act readings enabled flr sc wc"
  let ?s0 = "\<lparr>st_accounts = [], st_seed = None\<rparr>"
  let ?s1 = "\<lparr>st_accounts = accs, st_seed = Some seed\<rparr>"
  obtain why why' where
    p: "pick_target_with_reason_ranked act readings enabled flr sc wc ?s1 = Some (t, why)"
    "pick_target_with_reason_ranked act readings enabled flr sc wc ?s0 = Some (t', why')"
    using assms by (auto simp: pick_target_ranked_def pick_target_def pick_target_with_reason_def)
  obtain u where u: "(t, u) \<in> set ?vs" "\<forall>y \<in> set ?vs. target_key ?s1 (t, u) \<le> target_key ?s1 y"
    using p(1) by (rule pick_ranked_Some)
  obtain u' where u': "(t', u') \<in> set ?vs" "\<forall>y \<in> set ?vs. target_key ?s0 (t', u') \<le> target_key ?s0 y"
    using p(2) by (rule pick_ranked_Some)
  have "reset_key u \<le> reset_key u'" "reset_key u' \<le> reset_key u"
    using target_key_reset [of ?s1 "(t, u)" "(t', u')"] target_key_reset [of ?s0 "(t', u')" "(t, u)"] u u'
    by simp_all
  then have "weekly_resets_at u = weekly_resets_at u'" by (simp flip: reset_key_inj)
  moreover have "observed_climb u accs t \<le> observed_climb v accs i"
    if "(i, v) \<in> set ?vs" "weekly_resets_at v = weekly_resets_at u" for i v
    using target_key_climb [of ?s1 "(t, u)" "(i, v)" seed] u(2) that by (simp add: reset_key_inj)
  ultimately show ?thesis using u(1) u'(1) by (auto simp: viable_targets_iff)
qed

lemma readings_sample_pick_seeded:
  "pick_target_ranked 0 readings_sample [True, True, True, True, True] (Some (Fin (3 / 4))) (Fin (7 / 8)) (Fin (7 / 8))
     \<lparr>st_accounts = [], st_seed = Some 5\<rparr> = Some 2"
  unfolding pick_target_ranked_def pick_target_with_reason_ranked_def readings_sample_targets
  by (simp add: target_cmp_def reset_key_def usage_sample_def then_with_def ord_cmp_def)

theorem seeded_pick_refines_witness:
  "\<exists>u u'. readings_sample ! 2 = Some u \<and> readings_sample ! 2 = Some u' \<and> weekly_resets_at u = weekly_resets_at u'"
proof -
  have "pick_target 0 readings_sample [True, True, True, True, True] (Some (Fin (3 / 4))) (Fin (7 / 8)) (Fin (7 / 8)) = Some 2"
    using readings_sample_pick by (simp add: pick_target_def pick_target_with_reason_def pick_target_ranked_def)
  from seeded_pick_refines [OF readings_sample_pick_seeded this] show ?thesis by blast
qed

end
