(* ===== verification/Relief.thy ===== *)
theory Relief
  imports Selection
begin

text \<open>
  The free functions at the end of \<open>src/daemon.rs\<close>: which blocked account returns first when none can be
  swapped to (\<open>spare_relief\<close>, \<open>all_exhausted_relief\<close>), how long an exhausted account is left unpolled
  (\<open>exhausted_poll_window\<close>), and the verdict on an operator's swap command (\<open>swap_command_verdict\<close>).
  Epoch seconds are \<open>int\<close>; the subtraction \<open>resets_at - now_secs\<close> of two such stamps does not come near
  the bounds of an \<open>i64\<close>.
\<close>

section \<open>The first blocked account to return\<close>

definition spare_relief :: "usage \<Rightarrow> bool \<Rightarrow> bool \<Rightarrow> (int \<times> swap_reason) option" where
  "spare_relief u is_session_blocked is_weekly_blocked =
     (if is_session_blocked \<and> session_resets_at u = None then None
      else if is_weekly_blocked \<and> weekly_resets_at u = None then None
      else
        let s = (if is_session_blocked then map_option (\<lambda>r. (r, SR_Session)) (session_resets_at u) else None);
            w = (if is_weekly_blocked then map_option (\<lambda>r. (r, SR_Weekly)) (weekly_resets_at u) else None)
        in (case (s, w) of
              (Some s', Some w') \<Rightarrow> Some (if fst w' \<ge> fst s' then w' else s')
            | (Some only, None) \<Rightarrow> Some only
            | (None, Some only) \<Rightarrow> Some only
            | (None, None) \<Rightarrow> None))"

definition some_at_least :: "f64 option \<Rightarrow> f64 \<Rightarrow> bool" where
  "some_at_least v line = (case v of None \<Rightarrow> False | Some x \<Rightarrow> f_ge x line)"

type_synonym relief_acc = "(nat \<times> int \<times> swap_reason) option \<times> (nat \<times> swap_reason) option"

definition relief_step ::
  "nat \<Rightarrow> bool list \<Rightarrow> f64 \<Rightarrow> f64 \<Rightarrow> nat \<times> usage option \<Rightarrow> relief_acc \<Rightarrow> relief_acc" where
  "relief_step act enabled session_block_line weekly_block_line x acc =
     (case x of (i, reading) \<Rightarrow> (case acc of (relief, first_blocked) \<Rightarrow>
       if i = act \<or> \<not> enabled ! i then acc
       else (case reading of None \<Rightarrow> acc | Some u \<Rightarrow>
         let s_blocked = some_at_least (session u) session_block_line;
             w_blocked = some_at_least (weekly u) weekly_block_line
         in if \<not> s_blocked \<and> \<not> w_blocked then acc
            else
              let first' = (case first_blocked of Some f \<Rightarrow> Some f
                    | None \<Rightarrow> Some (i, if w_blocked then SR_Weekly else SR_Session));
                  relief' = (case spare_relief u s_blocked w_blocked of
                      Some (t, cause) \<Rightarrow>
                        (if (case relief of None \<Rightarrow> True | Some (_, best, _) \<Rightarrow> t < best)
                         then Some (i, t, cause) else relief)
                    | None \<Rightarrow> relief)
              in (relief', first'))))"

definition all_exhausted_relief ::
  "nat \<Rightarrow> usage option list \<Rightarrow> bool list \<Rightarrow> f64 \<Rightarrow> f64 \<Rightarrow> swap_reason \<times> nat \<times> int option" where
  "all_exhausted_relief act readings enabled session_block_line weekly_block_line =
     (case fold (relief_step act enabled session_block_line weekly_block_line) (enumerate 0 readings) (None, None) of
        (Some (idx, t, cause), _) \<Rightarrow> (cause, idx, Some t)
      | (None, Some (idx, cause)) \<Rightarrow> (cause, idx, None)
      | (None, None) \<Rightarrow> (SR_Weekly, act, None))"

section \<open>Polling an exhausted account\<close>

definition consider_reset :: "int option \<Rightarrow> int option \<Rightarrow> int option" where
  "consider_reset soonest resets_at =
     (case resets_at of None \<Rightarrow> soonest
      | Some r \<Rightarrow> Some (case soonest of None \<Rightarrow> r | Some cur \<Rightarrow> min cur r))"

text \<open>The first two statements of \<open>exhausted_poll_window\<close>: the soonest reset of a dimension at its ceiling.\<close>

definition soonest_exhausted_reset :: "usage \<Rightarrow> f64 \<Rightarrow> f64 \<Rightarrow> int option" where
  "soonest_exhausted_reset reading weekly_ceiling session_ceiling =
     (let s0 = None;
          s1 = (if some_at_least (weekly reading) weekly_ceiling
                then consider_reset s0 (weekly_resets_at reading) else s0)
      in if some_at_least (session reading) session_ceiling
         then consider_reset s1 (session_resets_at reading) else s1)"

definition exhausted_poll_window :: "usage \<Rightarrow> f64 \<Rightarrow> f64 \<Rightarrow> int \<Rightarrow> nat \<Rightarrow> nat \<Rightarrow> duration" where
  "exhausted_poll_window reading weekly_ceiling session_ceiling now_secs exhausted_poll_secs poll_secs =
     (let soonest = soonest_exhausted_reset reading weekly_ceiling session_ceiling;
          upper = int exhausted_poll_secs;
          lower = int poll_secs;
          secs = (case soonest of
              Some resets_at \<Rightarrow> min (max (resets_at - now_secs) lower) upper
            | None \<Rightarrow> upper)
      in from_secs (nat (max secs 0)))"

section \<open>The verdict on a swap command\<close>

definition swap_command_verdict :: "nat \<Rightarrow> nat option \<Rightarrow> bool \<Rightarrow> bool \<Rightarrow> bool \<Rightarrow> bool \<Rightarrow> swap_verdict" where
  "swap_command_verdict target act is_quarantined weekly_exhausted in_cooldown force =
     (if \<not> force \<and> act = Some target then SV_AlreadyActive
      else if act = None then SV_Reject SwRej_NoActiveAccount
      else if \<not> force \<and> is_quarantined then SV_Reject SwRej_Quarantined
      else if \<not> force \<and> weekly_exhausted then SV_Reject SwRej_WeeklyExhausted
      else if \<not> force \<and> in_cooldown then SV_Reject SwRej_Cooldown
      else SV_Swap)"

section \<open>Lemmas\<close>

text \<open>
  The relief of a spare: an enabled, other account, blocked on at least one dimension, with the instant
  at which every dimension that blocks it has reset.
\<close>

definition blocked_spare :: "nat \<Rightarrow> bool list \<Rightarrow> f64 \<Rightarrow> f64 \<Rightarrow> nat \<times> usage option \<Rightarrow> bool" where
  "blocked_spare act enabled sl wl x \<longleftrightarrow>
     fst x \<noteq> act \<and> enabled ! fst x \<and>
     (case snd x of None \<Rightarrow> False | Some u \<Rightarrow> some_at_least (session u) sl \<or> some_at_least (weekly u) wl)"

definition relief_of :: "f64 \<Rightarrow> f64 \<Rightarrow> nat \<times> usage option \<Rightarrow> (int \<times> swap_reason) option" where
  "relief_of sl wl x =
     (case snd x of None \<Rightarrow> None
      | Some u \<Rightarrow> spare_relief u (some_at_least (session u) sl) (some_at_least (weekly u) wl))"

lemma relief_step_skip: "\<not> blocked_spare act enabled sl wl x \<Longrightarrow> relief_step act enabled sl wl x acc = acc"
  by (cases x; cases acc) (auto simp: relief_step_def blocked_spare_def Let_def split: option.splits)

lemma relief_step_blocked:
  assumes "blocked_spare act enabled sl wl x"
  shows "relief_step act enabled sl wl x (relief, first) =
    ((case relief_of sl wl x of
        Some (t, cause) \<Rightarrow> (if (case relief of None \<Rightarrow> True | Some (_, best, _) \<Rightarrow> t < best)
                             then Some (fst x, t, cause) else relief)
      | None \<Rightarrow> relief),
     (case first of Some f \<Rightarrow> Some f
      | None \<Rightarrow> Some (fst x, if some_at_least (weekly (the (snd x))) wl then SR_Weekly else SR_Session)))"
  using assms
  by (cases x) (auto simp: relief_step_def blocked_spare_def relief_of_def Let_def split: option.splits)

text \<open>What the accumulator holds after a prefix of the roster.\<close>

definition relief_inv :: "nat \<Rightarrow> bool list \<Rightarrow> f64 \<Rightarrow> f64 \<Rightarrow> (nat \<times> usage option) list \<Rightarrow> relief_acc \<Rightarrow> bool" where
  "relief_inv act enabled sl wl xs acc \<longleftrightarrow>
     (case fst acc of
        None \<Rightarrow> \<forall>x \<in> set xs. blocked_spare act enabled sl wl x \<longrightarrow> relief_of sl wl x = None
      | Some (i, t, cause) \<Rightarrow>
          (\<exists>r. (i, r) \<in> set xs \<and> blocked_spare act enabled sl wl (i, r) \<and> relief_of sl wl (i, r) = Some (t, cause)) \<and>
          (\<forall>x \<in> set xs. \<forall>t' c. blocked_spare act enabled sl wl x \<and> relief_of sl wl x = Some (t', c) \<longrightarrow> t \<le> t')) \<and>
     (case snd acc of
        None \<Rightarrow> \<forall>x \<in> set xs. \<not> blocked_spare act enabled sl wl x
      | Some (i, cause) \<Rightarrow> \<exists>r. (i, r) \<in> set xs \<and> blocked_spare act enabled sl wl (i, r))"

lemma relief_inv_step:
  assumes "relief_inv act enabled sl wl xs acc"
  shows "relief_inv act enabled sl wl (xs @ [x]) (relief_step act enabled sl wl x acc)"
proof (cases "blocked_spare act enabled sl wl x")
  case False
  then show ?thesis using assms
    by (auto simp: relief_step_skip relief_inv_def split: option.splits)
next
  case True
  obtain relief first where acc: "acc = (relief, first)" by (cases acc)
  obtain i r where x: "x = (i, r)" by (cases x)
  show ?thesis
    using assms True unfolding acc relief_step_blocked [OF True]
    by (auto simp: relief_inv_def x split: option.splits)
qed

lemma relief_inv_fold:
  "relief_inv act enabled sl wl ys acc \<Longrightarrow>
   relief_inv act enabled sl wl (ys @ xs) (fold (relief_step act enabled sl wl) xs acc)"
proof (induction xs arbitrary: ys acc)
  case (Cons x xs)
  from Cons.IH [OF relief_inv_step [OF Cons.prems]] show ?case by simp
qed simp

lemma relief_inv_all:
  "relief_inv act enabled sl wl (enumerate 0 readings)
     (fold (relief_step act enabled sl wl) (enumerate 0 readings) (None, None))"
  using relief_inv_fold [of act enabled sl wl "[]" "(None, None)" "enumerate 0 readings"]
  by (simp add: relief_inv_def)

lemma spare_relief_Some:
  assumes "spare_relief u sb wb = Some (t, cause)"
  shows "(sb \<longrightarrow> (\<exists>r. session_resets_at u = Some r \<and> r \<le> t)) \<and>
    (wb \<longrightarrow> (\<exists>r. weekly_resets_at u = Some r \<and> r \<le> t)) \<and>
    (cause = SR_Session \<and> sb \<and> session_resets_at u = Some t \<or>
     cause = SR_Weekly \<and> wb \<and> weekly_resets_at u = Some t)"
  using assms by (auto simp: spare_relief_def Let_def split: if_splits option.splits)

lemma soonest_exhausted_reset_le:
  assumes "some_at_least (weekly r) wl \<and> weekly_resets_at r = Some t \<or> some_at_least (session r) sl \<and> session_resets_at r = Some t"
  shows "\<exists>z. soonest_exhausted_reset r wl sl = Some z \<and> z \<le> t"
  using assms by (auto simp: soonest_exhausted_reset_def consider_reset_def Let_def split: option.split)

lemma exhausted_window_Some:
  assumes "soonest_exhausted_reset r wl sl = Some z"
  shows "int (as_secs (exhausted_poll_window r wl sl now_secs e p)) = min (max (z - now_secs) (int p)) (int e)"
proof -
  have "0 \<le> max (z - now_secs) (int p)" by (simp add: le_max_iff_disj)
  then show ?thesis using assms by (simp add: exhausted_poll_window_def Let_def)
qed

lemma exhausted_window_None:
  "soonest_exhausted_reset r wl sl = None \<Longrightarrow> as_secs (exhausted_poll_window r wl sl now_secs e p) = e"
  by (simp add: exhausted_poll_window_def Let_def)

section \<open>Properties\<close>

text \<open>
  The relief named when every account is exhausted is the earliest one: the account returned is an
  enabled spare blocked on a dimension the given lines name, at the instant returned every dimension
  blocking it has reset and the cause is one that resets exactly then, and no other blocked spare with
  known resets returns earlier. Without an instant, no blocked spare has all its blocking resets known.
\<close>

theorem all_exhausted_relief_earliest:
  assumes "all_exhausted_relief act readings enabled sl wl = (cause, idx, ts)"
  shows "(\<forall>t. ts = Some t \<longrightarrow>
      (\<exists>u. idx < length readings \<and> readings ! idx = Some u \<and> idx \<noteq> act \<and> enabled ! idx \<and>
        (some_at_least (session u) sl \<or> some_at_least (weekly u) wl) \<and>
        (some_at_least (session u) sl \<longrightarrow> (\<exists>r. session_resets_at u = Some r \<and> r \<le> t)) \<and>
        (some_at_least (weekly u) wl \<longrightarrow> (\<exists>r. weekly_resets_at u = Some r \<and> r \<le> t)) \<and>
        (cause = SR_Session \<and> session_resets_at u = Some t \<or> cause = SR_Weekly \<and> weekly_resets_at u = Some t)) \<and>
      (\<forall>x \<in> set (enumerate 0 readings). \<forall>t' c. blocked_spare act enabled sl wl x \<and>
        relief_of sl wl x = Some (t', c) \<longrightarrow> t \<le> t')) \<and>
    (ts = None \<longrightarrow> (\<forall>x \<in> set (enumerate 0 readings). blocked_spare act enabled sl wl x \<longrightarrow> relief_of sl wl x = None))"
proof -
  let ?acc = "fold (relief_step act enabled sl wl) (enumerate 0 readings) (None, None)"
  have inv: "relief_inv act enabled sl wl (enumerate 0 readings) ?acc" by (rule relief_inv_all)
  show ?thesis
  proof (cases "fst ?acc")
    case None
    then have "ts = None" using assms
      by (cases ?acc) (auto simp: all_exhausted_relief_def split: option.splits)
    with inv None show ?thesis by (simp add: relief_inv_def)
  next
    case (Some r)
    then obtain i t c where r: "fst ?acc = Some (i, t, c)" by (cases r) auto
    then have res: "cause = c" "idx = i" "ts = Some t" using assms
      by (cases ?acc; auto simp: all_exhausted_relief_def)+
    obtain rd where rd: "(i, rd) \<in> set (enumerate 0 readings)" "blocked_spare act enabled sl wl (i, rd)"
        "relief_of sl wl (i, rd) = Some (t, c)"
      and least: "\<forall>x \<in> set (enumerate 0 readings). \<forall>t' c. blocked_spare act enabled sl wl x \<and>
        relief_of sl wl x = Some (t', c) \<longrightarrow> t \<le> t'"
      using inv unfolding relief_inv_def r by auto
    obtain u where u: "rd = Some u" using rd(2) by (auto simp: blocked_spare_def split: option.splits)
    have sp: "spare_relief u (some_at_least (session u) sl) (some_at_least (weekly u) wl) = Some (t, c)"
      using rd(3) by (simp add: relief_of_def u)
    have "i < length readings \<and> readings ! i = Some u \<and> i \<noteq> act \<and> enabled ! i \<and>
        (some_at_least (session u) sl \<or> some_at_least (weekly u) wl)"
      using rd(1,2) by (simp add: u blocked_spare_def in_set_enumerate_eq)
    then show ?thesis using spare_relief_Some [OF sp] least unfolding res by auto
  qed
qed

definition blocked_readings_sample :: "usage option list" where
  "blocked_readings_sample =
     [Some \<lparr>session = Some (Fin 1), weekly = None, weekly_resets_at = None, session_resets_at = Some 900\<rparr>,
      Some \<lparr>session = Some (Fin 1), weekly = Some (Fin 1), weekly_resets_at = Some 800, session_resets_at = Some 300\<rparr>,
      Some \<lparr>session = Some (Fin 1), weekly = Some (Fin 0), weekly_resets_at = None, session_resets_at = Some 500\<rparr>]"

lemma blocked_readings_relief:
  "all_exhausted_relief 0 blocked_readings_sample [True, True, True] (Fin (1 / 2)) (Fin (7 / 8)) = (SR_Session, 2, Some 500)"
  by (simp add: all_exhausted_relief_def blocked_readings_sample_def relief_step_def spare_relief_def
      some_at_least_def f_le_def)

theorem all_exhausted_relief_earliest_witness:
  "\<exists>u. blocked_readings_sample ! 2 = Some u \<and> session_resets_at u = Some 500"
  using all_exhausted_relief_earliest [OF blocked_readings_relief] by auto

text \<open>
  The window for which an exhausted account is left unpolled lies between the regular and the
  exhausted poll interval, never overshoots the first reset of a dimension that exhausts it unless the
  regular interval itself does, and is the full exhausted interval when no such reset is known.
\<close>

theorem exhausted_poll_window_bounds:
  assumes "poll_secs \<le> exhausted_poll_secs"
  shows "poll_secs \<le> as_secs (exhausted_poll_window r wl sl now_secs exhausted_poll_secs poll_secs) \<and>
    as_secs (exhausted_poll_window r wl sl now_secs exhausted_poll_secs poll_secs) \<le> exhausted_poll_secs \<and>
    (\<forall>reset. (some_at_least (weekly r) wl \<and> weekly_resets_at r = Some reset \<or>
              some_at_least (session r) sl \<and> session_resets_at r = Some reset) \<longrightarrow>
       int (as_secs (exhausted_poll_window r wl sl now_secs exhausted_poll_secs poll_secs)) \<le>
         max (int poll_secs) (reset - now_secs))"
proof (cases "soonest_exhausted_reset r wl sl")
  case None
  then show ?thesis
    using assms soonest_exhausted_reset_le [of r wl _ sl] by (auto simp: exhausted_window_None)
next
  case (Some z)
  let ?w = "as_secs (exhausted_poll_window r wl sl now_secs exhausted_poll_secs poll_secs)"
  have w: "int ?w = min (max (z - now_secs) (int poll_secs)) (int exhausted_poll_secs)"
    using Some by (rule exhausted_window_Some)
  have "int ?w \<le> max (int poll_secs) (t - now_secs)"
    if "some_at_least (weekly r) wl \<and> weekly_resets_at r = Some t \<or> some_at_least (session r) sl \<and> session_resets_at r = Some t" for t
    using soonest_exhausted_reset_le [OF that] Some unfolding w by auto
  moreover have "int poll_secs \<le> int ?w" "int ?w \<le> int exhausted_poll_secs" unfolding w using assms by simp_all
  ultimately show ?thesis by simp
qed

theorem exhausted_poll_window_bounds_witness:
  "as_secs (exhausted_poll_window \<lparr>session = Some (Fin 1), weekly = None, weekly_resets_at = None,
     session_resets_at = Some 1400\<rparr> (Fin 1) (Fin (1 / 2)) 1000 3600 60) \<le> 400"
  using exhausted_poll_window_bounds [of 60 3600 "\<lparr>session = Some (Fin 1), weekly = None,
      weekly_resets_at = None, session_resets_at = Some 1400\<rparr>" "Fin 1" "Fin (1 / 2)" 1000]
  by (simp add: some_at_least_def f_le_def)

text \<open>
  An operator's swap command is carried out only when an account is active and, unless it is forced,
  the target is another account, not quarantined, not weekly-exhausted, and no cool-down runs; a forced
  command is refused for one reason only, that there is no account to swap away from.
\<close>

theorem swap_command_verdict_gates:
  "(swap_command_verdict target act q w c force = SV_Swap \<longleftrightarrow>
      act \<noteq> None \<and> (force \<or> act \<noteq> Some target \<and> \<not> q \<and> \<not> w \<and> \<not> c)) \<and>
   (\<forall>why. swap_command_verdict target act q w c True = SV_Reject why \<longrightarrow> why = SwRej_NoActiveAccount \<and> act = None)"
  by (auto simp: swap_command_verdict_def)

theorem swap_command_verdict_gates_witness:
  "swap_command_verdict 1 (Some 0) True True True True = SV_Swap"
  using swap_command_verdict_gates [of 1 "Some 0" True True True True] by simp

end
