(* ===== verification/Text.thy ===== *)
theory Text
  imports Prelude
begin

text \<open>
  The text primitives of Rust's standard library that the code relies on (\<open>str::trim\<close>, parsing a \<open>u64\<close>)
  and \<open>src/duration.rs\<close>, the span grammar shared by the command lines. A string is the list of its
  UTF-8 bytes; \<open>trim\<close> removes the characters of Unicode's \<open>White_Space\<close> property, one to three bytes each.
\<close>

section \<open>Trimming\<close>

definition white_space :: "string list" where
  "white_space =
     [[CHR 0x09], [CHR 0x0A], [CHR 0x0B], [CHR 0x0C], [CHR 0x0D], [CHR 0x20],
      [CHR 0xC2, CHR 0x85], [CHR 0xC2, CHR 0xA0], [CHR 0xE1, CHR 0x9A, CHR 0x80],
      [CHR 0xE2, CHR 0x80, CHR 0x80], [CHR 0xE2, CHR 0x80, CHR 0x81], [CHR 0xE2, CHR 0x80, CHR 0x82],
      [CHR 0xE2, CHR 0x80, CHR 0x83], [CHR 0xE2, CHR 0x80, CHR 0x84], [CHR 0xE2, CHR 0x80, CHR 0x85],
      [CHR 0xE2, CHR 0x80, CHR 0x86], [CHR 0xE2, CHR 0x80, CHR 0x87], [CHR 0xE2, CHR 0x80, CHR 0x88],
      [CHR 0xE2, CHR 0x80, CHR 0x89], [CHR 0xE2, CHR 0x80, CHR 0x8A], [CHR 0xE2, CHR 0x80, CHR 0xA8],
      [CHR 0xE2, CHR 0x80, CHR 0xA9], [CHR 0xE2, CHR 0x80, CHR 0xAF], [CHR 0xE2, CHR 0x81, CHR 0x9F],
      [CHR 0xE3, CHR 0x80, CHR 0x80]]"

text \<open>\<open>drop_words ws s\<close> removes leading occurrences of the words \<open>ws\<close>.\<close>

function drop_words :: "string list \<Rightarrow> string \<Rightarrow> string" where
  "drop_words ws s =
     (case find (\<lambda>w. w \<noteq> [] \<and> take (length w) s = w) ws of
        None \<Rightarrow> s | Some w \<Rightarrow> drop_words ws (drop (length w) s))"
  by auto

termination
proof (relation "measure (\<lambda>(_, s). length s)")
  show "wf (measure (\<lambda>(_, s). length s))" by simp
next
  fix ws :: "string list" and s w :: string
  assume "find (\<lambda>w. w \<noteq> [] \<and> take (length w) s = w) ws = Some w"
  then have "w \<noteq> []" "take (length w) s = w" by (auto simp: find_Some_iff)
  then have "0 < length w" "s \<noteq> []" by auto
  then show "((ws, drop (length w) s), ws, s) \<in> measure (\<lambda>(_, s). length s)" by simp
qed

declare drop_words.simps [simp del]

definition trim_start :: "string \<Rightarrow> string" where
  "trim_start = drop_words white_space"

definition trim_end :: "string \<Rightarrow> string" where
  "trim_end s = rev (drop_words (map rev white_space) (rev s))"

definition trim :: "string \<Rightarrow> string" where
  "trim s = trim_end (trim_start s)"

lemma drop_words_suffix: "\<exists>p. s = p @ drop_words ws s"
proof (induction ws s rule: drop_words.induct)
  case (1 ws s)
  show ?case
  proof (cases "find (\<lambda>w. w \<noteq> [] \<and> take (length w) s = w) ws")
    case None
    then show ?thesis by (simp add: drop_words.simps [of ws s])
  next
    case (Some w)
    with 1 obtain p where "drop (length w) s = p @ drop_words ws (drop (length w) s)" by blast
    then have "s = (take (length w) s @ p) @ drop_words ws (drop (length w) s)"
      by (metis append.assoc append_take_drop_id)
    moreover have "drop_words ws s = drop_words ws (drop (length w) s)"
      using Some by (simp add: drop_words.simps [of ws s])
    ultimately show ?thesis by metis
  qed
qed

text \<open>A text without a leading space word is left alone.\<close>

lemma drop_words_id:
  assumes "list_all (\<lambda>w. w = [] \<or> take (length w) s \<noteq> w) ws"
  shows "drop_words ws s = s"
proof -
  have "find (\<lambda>w. w \<noteq> [] \<and> take (length w) s = w) ws = None"
    using assms by (auto simp: find_None_iff list_all_iff)
  then show ?thesis by (simp add: drop_words.simps [of ws s])
qed

lemma drop_words_Nil [simp]: "drop_words ws [] = []"
  using drop_words_suffix [of "[]" ws] by simp

lemma trim_Nil [simp]: "trim [] = []"
  by (simp add: trim_def trim_start_def trim_end_def)

text \<open>A trimmed text is an infix of the original.\<close>

lemma trim_infix: "\<exists>p q. s = p @ trim s @ q"
proof -
  obtain p where p: "s = p @ trim_start s" unfolding trim_start_def using drop_words_suffix by blast
  obtain q where "rev (trim_start s) = q @ drop_words (map rev white_space) (rev (trim_start s))"
    using drop_words_suffix by blast
  then have "trim_start s = trim s @ rev q"
    unfolding trim_def trim_end_def by (metis rev_append rev_rev_ident)
  then show ?thesis using p by metis
qed

section \<open>Parsing a \<open>u64\<close>\<close>

definition digit_value :: "char \<Rightarrow> nat option" where
  "digit_value c = (let n = (of_char c :: nat) in if 48 \<le> n \<and> n \<le> 57 then Some (n - 48) else None)"

text \<open>\<open>u64::from_str\<close>: an optional \<open>+\<close>, then at least one digit; too large a number is an error.\<close>

fun digits_value :: "nat \<Rightarrow> string \<Rightarrow> nat option" where
  "digits_value acc [] = Some acc"
| "digits_value acc (c # cs) =
     (case digit_value c of
        None \<Rightarrow> None
      | Some d \<Rightarrow> if acc * 10 + d \<le> U64_MAX then digits_value (acc * 10 + d) cs else None)"

definition parse_u64 :: "string \<Rightarrow> nat option" where
  "parse_u64 s =
     (let ds = (case s of c # cs \<Rightarrow> if c = CHR ''+'' then cs else s | [] \<Rightarrow> [])
      in if ds = [] then None else digits_value 0 ds)"

lemma digits_value_le: "digits_value acc s = Some n \<Longrightarrow> acc \<le> U64_MAX \<Longrightarrow> n \<le> U64_MAX"
  by (induction acc s rule: digits_value.induct) (auto split: option.splits if_splits)

lemma parse_u64_le: "parse_u64 s = Some n \<Longrightarrow> n \<le> U64_MAX"
  by (auto simp: parse_u64_def Let_def intro: digits_value_le split: if_splits)

section \<open>Spans\<close>

definition unit_secs :: "char \<Rightarrow> nat option" where
  "unit_secs u =
     (if u = CHR ''s'' then Some 1 else if u = CHR ''m'' then Some 60
      else if u = CHR ''h'' then Some 3600 else if u = CHR ''d'' then Some 86400
      else if u = CHR ''w'' then Some (7 * 86400) else None)"

definition parse_duration_secs :: "string \<Rightarrow> nat option" where
  "parse_duration_secs raw =
     (let s = trim raw
      in if s = [] then None
         else (case unit_secs (last s) of
             None \<Rightarrow> None
           | Some per_unit \<Rightarrow>
               (case parse_u64 (butlast s) of
                  None \<Rightarrow> None | Some n \<Rightarrow> Some (u64_sat_mul n per_unit))))"

lemma parse_duration_secs_le: "parse_duration_secs raw = Some n \<Longrightarrow> n \<le> U64_MAX"
  by (auto simp: parse_duration_secs_def Let_def u64_sat_mul_def split: if_splits option.splits)

end
