(* ===== verification/World.thy ===== *)
theory World
  imports Errors Text
begin

text \<open>
  The outside world of the daemon as the code sees it: the canonical credential store
  (\<open>CredentialStore\<close>, \<open>src/keychain.rs\<close>), the per-account stash (\<open>AccountStash\<close>, \<open>src/stash.rs\<close>), the
  file that holds the displayed identity (\<open>src/claude_state.rs\<close>), the lock file and the clock. Each trait
  method is a field of the record \<open>io\<close>, a state-monad computation over an opaque world \<open>'w\<close> that may
  fail; the JSON library is a pair of functions. The locale \<open>vault\<close> states what the swap engine relies
  on; the last section interprets it on the in-memory fakes of the repository.
\<close>

section \<open>Results in the state monad\<close>

text \<open>Rust's \<open>?\<close> operator: the first error ends the computation.\<close>

definition try_bind :: "('w, 'a result) state \<Rightarrow> ('a \<Rightarrow> ('w, 'b result) state) \<Rightarrow> ('w, 'b result) state" where
  "try_bind m f = State_Monad.bind m (\<lambda>r. case r of Inl e \<Rightarrow> State_Monad.return (Inl e) | Inr a \<Rightarrow> f a)"

abbreviation res :: "('w, 'a) state \<Rightarrow> 'w \<Rightarrow> 'a" where "res m w \<equiv> fst (run_state m w)"
abbreviation exec :: "('w, 'a) state \<Rightarrow> 'w \<Rightarrow> 'w" where "exec m w \<equiv> snd (run_state m w)"

lemma run_try_bind:
  "run_state (try_bind m f) w = (case run_state m w of
     (Inl e, w') \<Rightarrow> (Inl e, w') | (Inr a, w') \<Rightarrow> run_state (f a) w')"
  by (simp add: try_bind_def split_beta split: sum.splits prod.splits)

lemma triple_try:
  assumes "triple P m R" "\<And>e s. R (Inl e) s \<Longrightarrow> Q (Inl e) s" "\<And>a. triple (R (Inr a)) (f a) Q"
  shows "triple P (try_bind m f) Q"
  unfolding try_bind_def
proof (rule triple_bind [OF assms(1)])
  fix r
  show "triple (R r) (case r of Inl e \<Rightarrow> State_Monad.return (Inl e) | Inr a \<Rightarrow> f a) Q"
    using assms(2,3) by (cases r) (auto simp: triple_def)
qed

lemma triple_assume: "(\<And>s. P s \<Longrightarrow> b) \<Longrightarrow> (b \<Longrightarrow> triple P m Q) \<Longrightarrow> triple P m Q"
  by (auto simp: triple_def)

section \<open>Credentials, identities, stashes\<close>

type_synonym bytes = "8 word list"
type_synonym credential = bytes

definition credential_matches :: "credential \<Rightarrow> credential \<Rightarrow> bool" where
  "credential_matches a b \<longleftrightarrow> a = b"

record oauth_account =
  oa_raw :: bytes
  oa_account_uuid :: string

record stashed_account =
  stashed_credential :: credential
  stashed_oauth :: oauth_account

record account =
  account_uuid :: string
  label :: string
  account_enabled :: bool

definition STASH_PREFIX :: string where "STASH_PREFIX = ''Sessiometer/''"

definition stash_name :: "account \<Rightarrow> string" where
  "stash_name a = STASH_PREFIX @ account_uuid a"

text \<open>The change detector over the canonical item.\<close>

record canonical_watch = watch_last :: "credential option"

datatype canonical_change = CC_Primed | CC_Unchanged | CC_Changed

definition CanonicalWatch_new :: canonical_watch where "CanonicalWatch_new = \<lparr>watch_last = None\<rparr>"

definition watch_classify :: "canonical_watch \<Rightarrow> credential \<Rightarrow> canonical_change" where
  "watch_classify cw current =
     (case watch_last cw of None \<Rightarrow> CC_Primed
      | Some prev \<Rightarrow> if credential_matches prev current then CC_Unchanged else CC_Changed)"

definition watch_commit :: "canonical_watch \<Rightarrow> credential \<Rightarrow> canonical_watch" where
  "watch_commit cw current = cw\<lparr>watch_last := Some current\<rparr>"

definition watch_baseline :: "canonical_watch \<Rightarrow> credential option" where
  "watch_baseline cw = watch_last cw"

section \<open>The interface\<close>

text \<open>A JSON number is an integer or another number, kept as its text.\<close>

datatype json_number = JN_Int int | JN_Other string

datatype json =
    JNull | JBool bool | JNumber json_number | JString string | JArray "json list"
  | JObject "(string \<times> json) list"

datatype fs_error = FS_NotFound | FS_Other string

datatype flock_outcome = FL_Acquired | FL_WouldBlock | FL_Error string

record 'w io =
  store_read :: "('w, credential result) state"
  store_write :: "credential \<Rightarrow> ('w, unit result) state"
  store_probe :: "('w, unit result) state"
  stash_read :: "string \<Rightarrow> ('w, stashed_account result) state"
  stash_write :: "string \<Rightarrow> stashed_account \<Rightarrow> ('w, unit result) state"
  fs_read :: "string \<Rightarrow> ('w, fs_error + bytes) state"
  fs_write_preserving :: "string \<Rightarrow> bytes \<Rightarrow> ('w, unit result) state"
  lock_open :: "string \<Rightarrow> ('w, unit result) state"
  lock_try :: "string \<Rightarrow> ('w, flock_outcome) state"
  lock_release :: "string \<Rightarrow> ('w, unit) state"
  clock_now :: "'w \<Rightarrow> instant"
  clock_sleep :: "duration \<Rightarrow> ('w, unit) state"
  json_parse :: "bytes \<Rightarrow> (nat \<times> nat) + json"
  json_render :: "json \<Rightarrow> bytes"

section \<open>The displayed identity\<close>

fun json_get :: "json \<Rightarrow> string \<Rightarrow> json option" where
  "json_get (JObject kvs) k = map_of kvs k"
| "json_get _ _ = None"

fun json_as_str :: "json \<Rightarrow> string option" where
  "json_as_str (JString s) = Some s"
| "json_as_str _ = None"

fun json_as_i64 :: "json \<Rightarrow> int option" where
  "json_as_i64 (JNumber (JN_Int n)) = (if I64_MIN \<le> n \<and> n \<le> I64_MAX then Some n else None)"
| "json_as_i64 _ = None"

fun json_is_object :: "json \<Rightarrow> bool" where
  "json_is_object (JObject _) = True"
| "json_is_object _ = False"

text \<open>\<open>Map::insert\<close>: the value of a present key is replaced, an absent key is appended.\<close>

fun object_insert :: "(string \<times> json) list \<Rightarrow> string \<Rightarrow> json \<Rightarrow> (string \<times> json) list" where
  "object_insert [] k v = [(k, v)]"
| "object_insert ((k', v') # kvs) k v =
     (if k' = k then (k, v) # kvs else (k', v') # object_insert kvs k v)"

lemma map_of_object_insert: "map_of (object_insert kvs k v) = (map_of kvs)(k \<mapsto> v)"
  by (induction kvs k v rule: object_insert.induct) (auto simp: fun_eq_iff)

definition trim_is_empty :: "string \<Rightarrow> bool" where
  "trim_is_empty s \<longleftrightarrow> trim s = []"

lemma trim_is_empty_letters [simp]:
  "list_all (\<lambda>w. take (length w) (c # s) \<noteq> w) white_space \<Longrightarrow>
   list_all (\<lambda>w. take (length w) (rev (c # s)) \<noteq> w) (map rev white_space) \<Longrightarrow> \<not> trim_is_empty (c # s)"
  by (simp add: trim_is_empty_def trim_def trim_start_def trim_end_def drop_words_id list_all_iff)

definition string_field :: "json \<Rightarrow> string \<Rightarrow> string result" where
  "string_field v field =
     (case Option.bind (json_get v field) json_as_str of
        None \<Rightarrow> Inl (OauthAccountFieldMissing field) | Some s \<Rightarrow> Inr s)"

definition parse_error :: "nat \<times> nat \<Rightarrow> error" where
  "parse_error p = ClaudeStateParse (fst p) (snd p)"

definition oauth_from_object :: "'w io \<Rightarrow> json \<Rightarrow> oauth_account result" where
  "oauth_from_object io v =
     (if \<not> json_is_object v then Inl OauthAccountMissing
      else (case string_field v ''accountUuid'' of
          Inl e \<Rightarrow> Inl e
        | Inr uuid \<Rightarrow>
            if trim_is_empty uuid then Inl (OauthAccountFieldMissing ''accountUuid'')
            else Inr \<lparr>oa_raw = json_render io v, oa_account_uuid = uuid\<rparr>))"

definition oauth_from_object_bytes :: "'w io \<Rightarrow> bytes \<Rightarrow> oauth_account result" where
  "oauth_from_object_bytes io b =
     (case json_parse io b of Inl p \<Rightarrow> Inl (parse_error p) | Inr v \<Rightarrow> oauth_from_object io v)"

definition read_state_file :: "'w io \<Rightarrow> string \<Rightarrow> ('w, json result) state" where
  "read_state_file io path = State_Monad.bind (fs_read io path) (\<lambda>r. State_Monad.return (case r of
       Inl FS_NotFound \<Rightarrow> Inl (ClaudeStateNotFound path)
     | Inl (FS_Other m) \<Rightarrow> Inl (Io m)
     | Inr b \<Rightarrow> (case json_parse io b of Inl p \<Rightarrow> Inl (parse_error p) | Inr v \<Rightarrow> Inr v)))"

definition read_oauth_account_from :: "'w io \<Rightarrow> string \<Rightarrow> ('w, oauth_account result) state" where
  "read_oauth_account_from io path =
     try_bind (read_state_file io path) (\<lambda>root. State_Monad.return
       (case json_get root ''oauthAccount'' of
          None \<Rightarrow> Inl OauthAccountMissing
        | Some v \<Rightarrow> oauth_from_object io v))"

text \<open>
  The stored bytes of an identity always parse (they were rendered from a parsed value); the code
  panics otherwise, and the model then leaves the file alone with a parse error.
\<close>

definition write_oauth_account :: "'w io \<Rightarrow> string \<Rightarrow> oauth_account \<Rightarrow> ('w, unit result) state" where
  "write_oauth_account io path oauth =
     try_bind (read_state_file io path) (\<lambda>root.
       (case root of
          JObject obj \<Rightarrow>
            (case json_parse io (oa_raw oauth) of
               Inl p \<Rightarrow> State_Monad.return (Inl (parse_error p))
             | Inr v \<Rightarrow> fs_write_preserving io path (json_render io (JObject (object_insert obj ''oauthAccount'' v))))
        | _ \<Rightarrow> State_Monad.return (Inl OauthAccountMissing)))"

section \<open>Attribution of a credential\<close>

definition resolve_via_display :: "'w io \<Rightarrow> account list \<Rightarrow> string \<Rightarrow> ('w, nat option) state" where
  "resolve_via_display io roster claude_json =
     State_Monad.bind (read_oauth_account_from io claude_json) (\<lambda>r. State_Monad.return
       (case r of Inl _ \<Rightarrow> None
        | Inr oauth \<Rightarrow> position (\<lambda>a. account_uuid a = oa_account_uuid oauth) roster))"

fun resolve_by_token :: "'w io \<Rightarrow> account list \<Rightarrow> credential \<Rightarrow> nat \<Rightarrow> ('w, nat option) state" where
  "resolve_by_token io [] canonical i = State_Monad.return None"
| "resolve_by_token io (a # roster) canonical i =
     State_Monad.bind (stash_read io (stash_name a)) (\<lambda>r.
       (case r of
          Inr stashed \<Rightarrow>
            if credential_matches (stashed_credential stashed) canonical then State_Monad.return (Some i)
            else resolve_by_token io roster canonical (Suc i)
        | Inl _ \<Rightarrow> resolve_by_token io roster canonical (Suc i)))"

definition resolve_account_for :: "'w io \<Rightarrow> account list \<Rightarrow> string \<Rightarrow> credential \<Rightarrow> ('w, nat option) state" where
  "resolve_account_for io roster claude_json canonical =
     State_Monad.bind (resolve_by_token io roster canonical 0) (\<lambda>r.
       (case r of Some i \<Rightarrow> State_Monad.return (Some i)
        | None \<Rightarrow> resolve_via_display io roster claude_json))"

section \<open>What the stores promise\<close>

text \<open>
  \<open>canon w\<close> and \<open>stash w k\<close> are the contents of the canonical item and of the stash entry \<open>k\<close>. A read
  reports only what is stored and changes neither. A write of the canonical item that reports success
  took effect; one that reports a failure took effect entirely or not at all. A failed stash write may
  in addition have replaced one half of an existing entry only (the token and the identity are two
  items). The files, the lock and the clock are other objects.
\<close>

locale vault =
  fixes io :: "'w io"
    and canon :: "'w \<Rightarrow> credential option"
    and stash :: "'w \<Rightarrow> string \<Rightarrow> stashed_account option"
  assumes read_canon: "res (store_read io) w = Inr c \<Longrightarrow> canon w = Some c"
    and read_pure: "canon (exec (store_read io) w) = canon w" "stash (exec (store_read io) w) = stash w"
    and probe_pure: "canon (exec (store_probe io) w) = canon w" "stash (exec (store_probe io) w) = stash w"
    and write_canon: "res (store_write io c) w = Inr () \<Longrightarrow> canon (exec (store_write io c) w) = Some c"
    and write_canon_either: "canon (exec (store_write io c) w) \<in> {canon w, Some c}"
    and write_canon_stash: "stash (exec (store_write io c) w) = stash w"
    and sread_stash: "res (stash_read io k) w = Inr a \<Longrightarrow> stash w k = Some a"
    and sread_pure: "canon (exec (stash_read io k) w) = canon w" "stash (exec (stash_read io k) w) = stash w"
    and swrite_stash: "res (stash_write io k a) w = Inr () \<Longrightarrow> stash (exec (stash_write io k a) w) k = Some a"
    and swrite_other: "j \<noteq> k \<Longrightarrow> stash (exec (stash_write io k a) w) j = stash w j"
    and swrite_canon: "canon (exec (stash_write io k a) w) = canon w"
    and swrite_half: "stash w k = Some p \<Longrightarrow> \<exists>q. stash (exec (stash_write io k a) w) k = Some q \<and>
      stashed_credential q \<in> {stashed_credential p, stashed_credential a} \<and>
      stashed_oauth q \<in> {stashed_oauth p, stashed_oauth a}"
    and files_pure: "canon (exec (fs_read io f) w) = canon w" "stash (exec (fs_read io f) w) = stash w"
      "canon (exec (fs_write_preserving io f b) w) = canon w" "stash (exec (fs_write_preserving io f b) w) = stash w"
    and lock_pure: "canon (exec (lock_open io f) w) = canon w" "stash (exec (lock_open io f) w) = stash w"
      "canon (exec (lock_try io f) w) = canon w" "stash (exec (lock_try io f) w) = stash w"
      "canon (exec (lock_release io f) w) = canon w" "stash (exec (lock_release io f) w) = stash w"
      "canon (exec (clock_sleep io d) w) = canon w" "stash (exec (clock_sleep io d) w) = stash w"
begin

text \<open>The laws as triples, over the contents \<open>C\<close> and \<open>S\<close> of the two stores.\<close>

definition holds :: "credential option \<Rightarrow> (string \<Rightarrow> stashed_account option) \<Rightarrow> 'w \<Rightarrow> bool" where
  "holds C S w \<longleftrightarrow> canon w = C \<and> stash w = S"

lemma t_read: "triple (holds C S) (store_read io) (\<lambda>r s. holds C S s \<and> (\<forall>c. r = Inr c \<longrightarrow> C = Some c))"
  using read_canon by (auto simp: triple_def holds_def read_pure)

lemma t_sread: "triple (holds C S) (stash_read io k) (\<lambda>r s. holds C S s \<and> (\<forall>a. r = Inr a \<longrightarrow> S k = Some a))"
  using sread_stash by (auto simp: triple_def holds_def sread_pure)

lemma t_write: "triple (holds C S) (store_write io c)
    (\<lambda>r s. holds (if r = Inr () then Some c else canon s) S s \<and> canon s \<in> {C, Some c})"
  using write_canon write_canon_either by (auto simp: triple_def holds_def write_canon_stash)

lemma t_swrite:
  "triple (holds C S) (stash_write io k a) (\<lambda>r s. holds C (S(k := stash s k)) s \<and>
     (r = Inr () \<longrightarrow> stash s k = Some a) \<and>
     (\<forall>p. S k = Some p \<longrightarrow> (\<exists>q. stash s k = Some q \<and>
        stashed_credential q \<in> {stashed_credential p, stashed_credential a} \<and>
        stashed_oauth q \<in> {stashed_oauth p, stashed_oauth a})))"
  using swrite_stash swrite_half swrite_other by (auto simp: triple_def holds_def swrite_canon fun_eq_iff)

lemma try_read:
  assumes "\<And>c. C = Some c \<Longrightarrow> triple (holds C S) (f c) Q" "\<And>e s. holds C S s \<Longrightarrow> Q (Inl e) s"
  shows "triple (holds C S) (try_bind (store_read io) f) Q"
proof (rule triple_try [OF t_read])
  show "triple (\<lambda>s. holds C S s \<and> (\<forall>c. Inr a = Inr c \<longrightarrow> C = Some c)) (f a) Q" for a
    using assms(1) [of a] by (auto simp: triple_def)
qed (use assms(2) in blast)

lemma try_sread:
  assumes "\<And>a. S k = Some a \<Longrightarrow> triple (holds C S) (f a) Q" "\<And>e s. holds C S s \<Longrightarrow> Q (Inl e) s"
  shows "triple (holds C S) (try_bind (stash_read io k) f) Q"
proof (rule triple_try [OF t_sread])
  show "triple (\<lambda>s. holds C S s \<and> (\<forall>c. Inr a = Inr c \<longrightarrow> S k = Some c)) (f a) Q" for a
    using assms(1) [of a] by (auto simp: triple_def)
qed (use assms(2) in blast)

lemma write_oauth_pure:
  "canon (exec (write_oauth_account io f oa) w) = canon w"
  "stash (exec (write_oauth_account io f oa) w) = stash w"
  by (simp_all add: write_oauth_account_def read_state_file_def run_try_bind split_beta files_pure
      split: sum.split json.split)

lemma t_write_oauth: "triple (holds C S) (write_oauth_account io f oa) (\<lambda>_. holds C S)"
  by (auto simp: triple_def holds_def write_oauth_pure)

lemma resolve_by_token_pure:
  "canon (exec (resolve_by_token io roster c i) w) = canon w \<and>
   stash (exec (resolve_by_token io roster c i) w) = stash w"
  by (induction roster arbitrary: i w) (simp_all add: split_beta sread_pure split: sum.split)

lemma resolve_by_token_sound:
  "res (resolve_by_token io roster c i) w = Some j \<Longrightarrow>
   i \<le> j \<and> j < i + length roster \<and>
   (\<exists>s. stash w (stash_name (roster ! (j - i))) = Some s \<and> stashed_credential s = c)"
proof (induction roster arbitrary: i w)
  case (Cons a roster)
  let ?w = "exec (stash_read io (stash_name a)) w"
  show ?case
  proof (cases "\<exists>s. res (stash_read io (stash_name a)) w = Inr s \<and> stashed_credential s = c")
    case True
    then show ?thesis using Cons.prems sread_stash [of "stash_name a" w]
      by (auto simp: split_beta credential_matches_def)
  next
    case False
    then have "res (resolve_by_token io roster c (Suc i)) ?w = Some j"
      using Cons.prems by (auto simp: split_beta credential_matches_def split: sum.splits if_splits)
    from Cons.IH [OF this] show ?thesis by (auto simp: sread_pure Suc_diff_le nth_Cons')
  qed
qed simp

end

section \<open>The in-memory stores\<close>

text \<open>
  \<open>FakeCredentialStore\<close> and \<open>FakeAccountStash\<close> of the repository, with the one file, a free lock and a
  clock that only sleeping moves. The JSON functions are parameters of the instance.
\<close>

record fake_world =
  fake_slot :: "credential option"
  fake_locked :: bool
  fake_not_found :: bool
  fake_unreadable :: bool
  fake_ambiguous :: "nat option"
  fake_items :: "string \<Rightarrow> stashed_account option"
  fake_files :: "string \<Rightarrow> bytes option"
  fake_time :: instant

definition fake_store_read :: "(fake_world, credential result) state" where
  "fake_store_read = State (\<lambda>w.
     (if fake_locked w then Inl (KeychainLocked ''read'')
      else if fake_unreadable w then Inl (Keychain ''read'' 1)
      else if fake_not_found w then Inl CredentialNotFound
      else (case fake_slot w of
          None \<Rightarrow> Inl (Unimplemented ''no credential stashed in the fake'')
        | Some c \<Rightarrow> Inr c), w))"

definition fake_store_write :: "credential \<Rightarrow> (fake_world, unit result) state" where
  "fake_store_write c = State (\<lambda>w. (Inr (), w\<lparr>fake_slot := Some c, fake_not_found := False\<rparr>))"

definition fake_store_probe :: "(fake_world, unit result) state" where
  "fake_store_probe = State (\<lambda>w.
     (case fake_ambiguous w of
        Some n \<Rightarrow> Inl (CredentialAmbiguous n)
      | None \<Rightarrow> if fake_not_found w then Inl CredentialNotFound else Inr (), w))"

definition fake_stash_read :: "string \<Rightarrow> (fake_world, stashed_account result) state" where
  "fake_stash_read k = State (\<lambda>w.
     (case fake_items w k of Some a \<Rightarrow> Inr a | None \<Rightarrow> Inl (StashIncomplete k), w))"

definition fake_stash_write :: "string \<Rightarrow> stashed_account \<Rightarrow> (fake_world, unit result) state" where
  "fake_stash_write k a = State (\<lambda>w. (Inr (), w\<lparr>fake_items := (fake_items w)(k := Some a)\<rparr>))"

definition fake_io :: "(bytes \<Rightarrow> (nat \<times> nat) + json) \<Rightarrow> (json \<Rightarrow> bytes) \<Rightarrow> fake_world io" where
  "fake_io prs rnd = \<lparr>
     store_read = fake_store_read, store_write = fake_store_write, store_probe = fake_store_probe,
     stash_read = fake_stash_read, stash_write = fake_stash_write,
     fs_read = (\<lambda>f. State (\<lambda>w. (case fake_files w f of None \<Rightarrow> Inl FS_NotFound | Some b \<Rightarrow> Inr b, w))),
     fs_write_preserving = (\<lambda>f b. State (\<lambda>w. (Inr (), w\<lparr>fake_files := (fake_files w)(f := Some b)\<rparr>))),
     lock_open = (\<lambda>_. State_Monad.return (Inr ())),
     lock_try = (\<lambda>_. State_Monad.return FL_Acquired),
     lock_release = (\<lambda>_. State_Monad.return ()),
     clock_now = fake_time,
     clock_sleep = (\<lambda>d. State (\<lambda>w. ((), w\<lparr>fake_time := fake_time w + d\<rparr>))),
     json_parse = prs, json_render = rnd\<rparr>"

lemmas fake_defs = fake_io_def fake_store_read_def fake_store_write_def fake_store_probe_def
  fake_stash_read_def fake_stash_write_def

interpretation fake: vault "fake_io prs rnd" fake_slot fake_items for prs rnd
  by unfold_locales (auto simp: fake_defs split: if_splits option.splits)

definition fake_world_empty :: fake_world where
  "fake_world_empty = \<lparr>fake_slot = None, fake_locked = False, fake_not_found = False, fake_unreadable = False,
     fake_ambiguous = None, fake_items = (\<lambda>_. None), fake_files = (\<lambda>_. None), fake_time = 0\<rparr>"

end
