(* ===== verification/Swap_Engine.thy ===== *)
theory Swap_Engine
  imports World
begin

text \<open>
  The swap engine of \<open>src/swap.rs\<close>: the swap sequence, the out-of-band adoption of a target, and the
  single-writer lock around both, in the monad of the outside world. The theorems state what survives
  every outcome, success or failure at any step: no live credential is lost, no identity is stapled to
  another account's token, and nothing but the two named places is written.
\<close>

section \<open>The operations\<close>

record swap_report =
  canonical_confirmed :: bool
  oauth_cowritten :: bool

text \<open>Steps 4 and 5, shared by both operations: the display co-write and the confirming re-read.\<close>

definition finish_swap :: "'w io \<Rightarrow> string \<Rightarrow> stashed_account \<Rightarrow> ('w, swap_report result) state" where
  "finish_swap io claude_json incoming =
     State_Monad.bind (write_oauth_account io claude_json (stashed_oauth incoming)) (\<lambda>cw.
     State_Monad.bind (store_read io) (\<lambda>rr.
       State_Monad.return (Inr
         \<lparr>canonical_confirmed =
            (case rr of Inl _ \<Rightarrow> False | Inr current \<Rightarrow> credential_matches current (stashed_credential incoming)),
          oauth_cowritten = is_ok cw\<rparr>)))"

definition swap :: "'w io \<Rightarrow> string \<Rightarrow> string \<Rightarrow> string \<Rightarrow> ('w, swap_report result) state" where
  "swap io outgoing_stash incoming_stash claude_json =
     try_bind (store_read io) (\<lambda>outgoing_current.
     try_bind (stash_read io outgoing_stash) (\<lambda>outgoing_prev.
     try_bind (stash_read io incoming_stash) (\<lambda>incoming.
       if \<not> credential_matches outgoing_current (stashed_credential outgoing_prev)
          \<and> credential_matches outgoing_current (stashed_credential incoming)
       then State_Monad.return (Inl SwapWrongIdentityRestash)
       else
         try_bind (stash_write io outgoing_stash
           \<lparr>stashed_credential = outgoing_current, stashed_oauth = stashed_oauth outgoing_prev\<rparr>) (\<lambda>_.
         try_bind (store_write io (stashed_credential incoming)) (\<lambda>_.
           finish_swap io claude_json incoming)))))"

definition adopt_target :: "'w io \<Rightarrow> string \<Rightarrow> string \<Rightarrow> ('w, swap_report result) state" where
  "adopt_target io incoming_stash claude_json =
     try_bind (stash_read io incoming_stash) (\<lambda>incoming.
     State_Monad.bind (store_read io) (\<lambda>probe.
       (case probe of
          Inl err \<Rightarrow>
            if err = CredentialNotFound
            then try_bind (store_write io (stashed_credential incoming)) (\<lambda>_. finish_swap io claude_json incoming)
            else State_Monad.return (Inl err)
        | Inr _ \<Rightarrow>
            try_bind (store_write io (stashed_credential incoming)) (\<lambda>_. finish_swap io claude_json incoming))))"

section \<open>The lock\<close>

definition SWAP_LOCK_MAX_WAIT :: duration where "SWAP_LOCK_MAX_WAIT = from_secs 10"
definition SWAP_LOCK_RETRY :: duration where "SWAP_LOCK_RETRY = 50000000"

text \<open>
  The polling loop of \<open>SwapLock::acquire\<close>. Each round tries the lock, gives up at the deadline, and
  sleeps otherwise; \<open>None\<close> is a loop that has not returned within the fuel.
\<close>

fun acquire_loop :: "nat \<Rightarrow> 'w io \<Rightarrow> string \<Rightarrow> instant \<Rightarrow> ('w, unit result option) state" where
  "acquire_loop 0 io path deadline = State_Monad.return None"
| "acquire_loop (Suc fuel) io path deadline =
     State_Monad.bind (lock_try io path) (\<lambda>rc.
       (case rc of
          FL_Acquired \<Rightarrow> State_Monad.return (Some (Inr ()))
        | FL_Error err \<Rightarrow> State_Monad.return (Some (Inl (Io err)))
        | FL_WouldBlock \<Rightarrow>
            State_Monad.bind (sget (clock_now io)) (\<lambda>tm.
              if tm \<ge> deadline then State_Monad.return (Some (Inl SwapLockBusy))
              else State_Monad.bind (clock_sleep io SWAP_LOCK_RETRY) (\<lambda>_. acquire_loop fuel io path deadline))))"

text \<open>Rounds that suffice on a clock that sleeping moves on (\<open>acquire_returns\<close> below).\<close>

definition lock_fuel :: "duration \<Rightarrow> nat" where
  "lock_fuel max_wait = Suc (Suc (max_wait div SWAP_LOCK_RETRY))"

definition acquire :: "'w io \<Rightarrow> string \<Rightarrow> duration \<Rightarrow> ('w, unit result option) state" where
  "acquire io path max_wait =
     State_Monad.bind (lock_open io path) (\<lambda>f.
       (case f of
          Inl e \<Rightarrow> State_Monad.return (Some (Inl e))
        | Inr _ \<Rightarrow> State_Monad.bind (sget (clock_now io)) (\<lambda>tm.
            acquire_loop (lock_fuel max_wait) io path (tm + max_wait))))"

text \<open>The guard is dropped, and the lock released, when the locked operation returns.\<close>

definition with_lock :: "'w io \<Rightarrow> (string \<times> duration) option \<Rightarrow> ('w, 'a result) state \<Rightarrow> ('w, 'a result) state" where
  "with_lock io lock body =
     (case lock of
        None \<Rightarrow> body
      | Some (path, max_wait) \<Rightarrow>
          State_Monad.bind (acquire io path max_wait) (\<lambda>g.
            (case g of
               Some (Inr _) \<Rightarrow>
                 State_Monad.bind body (\<lambda>r. State_Monad.bind (lock_release io path) (\<lambda>_. State_Monad.return r))
             | Some (Inl e) \<Rightarrow> State_Monad.return (Inl e)
             | None \<Rightarrow> State_Monad.return (Inl SwapLockBusy))))"

definition swap_locked ::
  "'w io \<Rightarrow> (string \<times> duration) option \<Rightarrow> string \<Rightarrow> string \<Rightarrow> string \<Rightarrow> ('w, swap_report result) state" where
  "swap_locked io lock outgoing_stash incoming_stash claude_json =
     with_lock io lock (swap io outgoing_stash incoming_stash claude_json)"

definition adopt_target_locked ::
  "'w io \<Rightarrow> (string \<times> duration) option \<Rightarrow> string \<Rightarrow> string \<Rightarrow> ('w, swap_report result) state" where
  "adopt_target_locked io lock incoming_stash claude_json =
     with_lock io lock (adopt_target io incoming_stash claude_json)"

section \<open>What the engine keeps\<close>

text \<open>
  \<open>safe_swap out inc C S C' S'\<close>: from the contents \<open>C\<close>, \<open>S\<close> to \<open>C'\<close>, \<open>S'\<close>, every entry but the outgoing
  one is unchanged, that one keeps its identity and gained at most the live token, and the canonical
  item holds what it held or, with the live token saved in the outgoing entry, the incoming token.
\<close>

definition safe_swap ::
  "string \<Rightarrow> string \<Rightarrow> credential option \<Rightarrow> (string \<Rightarrow> stashed_account option) \<Rightarrow>
   credential option \<Rightarrow> (string \<Rightarrow> stashed_account option) \<Rightarrow> bool" where
  "safe_swap out inc C S C' S' \<longleftrightarrow>
     (\<forall>k. k \<noteq> out \<longrightarrow> S' k = S k) \<and>
     (\<forall>p. S out = Some p \<longrightarrow> (\<exists>q. S' out = Some q \<and> stashed_oauth q = stashed_oauth p \<and>
        (stashed_credential q = stashed_credential p \<or> Some (stashed_credential q) = C))) \<and>
     (C' = C \<or> (\<exists>i q. S inc = Some i \<and> C' = Some (stashed_credential i) \<and>
         S' out = Some q \<and> C = Some (stashed_credential q)))"

lemma safe_swap_lossless:
  assumes "safe_swap out inc C S C' S'"
  shows "(\<forall>c. C = Some c \<longrightarrow> C' = Some c \<or> (\<exists>q. S' out = Some q \<and> stashed_credential q = c)) \<and>
    (\<forall>k. k \<noteq> out \<longrightarrow> S' k = S k) \<and>
    (\<forall>k p. S k = Some p \<longrightarrow> (\<exists>q. S' k = Some q \<and> stashed_oauth q = stashed_oauth p \<and>
       (stashed_credential q = stashed_credential p \<or> k = out \<and> Some (stashed_credential q) = C)))"
proof (intro conjI allI impI)
  show "C' = Some c \<or> (\<exists>q. S' out = Some q \<and> stashed_credential q = c)" if "C = Some c" for c
    using assms that unfolding safe_swap_def by auto
  show other: "S' k = S k" if "k \<noteq> out" for k
    using assms that unfolding safe_swap_def by blast
  show "\<exists>q. S' k = Some q \<and> stashed_oauth q = stashed_oauth p \<and>
      (stashed_credential q = stashed_credential p \<or> k = out \<and> Some (stashed_credential q) = C)"
    if "S k = Some p" for k p
    using assms that other [of k] unfolding safe_swap_def by (cases "k = out") auto
qed

lemma safe_swap_refl: "safe_swap out inc C S C S"
  by (simp add: safe_swap_def)

context vault
begin

lemma t_finish: "triple (holds C S) (finish_swap io f inc) (\<lambda>_. holds C S)"
  unfolding finish_swap_def
  by (rule triple_bind [OF t_write_oauth], rule triple_bind [OF t_read]) (simp add: triple_def)

lemma t_install:
  "triple (holds C S) (try_bind (store_write io (stashed_credential i)) (\<lambda>_. finish_swap io f i))
     (\<lambda>r s. stash s = S \<and> canon s \<in> {C, Some (stashed_credential i)} \<and>
        (is_ok r \<longrightarrow> canon s = Some (stashed_credential i)))"
proof (rule triple_try [OF t_write])
  show "triple (\<lambda>s. holds (if Inr a = Inr () then Some (stashed_credential i) else canon s) S s \<and>
      canon s \<in> {C, Some (stashed_credential i)}) (finish_swap io f i)
     (\<lambda>r s. stash s = S \<and> canon s \<in> {C, Some (stashed_credential i)} \<and>
        (is_ok r \<longrightarrow> canon s = Some (stashed_credential i)))" for a :: unit
    by (rule triple_weaken [OF t_finish [of "Some (stashed_credential i)" S]]) (auto simp: holds_def)
qed (auto simp: holds_def)

lemma t_swap_writes:
  assumes "C = Some c" "S out = Some p" "S inc = Some i"
  shows "triple (holds C S)
     (if \<not> credential_matches c (stashed_credential p) \<and> credential_matches c (stashed_credential i)
      then State_Monad.return (Inl SwapWrongIdentityRestash)
      else try_bind (stash_write io out \<lparr>stashed_credential = c, stashed_oauth = stashed_oauth p\<rparr>) (\<lambda>_.
        try_bind (store_write io (stashed_credential i)) (\<lambda>_. finish_swap io f i)))
     (\<lambda>r s. safe_swap out inc C S (canon s) (stash s))"
proof (rule triple_if)
  show "triple (holds C S) (State_Monad.return (Inl SwapWrongIdentityRestash))
     (\<lambda>r s. safe_swap out inc C S (canon s) (stash s))"
    by (auto simp: triple_def holds_def safe_swap_refl)
next
  let ?a = "\<lparr>stashed_credential = c, stashed_oauth = stashed_oauth p\<rparr>"
  show "triple (holds C S) (try_bind (stash_write io out ?a) (\<lambda>_.
        try_bind (store_write io (stashed_credential i)) (\<lambda>_. finish_swap io f i)))
     (\<lambda>r s. safe_swap out inc C S (canon s) (stash s))"
    by (rule triple_try [OF t_swrite],
        use assms in \<open>force simp: holds_def safe_swap_def\<close>,
        rule triple_weaken [OF t_install [of C "S(out := Some ?a)"]])
      (use assms in \<open>auto simp: holds_def safe_swap_def\<close>)
qed

lemma t_swap:
  "triple (holds C S) (swap io out inc f) (\<lambda>r s. safe_swap out inc C S (canon s) (stash s))"
  unfolding swap_def
  by (intro try_read try_sread t_swap_writes) (auto simp: holds_def safe_swap_refl)

lemma t_adopt:
  "triple (holds C S) (adopt_target io inc f)
     (\<lambda>r s. stash s = S \<and> (canon s = C \<or> (\<exists>i. S inc = Some i \<and> canon s = Some (stashed_credential i))))"
  unfolding adopt_target_def
proof (rule try_sread)
  fix i
  assume i: "S inc = Some i"
  let ?Q = "\<lambda>(r :: swap_report result) s. stash s = S \<and> (canon s = C \<or> (\<exists>i. S inc = Some i \<and> canon s = Some (stashed_credential i)))"
  let ?inst = "try_bind (store_write io (stashed_credential i)) (\<lambda>_. finish_swap io f i)"
  have inst: "triple (holds C S) ?inst ?Q"
    by (rule triple_weaken [OF t_install]) (use i in auto)
  have stop: "triple (holds C S) (State_Monad.return (Inl e)) ?Q" for e
    by (simp add: triple_def holds_def)
  show "triple (holds C S) (State_Monad.bind (store_read io) (\<lambda>probe. case probe of
      Inl err \<Rightarrow> if err = CredentialNotFound then ?inst else State_Monad.return (Inl err)
    | Inr _ \<Rightarrow> ?inst)) ?Q"
  proof (rule triple_bind [OF t_read])
    fix r :: "credential result"
    have "triple (holds C S) (case r of Inl err \<Rightarrow> if err = CredentialNotFound then ?inst
        else State_Monad.return (Inl err) | Inr _ \<Rightarrow> ?inst) ?Q"
      using inst stop by (cases r) simp_all
    then show "triple (\<lambda>s. holds C S s \<and> (\<forall>c. r = Inr c \<longrightarrow> C = Some c)) (case r of
        Inl err \<Rightarrow> if err = CredentialNotFound then ?inst else State_Monad.return (Inl err)
      | Inr _ \<Rightarrow> ?inst) ?Q"
      by (rule triple_pre) simp
  qed
qed (simp add: holds_def)

lemma t_acquire_loop: "keeps (holds C S) (acquire_loop n io path d)"
proof (induction n)
  case (Suc n)
  let ?wait = "State_Monad.bind (sget (clock_now io)) (\<lambda>tm.
      if d \<le> tm then State_Monad.return (Some (Inl SwapLockBusy))
      else State_Monad.bind (clock_sleep io SWAP_LOCK_RETRY) (\<lambda>_. acquire_loop n io path d))"
  have "keeps (holds C S) (clock_sleep io SWAP_LOCK_RETRY)"
    by (simp add: triple_def holds_def lock_pure)
  then have wait: "keeps (holds C S) ?wait"
    by (intro keeps_bind keeps_sget triple_if keeps_return Suc.IH) simp_all
  have step: "keeps (holds C S) (case r of FL_Acquired \<Rightarrow> State_Monad.return (Some (Inr ()))
      | FL_WouldBlock \<Rightarrow> ?wait | FL_Error err \<Rightarrow> State_Monad.return (Some (Inl (Io err))))" for r
    using wait by (cases r) (simp_all add: keeps_return)
  have "keeps (holds C S) (lock_try io path)"
    by (simp add: triple_def holds_def lock_pure)
  from keeps_bind [OF this step] show ?case by simp
qed (simp add: keeps_return)

lemma t_acquire: "keeps (holds C S) (acquire io path d)"
proof -
  have go: "keeps (holds C S) (State_Monad.bind (sget (clock_now io))
      (\<lambda>tm. acquire_loop (lock_fuel d) io path (tm + d)))"
    by (intro keeps_bind keeps_sget t_acquire_loop)
  have step: "keeps (holds C S) (case r of Inl e \<Rightarrow> State_Monad.return (Some (Inl e))
      | Inr _ \<Rightarrow> State_Monad.bind (sget (clock_now io)) (\<lambda>tm. acquire_loop (lock_fuel d) io path (tm + d)))" for r
    using go by (cases r) (simp_all add: keeps_return)
  have "keeps (holds C S) (lock_open io path)"
    by (simp add: triple_def holds_def lock_pure)
  from keeps_bind [OF this step] show ?thesis by (simp add: acquire_def)
qed

lemma t_with_lock:
  fixes body :: "('w, 'a result) state"
  assumes body: "triple (holds C S) body (\<lambda>r s. Q r (canon s) (stash s))" and stop: "\<And>e. Q (Inl e) C S"
  shows "triple (holds C S) (with_lock io lock body) (\<lambda>r s. Q r (canon s) (stash s))"
proof (cases lock)
  case None
  then show ?thesis using body by (simp add: with_lock_def)
next
  case (Some lk)
  obtain path d where lk: "lk = (path, d)" by (cases lk)
  have err: "triple (holds C S) (State_Monad.return (Inl e :: 'a result)) (\<lambda>r s. Q r (canon s) (stash s))" for e
    using stop by (simp add: triple_def holds_def)
  have "triple (holds C S) (State_Monad.bind body (\<lambda>r. State_Monad.bind (lock_release io path)
      (\<lambda>_. State_Monad.return r))) (\<lambda>r s. Q r (canon s) (stash s))"
    by (rule triple_bind [OF body]) (simp add: triple_def split_beta lock_pure)
  then have step: "triple (holds C S) (case g of
      Some (Inr _) \<Rightarrow> State_Monad.bind body (\<lambda>r. State_Monad.bind (lock_release io path) (\<lambda>_. State_Monad.return r))
    | Some (Inl e) \<Rightarrow> State_Monad.return (Inl e)
    | None \<Rightarrow> State_Monad.return (Inl SwapLockBusy)) (\<lambda>r s. Q r (canon s) (stash s))" for g
    using err by (simp split: option.split sum.split)
  from triple_bind_keep [OF t_acquire step] show ?thesis
    by (simp add: with_lock_def Some lk)
qed

lemma t_finish_any: "triple (holds C S) (finish_swap io f inc) (\<lambda>r s. holds C S s \<and> is_ok r)"
  unfolding finish_swap_def
  by (rule triple_bind [OF t_write_oauth], rule triple_bind [OF t_read]) (simp add: triple_def)

lemma t_swap_ok:
  "triple (holds C S) (swap io out inc f) (\<lambda>r s. is_ok r \<longrightarrow>
     (\<exists>c p i. C = Some c \<and> S out = Some p \<and> S inc = Some i \<and>
        (c = stashed_credential i \<longrightarrow> c = stashed_credential p) \<and>
        canon s = Some (stashed_credential i) \<and>
        stash s = S(out := Some \<lparr>stashed_credential = c, stashed_oauth = stashed_oauth p\<rparr>)))"
  (is "triple _ _ ?Q")
  unfolding swap_def
proof (intro try_read try_sread triple_if)
  fix c p i
  assume cpi: "C = Some c" "S out = Some p" "S inc = Some i"
    and guard: "\<not> (\<not> credential_matches c (stashed_credential p) \<and> credential_matches c (stashed_credential i))"
  let ?a = "\<lparr>stashed_credential = c, stashed_oauth = stashed_oauth p\<rparr>"
  have g: "c = stashed_credential i \<longrightarrow> c = stashed_credential p"
    using guard by (auto simp: credential_matches_def)
  have install: "triple (holds C (S(out := Some ?a)))
      (try_bind (store_write io (stashed_credential i)) (\<lambda>_. finish_swap io f i)) ?Q"
    by (rule triple_weaken [OF t_install]) (use cpi g in \<open>auto simp: holds_def\<close>)
  show "triple (holds C S) (try_bind (stash_write io out ?a) (\<lambda>_.
      try_bind (store_write io (stashed_credential i)) (\<lambda>_. finish_swap io f i))) ?Q"
    by (rule triple_try [OF t_swrite], simp, rule triple_pre [OF install]) (auto simp: holds_def)
qed (auto simp: triple_def)

lemma adopt_unreadable:
  assumes "res (stash_read io inc) w = Inr i" "res (store_read io) (exec (stash_read io inc) w) = Inl e"
    and "e \<noteq> CredentialNotFound"
  shows "res (adopt_target io inc f) w = Inl e \<and> canon (exec (adopt_target io inc f) w) = canon w"
  using assms by (simp add: adopt_target_def run_try_bind split_beta read_pure sread_pure)

end

section \<open>The lock loop returns\<close>

text \<open>What the loop needs of the clock: sleeping moves it on, trying the lock does not turn it back.\<close>

definition clock_moves :: "'w io \<Rightarrow> bool" where
  "clock_moves io \<longleftrightarrow>
     (\<forall>w d. clock_now io w + d \<le> clock_now io (exec (clock_sleep io d) w)) \<and>
     (\<forall>w f. clock_now io w \<le> clock_now io (exec (lock_try io f) w))"

lemma acquire_loop_returns:
  assumes "clock_moves io" "deadline \<le> clock_now io w + n * SWAP_LOCK_RETRY"
  shows "res (acquire_loop (Suc n) io path deadline) w \<noteq> None"
  using assms(2)
proof (induction n arbitrary: w)
  case 0
  have "clock_now io w \<le> clock_now io (exec (lock_try io path) w)"
    using assms(1) by (simp add: clock_moves_def)
  with 0 have "deadline \<le> clock_now io (exec (lock_try io path) w)" by simp
  then show ?case by (simp add: split_beta split: flock_outcome.split)
next
  case (Suc n)
  let ?w1 = "exec (lock_try io path) w"
  let ?w2 = "exec (clock_sleep io SWAP_LOCK_RETRY) ?w1"
  have "clock_now io w + SWAP_LOCK_RETRY \<le> clock_now io ?w2"
    using assms(1) unfolding clock_moves_def by (meson add_le_mono order_refl order_trans)
  then have "deadline \<le> clock_now io ?w2 + n * SWAP_LOCK_RETRY" using Suc.prems by simp
  from Suc.IH [OF this] show ?case
    by (subst acquire_loop.simps) (simp add: split_beta split: flock_outcome.split del: acquire_loop.simps)
qed

section \<open>Properties\<close>


text \<open>Two accounts, the live token drifted from its stash, and a trivial JSON library.\<close>

definition sample_id :: "8 word \<Rightarrow> oauth_account" where
  "sample_id b = \<lparr>oa_raw = [b], oa_account_uuid = ''u''\<rparr>"

definition sample_world :: fake_world where
  "sample_world = fake_world_empty\<lparr>fake_slot := Some [9],
     fake_items := [''out'' \<mapsto> \<lparr>stashed_credential = [1], stashed_oauth = sample_id 1\<rparr>,
                    ''inc'' \<mapsto> \<lparr>stashed_credential = [2], stashed_oauth = sample_id 2\<rparr>]\<rparr>"

definition sample_io :: "fake_world io" where
  "sample_io = fake_io (\<lambda>_. Inl (1, 1)) (\<lambda>_. [])"

lemma sample_vault: "vault sample_io fake_slot fake_items"
  unfolding sample_io_def by (rule fake.vault_axioms)

definition swapped_world :: fake_world where
  "swapped_world = sample_world\<lparr>fake_slot := Some [2],
     fake_items := (fake_items sample_world)(''out'' := Some \<lparr>stashed_credential = [9], stashed_oauth = sample_id 1\<rparr>)\<rparr>"

lemma sample_swap:
  "run_state (swap_locked sample_io (Some (''lock'', SWAP_LOCK_MAX_WAIT)) ''out'' ''inc'' ''file'') sample_world =
     (Inr \<lparr>canonical_confirmed = True, oauth_cowritten = False\<rparr>, swapped_world)"
  by (simp add: swap_locked_def with_lock_def acquire_def lock_fuel_def swap_def run_try_bind finish_swap_def
      write_oauth_account_def read_state_file_def sample_io_def fake_defs sample_world_def swapped_world_def
      fake_world_empty_def credential_matches_def)


text \<open>
  C2: A swap that reports success has installed exactly the incoming account: the canonical item holds
  its stashed token, the outgoing entry holds the token that was live under its own identity, nothing
  else changed, and the live token was not the incoming account's own unless it was the outgoing one's.
\<close>

theorem swap_success_installs:
  assumes v: "vault io canon stash"
    and run: "run_state (swap io out inc claude_json) w = (Inr rep, w')"
  shows "\<exists>c p i. canon w = Some c \<and> stash w out = Some p \<and> stash w inc = Some i \<and>
    (c = stashed_credential i \<longrightarrow> c = stashed_credential p) \<and>
    canon w' = Some (stashed_credential i) \<and>
    stash w' = (stash w)(out := Some \<lparr>stashed_credential = c, stashed_oauth = stashed_oauth p\<rparr>)"
  using tripleD [OF vault.t_swap_ok [OF v] _ run] by (simp add: vault.holds_def [OF v])

lemma sample_swap_unlocked:
  "run_state (swap sample_io ''out'' ''inc'' ''file'') sample_world =
     (Inr \<lparr>canonical_confirmed = True, oauth_cowritten = False\<rparr>, swapped_world)"
  by (simp add: swap_def run_try_bind finish_swap_def
      write_oauth_account_def read_state_file_def sample_io_def fake_defs sample_world_def swapped_world_def
      fake_world_empty_def credential_matches_def)

theorem swap_success_installs_witness:
  "\<exists>i. fake_items sample_world ''inc'' = Some i \<and> fake_slot swapped_world = Some (stashed_credential i)"
  using swap_success_installs [OF sample_vault sample_swap_unlocked] by blast

text \<open>
  C22: Adopting a target writes no stash at all, leaves in the canonical item what was there or the
  target's stashed token, and never overwrites a canonical item it merely could not read: a locked
  keychain, a denied or ambiguous read abort with the item unchanged.
\<close>

theorem adopt_target_safe:
  assumes v: "vault io canon stash"
    and run: "run_state (adopt_target io inc claude_json) w = (r, w')"
  shows "stash w' = stash w \<and>
    (canon w' = canon w \<or> (\<exists>i. stash w inc = Some i \<and> canon w' = Some (stashed_credential i))) \<and>
    (\<forall>e i. res (stash_read io inc) w = Inr i \<and> res (store_read io) (exec (stash_read io inc) w) = Inl e \<and>
       e \<noteq> CredentialNotFound \<longrightarrow> r = Inl e \<and> canon w' = canon w)"
  using tripleD [OF vault.t_adopt [OF v] _ run] vault.adopt_unreadable [OF v, of inc w _ _ claude_json] run
  by (auto simp: vault.holds_def [OF v])

theorem adopt_target_safe_witness:
  "fake_slot (sample_world\<lparr>fake_locked := True\<rparr>) = Some [9] \<and>
   fst (run_state (adopt_target sample_io ''inc'' ''file'') (sample_world\<lparr>fake_locked := True\<rparr>)) = Inl (KeychainLocked ''read'')"
  using adopt_target_safe [OF sample_vault, of "''inc''" "''file''" "sample_world\<lparr>fake_locked := True\<rparr>"]
  by (simp add: adopt_target_def run_try_bind sample_io_def fake_defs sample_world_def fake_world_empty_def)

text \<open>
  Acquiring the swap lock always returns: on a clock that sleeping moves on, the polling loop gives
  the lock, an error, or the busy error within \<open>max_wait / 50 ms + 2\<close> rounds, so the fuel of the model is
  never exhausted.
\<close>

theorem swap_lock_acquire_returns:
  assumes "clock_moves io"
  shows "fst (run_state (acquire io path max_wait) w) \<noteq> None"
proof (cases "res (lock_open io path) w")
  case (Inl e)
  then show ?thesis by (simp add: acquire_def split_beta)
next
  case (Inr u)
  let ?w = "exec (lock_open io path) w"
  have "max_wait \<le> Suc (max_wait div SWAP_LOCK_RETRY) * SWAP_LOCK_RETRY"
    using dividend_less_div_times [of SWAP_LOCK_RETRY max_wait] by (simp add: SWAP_LOCK_RETRY_def)
  then have "clock_now io ?w + max_wait \<le> clock_now io ?w + Suc (max_wait div SWAP_LOCK_RETRY) * SWAP_LOCK_RETRY"
    by simp
  from acquire_loop_returns [OF assms this] show ?thesis
    using Inr by (simp add: acquire_def split_beta lock_fuel_def del: acquire_loop.simps)
qed

theorem swap_lock_acquire_returns_witness:
  "fst (run_state (acquire sample_io ''lock'' SWAP_LOCK_MAX_WAIT) sample_world) \<noteq> None"
proof (rule swap_lock_acquire_returns)
  show "clock_moves sample_io" by (simp add: clock_moves_def sample_io_def fake_defs)
qed

end
