(* ===== verification/Refresh_Engine.thy ===== *)
theory Refresh_Engine
  imports Swap_Engine Observability
begin

text \<open>
  The isolated refresh engine of \<open>src/refresh.rs\<close>: reading a credential blob, back-dating it, judging
  what the spawned client did to it, and the cycle that re-stashes the refreshed token only when the
  stored one is still the one the cycle started from. The isolated keychain item, the directory and the
  spawned process are the fields of the record \<open>session\<close>, which may change anything outside the lock.
\<close>

section \<open>Reading a credential\<close>

definition claude_oauth :: "'w io \<Rightarrow> bytes \<Rightarrow> json option" where
  "claude_oauth io blob =
     (case json_parse io blob of Inl _ \<Rightarrow> None | Inr v \<Rightarrow> json_get v ''claudeAiOauth'')"

definition oauth_field :: "'w io \<Rightarrow> bytes \<Rightarrow> string \<Rightarrow> json option" where
  "oauth_field io blob field = Option.bind (claude_oauth io blob) (\<lambda>o'. json_get o' field)"

definition expires_at :: "'w io \<Rightarrow> bytes \<Rightarrow> int option" where
  "expires_at io blob = Option.bind (oauth_field io blob ''expiresAt'') json_as_i64"

definition refresh_token_expires_at_ms :: "'w io \<Rightarrow> bytes \<Rightarrow> int option" where
  "refresh_token_expires_at_ms io blob = Option.bind (oauth_field io blob ''refreshTokenExpiresAt'') json_as_i64"

definition refresh_token :: "'w io \<Rightarrow> bytes \<Rightarrow> string option" where
  "refresh_token io blob = Option.bind (oauth_field io blob ''refreshToken'') json_as_str"

definition is_well_formed_credential :: "'w io \<Rightarrow> bytes \<Rightarrow> bool" where
  "is_well_formed_credential io blob =
     (case json_parse io blob of
        Inl _ \<Rightarrow> False
      | Inr v \<Rightarrow>
          let access_token_ok =
                Option.bind (Option.bind (json_get v ''claudeAiOauth'') (\<lambda>o'. json_get o' ''accessToken'')) json_as_str \<noteq> None
          in access_token_ok \<and> refresh_token io blob \<noteq> None \<and> expires_at io blob \<noteq> None)"

definition backdate :: "'w io \<Rightarrow> bytes \<Rightarrow> int \<Rightarrow> bytes option" where
  "backdate io blob now_ms =
     (case json_parse io blob of
        Inr (JObject doc) \<Rightarrow>
          (case map_of doc ''claudeAiOauth'' of
             Some (JObject oauth) \<Rightarrow>
               Some (json_render io (JObject (object_insert doc ''claudeAiOauth''
                 (JObject (object_insert oauth ''expiresAt'' (JNumber (JN_Int now_ms)))))))
           | _ \<Rightarrow> None)
      | _ \<Rightarrow> None)"

record credential_clocks =
  cc_access_expires_at :: "int option"
  cc_refresh_token_expires_at :: "int option"

definition no_clocks :: credential_clocks where
  "no_clocks = \<lparr>cc_access_expires_at = None, cc_refresh_token_expires_at = None\<rparr>"

definition credential_clocks_of :: "'w io \<Rightarrow> bytes \<Rightarrow> credential_clocks" where
  "credential_clocks_of io blob =
     \<lparr>cc_access_expires_at = expires_at io blob, cc_refresh_token_expires_at = refresh_token_expires_at_ms io blob\<rparr>"

definition stored_expires_at :: "'w io \<Rightarrow> string \<Rightarrow> ('w, int option) state" where
  "stored_expires_at io service = State_Monad.bind (stash_read io service) (\<lambda>r. State_Monad.return
     (case r of Inl _ \<Rightarrow> None | Inr snap \<Rightarrow> expires_at io (stashed_credential snap)))"

definition stored_credential_clocks :: "'w io \<Rightarrow> string \<Rightarrow> ('w, credential_clocks) state" where
  "stored_credential_clocks io service = State_Monad.bind (stash_read io service) (\<lambda>r. State_Monad.return
     (case r of Inl _ \<Rightarrow> no_clocks | Inr snap \<Rightarrow> credential_clocks_of io (stashed_credential snap)))"

section \<open>Judging a cycle\<close>

datatype refresh_error_reason = RER_SpawnFailed | RER_ReadbackUnreadable | RER_Malformed

datatype refresh_outcome = RO_Refreshed bool | RO_NoChange | RO_Dead | RO_Error refresh_error_reason

record refresh_report =
  rr_outcome :: refresh_outcome
  rr_expires_at_delta_secs :: "int option"
  rr_re_stashed :: bool

definition indeterminate :: refresh_report where
  "indeterminate = \<lparr>rr_outcome = RO_Error RER_Malformed, rr_expires_at_delta_secs = None, rr_re_stashed = False\<rparr>"

definition classify_refresh :: "'w io \<Rightarrow> bytes \<Rightarrow> bytes \<Rightarrow> bytes \<Rightarrow> refresh_outcome \<times> int option" where
  "classify_refresh io original seeded after =
     (let after_rt = refresh_token io after;
          after_exp = expires_at io after;
          seeded_exp = expires_at io seeded;
          outcome = (case after_rt of
              None \<Rightarrow> RO_Error RER_Malformed
            | Some rt \<Rightarrow>
                if rt = [] then RO_Dead
                else (case (after_exp, seeded_exp) of
                    (Some a, Some s) \<Rightarrow>
                      if a > s
                      then RO_Refreshed (case refresh_token io seeded of Some seeded_rt \<Rightarrow> seeded_rt \<noteq> rt | None \<Rightarrow> False)
                      else RO_NoChange
                  | _ \<Rightarrow> RO_Error RER_Malformed));
          delta = (case outcome of
              RO_Refreshed _ \<Rightarrow>
                (case (after_exp, expires_at io original) of
                   (Some a, Some o') \<Rightarrow> Some (trunc_div (a - o') 1000)
                 | _ \<Rightarrow> None)
            | _ \<Rightarrow> None)
      in (outcome, delta))"

definition refresh_event_outcome_of :: "refresh_report \<Rightarrow> refresh_event_outcome" where
  "refresh_event_outcome_of report =
     (case rr_outcome report of
        RO_Refreshed rotated \<Rightarrow> if rr_re_stashed report then REO_Refreshed rotated else REO_RefreshedNotReStashed rotated
      | RO_NoChange \<Rightarrow> REO_NoChange
      | RO_Dead \<Rightarrow> REO_Dead
      | RO_Error _ \<Rightarrow> REO_Error)"

section \<open>The cycle\<close>

record 'w session =
  create_isolated_dir :: "('w, unit result) state"
  session_seed :: "bytes \<Rightarrow> ('w, unit result) state"
  write_claude_json :: "('w, unit result) state"
  spawn_run :: "('w, unit result) state"
  session_read_back :: "('w, credential result) state"
  teardown :: "('w, unit) state"

definition mint_isolated ::
  "'w io \<Rightarrow> 'w session \<Rightarrow> bytes \<Rightarrow> bytes \<Rightarrow> ('w, (refresh_outcome \<times> int option \<times> credential option) result) state" where
  "mint_isolated io ses seed original =
     try_bind (session_seed ses seed) (\<lambda>_.
     try_bind (write_claude_json ses) (\<lambda>_.
     State_Monad.bind (spawn_run ses) (\<lambda>ran.
       if \<not> is_ok ran then State_Monad.return (Inr (RO_Error RER_SpawnFailed, None, None))
       else State_Monad.bind (session_read_back ses) (\<lambda>rb.
         (case rb of
            Inl _ \<Rightarrow> State_Monad.return (Inr (RO_Error RER_ReadbackUnreadable, None, None))
          | Inr after \<Rightarrow> State_Monad.return (Inr
              (case classify_refresh io original seed after of (outcome, delta) \<Rightarrow> (outcome, delta, Some after))))))))"

text \<open>The compare-and-swap of the re-stash, under the swap lock.\<close>

definition cas_restash ::
  "'w io \<Rightarrow> (string \<times> duration) option \<Rightarrow> string \<Rightarrow> stashed_account \<Rightarrow> credential \<Rightarrow> ('w, bool result) state" where
  "cas_restash io lock service snap after =
     with_lock io lock
       (try_bind (stash_read io service) (\<lambda>current.
          if credential_matches (stashed_credential current) (stashed_credential snap)
          then try_bind (stash_write io service
                 \<lparr>stashed_credential = after, stashed_oauth = stashed_oauth snap\<rparr>) (\<lambda>_. State_Monad.return (Inr True))
          else State_Monad.return (Inr False)))"

definition run_isolated ::
  "'w io \<Rightarrow> 'w session \<Rightarrow> string \<Rightarrow> bytes \<Rightarrow> stashed_account \<Rightarrow> (string \<times> duration) option \<Rightarrow>
   ('w, refresh_report result) state" where
  "run_isolated io ses service seed snap lock =
     try_bind (mint_isolated io ses seed (stashed_credential snap)) (\<lambda>(outcome, delta, after).
     try_bind
       (case (outcome, after) of
          (RO_Refreshed _, Some a) \<Rightarrow> cas_restash io lock service snap a
        | _ \<Rightarrow> State_Monad.return (Inr False)) (\<lambda>re_stashed.
       State_Monad.return (Inr
         \<lparr>rr_outcome = outcome, rr_expires_at_delta_secs = delta, rr_re_stashed = re_stashed\<rparr>)))"

definition refresh_cycle ::
  "'w io \<Rightarrow> 'w session \<Rightarrow> string \<Rightarrow> (string \<times> duration) option \<Rightarrow> int \<Rightarrow> ('w, refresh_report result) state" where
  "refresh_cycle io ses service lock now_ms =
     try_bind (with_lock io lock (stash_read io service)) (\<lambda>snap.
       (case backdate io (stashed_credential snap) now_ms of
          None \<Rightarrow> State_Monad.return (Inr indeterminate)
        | Some seed \<Rightarrow>
            try_bind (create_isolated_dir ses) (\<lambda>_.
            State_Monad.bind (run_isolated io ses service seed snap lock) (\<lambda>r.
            State_Monad.bind (teardown ses) (\<lambda>_. State_Monad.return r)))))"

definition keep_warm_cycle ::
  "'w io \<Rightarrow> 'w session \<Rightarrow> bytes \<Rightarrow> int \<Rightarrow> ('w, (refresh_report \<times> credential option) result) state" where
  "keep_warm_cycle io ses canonical now_ms =
     (case backdate io canonical now_ms of
        None \<Rightarrow> State_Monad.return (Inr (indeterminate, None))
      | Some seed \<Rightarrow>
          try_bind (create_isolated_dir ses) (\<lambda>_.
          State_Monad.bind (mint_isolated io ses seed canonical) (\<lambda>r.
          State_Monad.bind (teardown ses) (\<lambda>_. State_Monad.return
            (case r of
               Inl e \<Rightarrow> Inl e
             | Inr (outcome, delta, after) \<Rightarrow>
                 Inr (\<lparr>rr_outcome = outcome, rr_expires_at_delta_secs = delta, rr_re_stashed = False\<rparr>,
                      (case outcome of RO_Refreshed _ \<Rightarrow> after | _ \<Rightarrow> None)))))))"

section \<open>Lemmas\<close>

context vault
begin

text \<open>The re-stash writes nothing, or the refreshed token over an unchanged one.\<close>

lemma t_cas_restash:
  "triple (holds C S) (cas_restash io lock k snap after)
     (\<lambda>r s. canon s = C \<and> (\<forall>j. j \<noteq> k \<longrightarrow> stash s j = S j) \<and>
        (stash s k = S k \<or> (\<exists>cur q. S k = Some cur \<and> stashed_credential cur = stashed_credential snap \<and>
            stash s k = Some q \<and> stashed_credential q \<in> {stashed_credential snap, after} \<and>
            stashed_oauth q \<in> {stashed_oauth cur, stashed_oauth snap})) \<and>
        (r = Inr True \<longrightarrow> (\<exists>cur. S k = Some cur \<and> stashed_credential cur = stashed_credential snap) \<and>
            stash s k = Some \<lparr>stashed_credential = after, stashed_oauth = stashed_oauth snap\<rparr>))"
  unfolding cas_restash_def
proof (rule t_with_lock, rule try_sread, rule triple_if)
  fix cur
  assume cur: "S k = Some cur" and m: "credential_matches (stashed_credential cur) (stashed_credential snap)"
  have "stashed_credential cur = stashed_credential snap" using m by (simp add: credential_matches_def)
  with cur show "triple (holds C S) (try_bind (stash_write io k \<lparr>stashed_credential = after, stashed_oauth = stashed_oauth snap\<rparr>)
      (\<lambda>_. State_Monad.return (Inr True)))
     (\<lambda>r s. canon s = C \<and> (\<forall>j. j \<noteq> k \<longrightarrow> stash s j = S j) \<and>
        (stash s k = S k \<or> (\<exists>cur q. S k = Some cur \<and> stashed_credential cur = stashed_credential snap \<and>
            stash s k = Some q \<and> stashed_credential q \<in> {stashed_credential snap, after} \<and>
            stashed_oauth q \<in> {stashed_oauth cur, stashed_oauth snap})) \<and>
        (r = Inr True \<longrightarrow> (\<exists>cur. S k = Some cur \<and> stashed_credential cur = stashed_credential snap) \<and>
            stash s k = Some \<lparr>stashed_credential = after, stashed_oauth = stashed_oauth snap\<rparr>))"
    by (intro triple_try [OF t_swrite]) (auto simp: triple_def holds_def)
qed (auto simp: triple_def holds_def)

end

lemma classify_refresh_outcome:
  "fst (classify_refresh io original seeded after) =
     (case refresh_token io after of
        None \<Rightarrow> RO_Error RER_Malformed
      | Some rt \<Rightarrow> if rt = [] then RO_Dead
          else (case (expires_at io after, expires_at io seeded) of
              (Some a, Some s) \<Rightarrow> if a > s then RO_Refreshed (case refresh_token io seeded of Some srt \<Rightarrow> srt \<noteq> rt | None \<Rightarrow> False)
                else RO_NoChange
            | _ \<Rightarrow> RO_Error RER_Malformed))"
  by (simp add: classify_refresh_def Let_def)

section \<open>Properties\<close>

text \<open>
  C23: The refresh cycle's re-stash is a compare-and-swap: whatever happened to the stash while the client
  ran outside the lock, the entry is written only if it still holds the token the cycle started from; a
  token someone else stored meanwhile is never overwritten, no other entry and not the canonical item is
  touched, and a reported re-stash stored exactly the refreshed token.
\<close>

theorem restash_compare_and_swap:
  assumes v: "vault io canon stash"
    and run: "run_state (cas_restash io lock service snap after) w = (r, w')"
  shows "canon w' = canon w \<and> (\<forall>k. k \<noteq> service \<longrightarrow> stash w' k = stash w k) \<and>
    (map_option stashed_credential (stash w service) \<noteq> Some (stashed_credential snap) \<longrightarrow>
       stash w' service = stash w service \<and> r \<noteq> Inr True) \<and>
    (r = Inr True \<longrightarrow> stash w' service = Some \<lparr>stashed_credential = after, stashed_oauth = stashed_oauth snap\<rparr>)"
  using tripleD [OF vault.t_cas_restash [OF v] _ run] by (auto simp: vault.holds_def [OF v])

lemma sample_cas:
  "run_state (cas_restash sample_io None ''out'' \<lparr>stashed_credential = [7], stashed_oauth = sample_id 1\<rparr> [8]) sample_world =
     (Inr False, sample_world)"
  by (simp add: cas_restash_def with_lock_def run_try_bind sample_io_def fake_defs sample_world_def
      fake_world_empty_def credential_matches_def)

theorem restash_compare_and_swap_witness:
  "fake_items sample_world ''out'' \<noteq> None \<and> fake_slot sample_world = Some [9]"
  using restash_compare_and_swap [OF sample_vault sample_cas] by (simp add: sample_world_def fake_world_empty_def)

text \<open>
  Only a real refresh is re-stashed: if the cycle does not judge the token refreshed, it does not
  write the stash after the client ran; a cleared refresh token is judged dead and never refreshed; a
  token judged refreshed is non-empty with an expiry later than the back-dated one.
\<close>

theorem only_refreshed_is_restashed:
  assumes "run_state (mint_isolated io ses seed (stashed_credential snap)) w = (Inr (outcome, delta, after), w1)"
  shows "((\<forall>b. outcome \<noteq> RO_Refreshed b) \<longrightarrow>
      run_state (run_isolated io ses service seed snap lock) w =
        (Inr \<lparr>rr_outcome = outcome, rr_expires_at_delta_secs = delta, rr_re_stashed = False\<rparr>, w1)) \<and>
    (\<forall>a. after = Some a \<and> refresh_token io a = Some [] \<longrightarrow> outcome = RO_Dead) \<and>
    (\<forall>b. outcome = RO_Refreshed b \<longrightarrow> (\<exists>a rt e s. after = Some a \<and> refresh_token io a = Some rt \<and> rt \<noteq> [] \<and>
        expires_at io a = Some e \<and> expires_at io seed = Some s \<and> s < e))"
proof -
  have judged: "outcome = fst (classify_refresh io (stashed_credential snap) seed a)" if "after = Some a" for a
    using assms that
    by (auto simp: mint_isolated_def run_try_bind split_beta split: sum.splits if_splits prod.splits)
  have "after \<noteq> None" if "outcome = RO_Refreshed b" for b
    using assms that
    by (auto simp: mint_isolated_def run_try_bind split_beta split: sum.splits if_splits prod.splits)
  with judged have "\<exists>a. after = Some a \<and> fst (classify_refresh io (stashed_credential snap) seed a) = RO_Refreshed b"
    if "outcome = RO_Refreshed b" for b using that by fastforce
  then have "\<exists>a rt e s. after = Some a \<and> refresh_token io a = Some rt \<and> rt \<noteq> [] \<and>
        expires_at io a = Some e \<and> expires_at io seed = Some s \<and> s < e" if "outcome = RO_Refreshed b" for b
    using that by (fastforce simp: classify_refresh_outcome split: option.splits if_splits)
  moreover have "outcome = RO_Dead" if "after = Some a" "refresh_token io a = Some []" for a
    using judged [OF that(1)] that(2) by (simp add: classify_refresh_outcome)
  moreover have "run_state (run_isolated io ses service seed snap lock) w =
        (Inr \<lparr>rr_outcome = outcome, rr_expires_at_delta_secs = delta, rr_re_stashed = False\<rparr>, w1)"
    if "\<forall>b. outcome \<noteq> RO_Refreshed b"
    using assms that by (cases outcome) (blast, simp_all add: run_isolated_def run_try_bind)
  ultimately show ?thesis by blast
qed

definition sample_session :: "fake_world session" where
  "sample_session = \<lparr>create_isolated_dir = State_Monad.return (Inr ()), session_seed = (\<lambda>_. State_Monad.return (Inr ())),
     write_claude_json = State_Monad.return (Inr ()), spawn_run = State_Monad.return (Inl (Io ''spawn'')),
     session_read_back = State_Monad.return (Inl (Io ''read'')), teardown = State_Monad.return ()\<rparr>"

lemma sample_mint:
  "run_state (mint_isolated sample_io sample_session [1] (stashed_credential \<lparr>stashed_credential = [1], stashed_oauth = sample_id 1\<rparr>)) sample_world =
     (Inr (RO_Error RER_SpawnFailed, None, None), sample_world)"
  by (simp add: mint_isolated_def run_try_bind sample_session_def)

theorem only_refreshed_is_restashed_witness:
  "snd (run_state (run_isolated sample_io sample_session ''out'' [1] \<lparr>stashed_credential = [1], stashed_oauth = sample_id 1\<rparr> None) sample_world) = sample_world"
  using only_refreshed_is_restashed [OF sample_mint, of "''out''" None] by simp

text \<open>
  Back-dating a credential changes its expiry to the given instant and nothing the judgement reads:
  read back through the JSON library, the seeded blob expires at \<open>now_ms\<close> and carries the same refresh
  token, so any later expiry in the client's result is a real refresh.
\<close>

theorem backdate_roundtrip:
  assumes "backdate io blob now_ms = Some b" and "\<And>v. json_render io v = b \<Longrightarrow> json_parse io b = Inr v"
    and "I64_MIN \<le> now_ms" "now_ms \<le> I64_MAX"
  shows "expires_at io b = Some now_ms \<and> refresh_token io b = refresh_token io blob"
proof -
  obtain doc oauth where doc: "json_parse io blob = Inr (JObject doc)" "map_of doc ''claudeAiOauth'' = Some (JObject oauth)"
    and b: "b = json_render io (JObject (object_insert doc ''claudeAiOauth''
                 (JObject (object_insert oauth ''expiresAt'' (JNumber (JN_Int now_ms))))))"
    using assms(1) by (auto simp: backdate_def split: sum.splits json.splits option.splits)
  have "json_parse io b = Inr (JObject (object_insert doc ''claudeAiOauth''
                 (JObject (object_insert oauth ''expiresAt'' (JNumber (JN_Int now_ms))))))"
    by (rule assms(2)) (simp add: b)
  then show ?thesis
    using assms(3,4) doc
    by (simp add: expires_at_def refresh_token_def oauth_field_def claude_oauth_def map_of_object_insert)
qed

definition backdate_doc :: "int \<Rightarrow> json" where
  "backdate_doc e = JObject [(''claudeAiOauth'', JObject [(''expiresAt'', JNumber (JN_Int e)), (''refreshToken'', JString ''rt'')])]"

definition backdate_io :: "fake_world io" where
  "backdate_io = fake_io
     (\<lambda>b. if b = [0] then Inr (backdate_doc 900) else if b = [1] then Inr (backdate_doc 5) else Inl (1, 1))
     (\<lambda>v. if v = backdate_doc 5 then [1] else [])"

theorem backdate_roundtrip_witness:
  "expires_at backdate_io [1] = Some 5 \<and> refresh_token backdate_io [1] = refresh_token backdate_io [0]"
proof (rule backdate_roundtrip)
  show "backdate backdate_io [0] 5 = Some [1]"
    by (simp add: backdate_def backdate_io_def fake_io_def backdate_doc_def)
qed (auto simp: backdate_io_def fake_io_def split: if_splits)

end
