(* ===== verification/Digest.thy ===== *)
theory Digest
  imports Timing World
begin

text \<open>
  The hand-rolled primitives: the lowercase hex codec (\<open>src/hex.rs\<close>), SHA-256 (\<open>src/sha256.rs\<close>, on
  32-bit words), and what the daemon derives from a digest: the fingerprint of a canonical token and the
  per-account stagger of the keep-warm cadence.
\<close>

unbundle bit_operations_syntax

section \<open>Hex\<close>

definition hex_digit :: "nat \<Rightarrow> char" where
  "hex_digit n = (if n < 10 then char_of (48 + n) else char_of (87 + n))"

definition hex_encode :: "bytes \<Rightarrow> string" where
  "hex_encode bs = concat (map (\<lambda>b. [hex_digit (unat (drop_bit 4 b)), hex_digit (unat (b AND 0x0f))]) bs)"

text \<open>\<open>char::to_digit(16)\<close>.\<close>

definition hex_value :: "char \<Rightarrow> nat option" where
  "hex_value c =
     (let n = of_char c :: nat
      in if 48 \<le> n \<and> n \<le> 57 then Some (n - 48)
         else if 97 \<le> n \<and> n \<le> 102 then Some (n - 87)
         else if 65 \<le> n \<and> n \<le> 70 then Some (n - 55)
         else None)"

fun hex_pairs :: "string \<Rightarrow> bytes option" where
  "hex_pairs (a # b # cs) =
     (case hex_value a of None \<Rightarrow> None | Some hi \<Rightarrow>
       (case hex_value b of None \<Rightarrow> None | Some lo \<Rightarrow>
         map_option (\<lambda>out. of_nat (hi * 16 + lo) # out) (hex_pairs cs)))"
| "hex_pairs _ = Some []"

definition hex_decode :: "string \<Rightarrow> bytes option" where
  "hex_decode h = (if odd (length h) then None else hex_pairs h)"

section \<open>SHA-256\<close>

text \<open>Big-endian bytes of a word, most significant first, and back.\<close>

definition be_bytes64 :: "64 word \<Rightarrow> bytes" where
  "be_bytes64 w = map (\<lambda>i. ucast (drop_bit (8 * i) w)) (rev [0..<8])"

definition be_bytes32 :: "32 word \<Rightarrow> bytes" where
  "be_bytes32 w = map (\<lambda>i. ucast (drop_bit (8 * i) w)) (rev [0..<4])"

fun be_words :: "bytes \<Rightarrow> 32 word list" where
  "be_words (a # b # c # d # bs) =
     (push_bit 24 (ucast a) OR push_bit 16 (ucast b) OR push_bit 8 (ucast c) OR ucast d) # be_words bs"
| "be_words _ = []"

text \<open>The two tables of words, as the hex digits of their big-endian bytes.\<close>

definition word_table :: "string \<Rightarrow> 32 word list" where
  "word_table digits = be_words (the (hex_decode digits))"

definition sha_k :: "32 word list" where
  "sha_k = word_table
   (''428a2f9871374491b5c0fbcfe9b5dba53956c25b59f111f1923f82a4ab1c5ed5''
    @ ''d807aa9812835b01243185be550c7dc372be5d7480deb1fe9bdc06a7c19bf174''
    @ ''e49b69c1efbe47860fc19dc6240ca1cc2de92c6f4a7484aa5cb0a9dc76f988da''
    @ ''983e5152a831c66db00327c8bf597fc7c6e00bf3d5a7914706ca635114292967''
    @ ''27b70a852e1b21384d2c6dfc53380d13650a7354766a0abb81c2c92e92722c85''
    @ ''a2bfe8a1a81a664bc24b8b70c76c51a3d192e819d6990624f40e3585106aa070''
    @ ''19a4c1161e376c082748774c34b0bcb5391c0cb34ed8aa4a5b9cca4f682e6ff3''
    @ ''748f82ee78a5636f84c878148cc7020890befffaa4506cebbef9a3f7c67178f2'')"

definition sha_h0 :: "32 word list" where
  "sha_h0 = word_table ''6a09e667bb67ae853c6ef372a54ff53a510e527f9b05688c1f83d9ab5be0cd19''"

text \<open>The zeros until the length is \<open>56\<close> modulo \<open>64\<close>, then the bit length.\<close>

definition sha_pad :: "bytes \<Rightarrow> bytes" where
  "sha_pad data =
     (let msg = data @ [0x80]
      in msg @ replicate ((120 - length msg mod 64) mod 64) 0 @ be_bytes64 (of_nat (length data) * 8))"

fun chunks :: "nat \<Rightarrow> 'a list \<Rightarrow> 'a list list" where
  "chunks n xs = (if n = 0 \<or> length xs < n then [] else take n xs # chunks n (drop n xs))"

definition sha_extend :: "32 word list \<Rightarrow> 32 word list" where
  "sha_extend ws = fold (\<lambda>i w.
     (let s0 = word_rotr 7 (w ! (i - 15)) XOR word_rotr 18 (w ! (i - 15)) XOR drop_bit 3 (w ! (i - 15));
          s1 = word_rotr 17 (w ! (i - 2)) XOR word_rotr 19 (w ! (i - 2)) XOR drop_bit 10 (w ! (i - 2))
      in w @ [w ! (i - 16) + s0 + w ! (i - 7) + s1])) [16..<64] ws"

record sha_state =
  sha_a :: "32 word"
  sha_b :: "32 word"
  sha_c :: "32 word"
  sha_d :: "32 word"
  sha_e :: "32 word"
  sha_f :: "32 word"
  sha_g :: "32 word"
  sha_h :: "32 word"

definition sha_round :: "32 word list \<Rightarrow> nat \<Rightarrow> sha_state \<Rightarrow> sha_state" where
  "sha_round w i s =
     (let s1 = word_rotr 6 (sha_e s) XOR word_rotr 11 (sha_e s) XOR word_rotr 25 (sha_e s);
          ch = (sha_e s AND sha_f s) XOR (NOT (sha_e s) AND sha_g s);
          t1 = sha_h s + s1 + ch + sha_k ! i + w ! i;
          s0 = word_rotr 2 (sha_a s) XOR word_rotr 13 (sha_a s) XOR word_rotr 22 (sha_a s);
          maj = (sha_a s AND sha_b s) XOR (sha_a s AND sha_c s) XOR (sha_b s AND sha_c s);
          t2 = s0 + maj
      in \<lparr>sha_a = t1 + t2, sha_b = sha_a s, sha_c = sha_b s, sha_d = sha_c s,
          sha_e = sha_d s + t1, sha_f = sha_e s, sha_g = sha_f s, sha_h = sha_g s\<rparr>)"

definition sha_block :: "bytes \<Rightarrow> 32 word list \<Rightarrow> 32 word list" where
  "sha_block chunk h =
     (let w = sha_extend (be_words chunk);
          s = fold (sha_round w) [0..<64]
            \<lparr>sha_a = h ! 0, sha_b = h ! 1, sha_c = h ! 2, sha_d = h ! 3,
             sha_e = h ! 4, sha_f = h ! 5, sha_g = h ! 6, sha_h = h ! 7\<rparr>
      in [h ! 0 + sha_a s, h ! 1 + sha_b s, h ! 2 + sha_c s, h ! 3 + sha_d s,
          h ! 4 + sha_e s, h ! 5 + sha_f s, h ! 6 + sha_g s, h ! 7 + sha_h s])"

definition sha256_hex :: "bytes \<Rightarrow> string" where
  "sha256_hex data =
     hex_encode (concat (map be_bytes32 (fold sha_block (chunks 64 (sha_pad data)) sha_h0)))"

section \<open>Derived values\<close>

definition bytes_of_string :: "string \<Rightarrow> bytes" where
  "bytes_of_string s = map (\<lambda>c. of_char c) s"

definition CANONICAL_FINGERPRINT_HEX :: nat where "CANONICAL_FINGERPRINT_HEX = 16"

definition canonical_fingerprint :: "string \<Rightarrow> string" where
  "canonical_fingerprint token = take CANONICAL_FINGERPRINT_HEX (sha256_hex (bytes_of_string token))"

definition hex_number :: "string \<Rightarrow> nat option" where
  "hex_number s = (if s = [] then None else
     fold (\<lambda>c acc. (case (acc, hex_value c) of (Some n, Some d) \<Rightarrow> Some (16 * n + d) | _ \<Rightarrow> None)) s (Some 0))"

definition keep_warm_stagger_secs :: "string \<Rightarrow> duration \<Rightarrow> nat" where
  "keep_warm_stagger_secs uuid cadence =
     (let cadence_secs = as_secs cadence
      in if cadence_secs = 0 then 0
         else
           let seed = (case hex_number (take 16 (sha256_hex (bytes_of_string uuid))) of None \<Rightarrow> 0 | Some n \<Rightarrow> n)
           in f_as_uint U64_MAX (f_mul (fst (next_unit (SplitMix64_new (of_nat seed)))) (f_of_nat cadence_secs)))"

section \<open>Lemmas\<close>

lemma hex_value_digit: "n < 16 \<Longrightarrow> hex_value (hex_digit n) = Some n"
  by (auto simp: hex_value_def hex_digit_def Let_def)

lemma hex_encode_Cons:
  "hex_encode (b # bs) = hex_digit (unat (drop_bit 4 b)) # hex_digit (unat (b AND 0x0f)) # hex_encode bs"
  by (simp add: hex_encode_def)

lemma hex_encode_Nil [simp]: "hex_encode [] = []"
  by (simp add: hex_encode_def)

lemma length_hex_encode [simp]: "length (hex_encode bs) = 2 * length bs"
  by (induction bs) (simp_all add: hex_encode_Cons)

lemma nibbles: "unat (drop_bit 4 b) * 16 + unat (b AND 0x0f) = unat b" "unat (drop_bit 4 b) < 16" "unat (b AND 0x0f) < 16"
  for b :: "8 word"
proof -
  have hi: "unat (drop_bit 4 b) = unat b div 16" by (subst unat_drop_bit_eq) (simp add: drop_bit_eq_div)
  have "b AND 0x0f = take_bit 4 b" by (simp add: take_bit_eq_mask mask_eq_exp_minus_1)
  then have lo: "unat (b AND 0x0f) = unat b mod 16" by (simp only: unsigned_take_bit_eq) (simp add: take_bit_eq_mod)
  have "unat b < 256" using unsigned_less [of b] by simp
  then show "unat (drop_bit 4 b) * 16 + unat (b AND 0x0f) = unat b"
    "unat (drop_bit 4 b) < 16" "unat (b AND 0x0f) < 16"
    unfolding hi lo by simp_all
qed

lemma hex_pairs_encode: "hex_pairs (hex_encode bs) = Some bs"
proof (induction bs)
  case (Cons b bs)
  have "of_nat (unat (drop_bit 4 b) * 16 + unat (b AND 0x0f)) = b"
    unfolding nibbles(1) by simp
  then show ?case using Cons nibbles(2,3) [of b] by (simp add: hex_encode_Cons hex_value_digit)
qed simp

section \<open>Properties\<close>

text \<open>
  The hex codec round-trips: every byte string decodes to itself from its encoding, which has two
  digits per byte; a decoder given an odd number of digits refuses.
\<close>

theorem hex_roundtrip:
  "hex_decode (hex_encode bs) = Some bs \<and> length (hex_encode bs) = 2 * length bs \<and>
   (odd (length h) \<longrightarrow> hex_decode h = None)"
  by (simp add: hex_decode_def hex_pairs_encode)

theorem hex_roundtrip_witness: "hex_decode (hex_encode [0, 255, 74]) = Some [0, 255, 74] \<and> hex_decode ''0'' = None"
  using hex_roundtrip [of "[0, 255, 74]" "''0''"] by simp

end
