(* ===== verification/Expiry.thy ===== *)
theory Expiry
  imports Observability Prelude "HOL-Library.Product_Lexorder" "HOL-Library.Multiset"
begin

text \<open>
  The credential verdicts of \<open>src/daemon/snapshot.rs\<close>: the health of a credential, where its refresh
  token stands against the expiry horizon, and which accounts expire together. Epoch seconds are \<open>int\<close>,
  with the saturation of \<open>i64\<close> written out.
\<close>

section \<open>Health\<close>

definition credential_health ::
  "bool \<Rightarrow> refresh_event_outcome option \<Rightarrow> nat \<Rightarrow> int option \<Rightarrow> bool \<Rightarrow> int \<Rightarrow> credential_health_state" where
  "credential_health is_quarantined last_outcome failures access_expires has_fresh_reading now_secs =
     (if last_outcome = Some REO_Dead then CH_Dead
      else if is_quarantined then CH_Degraded
      else if failures > 0 then CH_AtRisk
      else if (case access_expires of None \<Rightarrow> False | Some e \<Rightarrow> e \<le> now_secs) then CH_Stale
      else if has_fresh_reading \<or> last_outcome \<noteq> None \<or> access_expires \<noteq> None then CH_Healthy
      else CH_Unknown)"

section \<open>The expiry horizon\<close>

record account_expiry_rec =
  ae_expires_at :: "int option"
  ae_horizon_state :: expiry_horizon
  ae_cohort_id :: "nat option"

definition i64_of_u64 :: "nat \<Rightarrow> int" where
  "i64_of_u64 n = min (int n) I64_MAX"

definition horizon_edge :: "int \<Rightarrow> nat \<Rightarrow> int" where
  "horizon_edge now_secs horizon = i64_sat (now_secs + i64_of_u64 horizon)"

definition account_expiry :: "int option \<Rightarrow> nat \<Rightarrow> int \<Rightarrow> account_expiry_rec" where
  "account_expiry refresh_expires horizon now_secs =
     \<lparr>ae_expires_at = refresh_expires,
      ae_horizon_state =
        (case refresh_expires of
           None \<Rightarrow> EH_Unknown
         | Some deadline \<Rightarrow>
             if deadline \<le> now_secs then EH_Lapsed
             else if deadline \<le> horizon_edge now_secs horizon then EH_Within
             else EH_Beyond),
      ae_cohort_id = None\<rparr>"

section \<open>Expiry cohorts\<close>

record expiry_cohort =
  ec_size :: nat
  ec_observed :: nat
  ec_earliest :: int
  ec_span_secs :: int

text \<open>
  The outer loop: \<open>obs\<close> is what is left of the sorted deadlines, \<open>cnt\<close> their number; the inner loop takes
  the deadlines inside the window that the first one opens.
\<close>

function cohort_loop ::
  "int \<Rightarrow> int \<Rightarrow> nat \<Rightarrow> (int \<times> nat) list \<Rightarrow> nat \<Rightarrow> nat option list \<Rightarrow> expiry_cohort option \<Rightarrow>
   nat option list \<times> expiry_cohort option" where
  "cohort_loop window edge cnt [] next_id assignment condition = (assignment, condition)"
| "cohort_loop window edge cnt ((anchor, i) # obs) next_id assignment condition =
     (let inside = (\<lambda>(d, _). d \<le> i64_sat (anchor + window));
          cohort = (anchor, i) # takeWhile inside obs;
          size = length cohort;
          rest = dropWhile inside obs
      in if size \<ge> 2
         then
           let assignment' = fold (\<lambda>(_, j) a. a[j := Some next_id]) cohort assignment;
               latest = fst (last cohort);
               candidate = \<lparr>ec_size = min size U32_MAX, ec_observed = min cnt U32_MAX,
                 ec_earliest = anchor, ec_span_secs = i64_sat (latest - anchor)\<rparr>;
               condition' =
                 (if anchor \<le> edge
                  then (case condition of None \<Rightarrow> Some candidate | Some c \<Rightarrow> Some c) else condition)
           in cohort_loop window edge cnt rest (next_id + 1) assignment' condition'
         else cohort_loop window edge cnt rest next_id assignment condition)"
  by pat_completeness auto
termination
  by (relation "measure (\<lambda>(_, _, _, obs, _). length obs)") (auto simp: le_imp_less_Suc length_dropWhile_le)

definition observed_deadlines :: "int option list \<Rightarrow> (int \<times> nat) list" where
  "observed_deadlines deadlines =
     sort (List.map_filter (\<lambda>(i, d). map_option (\<lambda>deadline. (deadline, i)) d) (enumerate 0 deadlines))"

definition expiry_cohorts ::
  "int option list \<Rightarrow> nat \<Rightarrow> nat \<Rightarrow> int \<Rightarrow> nat option list \<times> expiry_cohort option" where
  "expiry_cohorts deadlines window_secs horizon now_secs =
     (let observed = observed_deadlines deadlines
      in cohort_loop (i64_of_u64 window_secs) (horizon_edge now_secs horizon) (length observed) observed 0
           (replicate (length deadlines) None) None)"

section \<open>Lemmas\<close>

lemma observed_deadlines_set:
  "(d, i) \<in> set (observed_deadlines deadlines) \<longleftrightarrow> i < length deadlines \<and> deadlines ! i = Some d"
  by (auto simp: observed_deadlines_def List.map_filter_def in_set_enumerate_eq image_iff split: option.splits)

lemma distinct_enumerate_filter:
  "distinct (map snd (List.map_filter (\<lambda>(i, d). map_option (\<lambda>x. (x, i)) d) (enumerate n xs)))"
proof (induction xs arbitrary: n)
  case (Cons x xs)
  have "n \<notin> set (map snd (List.map_filter (\<lambda>(i, d). map_option (\<lambda>x. (x, i)) d) (enumerate (Suc n) xs)))"
    by (auto simp: List.map_filter_def in_set_enumerate_eq)
  with Cons.IH [of "Suc n"] show ?case by (cases x) (simp_all add: List.map_filter_simps)
qed (simp add: List.map_filter_simps)

lemma observed_deadlines_distinct: "distinct (map snd (observed_deadlines deadlines))"
proof -
  let ?xs = "List.map_filter (\<lambda>(i, d). map_option (\<lambda>x. (x, i)) d) (enumerate 0 deadlines)"
  have "mset (map snd (sort ?xs)) = mset (map snd ?xs)" by simp
  then show ?thesis unfolding observed_deadlines_def
    using distinct_enumerate_filter [of 0 deadlines] mset_eq_imp_distinct_iff by blast
qed

lemma fold_assign_nth:
  "j < length a \<Longrightarrow> fold (\<lambda>(_, j) a. a[j := Some n]) xs a ! j = (if j \<in> snd ` set xs then Some n else a ! j)"
proof (induction xs arbitrary: a)
  case (Cons x xs)
  obtain d i where x: "x = (d, i)" by (cases x)
  from Cons show ?case by (cases "j = i") (auto simp: x)
qed simp

lemma fold_assign_length [simp]: "length (fold (\<lambda>(_, j) a. a[j := Some n]) xs a) = length a"
  by (induction xs arbitrary: a) auto

text \<open>
  What the assignment means: the ids given so far are below \<open>next_id\<close>, and two indices that share one have
  deadlines within the window of each other.
\<close>

definition cohort_ok :: "(nat \<Rightarrow> int option) \<Rightarrow> int \<Rightarrow> nat \<Rightarrow> nat option list \<Rightarrow> bool" where
  "cohort_ok dl window next_id a \<longleftrightarrow>
     (\<forall>i n. i < length a \<and> a ! i = Some n \<longrightarrow> n < next_id \<and> (\<exists>d. dl i = Some d) \<and>
        (\<exists>j. j < length a \<and> j \<noteq> i \<and> a ! j = Some n)) \<and>
     (\<forall>i j n d e. i < length a \<and> j < length a \<and> a ! i = Some n \<and> a ! j = Some n \<and> dl i = Some d \<and> dl j = Some e \<longrightarrow>
        \<bar>d - e\<bar> \<le> window)"

lemma cohort_okD:
  assumes "cohort_ok dl window n a" "i < length a" "a ! i = Some m"
  shows "dl i \<noteq> None \<and> (\<exists>j. j < length a \<and> j \<noteq> i \<and> a ! j = Some m)"
  using assms unfolding cohort_ok_def by blast

lemma cohort_ok_close:
  assumes "cohort_ok dl window n a" "i < length a" "a ! i = Some m" "j < length a" "a ! j = Some m"
    "dl i = Some d" "dl j = Some e"
  shows "\<bar>d - e\<bar> \<le> window"
  using assms unfolding cohort_ok_def by blast

lemma cohort_ok_step:
  assumes ok: "cohort_ok dl window n a"
    and new: "\<And>d i. (d, i) \<in> set grp \<Longrightarrow> i < length a \<and> a ! i = None \<and> dl i = Some d \<and> lo \<le> d \<and> d \<le> lo + window"
    and two: "\<And>d i. (d, i) \<in> set grp \<Longrightarrow> \<exists>e j. (e, j) \<in> set grp \<and> j \<noteq> i"
  shows "cohort_ok dl window (n + 1) (fold (\<lambda>(_, j) a. a[j := Some n]) grp a)" (is "cohort_ok _ _ _ ?a")
proof -
  have nth: "?a ! i = (if i \<in> snd ` set grp then Some n else a ! i)" if "i < length a" for i
    using that by (rule fold_assign_nth)
  have old: "m < n" "\<exists>d. dl i = Some d" "\<exists>j. j < length a \<and> j \<noteq> i \<and> a ! j = Some m"
    if "i < length a" "a ! i = Some m" for i m
    using ok that unfolding cohort_ok_def by blast+
  have close: "\<bar>d - e\<bar> \<le> window" if "i < length a" "j < length a" "a ! i = Some m" "a ! j = Some m"
    "dl i = Some d" "dl j = Some e" for i j m d e
    using ok that unfolding cohort_ok_def by blast
  have "m < n + 1 \<and> (\<exists>d. dl i = Some d) \<and> (\<exists>j. j < length ?a \<and> j \<noteq> i \<and> ?a ! j = Some m)"
    if i: "i < length ?a" "?a ! i = Some m" for i m
  proof (cases "i \<in> snd ` set grp")
    case True
    then obtain d where d: "(d, i) \<in> set grp" by force
    then obtain e j where j: "(e, j) \<in> set grp" "j \<noteq> i" using two by blast
    then have "?a ! j = Some n" "j < length ?a" using new [OF j(1)] nth [of j] by force+
    moreover have "m = n" using i True nth [of i] by simp
    ultimately show ?thesis using new [OF d] j(2) by auto
  next
    case False
    then have a: "a ! i = Some m" "i < length a" using i nth [of i] by simp_all
    then obtain j where j: "j < length a" "j \<noteq> i" "a ! j = Some m" using old(3) by blast
    then have "j \<notin> snd ` set grp" using new by force
    then show ?thesis using old(1,2) [OF a(2,1)] j nth [of j] by auto
  qed
  moreover have "\<bar>d - e\<bar> \<le> window"
    if ij: "i < length ?a" "j < length ?a" "?a ! i = Some m" "?a ! j = Some m" "dl i = Some d" "dl j = Some e" for i j m d e
  proof (cases "m = n")
    case True
    have "a ! i \<noteq> Some n" "a ! j \<noteq> Some n" using old(1) ij(1,2) by force+
    then have "i \<in> snd ` set grp" "j \<in> snd ` set grp"
      using ij(1-4) True nth [of i] nth [of j] by (auto split: if_splits)
    then obtain d' e' where "(d', i) \<in> set grp" "(e', j) \<in> set grp" by force
    then have "lo \<le> d \<and> d \<le> lo + window" "lo \<le> e \<and> e \<le> lo + window"
      using new ij(5,6) by (metis option.inject)+
    then show ?thesis by auto
  next
    case False
    then have "a ! i = Some m" "a ! j = Some m"
      using ij(1-4) nth [of i] nth [of j] by (auto split: if_splits)
    then show ?thesis using close [of i j m d e] ij by simp
  qed
  ultimately show ?thesis unfolding cohort_ok_def by blast
qed

lemma cohort_loop_ok:
  assumes "cohort_ok dl window next_id a" "sorted (map fst obs)" "distinct (map snd obs)" "0 \<le> window"
    and "\<And>d i. (d, i) \<in> set obs \<Longrightarrow> i < length a \<and> a ! i = None \<and> dl i = Some d \<and> I64_MIN \<le> d"
  shows "(\<exists>n. cohort_ok dl window n (fst (cohort_loop window edge cnt obs next_id a c))) \<and>
    length (fst (cohort_loop window edge cnt obs next_id a c)) = length a"
  using assms
proof (induction window edge cnt obs next_id a c rule: cohort_loop.induct)
  case (1 window edge cnt next_id a c)
  then show ?case by auto
next
  case (2 window edge cnt anchor i obs next_id a c)
  define inside where "inside = (\<lambda>(d :: int, _ :: nat). d \<le> i64_sat (anchor + window))"
  define grp where "grp = (anchor, i) # takeWhile inside obs"
  define rest where "rest = dropWhile inside obs"
  define a' where "a' = fold (\<lambda>(_, j) a. a[j := Some next_id]) grp a"
  define cand where "cand = \<lparr>ec_size = min (length grp) U32_MAX, ec_observed = min cnt U32_MAX,
    ec_earliest = anchor, ec_span_secs = i64_sat (fst (last grp) - anchor)\<rparr>"
  define cond where "cond = (if anchor \<le> edge then (case c of None \<Rightarrow> Some cand | Some c \<Rightarrow> Some c) else c)"
  have eq: "cohort_loop window edge cnt ((anchor, i) # obs) next_id a c =
      (if 2 \<le> length grp then cohort_loop window edge cnt rest (next_id + 1) a' cond
       else cohort_loop window edge cnt rest next_id a c)"
    unfolding cohort_loop.simps Let_def inside_def grp_def rest_def a'_def cand_def cond_def by (rule refl)
  have split: "obs = takeWhile inside obs @ rest" by (simp add: rest_def)
  have sub: "set rest \<subseteq> set obs" "set grp \<subseteq> set ((anchor, i) # obs)"
    using set_dropWhileD [of _ inside obs] set_takeWhileD [of _ inside obs] by (auto simp: rest_def grp_def)
  have dis: "distinct (i # map snd (takeWhile inside obs) @ map snd rest)"
    using 2(5) by (subst (asm) split) simp
  have srt: "sorted (map fst rest)" "\<forall>x \<in> set obs. anchor \<le> fst x"
    using 2(4) by (subst (asm) split; simp add: sorted_append)+
  have lo: "I64_MIN \<le> anchor" using 2(7) [of anchor i] by simp
  have grp: "j < length a \<and> a ! j = None \<and> dl j = Some d \<and> anchor \<le> d \<and> d \<le> anchor + window"
    if "(d, j) \<in> set grp" for d j
  proof -
    have "i64_sat (anchor + window) \<le> anchor + window" using lo 2(6) by (auto simp: i64_sat_def)
    then have "anchor \<le> d \<and> d \<le> anchor + window"
      using that srt(2) 2(6) set_takeWhileD [of "(d, j)" inside obs] by (fastforce simp: grp_def inside_def)
    then show ?thesis using 2(7) [of d j] that sub(2) by auto
  qed
  have rest: "j < length a \<and> a ! j = None \<and> dl j = Some d \<and> I64_MIN \<le> d" if "(d, j) \<in> set rest" for d j
    using 2(7) [of d j] that sub(1) by auto
  show ?case
  proof (cases "2 \<le> length grp")
    case True
    have two: "\<exists>e j. (e, j) \<in> set grp \<and> j \<noteq> k" if "(d, k) \<in> set grp" for d k
    proof -
      obtain e j where ej: "(e, j) \<in> set (takeWhile inside obs)"
        using True by (cases "takeWhile inside obs") (auto simp: grp_def)
      then have "j \<noteq> i" using dis by force
      with ej that show ?thesis by (cases "k = i") (auto simp: grp_def)
    qed
    have ok: "cohort_ok dl window (next_id + 1) a'"
      unfolding a'_def by (rule cohort_ok_step [OF 2(3) grp two])
    have "a' ! j = None" if "(d, j) \<in> set rest" for d j
    proof -
      have "j \<notin> snd ` set grp" using that dis by (force simp: grp_def)
      then show ?thesis using rest [OF that] by (simp add: a'_def fold_assign_nth)
    qed
    then have pre: "j < length a' \<and> a' ! j = None \<and> dl j = Some d \<and> I64_MIN \<le> d" if "(d, j) \<in> set rest" for d j
      using rest [OF that] that by (simp add: a'_def)
    have "distinct (map snd rest)" using dis by simp
    from 2(1) [OF inside_def grp_def refl rest_def True a'_def refl cand_def cond_def ok srt(1) this 2(6) pre]
    show ?thesis unfolding eq using True by (simp add: a'_def)
  next
    case False
    have "distinct (map snd rest)" using dis by simp
    from 2(2) [OF inside_def grp_def refl rest_def False 2(3) srt(1) this 2(6) rest]
    show ?thesis unfolding eq using False by simp
  qed
qed

section \<open>Properties\<close>

text \<open>
  Cohorts are what they claim: with the deadlines in the range of an \<open>i64\<close>, the assignment has one
  slot per account, an account gets an id only if its deadline is known and another account shares the
  id, and the deadlines of two accounts with the same id are at most the window apart.
\<close>

theorem expiry_cohorts_sound:
  assumes range: "\<forall>d \<in> set deadlines. \<forall>x. d = Some x \<longrightarrow> I64_MIN \<le> x"
    and run: "expiry_cohorts deadlines window_secs horizon now_secs = (a, condition)"
  shows "length a = length deadlines \<and>
    (\<forall>i n. i < length a \<and> a ! i = Some n \<longrightarrow> deadlines ! i \<noteq> None \<and> (\<exists>j. j < length a \<and> j \<noteq> i \<and> a ! j = Some n)) \<and>
    (\<forall>i j n d e. i < length a \<and> j < length a \<and> a ! i = Some n \<and> a ! j = Some n \<and>
       deadlines ! i = Some d \<and> deadlines ! j = Some e \<longrightarrow> \<bar>d - e\<bar> \<le> int window_secs)"
proof -
  let ?dl = "\<lambda>i. deadlines ! i" and ?o = "observed_deadlines deadlines"
  let ?a0 = "replicate (length deadlines) (None :: nat option)"
  have "cohort_ok ?dl (i64_of_u64 window_secs) 0 ?a0" by (auto simp: cohort_ok_def)
  moreover have "sorted (map fst ?o)"
    unfolding observed_deadlines_def
    by (rule sorted_map [THEN iffD2], rule sorted_wrt_mono_rel [OF _ sorted_sort]) (auto simp: less_eq_prod_def)
  moreover have "0 \<le> i64_of_u64 window_secs" by (simp add: i64_of_u64_def)
  moreover have "i < length ?a0 \<and> ?a0 ! i = None \<and> ?dl i = Some d \<and> I64_MIN \<le> d" if "(d, i) \<in> set ?o" for d i
    using that range nth_mem [of i deadlines] by (auto simp: observed_deadlines_set)
  ultimately have "(\<exists>n. cohort_ok ?dl (i64_of_u64 window_secs) n a) \<and> length a = length deadlines"
    using cohort_loop_ok [of ?dl "i64_of_u64 window_secs" 0 ?a0 ?o "horizon_edge now_secs horizon" "length ?o" None]
      observed_deadlines_distinct [of deadlines] run
    by (simp add: expiry_cohorts_def Let_def)
  then obtain n where ok: "cohort_ok ?dl (i64_of_u64 window_secs) n a" and len: "length a = length deadlines"
    by blast
  have "i64_of_u64 window_secs \<le> int window_secs" by (simp add: i64_of_u64_def)
  then have "\<bar>d - e\<bar> \<le> int window_secs"
    if "i < length a" "j < length a" "a ! i = Some n" "a ! j = Some n" "deadlines ! i = Some d" "deadlines ! j = Some e"
    for i j n d e
    using cohort_ok_close [OF ok that(1,3,2,4,5,6)] by simp
  then show ?thesis using len cohort_okD [OF ok] by blast
qed

lemma sample_cohorts:
  "expiry_cohorts [Some 100, Some 900, None, Some 130] 60 1000 0 =
     ([Some 0, None, None, Some 0], Some \<lparr>ec_size = 2, ec_observed = 3, ec_earliest = 100, ec_span_secs = 30\<rparr>)"
  by (simp add: expiry_cohorts_def observed_deadlines_def List.map_filter_simps Let_def i64_of_u64_def i64_sat_def
      horizon_edge_def)

theorem expiry_cohorts_sound_witness: "\<bar>100 - 130 :: int\<bar> \<le> int 60"
  using expiry_cohorts_sound [OF _ sample_cohorts] by (force dest: spec [of _ 0])

fun horizon_rank :: "expiry_horizon \<Rightarrow> nat" where
  "horizon_rank EH_Unknown = 0"
| "horizon_rank EH_Beyond = 1"
| "horizon_rank EH_Within = 2"
| "horizon_rank EH_Lapsed = 3"

text \<open>
  The expiry verdict only moves forward: as the clock advances, a known deadline goes from beyond the
  horizon to within it to lapsed and never back, for every horizon.
\<close>

theorem account_expiry_monotone:
  assumes "now1 \<le> now2"
  shows "horizon_rank (ae_horizon_state (account_expiry d h now1)) \<le>
    horizon_rank (ae_horizon_state (account_expiry d h now2))"
proof -
  have "horizon_edge now1 h \<le> horizon_edge now2 h"
    using assms by (auto simp: horizon_edge_def i64_sat_def min_def max_def)
  then show ?thesis using assms by (auto simp: account_expiry_def split: option.split)
qed

theorem account_expiry_monotone_witness:
  "horizon_rank (ae_horizon_state (account_expiry (Some 100) 10 50)) \<le> horizon_rank (ae_horizon_state (account_expiry (Some 100) 10 95))"
  by (rule account_expiry_monotone) simp

end
