(* ===== verification/Canary.thy ===== *)
theory Canary
  imports Refresh_Engine Usage
begin

text \<open>
  \<open>src/canary.rs\<close>: the behavioural canary that runs before every swap. It checks that the canonical item
  is unique, repairs the displayed identity, and compares the live token with the stashes; a second layer
  probes the usage endpoint with the live token.
\<close>

datatype inconclusive_reason = IR_DisplayUnresolved | IR_NoStashMatch bool

datatype canary_outcome =
    CA_Ok
  | CA_NotFound
  | CA_Ambiguous nat
  | CA_Drift nat nat
  | CA_Inconclusive inconclusive_reason

datatype canary_status =
    CS_Ok
  | CS_Inconclusive
  | CS_NotFound
  | CS_Ambiguous nat
  | CS_Drift string string bool
  | CS_RefusedUnparseableCanonical

section \<open>Layer one\<close>

fun reconcile_display :: "'w io \<Rightarrow> account list \<Rightarrow> string \<Rightarrow> credential \<Rightarrow> ('w, unit result) state" where
  "reconcile_display io [] claude_json canonical = State_Monad.return (Inr ())"
| "reconcile_display io (a # roster) claude_json canonical =
     State_Monad.bind (stash_read io (stash_name a)) (\<lambda>r.
       (case r of
          Inl _ \<Rightarrow> reconcile_display io roster claude_json canonical
        | Inr stashed \<Rightarrow>
            if \<not> credential_matches (stashed_credential stashed) canonical
            then reconcile_display io roster claude_json canonical
            else State_Monad.bind (read_oauth_account_from io claude_json) (\<lambda>shown.
              if map_option oa_account_uuid (ok shown) \<noteq> Some (oa_account_uuid (stashed_oauth stashed))
              then write_oauth_account io claude_json (stashed_oauth stashed)
              else State_Monad.return (Inr ()))))"

text \<open>The second loop: the first other account, from index \<open>i\<close> on, whose stash holds the live token.\<close>

fun find_drift :: "'w io \<Rightarrow> nat \<Rightarrow> credential \<Rightarrow> nat \<Rightarrow> account list \<Rightarrow> ('w, nat option) state" where
  "find_drift io displayed canonical i [] = State_Monad.return None"
| "find_drift io displayed canonical i (a # roster) =
     (if i = displayed then find_drift io displayed canonical (Suc i) roster
      else State_Monad.bind (stash_read io (stash_name a)) (\<lambda>r.
        (case r of
           Inl _ \<Rightarrow> find_drift io displayed canonical (Suc i) roster
         | Inr stashed \<Rightarrow>
             if credential_matches (stashed_credential stashed) canonical then State_Monad.return (Some i)
             else find_drift io displayed canonical (Suc i) roster)))"

definition compare_stashes :: "'w io \<Rightarrow> account list \<Rightarrow> string \<Rightarrow> credential \<Rightarrow> ('w, canary_outcome result) state" where
  "compare_stashes io roster claude_json canonical =
     State_Monad.bind (resolve_via_display io roster claude_json) (\<lambda>d.
       (case d of
          None \<Rightarrow> State_Monad.return (Inr (CA_Inconclusive IR_DisplayUnresolved))
        | Some displayed \<Rightarrow>
            State_Monad.bind (stash_read io (stash_name (roster ! displayed))) (\<lambda>r.
              if (case r of Inl _ \<Rightarrow> False | Inr s \<Rightarrow> credential_matches (stashed_credential s) canonical)
              then State_Monad.return (Inr CA_Ok)
              else State_Monad.bind (find_drift io displayed canonical 0 roster) (\<lambda>m.
                State_Monad.return (Inr
                  (case m of
                     Some matched \<Rightarrow> CA_Drift displayed matched
                   | None \<Rightarrow> CA_Inconclusive (IR_NoStashMatch (is_well_formed_credential io canonical))))))))"

definition run_canary :: "'w io \<Rightarrow> account list \<Rightarrow> string \<Rightarrow> ('w, canary_outcome result) state" where
  "run_canary io roster claude_json =
     State_Monad.bind (store_probe io) (\<lambda>probe.
       (case probe of
          Inl err \<Rightarrow> State_Monad.return
            (case err of
               CredentialNotFound \<Rightarrow> Inr CA_NotFound
             | CredentialAmbiguous n \<Rightarrow> Inr (CA_Ambiguous n)
             | other \<Rightarrow> Inl other)
        | Inr _ \<Rightarrow>
            State_Monad.bind (store_read io) (\<lambda>rd.
              (case rd of
                 Inl err \<Rightarrow> State_Monad.return (if err = CredentialNotFound then Inr CA_NotFound else Inl err)
               | Inr canonical \<Rightarrow>
                   State_Monad.bind (reconcile_display io roster claude_json canonical) (\<lambda>_.
                     compare_stashes io roster claude_json canonical)))))"

section \<open>Layer two\<close>

datatype liveness = LV_Skipped | LV_Uninformative | LV_Overridden | LV_Live | LV_Rejected | LV_Inconclusive

fun liveness_as_str :: "liveness \<Rightarrow> string" where
  "liveness_as_str LV_Skipped = ''skipped''"
| "liveness_as_str LV_Uninformative = ''uninformative''"
| "liveness_as_str LV_Overridden = ''overridden''"
| "liveness_as_str LV_Live = ''live''"
| "liveness_as_str LV_Rejected = ''rejected''"
| "liveness_as_str LV_Inconclusive = ''inconclusive''"

datatype probe_gate = PG_Disarmed | PG_Armed | PG_Uninformative | PG_Overridden

definition probe_liveness :: "(account \<Rightarrow> bool \<Rightarrow> ('w, polled_reading result) state) \<Rightarrow> account \<Rightarrow> probe_gate \<Rightarrow> ('w, liveness) state" where
  "probe_liveness poll a gate =
     (case gate of
        PG_Disarmed \<Rightarrow> State_Monad.return LV_Skipped
      | PG_Uninformative \<Rightarrow> State_Monad.return LV_Uninformative
      | PG_Overridden \<Rightarrow> State_Monad.return LV_Overridden
      | PG_Armed \<Rightarrow> State_Monad.bind (poll a True) (\<lambda>r. State_Monad.return
          (case r of
             Inr _ \<Rightarrow> LV_Live
           | Inl e \<Rightarrow> if e = UsageUnauthorized then LV_Rejected else LV_Inconclusive)))"

definition probe_refuses :: "liveness \<Rightarrow> bool \<Rightarrow> bool" where
  "probe_refuses l strict \<longleftrightarrow> strict \<and> (l = LV_Rejected \<or> l = LV_Inconclusive)"

definition probe_alarms :: "liveness \<Rightarrow> bool" where
  "probe_alarms l \<longleftrightarrow> \<not> (l = LV_Skipped \<or> l = LV_Live)"

section \<open>Lemmas\<close>

context vault
begin

lemma t_fs_read: "keeps (holds C S) (fs_read io f)"
  by (simp add: triple_def holds_def files_pure)

lemma t_read_oauth: "keeps (holds C S) (read_oauth_account_from io f)"
  by (simp add: triple_def holds_def read_oauth_account_from_def read_state_file_def run_try_bind split_beta
      files_pure split: sum.split)

lemma t_via_display: "triple (holds C S) (resolve_via_display io roster f)
    (\<lambda>d s. holds C S s \<and> (\<forall>i. d = Some i \<longrightarrow> i < length roster))"
  unfolding resolve_via_display_def
  by (rule triple_bind_keep [OF t_read_oauth]) (auto simp: triple_def dest: position_less split: sum.splits)

lemma t_reconcile_display: "keeps (holds C S) (reconcile_display io roster f c)"
proof (induction roster)
  case (Cons a roster)
  have fix_display: "keeps (holds C S) (State_Monad.bind (read_oauth_account_from io f) (\<lambda>shown.
      if map_option oa_account_uuid (ok shown) \<noteq> x then write_oauth_account io f oa else State_Monad.return (Inr ())))"
    for x oa
    by (intro keeps_bind t_read_oauth triple_if t_write_oauth keeps_return)
  have step: "triple (\<lambda>s. holds C S s \<and> (\<forall>x. r = Inr x \<longrightarrow> S (stash_name a) = Some x)) (case r of
        Inl _ \<Rightarrow> reconcile_display io roster f c
      | Inr stashed \<Rightarrow>
          if \<not> credential_matches (stashed_credential stashed) c then reconcile_display io roster f c
          else State_Monad.bind (read_oauth_account_from io f) (\<lambda>shown.
            if map_option oa_account_uuid (ok shown) \<noteq> Some (oa_account_uuid (stashed_oauth stashed))
            then write_oauth_account io f (stashed_oauth stashed) else State_Monad.return (Inr ())))
      (\<lambda>_. holds C S)" for r
    by (rule triple_pre [where P = "holds C S"], cases r) (simp_all only: sum.case Cons.IH fix_display split: if_split, simp_all add: Cons.IH fix_display)
  show ?case unfolding reconcile_display.simps by (rule triple_bind [OF t_sread step])
qed (simp add: keeps_return)

lemma t_find_drift: "triple (holds C S) (find_drift io d c i roster)
    (\<lambda>m s. holds C S s \<and> (\<forall>j. m = Some j \<longrightarrow> j \<noteq> d \<and> i \<le> j \<and> j < i + length roster \<and>
       (\<exists>x. S (stash_name (roster ! (j - i))) = Some x \<and> stashed_credential x = c)))"
  (is "triple _ _ (?Q i roster)")
proof (induction roster arbitrary: i)
  case Nil
  then show ?case by (simp add: triple_def)
next
  case (Cons a roster)
  have tail: "triple (holds C S) (find_drift io d c (Suc i) roster) (?Q i (a # roster))"
    by (rule triple_weaken [OF Cons.IH]) (force simp: Suc_diff_le nth_Cons' Suc_le_eq)+
  show ?case
  proof (cases "i = d")
    case True
    then show ?thesis using tail by simp
  next
    case False
    have step: "triple (\<lambda>s. holds C S s \<and> (\<forall>x. r = Inr x \<longrightarrow> S (stash_name a) = Some x)) (case r of
        Inl _ \<Rightarrow> find_drift io d c (Suc i) roster
      | Inr stashed \<Rightarrow>
          if credential_matches (stashed_credential stashed) c then State_Monad.return (Some i)
          else find_drift io d c (Suc i) roster) (?Q i (a # roster))" for r
    proof (cases "\<exists>x. r = Inr x \<and> credential_matches (stashed_credential x) c")
      case True
      then show ?thesis using False by (auto simp: triple_def credential_matches_def)
    next
      case other: False
      then have "(case r of Inl _ \<Rightarrow> find_drift io d c (Suc i) roster
        | Inr stashed \<Rightarrow> if credential_matches (stashed_credential stashed) c then State_Monad.return (Some i)
            else find_drift io d c (Suc i) roster) = find_drift io d c (Suc i) roster"
        by (cases r) auto
      then show ?thesis by (simp only:) (rule triple_pre [OF tail], simp)
    qed
    show ?thesis using False triple_bind [OF t_sread step] by simp
  qed
qed

lemma t_probe: "keeps (holds C S) (store_probe io)"
  by (simp add: triple_def holds_def probe_pure)

lemma t_compare: "triple (holds C S) (compare_stashes io roster f c) (\<lambda>r s. holds C S s \<and>
    (r = Inr CA_Ok \<longrightarrow> (\<exists>i < length roster. \<exists>x. S (stash_name (roster ! i)) = Some x \<and> stashed_credential x = c)) \<and>
    (\<forall>d m. r = Inr (CA_Drift d m) \<longrightarrow> d < length roster \<and> m < length roster \<and> d \<noteq> m \<and>
       (\<exists>x. S (stash_name (roster ! m)) = Some x \<and> stashed_credential x = c)))"
  (is "triple _ _ ?Q")
proof -
  have tail: "triple (holds C S) (State_Monad.bind (find_drift io d c 0 roster) (\<lambda>m. State_Monad.return (Inr
      (case m of Some matched \<Rightarrow> CA_Drift d matched
       | None \<Rightarrow> CA_Inconclusive (IR_NoStashMatch (is_well_formed_credential io c)))))) ?Q"
    if "d < length roster" for d
    by (rule triple_bind [OF t_find_drift]) (use that in \<open>auto simp: triple_def split: option.split\<close>)
  have shown: "triple (\<lambda>s. holds C S s \<and> (\<forall>x. r = Inr x \<longrightarrow> S (stash_name (roster ! d)) = Some x))
      (if (case r of Inl _ \<Rightarrow> False | Inr s \<Rightarrow> credential_matches (stashed_credential s) c)
       then State_Monad.return (Inr CA_Ok)
       else State_Monad.bind (find_drift io d c 0 roster) (\<lambda>m. State_Monad.return (Inr
         (case m of Some matched \<Rightarrow> CA_Drift d matched
          | None \<Rightarrow> CA_Inconclusive (IR_NoStashMatch (is_well_formed_credential io c)))))) ?Q"
    if "d < length roster" for d r
  proof (rule triple_if)
    assume "case r of Inl _ \<Rightarrow> False | Inr s \<Rightarrow> credential_matches (stashed_credential s) c"
    then show "triple (\<lambda>s. holds C S s \<and> (\<forall>x. r = Inr x \<longrightarrow> S (stash_name (roster ! d)) = Some x))
        (State_Monad.return (Inr CA_Ok)) ?Q"
      using that by (cases r) (auto simp: triple_def credential_matches_def)
  qed (rule triple_pre [OF tail [OF that]], simp)
  have step: "triple (\<lambda>s. holds C S s \<and> (\<forall>i. d = Some i \<longrightarrow> i < length roster))
      (case d of
          None \<Rightarrow> State_Monad.return (Inr (CA_Inconclusive IR_DisplayUnresolved))
        | Some displayed \<Rightarrow>
            State_Monad.bind (stash_read io (stash_name (roster ! displayed))) (\<lambda>r.
              if (case r of Inl _ \<Rightarrow> False | Inr s \<Rightarrow> credential_matches (stashed_credential s) c)
              then State_Monad.return (Inr CA_Ok)
              else State_Monad.bind (find_drift io displayed c 0 roster) (\<lambda>m. State_Monad.return (Inr
                 (case m of Some matched \<Rightarrow> CA_Drift displayed matched
                  | None \<Rightarrow> CA_Inconclusive (IR_NoStashMatch (is_well_formed_credential io c))))))) ?Q" for d
  proof (cases d)
    case None
    then show ?thesis by (simp add: triple_def)
  next
    case (Some i)
    show ?thesis
    proof (cases "i < length roster")
      case True
      have "triple (holds C S) (State_Monad.bind (stash_read io (stash_name (roster ! i))) (\<lambda>r.
              if (case r of Inl _ \<Rightarrow> False | Inr s \<Rightarrow> credential_matches (stashed_credential s) c)
              then State_Monad.return (Inr CA_Ok)
              else State_Monad.bind (find_drift io i c 0 roster) (\<lambda>m. State_Monad.return (Inr
                 (case m of Some matched \<Rightarrow> CA_Drift i matched
                  | None \<Rightarrow> CA_Inconclusive (IR_NoStashMatch (is_well_formed_credential io c))))))) ?Q"
        by (rule triple_bind [OF t_sread shown [OF True]])
      then show ?thesis unfolding Some option.case by (rule triple_pre) simp
    qed (simp add: Some triple_def)
  qed
  show ?thesis unfolding compare_stashes_def by (rule triple_bind [OF t_via_display step])
qed

lemma t_canary: "triple (holds C S) (run_canary io roster f) (\<lambda>r s. holds C S s \<and>
    (r = Inr CA_Ok \<longrightarrow> (\<exists>i < length roster. \<exists>x. S (stash_name (roster ! i)) = Some x \<and> C = Some (stashed_credential x))) \<and>
    (\<forall>d m. r = Inr (CA_Drift d m) \<longrightarrow> d < length roster \<and> m < length roster \<and> d \<noteq> m \<and>
       (\<exists>x. S (stash_name (roster ! m)) = Some x \<and> C = Some (stashed_credential x))))"
  (is "triple _ _ ?Q")
proof -
  have live: "triple (\<lambda>s. holds C S s \<and> (\<forall>c. rd = Inr c \<longrightarrow> C = Some c))
      (case rd of
         Inl err \<Rightarrow> State_Monad.return (if err = CredentialNotFound then Inr CA_NotFound else Inl err)
       | Inr canonical \<Rightarrow> State_Monad.bind (reconcile_display io roster f canonical)
           (\<lambda>_. compare_stashes io roster f canonical)) ?Q" for rd
  proof (cases rd)
    case (Inl e)
    then show ?thesis by (simp add: triple_def)
  next
    case (Inr c)
    show ?thesis
    proof (cases "C = Some c")
      case True
      have "triple (holds C S) (State_Monad.bind (reconcile_display io roster f c)
          (\<lambda>_. compare_stashes io roster f c)) ?Q"
        by (rule triple_bind_keep [OF t_reconcile_display], rule triple_weaken [OF t_compare]) (auto simp: True)
      then show ?thesis unfolding Inr sum.case by (rule triple_pre) (simp add: True)
    qed (simp add: Inr triple_def)
  qed
  have step: "triple (holds C S) (case probe of
          Inl err \<Rightarrow> State_Monad.return
            (case err of
               CredentialNotFound \<Rightarrow> Inr CA_NotFound
             | CredentialAmbiguous n \<Rightarrow> Inr (CA_Ambiguous n)
             | other \<Rightarrow> Inl other)
        | Inr _ \<Rightarrow>
            State_Monad.bind (store_read io) (\<lambda>rd.
              (case rd of
                 Inl err \<Rightarrow> State_Monad.return (if err = CredentialNotFound then Inr CA_NotFound else Inl err)
               | Inr canonical \<Rightarrow>
                   State_Monad.bind (reconcile_display io roster f canonical) (\<lambda>_.
                     compare_stashes io roster f canonical)))) ?Q" for probe
  proof (cases probe)
    case (Inl e)
    then show ?thesis by (simp add: triple_def split: error.split)
  next
    case (Inr u)
    show ?thesis unfolding Inr sum.case by (rule triple_bind [OF t_read live])
  qed
  show ?thesis unfolding run_canary_def by (rule triple_bind [OF t_probe step])
qed

end

section \<open>Properties\<close>


text \<open>A state file that always displays the first account, while the live token is the second one's.\<close>

definition drift_roster :: "account list" where
  "drift_roster = [\<lparr>account_uuid = ''a'', label = ''one'', account_enabled = True\<rparr>,
                   \<lparr>account_uuid = ''b'', label = ''two'', account_enabled = True\<rparr>]"

definition drift_io :: "fake_world io" where
  "drift_io = fake_io (\<lambda>_. Inr (JObject [(''oauthAccount'', JObject [(''accountUuid'', JString ''a'')])])) (\<lambda>_. [])"

definition drift_world :: fake_world where
  "drift_world = fake_world_empty\<lparr>fake_slot := Some [2], fake_files := [''file'' \<mapsto> []],
     fake_items := [''Sessiometer/a'' \<mapsto> \<lparr>stashed_credential = [1], stashed_oauth = \<lparr>oa_raw = [], oa_account_uuid = ''a''\<rparr>\<rparr>,
                    ''Sessiometer/b'' \<mapsto> \<lparr>stashed_credential = [2], stashed_oauth = \<lparr>oa_raw = [], oa_account_uuid = ''b''\<rparr>\<rparr>]\<rparr>"

lemma drift_run: "res (run_canary drift_io drift_roster ''file'') drift_world = Inr (CA_Drift 0 1)"
  by (simp add: run_canary_def compare_stashes_def resolve_via_display_def read_oauth_account_from_def run_try_bind
      read_state_file_def write_oauth_account_def oauth_from_object_def string_field_def white_space_def
      drift_io_def drift_roster_def drift_world_def fake_world_empty_def fake_defs stash_name_def STASH_PREFIX_def
      credential_matches_def)


end
