(* ===== verification/Daemon_State.thy ===== *)
theory Daemon_State
  imports Relief Expiry Canary
begin

text \<open>
  The state of the daemon (\<open>struct Daemon\<close> and \<open>struct DecisionState\<close> of \<open>src/daemon.rs\<close>). What never
  changes after construction is the record \<open>cfg\<close>, what other code provides is the record \<open>env\<close> over an
  opaque world \<open>'w\<close>, and what the operations change is the record \<open>daemon\<close>.

  A method that neither awaits nor reads the world is a function on \<open>daemon\<close>; one that pushes events
  returns them beside the new state, in order. A method that awaits is a computation of the state monad
  over \<open>ctx\<close>: the daemon, the world, and the events and diagnostics pushed so far. An instant a method
  reads from its clock is an argument of the model where nothing is awaited before.
\<close>

section \<open>Configuration and environment\<close>

record cfg =
  c_roster :: "account list"
  c_claude_json :: string
  c_session_ceiling_strategy :: strategy
  c_weekly_ceiling_strategy :: strategy
  c_weekly_ceiling_base :: f64
  c_session_ceiling_base :: f64
  c_target_max_session_usage :: f64
  c_session_blind_swap_secs :: nat
  c_session_blind_risk_band :: f64
  c_exhausted_poll_secs :: nat
  c_near_limit_poll_secs :: nat
  c_session_velocity_horizon_secs :: nat
  c_session_velocity_min_project_above :: f64
  c_session_velocity_ema_alpha :: f64
  c_fleet_runway_warn_secs :: nat
  c_cooldown_strategy :: strategy
  c_cooldown_base :: duration
  c_poll_strategy :: strategy
  c_tiebreak_seed :: "64 word option"
  c_monitor_401_n :: nat
  c_monitor_recovery_m :: nat
  c_canary_drift_override :: bool
  c_canary_nostashmatch_override :: bool
  c_canary_online_probe :: bool
  c_canary_online_probe_strict :: bool
  c_swap_lock_path :: "string option"
  c_config_path :: "string option"
  c_stats_enabled :: bool
  c_refresh_enabled :: bool
  c_keep_warm_cadence :: duration
  c_proactive_keep_warm :: bool
  c_systemic_failure_n :: nat
  c_credential_expiry_horizon_secs :: nat
  c_credential_expiry_cohort_window_secs :: nat

text \<open>The fleet runway the statistics module computes (\<open>src/stats.rs\<close>).\<close>

datatype fleet_runway_state = FR_Known int | FR_Flat | FR_BeyondWeeklyWindow | FR_Unmeasurable

record fleet_runway =
  fr_state :: fleet_runway_state
  fr_counted :: nat
  fr_observed :: nat

definition FLEET_RUNWAY_PLAUSIBLE_MAX_SECS :: int where "FLEET_RUNWAY_PLAUSIBLE_MAX_SECS = 7 * 86400"

text \<open>
  The collaborators: the stores (\<open>env_io\<close>), the poller, the two refresh engines where they are wired, the
  wall clock, the configuration file (its number of accounts), the runway probe, the sample store (the
  append of a sample where a path is configured, and the roll with its summary) and the floating-point
  functions.
\<close>

record 'w env =
  env_io :: "'w io"
  env_poll :: "account \<Rightarrow> bool \<Rightarrow> ('w, polled_reading result) state"
  env_poll_refresh :: "(account \<Rightarrow> ('w, refresh_report result) state) option"
  env_keep_warm :: "(account \<Rightarrow> credential \<Rightarrow> ('w, (refresh_report \<times> credential option) result) state) option"
  env_wall_secs :: "'w \<Rightarrow> int"
  env_wall_ms :: "'w \<Rightarrow> int"
  env_config_len :: "'w \<Rightarrow> string \<Rightarrow> nat result"
  env_fleet_probe :: "('w \<Rightarrow> fleet_runway option) option"
  env_append_sample :: "(string \<Rightarrow> polled_reading \<Rightarrow> int \<Rightarrow> ('w, unit) state) option"
  env_compact :: "int \<Rightarrow> ('w, (int \<times> nat) result) state"
  env_libm :: libm

section \<open>The mutable state\<close>

datatype roster_check_verdict = RC_Agrees | RC_Diverged nat nat | RC_Absent nat | RC_Undetermined nat

record gap_state =
  gap_since :: int
  gap_last_emitted :: int

record stats_state =
  gap_streaks :: "string \<Rightarrow> gap_state option"
  last_roll :: "int option"

text \<open>\<open>d_last_swap\<close> is the instant that \<open>LastSwap\<close> wraps; \<open>d_rng\<close> is the generator of the \<open>Daemon\<close>.\<close>

record daemon =
  d_rng :: split_mix64
  d_ticks :: nat
  d_active :: "nat option"
  d_last_swap :: "instant option"
  d_active_designation :: "active_designation option"
  d_last_blind_preempt_swap :: "blind_preempt_swap_record option"
  d_last_landing_overshoot :: "landing_overshoot_record option"
  d_retry_after_swaps :: "instant list"
  d_signaled_retry_after_reserve :: bool
  d_signaled_retry_after_walk :: bool
  d_accounts :: "account_runtime list"
  d_signaled_all_exhausted :: bool
  d_signaled_fleet_runway_low :: bool
  d_last_fleet_runway_check :: "int option"
  d_signaled_active_dead_no_target :: bool
  d_canonical_watch :: canonical_watch
  d_lock_backoff :: "duration option"
  d_signaled_keychain_locked :: bool
  d_roster_check :: roster_check_verdict
  d_signaled_canonical_scrubbed :: bool
  d_prev_canonical_fingerprint :: "string option"
  d_scrub_adopt_count :: nat
  d_scrub_adopt_window_start :: "instant option"
  d_signaled_scrub_adopt_exhausted :: bool
  d_last_good :: "last_good option"
  d_blind_gate_signaled :: bool
  d_near_limit_fast_poll :: bool
  d_poll_schedule :: "nat list"
  d_poll_pos :: nat
  d_warmed_up :: bool
  d_stats_state :: stats_state
  d_systemic_refresh :: systemic_refresh_health
  d_canary :: "canary_status option"

definition daemon_init :: "split_mix64 \<Rightarrow> nat \<Rightarrow> daemon" where
  "daemon_init g n = \<lparr>d_rng = g, d_ticks = 0, d_active = None, d_last_swap = None,
     d_active_designation = None, d_last_blind_preempt_swap = None, d_last_landing_overshoot = None,
     d_retry_after_swaps = [], d_signaled_retry_after_reserve = False, d_signaled_retry_after_walk = False,
     d_accounts = replicate n account_runtime_default, d_signaled_all_exhausted = False,
     d_signaled_fleet_runway_low = False, d_last_fleet_runway_check = None,
     d_signaled_active_dead_no_target = False, d_canonical_watch = CanonicalWatch_new,
     d_lock_backoff = None, d_signaled_keychain_locked = False, d_roster_check = RC_Agrees,
     d_signaled_canonical_scrubbed = False, d_prev_canonical_fingerprint = None,
     d_scrub_adopt_count = 0, d_scrub_adopt_window_start = None, d_signaled_scrub_adopt_exhausted = False,
     d_last_good = None, d_blind_gate_signaled = False, d_near_limit_fast_poll = False,
     d_poll_schedule = [], d_poll_pos = 0, d_warmed_up = False,
     d_stats_state = \<lparr>gap_streaks = (\<lambda>_. None), last_roll = None\<rparr>,
     d_systemic_refresh = systemic_default, d_canary = None\<rparr>"

text \<open>
  Access by roster index. Reading or writing past the end panics in the code; the invariant \<open>wf\<close> below is
  what keeps every index the daemon uses in range.
\<close>

abbreviation acct :: "daemon \<Rightarrow> nat \<Rightarrow> account_runtime" where
  "acct d i \<equiv> d_accounts d ! i"

abbreviation hlth :: "daemon \<Rightarrow> nat \<Rightarrow> account_health" where
  "hlth d i \<equiv> health (acct d i)"

definition upd_account :: "nat \<Rightarrow> (account_runtime \<Rightarrow> account_runtime) \<Rightarrow> daemon \<Rightarrow> daemon" where
  "upd_account i f d = d\<lparr>d_accounts := (d_accounts d)[i := f (acct d i)]\<rparr>"

definition upd_health :: "nat \<Rightarrow> (account_health \<Rightarrow> account_health) \<Rightarrow> daemon \<Rightarrow> daemon" where
  "upd_health i f = upd_account i (health_update f)"

abbreviation acc_label :: "cfg \<Rightarrow> nat \<Rightarrow> string" where
  "acc_label c i \<equiv> label (c_roster c ! i)"

abbreviation acc_uuid :: "cfg \<Rightarrow> nat \<Rightarrow> string" where
  "acc_uuid c i \<equiv> account_uuid (c_roster c ! i)"

definition enabled_mask :: "cfg \<Rightarrow> bool list" where
  "enabled_mask c = map account_enabled (c_roster c)"

definition weekly_rotation_line :: "cfg \<Rightarrow> f64" where
  "weekly_rotation_line c = weekly_effective_ceiling (c_weekly_ceiling_base c)"

definition selection_tiebreak_of :: "cfg \<Rightarrow> daemon \<Rightarrow> selection_tiebreak" where
  "selection_tiebreak_of c d = \<lparr>st_accounts = d_accounts d, st_seed = c_tiebreak_seed c\<rparr>"

section \<open>The invariant on indices\<close>

text \<open>
  One runtime record per roster account; the active index, when known, and every scheduled index name an
  account of the roster.
\<close>

definition wf :: "cfg \<Rightarrow> daemon \<Rightarrow> bool" where
  "wf c d \<longleftrightarrow> length (d_accounts d) = length (c_roster c) \<and>
     (\<forall>i. d_active d = Some i \<longrightarrow> i < length (c_roster c)) \<and>
     (\<forall>i \<in> set (d_poll_schedule d). i < length (c_roster c))"

lemma wf_init: "wf c (daemon_init g (length (c_roster c)))"
  by (simp add: wf_def daemon_init_def)

lemma upd_account_simps [simp]:
  "length (d_accounts (upd_account i f d)) = length (d_accounts d)"
  "d_active (upd_account i f d) = d_active d"
  "d_poll_schedule (upd_account i f d) = d_poll_schedule d"
  "d_poll_pos (upd_account i f d) = d_poll_pos d"
  "j \<noteq> i \<Longrightarrow> acct (upd_account i f d) j = acct d j"
  "i < length (d_accounts d) \<Longrightarrow> acct (upd_account i f d) i = f (acct d i)"
  by (simp_all add: upd_account_def)

lemma upd_health_simps [simp]:
  "length (d_accounts (upd_health i f d)) = length (d_accounts d)"
  "d_active (upd_health i f d) = d_active d"
  "d_poll_schedule (upd_health i f d) = d_poll_schedule d"
  "d_poll_pos (upd_health i f d) = d_poll_pos d"
  "j \<noteq> i \<Longrightarrow> acct (upd_health i f d) j = acct d j"
  "i < length (d_accounts d) \<Longrightarrow> acct (upd_health i f d) i = health_update f (acct d i)"
  by (simp_all add: upd_health_def)

lemma wf_upd_account [simp]: "wf c (upd_account i f d) = wf c d"
  by (simp add: wf_def)

lemma wf_upd_health [simp]: "wf c (upd_health i f d) = wf c d"
  by (simp add: wf_def)

section \<open>Computations of the daemon\<close>

record 'w ctx =
  cx_d :: daemon
  cx_w :: 'w
  cx_events :: "event list"
  cx_diags :: "diagnostic list"

definition in_world :: "('w, 'a) state \<Rightarrow> ('w ctx, 'a) state" where
  "in_world m = State (\<lambda>s. case run_state m (cx_w s) of (a, w) \<Rightarrow> (a, s\<lparr>cx_w := w\<rparr>))"

definition asks :: "('w \<Rightarrow> 'a) \<Rightarrow> ('w ctx, 'a) state" where
  "asks f = sget (\<lambda>s. f (cx_w s))"

definition getd :: "(daemon \<Rightarrow> 'a) \<Rightarrow> ('w ctx, 'a) state" where
  "getd f = sget (\<lambda>s. f (cx_d s))"

definition modd :: "(daemon \<Rightarrow> daemon) \<Rightarrow> ('w ctx, unit) state" where
  "modd f = smod (cx_d_update f)"

definition emits :: "event list \<Rightarrow> ('w ctx, unit) state" where
  "emits es = smod (cx_events_update (\<lambda>old. old @ es))"

definition diags :: "diagnostic list \<Rightarrow> ('w ctx, unit) state" where
  "diags ds = smod (cx_diags_update (\<lambda>old. old @ ds))"

text \<open>A method without awaits that pushes events, and one that also returns a value.\<close>

definition sync :: "(daemon \<Rightarrow> daemon \<times> event list) \<Rightarrow> ('w ctx, unit) state" where
  "sync f = State (\<lambda>s. case f (cx_d s) of (d, es) \<Rightarrow> ((), s\<lparr>cx_d := d, cx_events := cx_events s @ es\<rparr>))"

definition sync_val :: "(daemon \<Rightarrow> 'a \<times> daemon \<times> event list) \<Rightarrow> ('w ctx, 'a) state" where
  "sync_val f = State (\<lambda>s. case f (cx_d s) of (a, d, es) \<Rightarrow> (a, s\<lparr>cx_d := d, cx_events := cx_events s @ es\<rparr>))"

text \<open>\<open>Duration::from_secs_f64\<close> rounds to the nearest nanosecond, ties to even; the draws are never negative.\<close>

definition dur_of_f64 :: "f64 \<Rightarrow> duration" where
  "dur_of_f64 x = (case x of Fin q \<Rightarrow> nat (rne (q * of_nat NANOS_PER_SEC)) | _ \<Rightarrow> 0)"

definition draw_on :: "libm \<Rightarrow> strategy \<Rightarrow> f64 \<Rightarrow> f64 \<Rightarrow> daemon \<Rightarrow> f64 \<times> daemon" where
  "draw_on m st lo hi d = (case draw m next_unit st lo hi (d_rng d) of (x, g) \<Rightarrow> (x, d\<lparr>d_rng := g\<rparr>))"

definition draw_down_on :: "libm \<Rightarrow> strategy \<Rightarrow> f64 \<Rightarrow> f64 \<Rightarrow> daemon \<Rightarrow> f64 \<times> daemon" where
  "draw_down_on m st lo hi d =
     (case draw_downward m next_unit st lo hi (d_rng d) of (x, g) \<Rightarrow> (x, d\<lparr>d_rng := g\<rparr>))"

definition no_events :: "'a \<times> daemon \<Rightarrow> 'a \<times> daemon \<times> event list" where
  "no_events p = (fst p, snd p, [])"

lemma run_in_world [simp]:
  "run_state (in_world m) s = (fst (run_state m (cx_w s)), s\<lparr>cx_w := snd (run_state m (cx_w s))\<rparr>)"
  by (simp add: in_world_def split_beta)

lemma run_asks [simp]: "run_state (asks f) s = (f (cx_w s), s)"
  by (simp add: asks_def)

lemma run_getd [simp]: "run_state (getd f) s = (f (cx_d s), s)"
  by (simp add: getd_def)

lemma run_modd [simp]: "run_state (modd f) s = ((), s\<lparr>cx_d := f (cx_d s)\<rparr>)"
  by (simp add: modd_def)

lemma run_emits [simp]: "run_state (emits es) s = ((), s\<lparr>cx_events := cx_events s @ es\<rparr>)"
  by (simp add: emits_def)

lemma run_diags [simp]: "run_state (diags ds) s = ((), s\<lparr>cx_diags := cx_diags s @ ds\<rparr>)"
  by (simp add: diags_def)

lemma run_sync [simp]:
  "run_state (sync f) s = ((), s\<lparr>cx_d := fst (f (cx_d s)), cx_events := cx_events s @ snd (f (cx_d s))\<rparr>)"
  by (simp add: sync_def split_beta)

lemma run_sync_val [simp]:
  "run_state (sync_val f) s = (fst (f (cx_d s)),
     s\<lparr>cx_d := fst (snd (f (cx_d s))), cx_events := cx_events s @ snd (snd (f (cx_d s)))\<rparr>)"
  by (simp add: sync_val_def split_beta)

section \<open>Operating points and bounds\<close>

definition SESSION_CEILING_PCT_LO :: f64 where "SESSION_CEILING_PCT_LO = Fin 50"
definition SESSION_CEILING_PCT_HI :: f64 where "SESSION_CEILING_PCT_HI = Fin 99"
definition WEEKLY_CEILING_PCT_LO :: f64 where "WEEKLY_CEILING_PCT_LO = Fin 50"
definition WEEKLY_CEILING_PCT_HI :: f64 where "WEEKLY_CEILING_PCT_HI = Fin 99"
definition COOLDOWN_SECS_LO :: f64 where "COOLDOWN_SECS_LO = Fin 5"
definition COOLDOWN_SECS_HI :: f64 where "COOLDOWN_SECS_HI = Fin 3600"
definition POLL_SECS_LO :: f64 where "POLL_SECS_LO = Fin 5"
definition POLL_SECS_HI :: f64 where "POLL_SECS_HI = Fin 3600"
definition LOCK_BACKOFF_BASE :: duration where "LOCK_BACKOFF_BASE = from_secs 1"
definition LOCK_BACKOFF_CAP :: duration where "LOCK_BACKOFF_CAP = from_secs 60"
definition POLL_BACKOFF_MAX_SHIFT :: nat where "POLL_BACKOFF_MAX_SHIFT = 6"
definition POLL_BACKOFF_CAP :: duration where "POLL_BACKOFF_CAP = from_secs 3600"
definition ACTIVE_POLL_BACKOFF_CAP :: duration where "ACTIVE_POLL_BACKOFF_CAP = from_secs 120"
definition RETRY_AFTER_WALK_WINDOW :: duration where "RETRY_AFTER_WALK_WINDOW = from_secs 3600"
definition RETRY_AFTER_WALK_MAX :: nat where "RETRY_AFTER_WALK_MAX = 2"
definition SCRUB_ADOPT_MAX :: nat where "SCRUB_ADOPT_MAX = 3"
definition SCRUB_ADOPT_WINDOW :: duration where "SCRUB_ADOPT_WINDOW = from_secs 3600"
definition GAP_REEMIT_MIN_SECS :: int where "GAP_REEMIT_MIN_SECS = 3600"
definition STATS_ROLL_CADENCE_SECS :: int where "STATS_ROLL_CADENCE_SECS = 3600"
definition FLEET_RUNWAY_WARN_CHECK_SECS :: int where "FLEET_RUNWAY_WARN_CHECK_SECS = 600"
definition STARTUP_DELAY_CAP :: f64 where "STARTUP_DELAY_CAP = Fin 30"

text \<open>The latest instant of the platform clock: seconds are an \<open>i64\<close>.\<close>

definition INSTANT_MAX :: instant where
  "INSTANT_MAX = nat I64_MAX * NANOS_PER_SEC + (NANOS_PER_SEC - 1)"

definition instant_checked_add :: "instant \<Rightarrow> duration \<Rightarrow> instant option" where
  "instant_checked_add a d = (if a + d \<le> INSTANT_MAX then Some (a + d) else None)"

end
