(* ===== verification/Daemon_Fold.thy ===== *)
theory Daemon_Fold
  imports Daemon_State "HOL-Library.Sublist"
begin

text \<open>
  How the daemon folds the outcome of a poll, of a refresh and of an expiry observation into the state of
  one account: \<open>src/daemon/refresh_fold.rs\<close> and \<open>src/daemon/snapshot_build.rs\<close>.
\<close>

section \<open>Quarantine and recovery\<close>

text \<open>
  The fold of one poll outcome on the health of the account, with the account's label; \<open>n\<close> and \<open>m\<close> are
  \<open>monitor_401_n\<close> and \<open>monitor_recovery_m\<close>.
\<close>

definition poll_outcome_fold ::
  "nat \<Rightarrow> nat \<Rightarrow> string \<Rightarrow> account_health \<Rightarrow> usage result \<Rightarrow> account_health \<times> event list" where
  "poll_outcome_fold n m lbl h result =
     (case classify_poll result of
        PO_Unauthorized \<Rightarrow>
          let consecutive = u32_sat_add (consec_401 h) 1;
              h1 = h\<lparr>consec_401 := consecutive, recovery_successes := 0\<rparr>
          in if quarantined h1 then (h1, [])
             else if consecutive \<ge> n
             then (h1\<lparr>quarantined := True, unrecoverable_signaled := False\<rparr>,
                   [Ev_Monitor401 lbl consecutive, Ev_CredentialDead lbl])
             else (h1, [Ev_Monitor401 lbl consecutive])
      | PO_Live \<Rightarrow>
          let h1 = h\<lparr>consec_401 := 0\<rparr>
          in if quarantined h1
             then let successes = u32_sat_add (recovery_successes h1) 1;
                      h2 = h1\<lparr>recovery_successes := successes\<rparr>
                  in if successes \<ge> m
                     then (h2\<lparr>quarantined := False, recovery_successes := 0\<rparr>, [Ev_CredentialRestored lbl])
                     else (h2, [])
             else (h1, [])
      | PO_ScopeMissing \<Rightarrow> (h\<lparr>consec_401 := 0, recovery_successes := 0\<rparr>, [Ev_UsageScopeFail lbl])
      | PO_Transient \<Rightarrow> (h\<lparr>consec_401 := 0, recovery_successes := 0\<rparr>, []))"

definition note_poll_outcome :: "cfg \<Rightarrow> nat \<Rightarrow> usage result \<Rightarrow> daemon \<Rightarrow> daemon \<times> event list" where
  "note_poll_outcome c i result d =
     (case poll_outcome_fold (c_monitor_401_n c) (c_monitor_recovery_m c) (acc_label c i) (hlth d i) result of
        (h, es) \<Rightarrow> (upd_health i (\<lambda>_. h) d, es))"

section \<open>Retries after a 401\<close>

definition should_refresh_retry :: "'w env \<Rightarrow> nat \<Rightarrow> usage result \<Rightarrow> daemon \<Rightarrow> bool" where
  "should_refresh_retry e i result d \<longleftrightarrow>
     env_poll_refresh e \<noteq> None \<and> classify_poll result = PO_Unauthorized \<and>
     \<not> quarantined (hlth d i) \<and> consec_401 (hlth d i) = 0 \<and> d_active d \<noteq> Some i"

definition report_outcome :: "refresh_report result \<Rightarrow> refresh_event_outcome" where
  "report_outcome refreshed = (case refreshed of Inr report \<Rightarrow> refresh_event_outcome_of report | Inl _ \<Rightarrow> REO_Error)"

definition poll_usage :: "'w env \<Rightarrow> account \<Rightarrow> bool \<Rightarrow> ('w, usage result) state" where
  "poll_usage e a is_active =
     do { r \<leftarrow> env_poll e a is_active; State_Monad.return (map_sum id pr_usage r) }"

definition refresh_retry :: "cfg \<Rightarrow> 'w env \<Rightarrow> nat \<Rightarrow> ('w ctx, usage result) state" where
  "refresh_retry c e i =
     (case env_poll_refresh e of
        None \<Rightarrow> State_Monad.return (Inl UsageUnauthorized)
      | Some engine \<Rightarrow> do {
          refreshed \<leftarrow> in_world (engine (c_roster c ! i));
          emits [Ev_PollRefresh (acc_label c i) PRT_Poll401 (report_outcome refreshed)];
          (case refreshed of
             Inr report \<Rightarrow>
               if rr_outcome report = RO_Dead then State_Monad.return (Inl UsageUnauthorized)
               else in_world (poll_usage e (c_roster c ! i) False)
           | Inl _ \<Rightarrow> State_Monad.return (Inl UsageUnauthorized)) })"

section \<open>Refresh outcomes\<close>

definition decision_readings :: "cfg \<Rightarrow> nat option \<Rightarrow> daemon \<Rightarrow> usage option list" where
  "decision_readings c act d =
     map (\<lambda>i. if act = Some i \<or> (account_enabled (c_roster c ! i) \<and> \<not> quarantined (hlth d i))
              then last_reading (acct d i) else None) [0..<length (c_roster c)]"

text \<open>The accounts the periodic refresh leaves alone: the active one and the one a swap would go to.\<close>

definition refresh_exclusions :: "cfg \<Rightarrow> daemon \<Rightarrow> string list" where
  "refresh_exclusions c d =
     (case d_active d of
        None \<Rightarrow> []
      | Some act \<Rightarrow> acc_uuid c act #
          (case pick_target_ranked act (decision_readings c (Some act) d) (enabled_mask c)
              (Some (c_target_max_session_usage c)) (c_session_ceiling_base c) (weekly_rotation_line c)
              (selection_tiebreak_of c d) of
             Some target \<Rightarrow> [acc_uuid c target] | None \<Rightarrow> []))"

definition refresh_quarantined :: "cfg \<Rightarrow> daemon \<Rightarrow> string list" where
  "refresh_quarantined c d =
     map (\<lambda>(i, a). account_uuid a) (filter (\<lambda>(i, _). quarantined (hlth d i)) (enumerate 0 (c_roster c)))"

definition roster_index :: "cfg \<Rightarrow> string \<Rightarrow> nat option" where
  "roster_index c uuid = position (\<lambda>a. account_uuid a = uuid) (c_roster c)"

definition restore :: "nat \<Rightarrow> daemon \<Rightarrow> daemon" where
  "restore i = upd_health i (\<lambda>h. h\<lparr>quarantined := False, recovery_successes := 0\<rparr>)"

definition apply_refresh_restore :: "cfg \<Rightarrow> string \<Rightarrow> daemon \<Rightarrow> daemon \<times> event list" where
  "apply_refresh_restore c uuid d =
     (case roster_index c uuid of
        None \<Rightarrow> (d, [])
      | Some i \<Rightarrow>
          if \<not> quarantined (hlth d i) then (d, [])
          else (restore i d, [Ev_CredentialRestored (acc_label c i)]))"

definition note_own_credential_refresh :: "nat \<Rightarrow> daemon \<Rightarrow> daemon" where
  "note_own_credential_refresh i = upd_health i (\<lambda>h. h\<lparr>own_refresh_since_expiry_observation := True\<rparr>)"

text \<open>The fold of \<open>note_refresh_outcome\<close> on one health record.\<close>

definition refresh_outcome_fold ::
  "string \<Rightarrow> account_health \<Rightarrow> refresh_event_outcome \<Rightarrow> account_health \<times> event list" where
  "refresh_outcome_fold lbl h0 outcome =
     (let h = h0\<lparr>own_refresh_since_expiry_observation := True, last_refresh_outcome := Some outcome,
            consecutive_refresh_failures :=
              (case outcome of
                 REO_Dead \<Rightarrow> u32_sat_add (consecutive_refresh_failures h0) 1
               | REO_Error \<Rightarrow> u32_sat_add (consecutive_refresh_failures h0) 1
               | _ \<Rightarrow> 0)\<rparr>
      in if outcome = REO_Dead \<and> quarantined h \<and> \<not> unrecoverable_signaled h
         then (h\<lparr>unrecoverable_signaled := True\<rparr>, [Ev_CredentialUnrecoverable lbl])
         else (h, []))"

definition note_refresh_outcome :: "cfg \<Rightarrow> nat \<Rightarrow> refresh_event_outcome \<Rightarrow> daemon \<Rightarrow> daemon \<times> event list" where
  "note_refresh_outcome c i outcome d =
     (case refresh_outcome_fold (acc_label c i) (hlth d i) outcome of
        (h, es) \<Rightarrow> (upd_health i (\<lambda>_. h) d, es))"

definition fold_recovery_outcome ::
  "cfg \<Rightarrow> nat \<Rightarrow> refresh_event_outcome \<Rightarrow> int option \<Rightarrow> daemon \<Rightarrow> daemon \<times> event list" where
  "fold_recovery_outcome c i outcome expires_at_ms d =
     (let (d1, es1) = note_refresh_outcome c i outcome d;
          d2 = (case expires_at_ms of
              Some ms \<Rightarrow> upd_health i (\<lambda>h. h\<lparr>access_expires_at := Some (trunc_div ms 1000)\<rparr>) d1
            | None \<Rightarrow> d1)
      in if outcome \<noteq> REO_Dead
         then (case apply_refresh_restore c (acc_uuid c i) d2 of (d3, es3) \<Rightarrow> (d3, es1 @ es3))
         else (d2, es1))"

definition reprobe_dead_parked_credential :: "cfg \<Rightarrow> 'w env \<Rightarrow> nat \<Rightarrow> ('w ctx, unit) state" where
  "reprobe_dead_parked_credential c e i =
     (case env_poll_refresh e of
        None \<Rightarrow> State_Monad.return ()
      | Some engine \<Rightarrow> do {
          refreshed \<leftarrow> in_world (engine (c_roster c ! i));
          emits [Ev_PollRefresh (acc_label c i) PRT_Recovery (report_outcome refreshed)];
          ms \<leftarrow> in_world (stored_expires_at (env_io e) (stash_name (c_roster c ! i)));
          sync (fold_recovery_outcome c i (report_outcome refreshed) ms) })"

definition reconcile_restored :: "cfg \<Rightarrow> 'w env \<Rightarrow> string \<Rightarrow> ('w ctx, unit) state" where
  "reconcile_restored c e uuid =
     (case roster_index c uuid of
        None \<Rightarrow> State_Monad.return ()
      | Some i \<Rightarrow> do {
          is_dead \<leftarrow> getd (\<lambda>d. last_refresh_outcome (hlth d i) = Some REO_Dead);
          act \<leftarrow> getd d_active;
          if is_dead \<and> env_poll_refresh e \<noteq> None \<and> act \<noteq> Some i
          then reprobe_dead_parked_credential c e i
          else sync (apply_refresh_restore c uuid) })"

text \<open>An observation of the periodic refresh: the account, its stored expiry, the outcome if one ran.\<close>

record refresh_observation =
  ob_account_uuid :: string
  ob_expires_at_ms :: "int option"
  ob_refresh :: "refresh_event_outcome option"

definition apply_refresh_observation :: "cfg \<Rightarrow> refresh_observation \<Rightarrow> daemon \<Rightarrow> daemon \<times> event list" where
  "apply_refresh_observation c ob d =
     (case roster_index c (ob_account_uuid ob) of
        None \<Rightarrow> (d, [])
      | Some i \<Rightarrow>
          let d1 = upd_health i (\<lambda>h. h\<lparr>access_expires_at := map_option (\<lambda>ms. trunc_div ms 1000) (ob_expires_at_ms ob)\<rparr>) d
          in (case ob_refresh ob of
                None \<Rightarrow> (d1, [])
              | Some outcome \<Rightarrow> note_refresh_outcome c i outcome d1))"

definition note_systemic_refresh :: "cfg \<Rightarrow> sweep_health \<Rightarrow> daemon \<Rightarrow> daemon \<times> event list" where
  "note_systemic_refresh c sweep d =
     (case sr_note (d_systemic_refresh d) sweep (c_systemic_failure_n c) of
        (s, ev) \<Rightarrow> (d\<lparr>d_systemic_refresh := s\<rparr>, (case ev of None \<Rightarrow> [] | Some x \<Rightarrow> [x])))"

section \<open>Expiry observations\<close>

definition millis_to_secs :: "int \<Rightarrow> int" where
  "millis_to_secs ms = trunc_div ms 1000"

definition read_poll_clocks ::
  "'w env \<Rightarrow> account \<Rightarrow> bool \<Rightarrow> ('w, credential_clocks \<times> credential_read_source) state" where
  "read_poll_clocks e a is_active =
     do { ms \<leftarrow> (case read_source_for_poll is_active of
            CRS_Canonical \<Rightarrow> do {
              r \<leftarrow> store_read (env_io e);
              State_Monad.return (case r of Inr cred \<Rightarrow> credential_clocks_of (env_io e) cred | Inl _ \<Rightarrow> no_clocks) }
          | CRS_Stash \<Rightarrow> stored_credential_clocks (env_io e) (stash_name a));
        State_Monad.return
          (\<lparr>cc_access_expires_at = map_option millis_to_secs (cc_access_expires_at ms),
            cc_refresh_token_expires_at = map_option millis_to_secs (cc_refresh_token_expires_at ms)\<rparr>,
           read_source_for_poll is_active) }"

definition note_expiry_horizon_edge :: "cfg \<Rightarrow> nat \<Rightarrow> int \<Rightarrow> int \<Rightarrow> daemon \<Rightarrow> daemon \<times> event list" where
  "note_expiry_horizon_edge c i deadline now_secs d =
     (let horizon = c_credential_expiry_horizon_secs c;
          st = ae_horizon_state (account_expiry (Some deadline) horizon now_secs)
      in (case st of
            EH_Beyond \<Rightarrow> (upd_health i (\<lambda>h. h\<lparr>signaled_expiry_horizon := None\<rparr>) d, [])
          | EH_Unknown \<Rightarrow> (d, [])
          | _ \<Rightarrow>
              if signaled_expiry_horizon (hlth d i) \<noteq> Some st
              then (upd_health i (\<lambda>h. h\<lparr>signaled_expiry_horizon := Some st\<rparr>) d,
                    [Ev_CredentialExpiryHorizon (acc_uuid c i) st deadline horizon])
              else (d, [])))"

definition fold_expiry_observation ::
  "cfg \<Rightarrow> nat \<Rightarrow> int option \<Rightarrow> credential_read_source \<Rightarrow> expiry_provenance \<Rightarrow> bool option \<Rightarrow> int \<Rightarrow>
   daemon \<Rightarrow> daemon \<times> event list" where
  "fold_expiry_observation c i observed source provenance grant_replaced now_secs d =
     (case observed of
        None \<Rightarrow> (d, [])
      | Some deadline \<Rightarrow>
          let record_unchanged = (provenance = EP_CanonicalRestash);
              before = expires_baseline (hlth d i);
              d1 = upd_health i (\<lambda>h. h\<lparr>expires_baseline := Some deadline, expires_baseline_source := Some source,
                     own_refresh_since_expiry_observation := False\<rparr>) d;
              changed = (before \<noteq> Some deadline);
              es = (if changed \<or> record_unchanged
                    then [Ev_CredentialExpiryObserved (acc_uuid c i) provenance before deadline grant_replaced]
                    else [])
          in (case note_expiry_horizon_edge c i deadline now_secs d1 of (d2, es2) \<Rightarrow> (d2, es @ es2)))"

definition note_polled_expiry ::
  "cfg \<Rightarrow> nat \<Rightarrow> int option \<Rightarrow> credential_read_source \<Rightarrow> int \<Rightarrow> daemon \<Rightarrow> daemon \<times> event list" where
  "note_polled_expiry c i observed source now_secs d =
     (let h = hlth d i;
          provenance =
            (if expires_baseline h = None then EP_FirstObservation
             else if own_refresh_since_expiry_observation h then EP_MyRefresh
             else if expires_baseline_source h \<noteq> Some source then EP_ReadSourceSwitched
             else EP_ExternalChange)
      in fold_expiry_observation c i observed source provenance None now_secs d)"

definition note_restash_expiry ::
  "cfg \<Rightarrow> nat \<Rightarrow> int option \<Rightarrow> bool option \<Rightarrow> int \<Rightarrow> daemon \<Rightarrow> daemon \<times> event list" where
  "note_restash_expiry c i observed grant_replaced now_secs =
     fold_expiry_observation c i observed CRS_Canonical EP_CanonicalRestash grant_replaced now_secs"

section \<open>Health transitions\<close>

text \<open>The body of the loop over the readings, for account \<open>i\<close>.\<close>

definition health_transition :: "cfg \<Rightarrow> int \<Rightarrow> nat \<times> usage option \<Rightarrow> daemon \<Rightarrow> daemon \<times> event list" where
  "health_transition c now_secs x d =
     (case x of (i, reading) \<Rightarrow>
       let h = hlth d i;
           verdict = credential_health (quarantined h) (last_refresh_outcome h) (consecutive_refresh_failures h)
             (access_expires_at h) (reading \<noteq> None) now_secs;
           es = (case last_health h of
               Some prev \<Rightarrow> if prev \<noteq> verdict then [Ev_CredentialHealth (acc_label c i) verdict] else []
             | None \<Rightarrow> [])
       in (upd_health i (\<lambda>h. h\<lparr>last_health := Some verdict\<rparr>) d, es))"

definition note_health_transitions :: "cfg \<Rightarrow> int \<Rightarrow> daemon \<Rightarrow> daemon \<times> event list" where
  "note_health_transitions c now_secs d =
     fold (\<lambda>x (d, es). case health_transition c now_secs x d of (d', es') \<Rightarrow> (d', es @ es'))
       (enumerate 0 (decision_readings c (d_active d) d)) (d, [])"

section \<open>Streaks\<close>

text \<open>
  \<open>has_streak n k bs\<close>: with \<open>k\<close> hits already counted, the sequence \<open>bs\<close> completes \<open>n\<close> hits in a row
  somewhere.
\<close>

definition has_streak :: "nat \<Rightarrow> nat \<Rightarrow> bool list \<Rightarrow> bool" where
  "has_streak n k bs \<longleftrightarrow> sublist (replicate n True) (replicate k True @ bs)"

lemma has_streak_Nil: "k < n \<Longrightarrow> \<not> has_streak n k []"
  by (auto simp: has_streak_def dest: sublist_length_le)

lemma has_streak_True: "has_streak n k (True # bs) \<longleftrightarrow> has_streak n (Suc k) bs"
  by (simp add: has_streak_def replicate_append_same [symmetric] del: replicate_Suc)
    (simp add: replicate_app_Cons_same)

lemma has_streak_full: "n \<le> k \<Longrightarrow> has_streak n k bs"
  unfolding has_streak_def
  by (metis le_add_diff_inverse replicate_add append.assoc sublist_append_rightI)

lemma has_streak_False: "k < n \<Longrightarrow> has_streak n k (False # bs) \<longleftrightarrow> has_streak n 0 bs"
proof -
  assume k: "k < n"
  have "xs2 = []" if "replicate n True = xs1 @ xs2" "prefix xs2 (False # bs)" for xs1 xs2
  proof (rule ccontr)
    assume "xs2 \<noteq> []"
    then have "hd xs2 = False" "hd xs2 \<in> set (replicate n True)" using that by (auto simp: prefix_Cons)
    then show False by simp
  qed
  then have "\<not> (replicate n True = xs1 @ xs2 \<and> suffix xs1 (replicate k True) \<and> prefix xs2 (False # bs))" for xs1 xs2
    using k by (metis append_Nil2 length_replicate not_less suffix_length_le)
  then have "sublist (replicate n True) (replicate k True @ False # bs) \<longleftrightarrow>
      sublist (replicate n True) (replicate k True) \<or> sublist (replicate n True) (False # bs)"
    unfolding sublist_append by blast
  moreover have "\<not> sublist (replicate n True) (replicate k True)" using k by (auto dest: sublist_length_le)
  moreover have "\<not> prefix (replicate n True) (False # bs)" using k by (cases n) auto
  ultimately show ?thesis by (simp add: has_streak_def sublist_Cons_right)
qed

section \<open>The folds\<close>

lemma poll_fold_cases:
  "poll_outcome_fold n m lbl h r =
     (if classify_poll r = PO_Unauthorized then
        (if quarantined h then (h\<lparr>consec_401 := u32_sat_add (consec_401 h) 1, recovery_successes := 0\<rparr>, [])
         else if n \<le> u32_sat_add (consec_401 h) 1
         then (h\<lparr>consec_401 := u32_sat_add (consec_401 h) 1, recovery_successes := 0, quarantined := True,
                 unrecoverable_signaled := False\<rparr>,
               [Ev_Monitor401 lbl (u32_sat_add (consec_401 h) 1), Ev_CredentialDead lbl])
         else (h\<lparr>consec_401 := u32_sat_add (consec_401 h) 1, recovery_successes := 0\<rparr>,
               [Ev_Monitor401 lbl (u32_sat_add (consec_401 h) 1)]))
      else if classify_poll r = PO_Live \<and> quarantined h then
        (if m \<le> u32_sat_add (recovery_successes h) 1
         then (h\<lparr>consec_401 := 0, recovery_successes := 0, quarantined := False\<rparr>, [Ev_CredentialRestored lbl])
         else (h\<lparr>consec_401 := 0, recovery_successes := u32_sat_add (recovery_successes h) 1\<rparr>, []))
      else if classify_poll r = PO_Live then (h\<lparr>consec_401 := 0\<rparr>, [])
      else (h\<lparr>consec_401 := 0, recovery_successes := 0\<rparr>,
            if classify_poll r = PO_ScopeMissing then [Ev_UsageScopeFail lbl] else []))"
  by (cases r rule: classify_poll.cases) (simp_all add: poll_outcome_fold_def Let_def)

text \<open>What can reach the health of one account: a poll, a refresh, and a restore.\<close>

datatype health_input = HI_Poll "usage result" | HI_Refresh refresh_event_outcome | HI_Restore

fun health_step :: "nat \<Rightarrow> nat \<Rightarrow> string \<Rightarrow> account_health \<Rightarrow> health_input \<Rightarrow> account_health \<times> event list" where
  "health_step n m lbl h (HI_Poll r) = poll_outcome_fold n m lbl h r"
| "health_step n m lbl h (HI_Refresh outcome) = refresh_outcome_fold lbl h outcome"
| "health_step n m lbl h HI_Restore =
     (if quarantined h then (h\<lparr>quarantined := False, recovery_successes := 0\<rparr>, [Ev_CredentialRestored lbl])
      else (h, []))"

interpretation quarantine: latch "health_step n m lbl" quarantined
  "\<lambda>e. e = Ev_CredentialDead lbl" "\<lambda>e. e = Ev_CredentialRestored lbl" for n m lbl
proof
  fix h i
  show "bracketed (\<lambda>e. e = Ev_CredentialDead lbl) (\<lambda>e. e = Ev_CredentialRestored lbl) (quarantined h)
          (snd (health_step n m lbl h i)) \<and>
        bracket_end (\<lambda>e. e = Ev_CredentialDead lbl) (\<lambda>e. e = Ev_CredentialRestored lbl) (quarantined h)
          (snd (health_step n m lbl h i)) = quarantined (fst (health_step n m lbl h i))"
    by (cases i) (simp_all add: poll_fold_cases refresh_outcome_fold_def Let_def)
qed

lemma u32_succ: "k < U32_MAX \<Longrightarrow> u32_sat_add k (Suc 0) = Suc k"
  by (simp add: u32_sat_add_def)

lemma dead_iff_streak:
  assumes "0 < n" "n \<le> U32_MAX" "\<not> quarantined h" "consec_401 h < n"
  shows "Ev_CredentialDead lbl \<in> set (snd (run_steps (poll_outcome_fold n m lbl) h rs)) \<longleftrightarrow>
    has_streak n (consec_401 h) (map (\<lambda>r. r = Inl UsageUnauthorized) rs)"
  using assms(3,4)
proof (induction rs arbitrary: h)
  case Nil
  then show ?case by (simp add: has_streak_Nil)
next
  case (Cons r rs)
  have k: "u32_sat_add (consec_401 h) (Suc 0) = Suc (consec_401 h)"
    using Cons.prems(2) assms(2) by (intro u32_succ) linarith
  show ?case
  proof (cases "r = Inl UsageUnauthorized")
    case True
    show ?thesis
    proof (cases "n \<le> Suc (consec_401 h)")
      case full: True
      have "Ev_CredentialDead lbl \<in> set (snd (poll_outcome_fold n m lbl h r))"
        using True Cons.prems(1) full by (simp add: poll_fold_cases k)
      then show ?thesis using True full by (simp add: split_beta has_streak_True has_streak_full)
    next
      case False
      let ?h = "h\<lparr>consec_401 := Suc (consec_401 h), recovery_successes := 0\<rparr>"
      have "poll_outcome_fold n m lbl h r = (?h, [Ev_Monitor401 lbl (Suc (consec_401 h))])"
        using True Cons.prems(1) False by (simp add: poll_fold_cases k)
      then show ?thesis using Cons.IH [of ?h] Cons.prems(1) True False
        by (simp add: split_beta has_streak_True)
    qed
  next
    case False
    let ?p = "poll_outcome_fold n m lbl h r"
    have p: "\<not> quarantined (fst ?p)" "consec_401 (fst ?p) = 0" "Ev_CredentialDead lbl \<notin> set (snd ?p)"
      using False Cons.prems(1) by (auto simp: poll_fold_cases)
    show ?thesis using Cons.IH [of "fst ?p"] p assms(1) False has_streak_False [OF Cons.prems(2)]
      by (simp add: split_beta)
  qed
qed

lemma restored_iff_streak:
  assumes "0 < m" "m \<le> U32_MAX" "quarantined h" "recovery_successes h < m"
  shows "Ev_CredentialRestored lbl \<in> set (snd (run_steps (poll_outcome_fold n m lbl) h rs)) \<longleftrightarrow>
    has_streak m (recovery_successes h) (map is_ok rs)"
  using assms(3,4)
proof (induction rs arbitrary: h)
  case Nil
  then show ?case by (simp add: has_streak_Nil)
next
  case (Cons r rs)
  have k: "u32_sat_add (recovery_successes h) (Suc 0) = Suc (recovery_successes h)"
    using Cons.prems(2) assms(2) by (intro u32_succ) linarith
  show ?case
  proof (cases "is_ok r")
    case True
    then have nu: "r \<noteq> Inl UsageUnauthorized" by (cases r) auto
    show ?thesis
    proof (cases "m \<le> Suc (recovery_successes h)")
      case full: True
      have "Ev_CredentialRestored lbl \<in> set (snd (poll_outcome_fold n m lbl h r))"
        using True nu Cons.prems(1) full by (simp add: poll_fold_cases k)
      then show ?thesis using True full by (simp add: split_beta has_streak_True has_streak_full)
    next
      case False
      let ?h = "h\<lparr>consec_401 := 0, recovery_successes := Suc (recovery_successes h)\<rparr>"
      have "poll_outcome_fold n m lbl h r = (?h, [])"
        using True nu Cons.prems(1) False by (simp add: poll_fold_cases k)
      then show ?thesis using Cons.IH [of ?h] Cons.prems(1) True False
        by (simp add: split_beta has_streak_True)
    qed
  next
    case False
    let ?p = "poll_outcome_fold n m lbl h r"
    have p: "quarantined (fst ?p)" "recovery_successes (fst ?p) = 0" "Ev_CredentialRestored lbl \<notin> set (snd ?p)"
      using False Cons.prems(1) by (auto simp: poll_fold_cases)
    show ?thesis using Cons.IH [of "fst ?p"] p assms(1) False has_streak_False [OF Cons.prems(2)]
      by (simp add: split_beta)
  qed
qed

section \<open>Health transitions account by account\<close>

definition health_verdict :: "int \<Rightarrow> account_health \<Rightarrow> usage option \<Rightarrow> credential_health_state" where
  "health_verdict now_secs h reading =
     credential_health (quarantined h) (last_refresh_outcome h) (consecutive_refresh_failures h)
       (access_expires_at h) (reading \<noteq> None) now_secs"

definition transition_events :: "string \<Rightarrow> account_health \<Rightarrow> credential_health_state \<Rightarrow> event list" where
  "transition_events lbl h verdict =
     (case last_health h of None \<Rightarrow> [] | Some prev \<Rightarrow> if prev \<noteq> verdict then [Ev_CredentialHealth lbl verdict] else [])"

lemma health_transition_alt:
  "health_transition c now_secs (i, reading) d =
     (upd_health i (\<lambda>h. h\<lparr>last_health := Some (health_verdict now_secs (hlth d i) reading)\<rparr>) d,
      transition_events (acc_label c i) (hlth d i) (health_verdict now_secs (hlth d i) reading))"
  by (simp add: health_transition_def Let_def health_verdict_def transition_events_def)

lemma health_transitions_fold:
  assumes "distinct (map fst xs)" "fst ` set xs \<subseteq> {..<length (d_accounts d)}"
  shows "(let (d', es') = fold (\<lambda>x (d, es). case health_transition c now_secs x d of (d', es') \<Rightarrow> (d', es @ es')) xs (d, es)
    in es' = es @ concat (map (\<lambda>(i, r). transition_events (acc_label c i) (hlth d i)
                 (health_verdict now_secs (hlth d i) r)) xs) \<and>
       length (d_accounts d') = length (d_accounts d) \<and>
       (\<forall>i. i \<notin> fst ` set xs \<longrightarrow> acct d' i = acct d i) \<and>
       (\<forall>(i, r) \<in> set xs. last_health (hlth d' i) = Some (health_verdict now_secs (hlth d i) r)))"
  using assms
proof (induction xs arbitrary: d es)
  case Nil
  then show ?case by simp
next
  case (Cons x xs)
  obtain j r where x: "x = (j, r)" by fastforce
  let ?d = "upd_health j (\<lambda>h. h\<lparr>last_health := Some (health_verdict now_secs (hlth d j) r)\<rparr>) d"
  have j: "j < length (d_accounts d)" using Cons.prems(2) x by simp
  have nj: "j \<notin> fst ` set xs" using Cons.prems(1) x by auto
  have same: "hlth ?d i = hlth d i" if "i \<in> fst ` set xs" for i using nj that by (cases "i = j") simp_all
  then have evs: "map (\<lambda>(i, r). transition_events (acc_label c i) (hlth ?d i) (health_verdict now_secs (hlth ?d i) r)) xs =
      map (\<lambda>(i, r). transition_events (acc_label c i) (hlth d i) (health_verdict now_secs (hlth d i) r)) xs"
    by (intro map_cong) (auto simp: rev_image_eqI)
  have len: "length (d_accounts ?d) = length (d_accounts d)" by simp
  have frame: "acct ?d i = acct d i" if "i \<noteq> j" for i using that by simp
  have here: "last_health (hlth ?d j) = Some (health_verdict now_secs (hlth d j) r)" using j by simp
  let ?step = "\<lambda>x (d, es). case health_transition c now_secs x d of (d', es') \<Rightarrow> (d', es @ es')"
  let ?es = "es @ transition_events (acc_label c j) (hlth d j) (health_verdict now_secs (hlth d j) r)"
  obtain d2 es2 where run: "fold ?step xs (?d, ?es) = (d2, es2)" by fastforce
  have idx: "fst ` set xs \<subseteq> {..<length (d_accounts ?d)}" using Cons.prems(2) by simp
  note ih = Cons.IH [where d = "?d" and es = "?es", OF _ idx, unfolded run Let_def evs prod.case]
  have e2: "es2 = ?es @ concat (map (\<lambda>(i, r). transition_events (acc_label c i) (hlth d i)
      (health_verdict now_secs (hlth d i) r)) xs)"
    and l2: "length (d_accounts d2) = length (d_accounts d)"
    and f2: "\<And>i. i \<notin> fst ` set xs \<Longrightarrow> acct d2 i = acct ?d i"
    and v2: "\<And>i r. (i, r) \<in> set xs \<Longrightarrow> last_health (hlth d2 i) = Some (health_verdict now_secs (hlth ?d i) r)"
    using ih Cons.prems(1) by auto
  have eq: "fold ?step (x # xs) (d, es) = (d2, es2)" using run by (simp add: x health_transition_alt)
  have acc: "acct d2 i = acct d i" if "i \<notin> fst ` set (x # xs)" for i using that f2 [of i] frame [of i] x by auto
  have recorded: "last_health (hlth d2 i) = Some (health_verdict now_secs (hlth d i) r')"
    if "(i, r') \<in> set (x # xs)" for i r'
  proof (cases "(i, r') \<in> set xs")
    case True
    then have "i \<in> fst ` set xs" by (auto simp: rev_image_eqI)
    then show ?thesis using v2 [OF True] same [of i] by simp
  next
    case False
    then show ?thesis using that x f2 [OF nj] here by auto
  qed
  show ?case unfolding eq Let_def prod.case using acc recorded e2 l2 by (auto simp: x)
qed

section \<open>Properties\<close>

text \<open>
  C10: An account is declared dead exactly when enough polls in a row came back unauthorised: from an
  account in good standing with nothing counted, the event is emitted in a history of polls iff \<open>n\<close>
  consecutive ones failed with a 401. Any other outcome, a transient failure included, restarts the
  count.
\<close>

theorem quarantine_iff_401_streak:
  assumes "0 < n" "n \<le> 255" "\<not> quarantined h" "consec_401 h = 0"
  shows "Ev_CredentialDead lbl \<in> set (snd (run_steps (poll_outcome_fold n m lbl) h rs)) \<longleftrightarrow>
    sublist (replicate n True) (map (\<lambda>r. r = Inl UsageUnauthorized) rs)"
  using dead_iff_streak [of n h lbl m rs] assms by (simp add: has_streak_def)

theorem quarantine_iff_401_streak_witness:
  "Ev_CredentialDead ''a'' \<in> set (snd (run_steps (poll_outcome_fold 3 2 ''a'') account_health_default
     [Inl UsageUnauthorized, Inl UsageUnauthorized, Inl UsageUnauthorized]))"
  using quarantine_iff_401_streak [of 3 account_health_default "''a''" 2
    "[Inl UsageUnauthorized, Inl UsageUnauthorized, Inl UsageUnauthorized]"]
  by (simp add: account_health_default_def numeral_3_eq_3)

text \<open>
  C11: A quarantined account is restored exactly when \<open>m\<close> polls in a row succeed; every failure, a
  rate limit or a network error included, starts the count again.
\<close>

theorem restore_iff_live_streak:
  assumes "0 < m" "m \<le> 255" "quarantined h" "recovery_successes h = 0"
  shows "Ev_CredentialRestored lbl \<in> set (snd (run_steps (poll_outcome_fold n m lbl) h rs)) \<longleftrightarrow>
    sublist (replicate m True) (map is_ok rs)"
  using restored_iff_streak [of m h lbl n rs] assms by (simp add: has_streak_def)

theorem restore_iff_live_streak_witness:
  "Ev_CredentialRestored ''a'' \<in> set (snd (run_steps (poll_outcome_fold 3 2 ''a'')
     (account_health_default\<lparr>quarantined := True\<rparr>) [Inr (reading_sample (1 / 2) 0), Inr (reading_sample (1 / 2) 0)]))"
  using restore_iff_live_streak [of 2 "account_health_default\<lparr>quarantined := True\<rparr>" "''a''" 3
    "[Inr (reading_sample (1 / 2) 0), Inr (reading_sample (1 / 2) 0)]"]
  by (simp add: account_health_default_def numeral_2_eq_2)

text \<open>
  Over every history of polls, refreshes and restores of an account, its death and its restoration
  alternate: a death is reported only when the account was in good standing, a restoration only when it
  was quarantined, and afterwards the quarantine flag says which came last.
\<close>

theorem quarantine_bracketed:
  "bracketed (\<lambda>e. e = Ev_CredentialDead lbl) (\<lambda>e. e = Ev_CredentialRestored lbl) (quarantined h)
     (snd (run_steps (health_step n m lbl) h is)) \<and>
   bracket_end (\<lambda>e. e = Ev_CredentialDead lbl) (\<lambda>e. e = Ev_CredentialRestored lbl) (quarantined h)
     (snd (run_steps (health_step n m lbl) h is)) = quarantined (fst (run_steps (health_step n m lbl) h is))"
  by (rule quarantine.run_ok [OF TrueI])

text \<open>
  A polled expiry is reported exactly when it differs from the remembered one, with that one as its
  baseline, and becomes the remembered one. It is blamed on a change from outside only if a baseline was
  there, read from the same place, and the daemon did not refresh the credential itself since.
\<close>

theorem expiry_change_attributed:
  assumes "i < length (d_accounts d)"
    and "note_polled_expiry c i (Some deadline) source now_secs d = (d', es)"
  shows "expires_baseline (hlth d' i) = Some deadline \<and>
    ((\<exists>a p b x g. Ev_CredentialExpiryObserved a p b x g \<in> set es) \<longleftrightarrow> expires_baseline (hlth d i) \<noteq> Some deadline) \<and>
    (\<forall>a p b x g. Ev_CredentialExpiryObserved a p b x g \<in> set es \<longrightarrow>
      a = acc_uuid c i \<and> b = expires_baseline (hlth d i) \<and> x = deadline \<and>
      (p = EP_ExternalChange \<longrightarrow> b \<noteq> None \<and> \<not> own_refresh_since_expiry_observation (hlth d i) \<and>
         expires_baseline_source (hlth d i) = Some source))"
  using assms
  by (auto simp: note_polled_expiry_def fold_expiry_observation_def note_expiry_horizon_edge_def Let_def
      split: if_splits prod.splits expiry_horizon.splits)

definition sample_cfg :: cfg where
  "sample_cfg = \<lparr>c_roster = [\<lparr>account_uuid = ''a'', label = ''one'', account_enabled = True\<rparr>,
       \<lparr>account_uuid = ''b'', label = ''two'', account_enabled = True\<rparr>],
     c_claude_json = ''file'', c_session_ceiling_strategy = Strategy_fixed (Fin 95),
     c_weekly_ceiling_strategy = Strategy_fixed (Fin 98), c_weekly_ceiling_base = Fin (3 / 4),
     c_session_ceiling_base = Fin (3 / 4), c_target_max_session_usage = Fin (1 / 2),
     c_session_blind_swap_secs = 600, c_session_blind_risk_band = Fin (3 / 4), c_exhausted_poll_secs = 900,
     c_near_limit_poll_secs = 30, c_session_velocity_horizon_secs = 120,
     c_session_velocity_min_project_above = Fin (1 / 2), c_session_velocity_ema_alpha = Fin (1 / 2),
     c_fleet_runway_warn_secs = 3600, c_cooldown_strategy = Strategy_fixed (Fin 300),
     c_cooldown_base = from_secs 300,
     c_poll_strategy = Strategy_fixed (Fin 60), c_tiebreak_seed = None, c_monitor_401_n = 3,
     c_monitor_recovery_m = 2, c_canary_drift_override = False, c_canary_nostashmatch_override = False,
     c_canary_online_probe = False, c_canary_online_probe_strict = False, c_swap_lock_path = Some ''lock'',
     c_config_path = None, c_stats_enabled = False, c_refresh_enabled = False, c_keep_warm_cadence = from_secs 3600,
     c_proactive_keep_warm = True, c_systemic_failure_n = 2, c_credential_expiry_horizon_secs = 86400,
     c_credential_expiry_cohort_window_secs = 3600\<rparr>"

definition sample_daemon :: daemon where
  "sample_daemon = daemon_init (SplitMix64_new 1) 2"

theorem expiry_change_attributed_witness:
  "expires_baseline (hlth (fst (note_polled_expiry sample_cfg 1 (Some 5) CRS_Stash 0 sample_daemon)) 1) = Some 5"
  using expiry_change_attributed [of 1 sample_daemon sample_cfg 5 CRS_Stash 0, OF _ prod.collapse [symmetric]]
  by (simp add: sample_daemon_def daemon_init_def)

text \<open>
  One round of health transitions reports an account exactly when its verdict differs from the last
  one recorded, in roster order, never on the first round, and records every verdict.
\<close>

theorem health_transitions_exact:
  assumes "wf c d"
    and "note_health_transitions c now_secs d = (d', es)"
  shows "es = concat (map (\<lambda>i. transition_events (acc_label c i) (hlth d i)
      (health_verdict now_secs (hlth d i) (decision_readings c (d_active d) d ! i))) [0..<length (c_roster c)]) \<and>
    (\<forall>i < length (c_roster c). last_health (hlth d' i) =
      Some (health_verdict now_secs (hlth d i) (decision_readings c (d_active d) d ! i)))"
proof -
  let ?rs = "decision_readings c (d_active d) d"
  have len: "length ?rs = length (c_roster c)" by (simp add: decision_readings_def)
  have xs: "enumerate 0 ?rs = map (\<lambda>i. (i, ?rs ! i)) [0..<length (c_roster c)]"
    by (rule nth_equalityI) (simp_all add: len nth_enumerate_eq)
  have "distinct (map fst (enumerate 0 ?rs))" by simp
  moreover have "fst ` set (enumerate 0 ?rs) \<subseteq> {..<length (d_accounts d)}"
    using assms(1) by (auto simp: in_set_enumerate_eq len wf_def)
  ultimately show ?thesis
    using health_transitions_fold [of "enumerate 0 ?rs" d c now_secs "[]"] assms(2)
    unfolding note_health_transitions_def by (simp add: xs comp_def)
qed

theorem health_transitions_exact_witness:
  "last_health (hlth (fst (note_health_transitions sample_cfg 0 sample_daemon)) 0) = Some CH_Unknown"
  using health_transitions_exact [of sample_cfg sample_daemon 0, OF _ prod.collapse [symmetric]]
  by (simp add: sample_daemon_def daemon_init_def wf_def sample_cfg_def decision_readings_def health_verdict_def
      credential_health_def account_runtime_default_def account_health_default_def)

end
