(* ===== verification/Daemon_Poll.thy ===== *)
theory Daemon_Poll
  imports Daemon_Fold
begin

text \<open>
  Which account is polled next and how often (\<open>src/daemon.rs\<close>): the poll schedule, the intervals, the
  per-account back-off after a throttled poll, the slow polling of an exhausted account, and the
  observations the daemon records about a poll, a blind episode and a gap in the observations.
\<close>

section \<open>The poll schedule\<close>

definition rotating :: "cfg \<Rightarrow> daemon \<Rightarrow> nat \<Rightarrow> bool" where
  "rotating c d i \<longleftrightarrow> account_enabled (c_roster c ! i) \<and> \<not> quarantined (hlth d i)"

text \<open>The loop body pushes the active account before every rotating spare.\<close>

definition build_poll_schedule :: "cfg \<Rightarrow> nat option \<Rightarrow> daemon \<Rightarrow> nat list" where
  "build_poll_schedule c act d =
     (let schedule = fold (\<lambda>i schedule.
            if act = Some i then schedule
            else if rotating c d i
            then (case act of Some a \<Rightarrow> schedule @ [a] | None \<Rightarrow> schedule) @ [i]
            else schedule) [0..<length (c_roster c)] []
      in (case act of Some a \<Rightarrow> if schedule = [] then [a] else schedule | None \<Rightarrow> schedule))"

definition next_poll_index :: "cfg \<Rightarrow> nat option \<Rightarrow> daemon \<Rightarrow> nat option \<times> daemon" where
  "next_poll_index c act d =
     (let d1 = (if d_poll_pos d \<ge> length (d_poll_schedule d)
                then d\<lparr>d_poll_schedule := build_poll_schedule c act d, d_poll_pos := 0\<rparr> else d);
          idx = (if d_poll_pos d1 < length (d_poll_schedule d1) then Some (d_poll_schedule d1 ! d_poll_pos d1) else None)
      in (idx, d1\<lparr>d_poll_pos := d_poll_pos d1 + 1\<rparr>))"

definition invalidate_poll_schedule :: "daemon \<Rightarrow> daemon" where
  "invalidate_poll_schedule d = d\<lparr>d_poll_schedule := [], d_poll_pos := 0\<rparr>"

definition note_polled :: "nat \<Rightarrow> daemon \<Rightarrow> daemon" where
  "note_polled i d =
     (let d1 = upd_account i (\<lambda>a. a\<lparr>polled_once := True\<rparr>) d
      in if \<not> d_warmed_up d1 \<and> (\<forall>j \<in> set (d_poll_schedule d1). polled_once (acct d1 j))
         then d1\<lparr>d_warmed_up := True\<rparr> else d1)"

definition rotation_len :: "cfg \<Rightarrow> daemon \<Rightarrow> nat" where
  "rotation_len c d = length (filter (\<lambda>i. d_active d = Some i \<or> rotating c d i) [0..<length (c_roster c)])"

section \<open>Intervals\<close>

definition next_poll_interval :: "libm \<Rightarrow> cfg \<Rightarrow> daemon \<Rightarrow> duration \<times> daemon" where
  "next_poll_interval m c d =
     (case draw_on m (c_poll_strategy c) POLL_SECS_LO POLL_SECS_HI d of (x, d') \<Rightarrow> (dur_of_f64 x, d'))"

definition next_subinterval :: "libm \<Rightarrow> cfg \<Rightarrow> daemon \<Rightarrow> duration \<times> daemon" where
  "next_subinterval m c d =
     (case next_poll_interval m c d of (interval, d1) \<Rightarrow>
       let len = max (rotation_len c d1) 1;
           base = interval div len
       in (if d_near_limit_fast_poll d1 then min base (from_secs (c_near_limit_poll_secs c)) else base, d1))"

definition near_limit_applied_sub_interval_secs :: "cfg \<Rightarrow> daemon \<Rightarrow> f64" where
  "near_limit_applied_sub_interval_secs c d =
     (let poll_secs = f_clamp (strategy_base (c_poll_strategy c)) POLL_SECS_LO POLL_SECS_HI;
          rotation = f_of_nat (max (rotation_len c d) 1)
      in f_min (f_div poll_secs rotation) (f_of_nat (c_near_limit_poll_secs c)))"

definition plausible_active_usage :: "nat \<Rightarrow> usage \<Rightarrow> daemon \<Rightarrow> usage" where
  "plausible_active_usage i u d = plausible_session (high_water (acct d i)) u"

definition active_near_limit :: "cfg \<Rightarrow> nat \<Rightarrow> daemon \<Rightarrow> bool" where
  "active_near_limit c i d =
     (case last_reading (acct d i) of None \<Rightarrow> False | Some reading \<Rightarrow>
       (case session (plausible_active_usage i reading d) of None \<Rightarrow> False | Some s \<Rightarrow>
         let line = c_session_velocity_min_project_above c;
             horizon = c_session_velocity_horizon_secs c
         in if f_ge s line then True
            else if horizon = 0 then False
            else (case sustained_session_velocity (acct d i) of
                None \<Rightarrow> False
              | Some vel \<Rightarrow> f_ge (f_add s (f_mul (ema_rate vel) (f_of_nat horizon))) line)))"

definition near_limit_fast_poll_engaged :: "cfg \<Rightarrow> daemon \<Rightarrow> bool" where
  "near_limit_fast_poll_engaged c d \<longleftrightarrow> c_near_limit_poll_secs c \<noteq> 0 \<and> d_warmed_up d \<and>
     (case d_active d of None \<Rightarrow> False | Some i \<Rightarrow> active_near_limit c i d)"

definition startup_delay :: "libm \<Rightarrow> daemon \<Rightarrow> duration \<times> daemon" where
  "startup_delay m d =
     (let half = f_div STARTUP_DELAY_CAP (Fin 2)
      in (case draw_on m \<lparr>strategy_base = half, strategy_jitter = Uniform half\<rparr> (Fin 0) STARTUP_DELAY_CAP d of
            (x, d') \<Rightarrow> (dur_of_f64 x, d')))"

section \<open>Backing off\<close>

definition account_backing_off :: "nat \<Rightarrow> instant \<Rightarrow> daemon \<Rightarrow> bool" where
  "account_backing_off i now d \<longleftrightarrow>
     (case poll_backoff_until (hlth d i) of None \<Rightarrow> False | Some til \<Rightarrow> now < til)"

definition exhausted_slow_polling :: "nat \<Rightarrow> nat option \<Rightarrow> instant \<Rightarrow> daemon \<Rightarrow> bool" where
  "exhausted_slow_polling i act now d \<longleftrightarrow> act \<noteq> Some i \<and>
     (case exhausted_poll_until (hlth d i) of None \<Rightarrow> False | Some til \<Rightarrow> now < til)"

definition probe_gate_for :: "cfg \<Rightarrow> nat \<Rightarrow> bool \<Rightarrow> instant \<Rightarrow> daemon \<Rightarrow> probe_gate" where
  "probe_gate_for c i force now d =
     (if \<not> c_canary_online_probe c then PG_Disarmed
      else if force then PG_Overridden
      else if last_reading (acct d i) = None \<or> account_backing_off i now d then PG_Uninformative
      else PG_Armed)"

text \<open>The wait of one throttled poll: the drawn interval doubled per failure, bounded, and the server's hint.\<close>

definition backoff_wait :: "bool \<Rightarrow> nat \<Rightarrow> duration \<Rightarrow> duration option \<Rightarrow> duration" where
  "backoff_wait is_active streak interval retry_after =
     (let shift = min streak POLL_BACKOFF_MAX_SHIFT;
          exp_cap = (if is_active then ACTIVE_POLL_BACKOFF_CAP else POLL_BACKOFF_CAP);
          widened = min (case dur_checked_mul interval (2 ^ shift) of Some w \<Rightarrow> w | None \<Rightarrow> exp_cap) exp_cap
      in (case retry_after of
            Some ra \<Rightarrow> if is_active then max widened ra else min (max widened ra) POLL_BACKOFF_CAP
          | None \<Rightarrow> widened))"

definition note_account_backoff ::
  "libm \<Rightarrow> cfg \<Rightarrow> nat \<Rightarrow> bool \<Rightarrow> usage result \<Rightarrow> instant \<Rightarrow> daemon \<Rightarrow> tick_backoff option \<times> daemon \<times> event list" where
  "note_account_backoff m c i is_active result now d =
     (case backoff_signal result of
        None \<Rightarrow>
          let was_backing_off = (poll_backoff_until (hlth d i) \<noteq> None);
              d1 = upd_health i (\<lambda>h. h\<lparr>poll_backoff_streak := 0, poll_backoff_until := None,
                     poll_backoff_retry_after := None\<rparr>) d
          in (None, d1, if was_backing_off then [Ev_UsageBackoffCleared (acc_uuid c i)] else [])
      | Some sig \<Rightarrow>
          let streak = u32_sat_add (poll_backoff_streak (hlth d i)) 1;
              d1 = upd_health i (\<lambda>h. h\<lparr>poll_backoff_streak := streak\<rparr>) d
          in (case next_poll_interval m c d1 of (interval, d2) \<Rightarrow>
               let wait = backoff_wait is_active streak interval (bs_retry_after sig);
                   til = (case instant_checked_add now wait of Some t \<Rightarrow> t | None \<Rightarrow> now + POLL_BACKOFF_CAP);
                   held = (case bs_retry_after sig of Some ra \<Rightarrow> if ra \<noteq> 0 then Some ra else None | None \<Rightarrow> None);
                   d3 = upd_health i (\<lambda>h. h\<lparr>poll_backoff_until := Some til, poll_backoff_retry_after := held\<rparr>) d2;
                   armed = since til now
               in (Some \<lparr>tb_wait = armed, tb_retry_after = bs_retry_after sig\<rparr>, d3,
                   [Ev_UsageBackoff (acc_uuid c i) (bs_class sig) streak
                      (map_option as_secs (bs_retry_after sig)) (as_secs armed)])))"

definition note_exhausted_poll ::
  "cfg \<Rightarrow> nat \<Rightarrow> nat option \<Rightarrow> instant \<Rightarrow> int \<Rightarrow> daemon \<Rightarrow> daemon \<times> event list" where
  "note_exhausted_poll c i act now now_secs d =
     (case last_reading (acct d i) of
        None \<Rightarrow> (d, [])
      | Some reading \<Rightarrow>
          let out_of_rotation = (act \<noteq> Some i \<and>
                (some_at_least (weekly reading) (weekly_rotation_line c) \<or>
                 some_at_least (session reading) (c_session_ceiling_base c)));
              was_slow_polling = (exhausted_poll_until (hlth d i) \<noteq> None)
          in if out_of_rotation
             then
               let window = exhausted_poll_window reading (weekly_rotation_line c) (c_session_ceiling_base c)
                     now_secs (c_exhausted_poll_secs c) (f_as_uint U64_MAX (strategy_base (c_poll_strategy c)))
               in (upd_health i (\<lambda>h. h\<lparr>exhausted_poll_until := Some (now + window)\<rparr>) d,
                   if \<not> was_slow_polling then [Ev_ExhaustedSlowPoll (acc_uuid c i) (as_secs window)] else [])
             else (upd_health i (\<lambda>h. h\<lparr>exhausted_poll_until := None\<rparr>) d,
                   if was_slow_polling then [Ev_ExhaustedSlowPollCleared (acc_uuid c i)] else []))"

section \<open>Lemmas on the schedule\<close>

definition spares :: "cfg \<Rightarrow> daemon \<Rightarrow> nat \<Rightarrow> nat list" where
  "spares c d a = filter (\<lambda>i. i \<noteq> a \<and> rotating c d i) [0..<length (c_roster c)]"

lemma spares_set: "i \<in> set (spares c d a) \<longleftrightarrow> i < length (c_roster c) \<and> i \<noteq> a \<and> rotating c d i"
  by (auto simp: spares_def)

lemma build_fold_Some:
  "fold (\<lambda>i schedule. if Some a = Some i then schedule
      else if rotating c d i then (case Some a of Some a \<Rightarrow> schedule @ [a] | None \<Rightarrow> schedule) @ [i] else schedule) xs acc =
   acc @ concat (map (\<lambda>i. [a, i]) (filter (\<lambda>i. i \<noteq> a \<and> rotating c d i) xs))"
  by (induction xs arbitrary: acc) auto

lemma build_fold_None:
  "fold (\<lambda>i schedule. if None = Some i then schedule
      else if rotating c d i then (case None of Some a \<Rightarrow> schedule @ [a] | None \<Rightarrow> schedule) @ [i] else schedule) xs acc =
   acc @ filter (rotating c d) xs"
  by (induction xs arbitrary: acc) auto

lemma build_Some:
  "build_poll_schedule c (Some a) d =
     (if spares c d a = [] then [a] else concat (map (\<lambda>i. [a, i]) (spares c d a)))"
  unfolding build_poll_schedule_def build_fold_Some spares_def [symmetric]
  by (cases "spares c d a") (simp_all add: Let_def)

lemma build_None: "build_poll_schedule c None d = filter (rotating c d) [0..<length (c_roster c)]"
  unfolding build_poll_schedule_def build_fold_None by (simp add: Let_def)

lemma build_range:
  assumes "\<And>a. act = Some a \<Longrightarrow> a < length (c_roster c)"
  shows "\<forall>i \<in> set (build_poll_schedule c act d). i < length (c_roster c)"
  using assms by (cases act) (auto simp: build_Some build_None spares_set)

lemma build_length:
  assumes "\<And>a. act = Some a \<Longrightarrow> a < length (c_roster c)"
  shows "length (build_poll_schedule c act d) \<le> 2 * length (c_roster c)"
proof (cases act)
  case None
  then show ?thesis using length_filter_le [of "rotating c d" "[0..<length (c_roster c)]"] by (simp add: build_None)
next
  case (Some a)
  have "length (concat (map (\<lambda>i. [a, i]) xs)) = 2 * length xs" for xs by (induction xs) auto
  moreover have "length (spares c d a) \<le> length (c_roster c)"
    using length_filter_le [of "\<lambda>i. i \<noteq> a \<and> rotating c d i" "[0..<length (c_roster c)]"] by (simp add: spares_def)
  ultimately show ?thesis using assms Some by (auto simp: build_Some)
qed

lemma build_covers:
  "i < length (c_roster c) \<Longrightarrow> rotating c d i \<or> act = Some i \<Longrightarrow> i \<in> set (build_poll_schedule c act d)"
proof (cases act)
  case (Some a)
  assume i: "i < length (c_roster c)" "rotating c d i \<or> act = Some i"
  show ?thesis
  proof (cases "i = a")
    case True
    then show ?thesis using Some by (cases "spares c d a") (auto simp: build_Some)
  next
    case False
    then have "i \<in> set (spares c d a)" using i Some by (auto simp: spares_set)
    then show ?thesis using Some by (auto simp: build_Some)
  qed
qed (auto simp: build_None)

text \<open>\<open>next_poll_index\<close> touches the schedule and its position only, and the schedule does not depend on them.\<close>

lemma build_cong:
  "d_accounts d' = d_accounts d \<Longrightarrow> build_poll_schedule c act d' = build_poll_schedule c act d"
proof -
  assume "d_accounts d' = d_accounts d"
  then have "rotating c d' = rotating c d" by (simp add: rotating_def fun_eq_iff)
  then show ?thesis by (cases act) (simp_all add: build_Some build_None spares_def)
qed

lemma next_poll_index_accounts [simp]:
  "d_accounts (snd (next_poll_index c act d)) = d_accounts d"
  by (simp add: next_poll_index_def Let_def)

lemma next_poll_index_wf:
  assumes "wf c d" "\<And>a. act = Some a \<Longrightarrow> a < length (c_roster c)"
  shows "wf c (snd (next_poll_index c act d))"
    and "fst (next_poll_index c act d) = Some i \<Longrightarrow> i < length (c_roster c)"
  using assms(1) build_range [OF assms(2), where d = d]
  by (auto simp: next_poll_index_def wf_def Let_def split: if_splits)

text \<open>The indices and the state after \<open>k\<close> consecutive calls.\<close>

fun poll_run :: "cfg \<Rightarrow> nat option \<Rightarrow> nat \<Rightarrow> daemon \<Rightarrow> nat option list \<times> daemon" where
  "poll_run c act 0 d = ([], d)"
| "poll_run c act (Suc k) d =
     (case poll_run c act k d of (is, d') \<Rightarrow> (case next_poll_index c act d' of (i, d'') \<Rightarrow> (is @ [i], d'')))"

lemma poll_run_schedule:
  assumes "d_poll_pos d \<ge> length (d_poll_schedule d)" "s = build_poll_schedule c act d" "s \<noteq> []"
  shows "d_accounts (snd (poll_run c act (Suc k) d)) = d_accounts d \<and>
    d_poll_schedule (snd (poll_run c act (Suc k) d)) = s \<and>
    d_poll_pos (snd (poll_run c act (Suc k) d)) = Suc (k mod length s) \<and>
    fst (poll_run c act (Suc k) d) = map (\<lambda>j. Some (s ! (j mod length s))) [0..<Suc k]"
proof (induction k)
  case 0
  then show ?case using assms by (simp add: next_poll_index_def Let_def split_beta)
next
  case (Suc k)
  obtain "is" d' where run: "poll_run c act (Suc k) d = (is, d')" by fastforce
  then have ih: "d_accounts d' = d_accounts d" "d_poll_schedule d' = s" "d_poll_pos d' = Suc (k mod length s)"
      "is = map (\<lambda>j. Some (s ! (j mod length s))) [0..<Suc k]"
    using Suc by simp_all
  have b: "build_poll_schedule c act d' = s" using build_cong [OF ih(1)] assms(2) by simp
  show ?case
  proof (cases "Suc (k mod length s) = length s")
    case True
    then have "Suc k mod length s = 0" by (simp add: mod_Suc)
    then show ?thesis using ih b assms(3) True unfolding poll_run.simps(2) [of c act "Suc k"] run
      by (simp add: next_poll_index_def Let_def)
  next
    case False
    then have m: "Suc k mod length s = Suc (k mod length s)" by (simp add: mod_Suc)
    have "k mod length s < length s" using assms(3) by simp
    then show ?thesis using ih b m False unfolding poll_run.simps(2) [of c act "Suc k"] run
      by (simp add: next_poll_index_def Let_def)
  qed
qed

lemma poll_run_empty:
  assumes "d_poll_pos d \<ge> length (d_poll_schedule d)" "build_poll_schedule c act d = []"
  shows "fst (poll_run c act m d) = replicate m None \<and> d_accounts (snd (poll_run c act m d)) = d_accounts d \<and>
    d_poll_pos (snd (poll_run c act m d)) \<ge> length (d_poll_schedule (snd (poll_run c act m d)))"
proof (induction m)
  case (Suc m)
  obtain "is" d' where run: "poll_run c act m d = (is, d')" by fastforce
  then have ih: "is = replicate m None" "d_accounts d' = d_accounts d" "d_poll_pos d' \<ge> length (d_poll_schedule d')"
    using Suc by simp_all
  have "next_poll_index c act d' = (None, d'\<lparr>d_poll_schedule := [], d_poll_pos := 1\<rparr>)"
    using build_cong [OF ih(2)] assms(2) ih(3) by (simp add: next_poll_index_def)
  then show ?case using ih by (simp add: run replicate_append_same)
qed (use assms in simp)

section \<open>Lemmas on the back-off\<close>

lemma backoff_wait_bounds:
  "\<not> is_active \<Longrightarrow> backoff_wait is_active streak interval ra \<le> POLL_BACKOFF_CAP"
  "is_active \<Longrightarrow> backoff_wait is_active streak interval None \<le> ACTIVE_POLL_BACKOFF_CAP"
  "backoff_wait True streak interval (Some r) \<le> max ACTIVE_POLL_BACKOFF_CAP r"
  "r \<le> backoff_wait True streak interval (Some r)"
  "min r POLL_BACKOFF_CAP \<le> backoff_wait is_active streak interval (Some r)"
  by (auto simp: backoff_wait_def Let_def split: option.splits)

lemma backoff_wait_mono:
  assumes "s \<le> t"
  shows "backoff_wait is_active s interval ra \<le> backoff_wait is_active t interval ra"
proof -
  have le: "interval * 2 ^ min s POLL_BACKOFF_MAX_SHIFT \<le> interval * 2 ^ min t POLL_BACKOFF_MAX_SHIFT"
    using assms by (intro mult_le_mono2 power_increasing) auto
  have "min (case (if p \<le> DURATION_MAX then Some p else None) of Some w \<Rightarrow> w | None \<Rightarrow> k) k \<le>
      min (case (if q \<le> DURATION_MAX then Some q else None) of Some w \<Rightarrow> w | None \<Rightarrow> k) k" if "p \<le> q" for p q k :: nat
    using that by auto
  note w = this [OF le, folded dur_checked_mul_def]
  show ?thesis using w [of ACTIVE_POLL_BACKOFF_CAP] w [of POLL_BACKOFF_CAP]
    by (auto simp: backoff_wait_def Let_def split: option.splits intro: max.mono min.mono)
qed

lemma next_poll_interval_accounts [simp]:
  "d_accounts (snd (next_poll_interval m c d)) = d_accounts d"
  by (simp add: next_poll_interval_def draw_on_def split_beta)

lemma throttled_poll:
  assumes "i < length (d_accounts d)" "backoff_signal result = Some sig"
    and "note_account_backoff m c i is_active result now d = (tb, d', es)"
  obtains wait where "poll_backoff_until (hlth d' i) =
      Some (case instant_checked_add now wait of Some t \<Rightarrow> t | None \<Rightarrow> now + POLL_BACKOFF_CAP)"
    and "wait = backoff_wait is_active (u32_sat_add (poll_backoff_streak (hlth d i)) 1)
      (fst (next_poll_interval m c (upd_health i (\<lambda>h. h\<lparr>poll_backoff_streak :=
         u32_sat_add (poll_backoff_streak (hlth d i)) 1\<rparr>) d))) (bs_retry_after sig)"
  using assms by (auto simp: note_account_backoff_def Let_def split_beta)

interpretation slow_poll: inv_latch "\<lambda>d. i < length (d_accounts d)"
  "\<lambda>d (act, now, now_secs). note_exhausted_poll c i act now now_secs d"
  "\<lambda>d. exhausted_poll_until (hlth d i) \<noteq> None"
  "\<lambda>e. \<exists>u w. e = Ev_ExhaustedSlowPoll u w" "\<lambda>e. \<exists>u. e = Ev_ExhaustedSlowPollCleared u" for c i
  by unfold_locales (auto simp: note_exhausted_poll_def Let_def split: option.splits)

section \<open>Properties\<close>

text \<open>
  C7: While the standing of the accounts does not change, the schedule visits everybody: from the start of
  a cycle, within two polls per account, every enabled account that is not quarantined is polled, and so
  is the active one whatever its standing; no other account is polled.
\<close>

theorem rotation_visits_everyone:
  assumes "d_poll_pos d \<ge> length (d_poll_schedule d)" "i < length (c_roster c)"
    and "\<And>a. act = Some a \<Longrightarrow> a < length (c_roster c)"
  shows "Some i \<in> set (fst (poll_run c act (2 * length (c_roster c)) d)) \<longleftrightarrow> rotating c d i \<or> act = Some i"
proof
  let ?s = "build_poll_schedule c act d"
  let ?n = "2 * length (c_roster c)"
  obtain k where k: "?n = Suc k" using assms(2) by (cases ?n) auto
  have answers: "?s \<noteq> [] \<Longrightarrow> fst (poll_run c act ?n d) = map (\<lambda>j. Some (?s ! (j mod length ?s))) [0..<?n]"
    unfolding k using poll_run_schedule [OF assms(1) refl, of c act k] by blast
  {
    assume "rotating c d i \<or> act = Some i"
    then have "i \<in> set ?s" using build_covers assms(2) by blast
    then obtain j where j: "j < length ?s" "?s ! j = i" by (auto simp: in_set_conv_nth)
    moreover have "length ?s \<le> ?n" by (rule build_length) (rule assms(3))
    ultimately have "j < ?n" by simp
    moreover have "Some i = Some (?s ! (j mod length ?s))" using j by simp
    ultimately show "Some i \<in> set (fst (poll_run c act ?n d))"
      using answers j(1) by (cases "?s = []") (auto simp: image_iff intro!: bexI [of _ j])
  next
    assume polled: "Some i \<in> set (fst (poll_run c act ?n d))"
    show "rotating c d i \<or> act = Some i"
    proof (cases "?s = []")
      case True
      then show ?thesis using polled poll_run_empty [OF assms(1) True, of ?n] by simp
    next
      case False
      then obtain j where "Some i = Some (?s ! (j mod length ?s))" using polled answers by auto
      then have "i \<in> set ?s" using False by simp
      then show ?thesis by (cases act) (auto simp: build_Some build_None spares_set split: if_splits)
    qed
  }
qed

theorem rotation_visits_everyone_witness:
  "Some 1 \<in> set (fst (poll_run sample_cfg (Some 0) 4 sample_daemon))"
  using rotation_visits_everyone [of sample_daemon 1 sample_cfg "Some 0"]
  by (simp add: sample_daemon_def daemon_init_def sample_cfg_def rotating_def account_runtime_default_def
      account_health_default_def)

text \<open>
  A throttled account is left alone for a bounded time, and the server's hint is honoured: the account
  is backing off from now on, an idle one for an hour at most, the active one for two minutes at most
  unless the server asked for more; and until the hint (or the hour) has passed it is not polled.
\<close>

theorem backoff_bounded_and_honours_hint:
  assumes "i < length (d_accounts d)" "backoff_signal result = Some sig"
    and "note_account_backoff m c i is_active result now d = (tb, d', es)"
  shows "\<exists>til. poll_backoff_until (hlth d' i) = Some til \<and> now \<le> til \<and>
    (\<not> is_active \<longrightarrow> til \<le> now + POLL_BACKOFF_CAP) \<and>
    (is_active \<and> bs_retry_after sig = None \<and> now + ACTIVE_POLL_BACKOFF_CAP \<le> INSTANT_MAX \<longrightarrow>
       til \<le> now + ACTIVE_POLL_BACKOFF_CAP) \<and>
    (\<forall>ra. bs_retry_after sig = Some ra \<longrightarrow>
       (\<forall>t < now + min ra POLL_BACKOFF_CAP. account_backing_off i t d') \<and>
       (is_active \<and> now + max ACTIVE_POLL_BACKOFF_CAP ra \<le> INSTANT_MAX \<longrightarrow>
          (\<forall>t < now + ra. account_backing_off i t d')))"
proof -
  let ?s = "u32_sat_add (poll_backoff_streak (hlth d i)) 1"
  let ?iv = "fst (next_poll_interval m c (upd_health i (\<lambda>h. h\<lparr>poll_backoff_streak := ?s\<rparr>) d))"
  obtain wait where til: "poll_backoff_until (hlth d' i) =
      Some (case instant_checked_add now wait of Some t \<Rightarrow> t | None \<Rightarrow> now + POLL_BACKOFF_CAP)"
    and wait: "wait = backoff_wait is_active ?s ?iv (bs_retry_after sig)"
    by (rule throttled_poll [OF assms])
  have idle: "\<not> is_active \<Longrightarrow> wait \<le> POLL_BACKOFF_CAP"
    and act: "is_active \<Longrightarrow> bs_retry_after sig = None \<Longrightarrow> wait \<le> ACTIVE_POLL_BACKOFF_CAP"
    and hint: "\<And>ra. bs_retry_after sig = Some ra \<Longrightarrow> min ra POLL_BACKOFF_CAP \<le> wait"
    and hard: "\<And>ra. is_active \<Longrightarrow> bs_retry_after sig = Some ra \<Longrightarrow> ra \<le> wait \<and> wait \<le> max ACTIVE_POLL_BACKOFF_CAP ra"
    using backoff_wait_bounds wait by auto
  let ?til = "case instant_checked_add now wait of Some t \<Rightarrow> t | None \<Rightarrow> now + POLL_BACKOFF_CAP"
  have "now \<le> ?til" "\<not> is_active \<Longrightarrow> ?til \<le> now + POLL_BACKOFF_CAP"
    using idle by (auto simp: instant_checked_add_def)
  moreover have "?til \<le> now + ACTIVE_POLL_BACKOFF_CAP"
    if "is_active" "bs_retry_after sig = None" "now + ACTIVE_POLL_BACKOFF_CAP \<le> INSTANT_MAX"
    using act [OF that(1,2)] that(3) by (simp add: instant_checked_add_def)
  moreover have "now + min ra POLL_BACKOFF_CAP \<le> ?til" if "bs_retry_after sig = Some ra" for ra
    using hint [OF that] by (simp add: instant_checked_add_def)
  moreover have "now + ra \<le> ?til"
    if "bs_retry_after sig = Some ra" "is_active" "now + max ACTIVE_POLL_BACKOFF_CAP ra \<le> INSTANT_MAX" for ra
    using hard [OF that(2,1)] that(3) by (simp add: instant_checked_add_def)
  ultimately show ?thesis unfolding til by (auto simp: account_backing_off_def til intro: less_le_trans)
qed

definition throttled_sample :: "usage result" where
  "throttled_sample = Inl (UsageRateLimited 429 (Some (from_secs 90)))"

lemma throttled_sample_signal:
  "backoff_signal throttled_sample = Some \<lparr>bs_class = BC_RateLimited, bs_retry_after = Some (from_secs 90)\<rparr>"
  by (simp add: throttled_sample_def)

theorem backoff_bounded_and_honours_hint_witness:
  "account_backing_off 1 (from_secs 50)
     (fst (snd (note_account_backoff libm_sample sample_cfg 1 False throttled_sample 0 sample_daemon)))"
proof -
  obtain tb d' es where run: "note_account_backoff libm_sample sample_cfg 1 False throttled_sample 0 sample_daemon = (tb, d', es)"
    using prod_cases3 by blast
  have "1 < length (d_accounts sample_daemon)" by (simp add: sample_daemon_def daemon_init_def)
  from backoff_bounded_and_honours_hint [OF this throttled_sample_signal run]
  have "account_backing_off 1 (from_secs 50) d'"
    by (auto simp: POLL_BACKOFF_CAP_def from_secs_def NANOS_PER_SEC_def)
  then show ?thesis unfolding run by (simp only: fst_conv snd_conv)
qed

text \<open>
  Each further throttled poll waits at least as long as the one before, all else equal.
\<close>

theorem backoff_never_shrinks:
  assumes "s \<le> t"
  shows "backoff_wait is_active s interval ra \<le> backoff_wait is_active t interval ra"
  using assms by (rule backoff_wait_mono)

theorem backoff_never_shrinks_witness:
  "backoff_wait True 1 (from_secs 60) None \<le> backoff_wait True 2 (from_secs 60) None"
  by (rule backoff_never_shrinks) simp

text \<open>
  The announcements of slow polling are bracketed: over every history of readings of an account, it is
  announced only when the account was polled normally and cleared only when it was slowly polled.
\<close>

theorem slow_poll_bracketed:
  assumes "i < length (d_accounts d)"
  shows "bracketed (\<lambda>e. \<exists>u w. e = Ev_ExhaustedSlowPoll u w) (\<lambda>e. \<exists>u. e = Ev_ExhaustedSlowPollCleared u)
    (exhausted_poll_until (hlth d i) \<noteq> None)
    (snd (run_steps (\<lambda>d (act, now, now_secs). note_exhausted_poll c i act now now_secs d) d inputs))"
  using slow_poll.run_ok [OF assms] by blast

theorem slow_poll_bracketed_witness:
  "bracketed (\<lambda>e. \<exists>u w. e = Ev_ExhaustedSlowPoll u w) (\<lambda>e. \<exists>u. e = Ev_ExhaustedSlowPollCleared u) False
    (snd (run_steps (\<lambda>d (act, now, now_secs). note_exhausted_poll sample_cfg 1 act now now_secs d) sample_daemon
       [(Some 0, 5, 7), (Some 1, 6, 8)]))"
  using slow_poll_bracketed [of 1 sample_daemon sample_cfg "[(Some 0, 5, 7), (Some 1, 6, 8)]"]
  by (simp add: sample_daemon_def daemon_init_def account_runtime_default_def account_health_default_def)

end
