(* ===== verification/Daemon_Observe.thy ===== *)
theory Daemon_Observe
  imports Daemon_Poll
begin

text \<open>
  What the daemon records and reports about its observations (\<open>src/daemon.rs\<close>): the velocity of the
  active account, blind episodes and their gate, landing overshoots (\<open>src/landing.rs\<close>), gaps in the
  observation of the active account, a roster that changed under the daemon, a fleet running low, and the
  wait on a locked keychain.
\<close>

section \<open>Velocity\<close>

definition velocity_fold :: "f64 \<Rightarrow> velocity_ema option \<Rightarrow> f64 \<Rightarrow> f64 \<Rightarrow> nat \<Rightarrow> velocity_ema option" where
  "velocity_fold alpha old prev_session next_session elapsed =
     (if elapsed = 0 \<or> f_lt next_session prev_session then None
      else
        let inst = f_div (f_sub next_session prev_session) (f_of_nat elapsed)
        in Some (case old of
             Some prev \<Rightarrow> \<lparr>ema_rate = f_add (f_mul alpha inst) (f_mul (f_sub (Fin 1) alpha) (ema_rate prev)),
                           ema_samples = u32_sat_add (ema_samples prev) 1\<rparr>
           | None \<Rightarrow> \<lparr>ema_rate = inst, ema_samples = 1\<rparr>))"

definition note_session_velocity :: "cfg \<Rightarrow> nat \<Rightarrow> f64 \<Rightarrow> f64 \<Rightarrow> nat \<Rightarrow> daemon \<Rightarrow> daemon" where
  "note_session_velocity c i prev_session next_session elapsed =
     upd_account i (\<lambda>a. a\<lparr>session_velocity :=
       velocity_fold (c_session_velocity_ema_alpha c) (session_velocity a) prev_session next_session elapsed\<rparr>)"

definition blind_velocity_ingredients :: "cfg \<Rightarrow> nat \<Rightarrow> daemon \<Rightarrow> blind_velocity option" where
  "blind_velocity_ingredients c i d =
     map_option (\<lambda>vel. \<lparr>bv_rate_pct_per_sec = to_pct_exact (ema_rate vel),
         bv_inflation = BLIND_VELOCITY_RATE_INFLATION,
         bv_ceiling_pct = to_pct_exact (c_session_ceiling_base c)\<rparr>)
       (sustained_session_velocity (acct d i))"

definition blind_anchor_high_water :: "nat \<Rightarrow> f64 option \<Rightarrow> daemon \<Rightarrow> nat option" where
  "blind_anchor_high_water i anchor_session d =
     (case (anchor_session, plausible_anchor_session (high_water (acct d i)) anchor_session) of
        (Some anchor, Some corrected) \<Rightarrow> if f_gt corrected anchor then Some (to_pct corrected) else None
      | _ \<Rightarrow> None)"

section \<open>Landing\<close>

definition LANDING_SLO_CEILING_PCT :: nat where "LANDING_SLO_CEILING_PCT = 99"
definition LANDING_WINDOW :: duration where "LANDING_WINDOW = from_secs 900"

definition is_overshoot :: "nat \<Rightarrow> bool" where
  "is_overshoot landing_pct \<longleftrightarrow> landing_pct \<ge> LANDING_SLO_CEILING_PCT"

definition note_landing_overshoot :: "cfg \<Rightarrow> nat \<Rightarrow> nat option \<Rightarrow> usage result \<Rightarrow> instant \<Rightarrow> daemon \<Rightarrow> daemon" where
  "note_landing_overshoot c i act result now d =
     (case parked (acct d i) of
        None \<Rightarrow> d
      | Some pl \<Rightarrow>
          if act = Some i \<or> since now (pl_armed_at pl) \<ge> LANDING_WINDOW
          then upd_account i (\<lambda>a. a\<lparr>parked := None\<rparr>) d
          else (case result of
              Inl _ \<Rightarrow> d
            | Inr fresh \<Rightarrow> (case session fresh of
                None \<Rightarrow> upd_account i (\<lambda>a. a\<lparr>parked := None\<rparr>) d
              | Some s \<Rightarrow>
                  let landing_pct = to_pct s
                  in if is_overshoot landing_pct
                     then upd_account i (\<lambda>a. a\<lparr>parked := None\<rparr>)
                            (d\<lparr>d_last_landing_overshoot := Some \<lparr>lo_from_label = acc_label c i,
                               lo_decision_pct = pl_decision_pct pl, lo_landing_pct = landing_pct, lo_at = now\<rparr>\<rparr>)
                     else d)))"

section \<open>Blind episodes\<close>

definition note_blind_episode ::
  "cfg \<Rightarrow> nat \<Rightarrow> nat option \<Rightarrow> usage result \<Rightarrow> instant \<Rightarrow> daemon \<Rightarrow> daemon \<times> event list" where
  "note_blind_episode c i act result now d =
     (case (blind_anchor_of (acct d i), result) of
        (None, Inl _) \<Rightarrow>
          (case (last_reading (acct d i), last_reading_at (acct d i)) of
             (Some prev, Some prev_at) \<Rightarrow>
               let was_active = (act = Some i);
                   near_limit = some_at_least (session prev) (c_session_ceiling_base c)
               in (upd_account i (\<lambda>a. a\<lparr>blind_anchor_of := Some \<lparr>ba_session = session prev, ba_weekly = weekly prev,
                      ba_at = prev_at, ba_was_active = was_active, ba_near_limit = near_limit\<rparr>\<rparr>) d,
                   [Ev_BlindEnter (acc_uuid c i) (map_option to_pct (session prev)) (map_option to_pct (weekly prev))
                      was_active near_limit])
           | _ \<Rightarrow> (d, []))
      | (Some anchor, Inr fresh) \<Rightarrow>
          (upd_account i (\<lambda>a. a\<lparr>blind_anchor_of := None\<rparr>) d,
           [Ev_BlindExit (acc_uuid c i) (as_secs (since now (ba_at anchor)))
              (map_option to_pct (ba_session anchor)) (map_option to_pct (session fresh))
              (map_option to_pct (ba_weekly anchor)) (map_option to_pct (weekly fresh))
              (ba_was_active anchor) (ba_was_active anchor \<and> act \<noteq> Some i) (ba_near_limit anchor)])
      | (Some _, Inl _) \<Rightarrow> (d, [])
      | (None, Inr _) \<Rightarrow> (d, []))"

definition note_blind_gate_eligibility ::
  "cfg \<Rightarrow> nat option \<Rightarrow> usage option list \<Rightarrow> instant \<Rightarrow> daemon \<Rightarrow> daemon \<times> event list" where
  "note_blind_gate_eligibility c act readings tm d =
     (case act of
        None \<Rightarrow> (d\<lparr>d_blind_gate_signaled := False\<rparr>, [])
      | Some i \<Rightarrow>
          if last_reading (acct d i) \<noteq> None then (d\<lparr>d_blind_gate_signaled := False\<rparr>, [])
          else if quarantined (hlth d i) then (d, [])
          else (case d_last_good d of
              None \<Rightarrow> (d\<lparr>d_blind_gate_signaled := False\<rparr>, [])
            | Some anchor \<Rightarrow>
                let blind_elapsed = since tm (lg_at anchor);
                    gate_session = plausible_anchor_session (high_water (acct d i)) (lg_session anchor)
                in (case lg_session anchor of
                      None \<Rightarrow> (d, [])
                    | Some anchor_session \<Rightarrow>
                        if \<not> blind_gate_armed (as_secs blind_elapsed) gate_session then (d, [])
                        else if \<not> d_warmed_up d then (d, [])
                        else if d_blind_gate_signaled d then (d, [])
                        else
                          let viable_target = (pick_target i readings (enabled_mask c)
                                (Some (c_target_max_session_usage c)) (c_session_ceiling_base c)
                                (weekly_rotation_line c) \<noteq> None)
                          in (d\<lparr>d_blind_gate_signaled := True\<rparr>,
                              [Ev_BlindGateEligible (acc_uuid c i) viable_target (as_secs blind_elapsed)
                                 (to_pct anchor_session)]))))"

section \<open>Observation gaps\<close>

definition note_active_designation :: "cfg \<Rightarrow> nat option \<Rightarrow> instant \<Rightarrow> daemon \<Rightarrow> daemon" where
  "note_active_designation c act now d =
     (case act of
        None \<Rightarrow> d
      | Some i \<Rightarrow>
          if (case d_active_designation d of None \<Rightarrow> False | Some g \<Rightarrow> ad_account_uuid g = acc_uuid c i) then d
          else d\<lparr>d_active_designation := Some \<lparr>ad_account_uuid = acc_uuid c i, ad_at = now\<rparr>\<rparr>)"

definition observation_gap_threshold :: "cfg \<Rightarrow> daemon \<Rightarrow> duration" where
  "observation_gap_threshold c d =
     from_secs (u64_sat_mul (f_as_uint U64_MAX (strategy_base (c_poll_strategy c))) 2 div max (rotation_len c d) 1)"

text \<open>\<open>Option::max\<close> on instants: \<open>None\<close> is below every \<open>Some\<close>.\<close>

fun opt_max :: "instant option \<Rightarrow> instant option \<Rightarrow> instant option" where
  "opt_max None y = y"
| "opt_max (Some a) None = Some a"
| "opt_max (Some a) (Some b) = Some (max a b)"

text \<open>The body of the loop over the roster.\<close>

definition gap_step ::
  "cfg \<Rightarrow> nat option \<Rightarrow> instant \<Rightarrow> duration \<Rightarrow> instant option \<Rightarrow> instant option \<Rightarrow> nat \<Rightarrow> daemon \<Rightarrow> daemon \<times> event list" where
  "gap_step c act now threshold last_designation_at designated_at i d =
     (let a = acct d i;
          observed_at = opt_max (last_reading_at a) (map_option ba_at (blind_anchor_of a))
      in (case observation_gap a of
            Some anchor \<Rightarrow>
              (case observed_at of
                 None \<Rightarrow> (d, [])
               | Some ob \<Rightarrow>
                   if ob \<le> og_at anchor then (d, [])
                   else (upd_account i (\<lambda>a. a\<lparr>observation_gap := None\<rparr>) d,
                         [Ev_ObservationGapExit (acc_uuid c i) (as_secs (since ob (og_at anchor))) (og_was_active anchor)
                            (og_was_active anchor \<and>
                             (act \<noteq> Some i \<or> (case last_designation_at of None \<Rightarrow> False | Some t \<Rightarrow> t > og_at anchor)))]))
          | None \<Rightarrow>
              if threshold = 0 \<or> act \<noteq> Some i then (d, [])
              else (case opt_max observed_at designated_at of
                  None \<Rightarrow> (d, [])
                | Some anchored_at \<Rightarrow>
                    let elapsed = since now anchored_at
                    in if elapsed \<le> threshold then (d, [])
                       else (upd_account i (\<lambda>a. a\<lparr>observation_gap := Some \<lparr>og_at = anchored_at, og_was_active = True\<rparr>\<rparr>) d,
                             [Ev_ObservationGapEnter (acc_uuid c i) (as_secs elapsed) (as_secs threshold) True]))))"

definition note_observation_gap :: "cfg \<Rightarrow> nat option \<Rightarrow> instant \<Rightarrow> daemon \<Rightarrow> daemon \<times> event list" where
  "note_observation_gap c act now d =
     (let threshold = observation_gap_threshold c d;
          last_designation_at = map_option ad_at (d_active_designation d);
          designated_at = (case (act, d_active_designation d) of
              (Some i, Some g) \<Rightarrow> if ad_account_uuid g = acc_uuid c i then Some (ad_at g) else None
            | _ \<Rightarrow> None)
      in fold (\<lambda>i (d, es). case gap_step c act now threshold last_designation_at designated_at i d of
                 (d', es') \<Rightarrow> (d', es @ es')) [0..<length (c_roster c)] (d, []))"

section \<open>The roster and the fleet\<close>

definition roster_verdict :: "nat \<Rightarrow> nat result option \<Rightarrow> roster_check_verdict" where
  "roster_verdict previous loaded =
     (case loaded of
        None \<Rightarrow> RC_Agrees
      | Some (Inr incoming) \<Rightarrow> if incoming = previous then RC_Agrees else RC_Diverged previous incoming
      | Some (Inl err) \<Rightarrow>
          (case err of
             ConfigNotFound _ \<Rightarrow> if previous > 0 then RC_Absent previous else RC_Agrees
           | _ \<Rightarrow> RC_Undetermined previous))"

text \<open>\<open>load\<close> is what \<open>Config::load_path\<close> finds: the number of accounts of the file.\<close>

definition check_roster_divergence :: "cfg \<Rightarrow> (string \<Rightarrow> nat result) \<Rightarrow> daemon \<Rightarrow> daemon \<times> event list" where
  "check_roster_divergence c load d =
     (if d_ticks d \<le> 1 then (d, [])
      else
        let previous = length (c_roster c);
            loaded = map_option load (c_config_path c);
            observed = (case loaded of Some (Inr n) \<Rightarrow> Some n | _ \<Rightarrow> None);
            verdict = roster_verdict previous loaded;
            was = d_roster_check d;
            d1 = d\<lparr>d_roster_check := verdict\<rparr>
        in if verdict = was then (d1, [])
           else (d1, [case verdict of
                RC_Agrees \<Rightarrow> Ev_RosterReload RRO_Converged (Some previous) observed None
              | RC_Diverged p n \<Rightarrow> Ev_RosterReload RRO_Diverged (Some p) (Some n) (Some RRR_CountMismatch)
              | RC_Absent p \<Rightarrow> Ev_RosterReload RRO_Diverged (Some p) None (Some RRR_Absent)
              | RC_Undetermined p \<Rightarrow> Ev_RosterReload RRO_Undetermined (Some p) None (Some RRR_Unreadable)]))"

text \<open>\<open>probe\<close> is the wired probe's answer, if a probe is wired.\<close>

definition check_fleet_runway_warn ::
  "cfg \<Rightarrow> fleet_runway option option \<Rightarrow> int \<Rightarrow> daemon \<Rightarrow> daemon \<times> event list" where
  "check_fleet_runway_warn c probe now d =
     (if c_fleet_runway_warn_secs c = 0 then (d, [])
      else if \<not> (case d_last_fleet_runway_check d of None \<Rightarrow> True | Some prev \<Rightarrow> now - prev \<ge> FLEET_RUNWAY_WARN_CHECK_SECS)
      then (d, [])
      else
        let d1 = d\<lparr>d_last_fleet_runway_check := Some now\<rparr>
        in (case probe of None \<Rightarrow> (d1, []) | Some answer \<Rightarrow> (case answer of None \<Rightarrow> (d1, []) | Some fleet \<Rightarrow>
             let threshold_secs = int (c_fleet_runway_warn_secs c);
                 at_or_above_line = (case fr_state fleet of
                     FR_Known secs \<Rightarrow> secs \<ge> threshold_secs
                   | FR_BeyondWeeklyWindow \<Rightarrow> threshold_secs \<le> FLEET_RUNWAY_PLAUSIBLE_MAX_SECS
                   | _ \<Rightarrow> False)
             in if at_or_above_line
                then (d1\<lparr>d_signaled_fleet_runway_low := False\<rparr>,
                      if d_signaled_fleet_runway_low d1 then [Ev_FleetRunwayRecovered] else [])
                else (case fr_state fleet of
                    FR_Known runway_secs \<Rightarrow>
                      if runway_secs < threshold_secs \<and> \<not> d_signaled_fleet_runway_low d1
                      then (d1\<lparr>d_signaled_fleet_runway_low := True\<rparr>,
                            [Ev_FleetRunwayLow runway_secs threshold_secs (fr_counted fleet) (fr_observed fleet)])
                      else (d1, [])
                  | _ \<Rightarrow> (d1, [])))))"

section \<open>The statistics cadence\<close>

text \<open>\<open>gap_fold\<close> is the first half of \<open>stats_events_for_poll\<close>, on the streaks of the gapping accounts.\<close>

definition gap_fold :: "string \<Rightarrow> bool \<Rightarrow> int \<Rightarrow> int \<Rightarrow> (string \<Rightarrow> gap_state option) \<Rightarrow>
    (string \<Rightarrow> gap_state option) \<times> event list" where
  "gap_fold lbl is_gap now reemit gaps =
     (if is_gap
      then (case gaps lbl of
          Some streak \<Rightarrow>
            if now - gap_last_emitted streak \<ge> reemit
            then (gaps(lbl := Some (streak\<lparr>gap_last_emitted := now\<rparr>)), [Ev_UsageGap lbl (gap_since streak)])
            else (gaps, [])
        | None \<Rightarrow> (gaps(lbl := Some \<lparr>gap_since = now, gap_last_emitted = now\<rparr>), [Ev_UsageGap lbl now]))
      else (gaps(lbl := None), []))"

definition stats_events_for_poll ::
  "(int \<Rightarrow> ('w, (int \<times> nat) result) state) \<Rightarrow> string \<Rightarrow> bool \<Rightarrow> int \<Rightarrow> ('w ctx, unit) state" where
  "stats_events_for_poll roll lbl is_gap now = do {
     sync (\<lambda>d. case gap_fold lbl is_gap now GAP_REEMIT_MIN_SECS (gap_streaks (d_stats_state d)) of
       (gaps, es) \<Rightarrow> (d\<lparr>d_stats_state := (d_stats_state d)\<lparr>gap_streaks := gaps\<rparr>\<rparr>, es));
     roll_due \<leftarrow> getd (\<lambda>d. case last_roll (d_stats_state d) of
       None \<Rightarrow> True | Some prev \<Rightarrow> now - prev \<ge> STATS_ROLL_CADENCE_SECS);
     swhen roll_due (do {
       modd (\<lambda>d. d\<lparr>d_stats_state := (d_stats_state d)\<lparr>last_roll := Some now\<rparr>\<rparr>);
       r \<leftarrow> in_world (roll now);
       emits (case r of
           Inr (rolled_through, raw_lines) \<Rightarrow> if raw_lines > 0 then [Ev_UsageRollup rolled_through raw_lines] else []
         | Inl _ \<Rightarrow> []) }) }"

section \<open>A locked keychain\<close>

text \<open>The wait, and whether the wait is announced; the outcome carries no readings.\<close>

definition locked_tick :: "daemon \<Rightarrow> duration \<times> daemon \<times> event list" where
  "locked_tick d =
     (let announce = \<not> d_signaled_keychain_locked d;
          backoff = (case d_lock_backoff d of None \<Rightarrow> LOCK_BACKOFF_BASE | Some prev \<Rightarrow> min (prev * 2) LOCK_BACKOFF_CAP)
      in (backoff, d\<lparr>d_signaled_keychain_locked := True, d_lock_backoff := Some backoff\<rparr>,
          if announce then [Ev_KeychainLockedWait] else []))"

end
