(* ===== verification/Daemon_Canonical.thy ===== *)
theory Daemon_Canonical
  imports Daemon_Observe Digest
begin

text \<open>
  The canonical credential as the daemon watches it (\<open>src/daemon/canonical.rs\<close>, \<open>src/daemon/keep_warm.rs\<close>):
  the canary with its alarm, the re-stash of a credential that changed under the daemon, its liveness, and
  the refreshes that keep the active credential warm.
\<close>

section \<open>Attribution\<close>

definition resolve_for :: "cfg \<Rightarrow> 'w env \<Rightarrow> credential \<Rightarrow> ('w, nat option) state" where
  "resolve_for c e canonical = resolve_account_for (env_io e) (c_roster c) (c_claude_json c) canonical"

definition resolve_active :: "cfg \<Rightarrow> 'w env \<Rightarrow> ('w, nat option) state" where
  "resolve_active c e = do {
     r \<leftarrow> store_read (env_io e);
     (case r of
        Inr canonical \<Rightarrow> resolve_for c e canonical
      | Inl _ \<Rightarrow> resolve_via_display (env_io e) (c_roster c) (c_claude_json c)) }"

definition reconcile_on_start :: "cfg \<Rightarrow> 'w env \<Rightarrow> ('w, unit result) state" where
  "reconcile_on_start c e =
     try_bind (store_read (env_io e)) (\<lambda>canonical.
       reconcile_display (env_io e) (c_roster c) (c_claude_json c) canonical)"

section \<open>The canary's alarm\<close>

definition canary_status_of :: "cfg \<Rightarrow> canary_outcome \<Rightarrow> canary_status" where
  "canary_status_of c outcome =
     (case outcome of
        CA_Ok \<Rightarrow> CS_Ok
      | CA_NotFound \<Rightarrow> CS_NotFound
      | CA_Ambiguous n \<Rightarrow> CS_Ambiguous n
      | CA_Drift displayed matched \<Rightarrow> CS_Drift (acc_label c displayed) (acc_label c matched) (c_canary_drift_override c)
      | CA_Inconclusive reason \<Rightarrow>
          if reason = IR_NoStashMatch False \<and> \<not> c_canary_nostashmatch_override c
          then CS_RefusedUnparseableCanonical else CS_Inconclusive)"

fun canary_alarmed :: "canary_status option \<Rightarrow> bool" where
  "canary_alarmed (Some (CS_Drift _ _ _)) = True"
| "canary_alarmed (Some (CS_Ambiguous _)) = True"
| "canary_alarmed _ = False"

definition close_canary_alarm_bracket :: "canary_status option \<Rightarrow> event list" where
  "close_canary_alarm_bracket replacing = (if canary_alarmed replacing then [Ev_CanaryCleared] else [])"

text \<open>The fold of a canary verdict into the daemon.\<close>

definition note_canary :: "canary_status \<Rightarrow> daemon \<Rightarrow> daemon \<times> event list" where
  "note_canary status d =
     (if d_canary d = Some status then (d, [])
      else (d\<lparr>d_canary := Some status\<rparr>,
            (case status of
               CS_Drift displayed matched overridden \<Rightarrow> [Ev_CanaryDrift displayed matched overridden]
             | CS_Ambiguous n \<Rightarrow> [Ev_CanaryAmbiguous n]
             | _ \<Rightarrow> close_canary_alarm_bracket (d_canary d))))"

definition refresh_canary :: "cfg \<Rightarrow> 'w env \<Rightarrow> ('w ctx, canary_outcome result) state" where
  "refresh_canary c e = do {
     r \<leftarrow> in_world (run_canary (env_io e) (c_roster c) (c_claude_json c));
     (case r of
        Inl err \<Rightarrow> State_Monad.return (Inl err)
      | Inr outcome \<Rightarrow> do {
          sync (note_canary (canary_status_of c outcome));
          State_Monad.return (Inr outcome) }) }"

section \<open>A credential that changed under the daemon\<close>

definition deactivate_recovery_probe :: "nat option \<Rightarrow> nat option \<Rightarrow> daemon \<Rightarrow> daemon" where
  "deactivate_recovery_probe prev nxt d =
     (case prev of
        None \<Rightarrow> d
      | Some p \<Rightarrow>
          if nxt = Some p then d
          else if quarantined (hlth d p) \<and> recovery_successes (hlth d p) > 0
          then upd_health p (\<lambda>h. h\<lparr>recovery_successes := 0\<rparr>) d else d)"

definition restash_account :: "cfg \<Rightarrow> 'w env \<Rightarrow> nat \<Rightarrow> credential \<Rightarrow> ('w, bool) state" where
  "restash_account c e i canonical = do {
     let a = c_roster c ! i;
     existing \<leftarrow> stash_read (env_io e) (stash_name a);
     oauth \<leftarrow> (case existing of
         Inr s \<Rightarrow> State_Monad.return (Some (stashed_oauth s))
       | Inl _ \<Rightarrow> do {
           shown \<leftarrow> read_oauth_account_from (env_io e) (c_claude_json c);
           State_Monad.return (case shown of
               Inr displayed \<Rightarrow> if account_uuid a \<noteq> oa_account_uuid displayed then None else Some displayed
             | Inl _ \<Rightarrow> None) });
     (case oauth of
        None \<Rightarrow> State_Monad.return False
      | Some oa \<Rightarrow> do {
          r \<leftarrow> stash_write (env_io e) (stash_name a) \<lparr>stashed_credential = canonical, stashed_oauth = oa\<rparr>;
          State_Monad.return (is_ok r) }) }"

text \<open>The refresh token of a credential, unless it is absent or scrubbed.\<close>

definition live_refresh_token :: "'w io \<Rightarrow> credential \<Rightarrow> string option" where
  "live_refresh_token io cred =
     (case refresh_token io cred of Some rt \<Rightarrow> if rt = [] then None else Some rt | None \<Rightarrow> None)"

definition grant_replaced :: "'w io \<Rightarrow> credential option \<Rightarrow> credential \<Rightarrow> bool option" where
  "grant_replaced io baseline canonical =
     (case baseline of None \<Rightarrow> None | Some prev \<Rightarrow>
       (case live_refresh_token io prev of None \<Rightarrow> None | Some before \<Rightarrow>
         map_option (\<lambda>after. before \<noteq> after) (live_refresh_token io canonical)))"

text \<open>What the daemon does after the changed credential was re-stashed for account \<open>i\<close>.\<close>

definition adopt_changed :: "cfg \<Rightarrow> 'w io \<Rightarrow> nat \<Rightarrow> credential \<Rightarrow> int \<Rightarrow> daemon \<Rightarrow> daemon \<times> event list" where
  "adopt_changed c io i canonical now_secs d =
     (let observed = map_option millis_to_secs (refresh_token_expires_at_ms io canonical);
          replaced = grant_replaced io (watch_baseline (d_canonical_watch d)) canonical;
          (d1, es1) = note_restash_expiry c i observed replaced now_secs d;
          (d2, es2) = (if quarantined (hlth d1 i) then (restore i d1, [Ev_CredentialRestored (acc_label c i)]) else (d1, []));
          d3 = deactivate_recovery_probe (d_active d2) (Some i) d2
      in (d3\<lparr>d_canonical_watch := watch_commit (d_canonical_watch d3) canonical, d_active := None, d_last_good := None\<rparr>,
          Ev_ReStash (acc_label c i) # es1 @ es2))"

definition reconcile_canonical_change :: "cfg \<Rightarrow> 'w env \<Rightarrow> credential \<Rightarrow> ('w ctx, unit) state" where
  "reconcile_canonical_change c e canonical = do {
     cw \<leftarrow> getd d_canonical_watch;
     (case watch_classify cw canonical of
        CC_Primed \<Rightarrow> modd (\<lambda>d. d\<lparr>d_canonical_watch := watch_commit (d_canonical_watch d) canonical\<rparr>)
      | CC_Unchanged \<Rightarrow> State_Monad.return ()
      | CC_Changed \<Rightarrow> do {
          owner \<leftarrow> in_world (resolve_for c e canonical);
          (case owner of
             Some i \<Rightarrow> do {
               stashed \<leftarrow> in_world (restash_account c e i canonical);
               now_secs \<leftarrow> asks (env_wall_secs e);
               swhen stashed (sync (adopt_changed c (env_io e) i canonical now_secs)) }
           | None \<Rightarrow> do {
               shown \<leftarrow> in_world (read_oauth_account_from (env_io e) (c_claude_json c));
               emits [Ev_UncapturedLogin (case shown of Inr oa \<Rightarrow> Some (oa_account_uuid oa) | Inl _ \<Rightarrow> None)];
               modd (\<lambda>d. d\<lparr>d_canonical_watch := watch_commit (d_canonical_watch d) canonical,
                 d_active := None, d_last_good := None\<rparr>) }) }) }"

section \<open>Liveness of the canonical credential\<close>

definition canonical_state :: "'w io \<Rightarrow> credential option \<Rightarrow> bool \<Rightarrow> canonical_liveness \<times> string option \<times> int option" where
  "canonical_state io canonical absent =
     (case canonical of
        Some cred \<Rightarrow>
          (case refresh_token io cred of
             Some rt \<Rightarrow>
               if rt \<noteq> [] then (CL_Present, Some (canonical_fingerprint rt), map_option millis_to_secs (expires_at io cred))
               else (CL_Scrubbed, None, None)
           | None \<Rightarrow> (CL_Unknown, None, None))
      | None \<Rightarrow> if absent then (CL_Scrubbed, None, None) else (CL_Unknown, None, None))"

definition note_canonical_liveness ::
  "cfg \<Rightarrow> 'w io \<Rightarrow> credential option \<Rightarrow> bool \<Rightarrow> nat option \<Rightarrow> daemon \<Rightarrow>
   (canonical_liveness \<times> diagnostic list) \<times> daemon \<times> event list" where
  "note_canonical_liveness c io canonical absent act d =
     (let handle = map_option (acc_label c) act;
          (st, fingerprint, expires) = canonical_state io canonical absent;
          rotated_from = (case (st, fingerprint) of
              (CL_Present, Some fp) \<Rightarrow>
                (case d_prev_canonical_fingerprint d of Some prev \<Rightarrow> if prev \<noteq> fp then Some prev else None | None \<Rightarrow> None)
            | _ \<Rightarrow> None);
          d1 = (case (st, fingerprint) of
              (CL_Present, Some fp) \<Rightarrow> d\<lparr>d_prev_canonical_fingerprint := Some fp\<rparr>
            | (CL_Scrubbed, _) \<Rightarrow> d\<lparr>d_prev_canonical_fingerprint := None\<rparr>
            | _ \<Rightarrow> d);
          diagnostic = Dg_Canonical st fingerprint handle expires rotated_from
      in (case st of
            CL_Scrubbed \<Rightarrow>
              if \<not> d_signaled_canonical_scrubbed d1
              then ((st, [diagnostic]), d1\<lparr>d_signaled_canonical_scrubbed := True\<rparr>, [Ev_CanonicalScrubbed handle])
              else ((st, [diagnostic]), d1, [])
          | CL_Present \<Rightarrow>
              if d_signaled_canonical_scrubbed d1
              then ((st, [diagnostic]), d1\<lparr>d_signaled_canonical_scrubbed := False\<rparr>, [Ev_CanonicalRestored handle])
              else ((st, [diagnostic]), d1, [])
          | CL_Unknown \<Rightarrow> ((st, [diagnostic]), d1, [])))"

section \<open>Keeping the active credential warm\<close>

definition has_live_refresh_token :: "'w io \<Rightarrow> credential \<Rightarrow> bool" where
  "has_live_refresh_token io cred = (live_refresh_token io cred \<noteq> None)"

text \<open>The body under the lock; the code takes the lock only where one is configured.\<close>

definition promote_canonical :: "cfg \<Rightarrow> 'w env \<Rightarrow> nat \<Rightarrow> credential \<Rightarrow> ('w ctx, bool result) state" where
  "promote_canonical c e i cred = do {
     r \<leftarrow> in_world (with_lock (env_io e) (map_option (\<lambda>p. (p, SWAP_LOCK_MAX_WAIT)) (c_swap_lock_path c)) (do {
       current \<leftarrow> store_read (env_io e);
       still_active \<leftarrow> (case current of
           Inr cur \<Rightarrow> do { owner \<leftarrow> resolve_for c e cur; State_Monad.return (owner = Some i) }
         | Inl _ \<Rightarrow> State_Monad.return False);
       if \<not> still_active then State_Monad.return (Inr False)
       else try_bind (store_write (env_io e) cred) (\<lambda>_. State_Monad.return (Inr True)) }));
     swhen (r = Inr True) (modd (\<lambda>d.
       upd_health i (\<lambda>h. h\<lparr>access_expires_at := map_option millis_to_secs (expires_at (env_io e) cred)\<rparr>)
         (d\<lparr>d_canonical_watch := watch_commit (d_canonical_watch d) cred\<rparr>)));
     State_Monad.return r }"

text \<open>The result: whether the minted credential was promoted, and the outcome of the refresh.\<close>

definition keep_warm_and_promote ::
  "cfg \<Rightarrow> 'w env \<Rightarrow> nat \<Rightarrow> credential \<Rightarrow> keep_warm_trigger \<Rightarrow> ('w ctx, bool \<times> refresh_event_outcome) state" where
  "keep_warm_and_promote c e i canonical trigger =
     (if \<not> has_live_refresh_token (env_io e) canonical then State_Monad.return (False, REO_Dead)
      else do {
        now \<leftarrow> asks (clock_now (env_io e));
        modd (upd_health i (\<lambda>h. h\<lparr>last_keep_warm_attempt := Some now\<rparr>));
        (case env_keep_warm e of
           None \<Rightarrow> State_Monad.return (False, REO_Error)
         | Some engine \<Rightarrow> do {
             minted \<leftarrow> in_world (engine (c_roster c ! i) canonical);
             modd (note_own_credential_refresh i);
             let outcome = (case minted of Inr (report, _) \<Rightarrow> refresh_event_outcome_of report | Inl _ \<Rightarrow> REO_Error);
             emits [Ev_KeepWarm (acc_label c i) trigger outcome];
             promoted \<leftarrow> (case minted of
                 Inr (_, Some cred) \<Rightarrow> do {
                   r \<leftarrow> promote_canonical c e i cred;
                   State_Monad.return (r = Inr True) }
               | _ \<Rightarrow> State_Monad.return False);
             State_Monad.return (promoted, outcome) }) })"

definition should_keep_warm_retry :: "'w env \<Rightarrow> nat \<Rightarrow> usage result \<Rightarrow> daemon \<Rightarrow> bool" where
  "should_keep_warm_retry e i result d \<longleftrightarrow>
     env_keep_warm e \<noteq> None \<and> classify_poll result = PO_Unauthorized \<and>
     \<not> quarantined (hlth d i) \<and> consec_401 (hlth d i) = 0 \<and> d_active d = Some i"

definition keep_warm_retry :: "cfg \<Rightarrow> 'w env \<Rightarrow> nat \<Rightarrow> credential option \<Rightarrow> ('w ctx, usage result) state" where
  "keep_warm_retry c e i canonical =
     (case canonical of
        None \<Rightarrow> State_Monad.return (Inl UsageUnauthorized)
      | Some cred \<Rightarrow> do {
          (promoted, _) \<leftarrow> keep_warm_and_promote c e i cred KWT_Reactive;
          if promoted then in_world (poll_usage e (c_roster c ! i) True)
          else State_Monad.return (Inl UsageUnauthorized) })"

text \<open>Whether the active credential is due for a proactive refresh.\<close>

definition keep_warm_due :: "cfg \<Rightarrow> 'w io \<Rightarrow> nat \<Rightarrow> credential \<Rightarrow> int \<Rightarrow> instant \<Rightarrow> daemon \<Rightarrow> bool" where
  "keep_warm_due c io i canonical now_ms now d =
     (if quarantined (hlth d i) then False
      else (case expires_at io canonical of
          None \<Rightarrow> False
        | Some expires_at_ms \<Rightarrow>
            let stagger = keep_warm_stagger_secs (acc_uuid c i) (c_keep_warm_cadence c);
                horizon_ms = i64_sat (i64_of_u64 (u64_sat_add (as_secs (c_keep_warm_cadence c)) stagger) * 1000)
            in if i64_sat (expires_at_ms - now_ms) > horizon_ms then False
               else (case last_keep_warm_attempt (hlth d i) of
                   Some attempt \<Rightarrow> \<not> since now attempt < c_keep_warm_cadence c
                 | None \<Rightarrow> True)))"

definition keep_active_warm :: "cfg \<Rightarrow> 'w env \<Rightarrow> nat option \<Rightarrow> credential option \<Rightarrow> int \<Rightarrow> ('w ctx, unit) state" where
  "keep_active_warm c e act canonical now_ms =
     (if \<not> c_proactive_keep_warm c then State_Monad.return ()
      else if env_keep_warm e = None then State_Monad.return ()
      else (case (act, canonical) of
          (Some i, Some cred) \<Rightarrow> do {
            now \<leftarrow> asks (clock_now (env_io e));
            due \<leftarrow> getd (keep_warm_due c (env_io e) i cred now_ms now);
            swhen due (do { _ \<leftarrow> keep_warm_and_promote c e i cred KWT_Proactive; State_Monad.return () }) }
        | _ \<Rightarrow> State_Monad.return ()))"

definition reprobe_active_if_dead :: "cfg \<Rightarrow> 'w env \<Rightarrow> ('w ctx, unit) state" where
  "reprobe_active_if_dead c e = do {
     act \<leftarrow> getd d_active;
     (case act of
        None \<Rightarrow> State_Monad.return ()
      | Some i \<Rightarrow> do {
          is_dead \<leftarrow> getd (\<lambda>d. last_refresh_outcome (hlth d i) = Some REO_Dead);
          if \<not> is_dead \<or> env_keep_warm e = None then State_Monad.return ()
          else do {
            r \<leftarrow> in_world (store_read (env_io e));
            (case r of
               Inl _ \<Rightarrow> State_Monad.return ()
             | Inr canonical \<Rightarrow> do {
                 (_, outcome) \<leftarrow> keep_warm_and_promote c e i canonical KWT_Recovery;
                 sync (fold_recovery_outcome c i outcome None) }) } }) }"

end
