(* ===== verification/Daemon_Decide.thy ===== *)
theory Daemon_Decide
  imports Daemon_Canonical
begin

text \<open>
  The decision of a tick (\<open>decide_action\<close> of \<open>src/daemon.rs\<close> and what it calls): whether to swap, on
  which ground, where to, and what a swap records. Every swap goes through \<open>locked_swap\<close>, which runs the
  canary first.
\<close>

definition draw_env :: "'w env \<Rightarrow> strategy \<Rightarrow> f64 \<Rightarrow> f64 \<Rightarrow> ('w ctx, f64) state" where
  "draw_env e st lo hi = sync_val (\<lambda>d. no_events (draw_on (env_libm e) st lo hi d))"

definition draw_down_env :: "'w env \<Rightarrow> strategy \<Rightarrow> f64 \<Rightarrow> f64 \<Rightarrow> ('w ctx, f64) state" where
  "draw_down_env e st lo hi = sync_val (\<lambda>d. no_events (draw_down_on (env_libm e) st lo hi d))"

section \<open>The swap itself\<close>

text \<open>What the canary's verdict does to the swap: an error, or the events to push before going on.\<close>

definition canary_verdict :: "cfg \<Rightarrow> canary_outcome \<Rightarrow> event list \<times> error option" where
  "canary_verdict c outcome =
     (case outcome of
        CA_NotFound \<Rightarrow> ([], Some CredentialNotFound)
      | CA_Ambiguous n \<Rightarrow> ([], Some (CredentialAmbiguous n))
      | CA_Drift displayed matched \<Rightarrow>
          ([], if \<not> c_canary_drift_override c then Some (CanaryDrift (acc_label c displayed) (acc_label c matched)) else None)
      | CA_Inconclusive (IR_NoStashMatch False) \<Rightarrow>
          ([Ev_CanaryUnparseableCanonical (c_canary_nostashmatch_override c)],
           if \<not> c_canary_nostashmatch_override c then Some CanaryUnparseableCanonical else None)
      | CA_Ok \<Rightarrow> ([], None)
      | CA_Inconclusive _ \<Rightarrow> ([], None))"

definition outgoing_liveness :: "cfg \<Rightarrow> 'w env \<Rightarrow> string \<Rightarrow> bool \<Rightarrow> ('w ctx, liveness) state" where
  "outgoing_liveness c e outgoing force =
     (case position (\<lambda>a. stash_name a = outgoing) (c_roster c) of
        Some i \<Rightarrow> do {
          now \<leftarrow> asks (clock_now (env_io e));
          gate \<leftarrow> getd (probe_gate_for c i force now);
          in_world (probe_liveness (env_poll e) (c_roster c ! i) gate) }
      | None \<Rightarrow> State_Monad.return
          (if \<not> c_canary_online_probe c then LV_Skipped else if force then LV_Overridden else LV_Inconclusive))"

definition swap_lock :: "cfg \<Rightarrow> (string \<times> duration) option" where
  "swap_lock c = map_option (\<lambda>path. (path, SWAP_LOCK_MAX_WAIT)) (c_swap_lock_path c)"

definition locked_swap :: "cfg \<Rightarrow> 'w env \<Rightarrow> string \<Rightarrow> string \<Rightarrow> bool \<Rightarrow> ('w ctx, swap_report result) state" where
  "locked_swap c e outgoing incoming force = do {
     checked \<leftarrow> refresh_canary c e;
     (case checked of
        Inl err \<Rightarrow> State_Monad.return (Inl err)
      | Inr outcome \<Rightarrow> do {
          emits (fst (canary_verdict c outcome));
          (case snd (canary_verdict c outcome) of
             Some err \<Rightarrow> State_Monad.return (Inl err)
           | None \<Rightarrow> do {
               live \<leftarrow> outgoing_liveness c e outgoing force;
               let refused = probe_refuses live (c_canary_online_probe_strict c);
               emits (if probe_alarms live then [Ev_CanaryOnlineProbe (liveness_as_str live) refused] else []);
               if refused then State_Monad.return (Inl (CanaryProbeNotLive (liveness_as_str live)))
               else in_world (swap_locked (env_io e) (swap_lock c) outgoing incoming (c_claude_json c)) }) }) }"

definition locked_adopt :: "cfg \<Rightarrow> 'w env \<Rightarrow> string \<Rightarrow> ('w, swap_report result) state" where
  "locked_adopt c e incoming = adopt_target_locked (env_io e) (swap_lock c) incoming (c_claude_json c)"

text \<open>The synchronous part of \<open>record_swap\<close>.\<close>

definition note_swap :: "nat \<Rightarrow> instant \<Rightarrow> daemon \<Rightarrow> daemon" where
  "note_swap target tm d =
     (let d1 = invalidate_poll_schedule (d\<lparr>d_active := Some target\<rparr>);
          d2 = upd_account target (\<lambda>a. a\<lparr>parked := None\<rparr>) d1
      in d2\<lparr>d_last_good := None, d_last_swap := Some tm, d_last_blind_preempt_swap := None,
            d_signaled_retry_after_reserve := False, d_signaled_retry_after_walk := False\<rparr>)"

definition record_swap :: "'w env \<Rightarrow> nat \<Rightarrow> string \<Rightarrow> instant \<Rightarrow> ('w ctx, unit) state" where
  "record_swap e target incoming tm = do {
     modd (note_swap target tm);
     r \<leftarrow> in_world (stash_read (env_io e) incoming);
     (case r of
        Inr s \<Rightarrow> modd (\<lambda>d. d\<lparr>d_canonical_watch := watch_commit (d_canonical_watch d) (stashed_credential s)\<rparr>)
      | Inl _ \<Rightarrow> State_Monad.return ()) }"

text \<open>The tail the decision paths share: swap, record, report; a refused or failed swap changes nothing.\<close>

definition swap_and_record ::
  "cfg \<Rightarrow> 'w env \<Rightarrow> instant \<Rightarrow> nat \<Rightarrow> nat \<Rightarrow> event list \<Rightarrow> (daemon \<Rightarrow> daemon) \<Rightarrow> tick_action \<Rightarrow> ('w ctx, tick_action) state" where
  "swap_and_record c e tm act target report after action = do {
     let outgoing = stash_name (c_roster c ! act);
     let incoming = stash_name (c_roster c ! target);
     r \<leftarrow> locked_swap c e outgoing incoming False;
     (case r of
        Inr _ \<Rightarrow> do {
          record_swap e target incoming tm;
          emits report;
          modd after;
          State_Monad.return action }
      | Inl _ \<Rightarrow> State_Monad.return SwapFailed) }"

section \<open>The active account died\<close>

definition emergency_swap :: "cfg \<Rightarrow> 'w env \<Rightarrow> instant \<Rightarrow> nat \<Rightarrow> usage option list \<Rightarrow> ('w ctx, tick_action) state" where
  "emergency_swap c e tm act readings = do {
     pct \<leftarrow> draw_env e (c_weekly_ceiling_strategy c) WEEKLY_CEILING_PCT_LO WEEKLY_CEILING_PCT_HI;
     let weekly_ceiling = f_div pct (Fin 100);
     d \<leftarrow> getd id;
     (case pick_target_ranked act readings (enabled_mask c) None PInf weekly_ceiling (selection_tiebreak_of c d) of
        None \<Rightarrow> do {
          sync (\<lambda>d. if \<not> d_signaled_active_dead_no_target d
            then (case all_exhausted_relief act readings (enabled_mask c) PInf weekly_ceiling of (cause, _, resets_at) \<Rightarrow>
                   (d\<lparr>d_signaled_active_dead_no_target := True\<rparr>, [Ev_ActiveDeadNoTarget (acc_label c act) cause resets_at]))
            else (d, []));
          State_Monad.return ActiveDeadNoTarget }
      | Some target \<Rightarrow>
          swap_and_record c e tm act target [Ev_EmergencySwap (acc_label c act) (acc_label c target)] id
            (EmergencySwapped act target)) }"

section \<open>The active account is blind\<close>

definition retry_after_walk_count :: "instant \<Rightarrow> daemon \<Rightarrow> nat \<times> daemon" where
  "retry_after_walk_count tm d =
     (let kept = filter (\<lambda>swapped_at. since tm swapped_at < RETRY_AFTER_WALK_WINDOW) (d_retry_after_swaps d)
      in (length kept, d\<lparr>d_retry_after_swaps := kept\<rparr>))"

definition in_cooldown :: "instant \<Rightarrow> duration \<Rightarrow> daemon \<Rightarrow> bool" where
  "in_cooldown tm cooldown d \<longleftrightarrow> (case d_last_swap d of None \<Rightarrow> False | Some last_at \<Rightarrow> since tm last_at < cooldown)"

definition draw_cooldown :: "cfg \<Rightarrow> 'w env \<Rightarrow> ('w ctx, duration) state" where
  "draw_cooldown c e = do {
     secs \<leftarrow> draw_env e (c_cooldown_strategy c) COOLDOWN_SECS_LO COOLDOWN_SECS_HI;
     State_Monad.return (dur_of_f64 secs) }"

text \<open>The first guard of \<open>blind_swap\<close>: how long blind, whether the anchor arms it, whether a server hint holds.\<close>

definition blind_arming :: "cfg \<Rightarrow> instant \<Rightarrow> nat \<Rightarrow> last_good \<Rightarrow> daemon \<Rightarrow> nat \<times> bool \<times> duration option" where
  "blind_arming c tm act anchor d =
     (as_secs (since tm (lg_at anchor)),
      some_at_least (plausible_anchor_session (high_water (acct d act)) (lg_session anchor)) (c_session_blind_risk_band c),
      server_retry_after_holding (hlth d act) tm)"

definition hold_walk :: "cfg \<Rightarrow> nat \<Rightarrow> nat \<Rightarrow> duration \<Rightarrow> daemon \<Rightarrow> daemon \<times> event list" where
  "hold_walk c act swaps ra d =
     (if \<not> d_signaled_retry_after_walk d
      then (d\<lparr>d_signaled_retry_after_walk := True\<rparr>,
            [Ev_RetryAfterWalk (acc_uuid c act) swaps (as_secs RETRY_AFTER_WALK_WINDOW) (as_secs ra)])
      else (d, []))"

definition hold_reserve :: "cfg \<Rightarrow> nat \<Rightarrow> duration \<Rightarrow> nat \<Rightarrow> daemon \<Rightarrow> daemon \<times> event list" where
  "hold_reserve c act ra blind_secs d =
     (if \<not> d_signaled_retry_after_reserve d
      then (d\<lparr>d_signaled_retry_after_reserve := True\<rparr>,
            [Ev_BlindPreemptReserveHold (acc_uuid c act) (as_secs ra) blind_secs])
      else (d, []))"

text \<open>The choice of the target and the swap, past every guard.\<close>

definition blind_target ::
  "cfg \<Rightarrow> 'w env \<Rightarrow> instant \<Rightarrow> nat \<Rightarrow> usage option list \<Rightarrow> last_good \<Rightarrow> nat \<Rightarrow> duration option \<Rightarrow>
   duration option \<Rightarrow> ('w ctx, tick_action) state" where
  "blind_target c e tm act readings anchor blind_elapsed retry_after speculative = do {
     d \<leftarrow> getd id;
     (case pick_target_with_reason_ranked act readings (enabled_mask c) (Some (c_target_max_session_usage c))
         (c_session_ceiling_base c) (weekly_rotation_line c) (selection_tiebreak_of c d) of
        None \<Rightarrow> State_Monad.return SkippedActiveUnavailable
      | Some (target, target_reason) \<Rightarrow>
          if speculative \<noteq> None \<and> target_reason = NSR_OnlyCandidate
          then do {
            sync (hold_reserve c act (the speculative) blind_elapsed);
            State_Monad.return SkippedActiveUnavailable }
          else
            let last_known = map_option to_pct (lg_session anchor);
                from_label = acc_label c act;
                to_label = acc_label c target
            in swap_and_record c e tm act target
                 [Ev_Swap from_label to_label SR_BlindPreempt last_known None]
                 (\<lambda>d. d\<lparr>d_last_blind_preempt_swap := map_option (\<lambda>pct. \<lparr>bp_from = from_label, bp_to = to_label,
                           bp_last_known_session_pct = pct, bp_at = tm\<rparr>) last_known,
                        d_retry_after_swaps :=
                           (if retry_after \<noteq> None then d_retry_after_swaps d @ [tm] else d_retry_after_swaps d)\<rparr>)
                 (PreemptivelySwapped act target)) }"

definition blind_swap :: "cfg \<Rightarrow> 'w env \<Rightarrow> instant \<Rightarrow> nat \<Rightarrow> usage option list \<Rightarrow> ('w ctx, tick_action) state" where
  "blind_swap c e tm act readings = do {
     d0 \<leftarrow> getd id;
     (case d_last_good d0 of
        None \<Rightarrow> State_Monad.return SkippedActiveUnavailable
      | Some anchor \<Rightarrow>
          (case blind_arming c tm act anchor d0 of (blind_elapsed, anchor_armed, retry_after) \<Rightarrow>
            if \<not> (blind_elapsed > c_session_blind_swap_secs c \<and> (anchor_armed \<or> retry_after \<noteq> None))
            then State_Monad.return SkippedActiveUnavailable
            else
              let speculative = (if anchor_armed then None else retry_after)
              in if \<not> d_warmed_up d0 then State_Monad.return SkippedActiveUnavailable
                 else do {
                   cooldown \<leftarrow> draw_cooldown c e;
                   d1 \<leftarrow> getd id;
                   if in_cooldown tm cooldown d1 then State_Monad.return SkippedCooldown
                   else do {
                     swaps \<leftarrow> sync_val (\<lambda>d. no_events (retry_after_walk_count tm d));
                     (case speculative of
                        Some ra \<Rightarrow>
                          if swaps \<ge> RETRY_AFTER_WALK_MAX
                          then do { sync (hold_walk c act swaps ra); State_Monad.return SkippedActiveUnavailable }
                          else blind_target c e tm act readings anchor blind_elapsed retry_after speculative
                      | None \<Rightarrow> blind_target c e tm act readings anchor blind_elapsed retry_after speculative) } })) }"

section \<open>The active account is about to reach its ceiling\<close>

definition velocity_swap ::
  "cfg \<Rightarrow> 'w env \<Rightarrow> instant \<Rightarrow> nat \<Rightarrow> f64 \<Rightarrow> f64 \<Rightarrow> usage option list \<Rightarrow> ('w ctx, tick_action) state" where
  "velocity_swap c e tm act session_ceiling weekly_threshold readings = do {
     d0 \<leftarrow> getd id;
     let horizon = c_session_velocity_horizon_secs c;
     if horizon = 0 then State_Monad.return Held
     else (case map_option (\<lambda>u. plausible_active_usage act u d0) (readings ! act) of
        None \<Rightarrow> State_Monad.return Held
      | Some active_usage \<Rightarrow> (case session active_usage of
          None \<Rightarrow> State_Monad.return Held
        | Some s \<Rightarrow> (case sustained_session_velocity (acct d0 act) of
            None \<Rightarrow> State_Monad.return Held
          | Some vel \<Rightarrow>
              if f_lt s (c_session_velocity_min_project_above c) then State_Monad.return Held
              else
                let effective = effective_ceiling session_ceiling;
                    projected = f_add s (f_mul (ema_rate vel) (f_of_nat horizon))
                in if f_lt projected effective then State_Monad.return Held
                   else if \<not> d_warmed_up d0 then State_Monad.return Held
                   else do {
                     cooldown \<leftarrow> draw_cooldown c e;
                     d \<leftarrow> getd id;
                     if in_cooldown tm cooldown d then State_Monad.return SkippedCooldown
                     else (case pick_target_ranked act readings (enabled_mask c) (Some (c_target_max_session_usage c))
                          session_ceiling weekly_threshold (selection_tiebreak_of c d) of
                        None \<Rightarrow> State_Monad.return Held
                      | Some target \<Rightarrow>
                          swap_and_record c e tm act target
                            [Ev_Swap (acc_label c act) (acc_label c target) SR_VelocityPreempt (Some (to_pct s))
                               (Some \<lparr>projected_pct = to_pct_exact projected, sp_rate_pct_per_sec = to_pct_exact (ema_rate vel),
                                      horizon_secs = horizon, sp_ceiling_pct = to_pct_exact effective\<rparr>)]
                            id (VelocityPreemptivelySwapped act target)) }))) }"

section \<open>The decision\<close>

text \<open>The readings are in, the thresholds drawn, the decision is to swap: cooldown, target, swap.\<close>

definition reactive_swap ::
  "cfg \<Rightarrow> 'w env \<Rightarrow> instant \<Rightarrow> nat \<Rightarrow> usage \<Rightarrow> f64 \<Rightarrow> f64 \<Rightarrow> viability_boundary_rec \<Rightarrow> usage option list \<Rightarrow>
   ('w ctx, tick_action) state" where
  "reactive_swap c e tm act active_usage session_ceiling session_threshold boundary readings = do {
     cooldown \<leftarrow> draw_cooldown c e;
     d \<leftarrow> getd id;
     let weekly_threshold = vb_weekly boundary;
     let at_raw_ceiling = some_at_least (session active_usage) session_ceiling;
     if in_cooldown tm cooldown d \<and> \<not> at_raw_ceiling then State_Monad.return SkippedCooldown
     else (case pick_target_ranked act readings (enabled_mask c) (Some (c_target_max_session_usage c))
          session_ceiling weekly_threshold (selection_tiebreak_of c d) of
        None \<Rightarrow> do {
          sync (\<lambda>d. if \<not> d_signaled_all_exhausted d
            then (case all_exhausted_relief act readings (enabled_mask c) (vb_session boundary) weekly_threshold of
                    (cause, hold, resets_at) \<Rightarrow>
                      (d\<lparr>d_signaled_all_exhausted := True\<rparr>, [Ev_AllExhausted (acc_label c hold) cause resets_at]))
            else (d, []));
          State_Monad.return NoViableTarget }
      | Some target \<Rightarrow>
          let session_over = (case session active_usage of
                  Some s \<Rightarrow> if f_ge s session_threshold then Some s else None | None \<Rightarrow> None)
          in swap_and_record c e tm act target
               [Ev_Swap (acc_label c act) (acc_label c target) (if session_over \<noteq> None then SR_Session else SR_Weekly)
                  (map_option to_pct (session active_usage)) None]
               (\<lambda>d. case session_over of
                  Some s \<Rightarrow> upd_account act (\<lambda>a. a\<lparr>parked := Some \<lparr>pl_armed_at = tm, pl_decision_pct = to_pct s\<rparr>\<rparr>) d
                | None \<Rightarrow> d)
               (Swapped act target)) }"

definition decide_action :: "cfg \<Rightarrow> 'w env \<Rightarrow> instant \<Rightarrow> nat option \<Rightarrow> usage option list \<Rightarrow> ('w ctx, tick_action) state" where
  "decide_action c e tm act readings =
     (case act of
        None \<Rightarrow> State_Monad.return SkippedActiveUnknown
      | Some i \<Rightarrow> do {
          d0 \<leftarrow> getd id;
          if quarantined (hlth d0 i)
          then (case readings ! i of None \<Rightarrow> emergency_swap c e tm i readings | Some _ \<Rightarrow> State_Monad.return Held)
          else (case readings ! i of
              None \<Rightarrow> blind_swap c e tm i readings
            | Some raw_usage \<Rightarrow> do {
                let active_usage = plausible_active_usage i raw_usage d0;
                modd (\<lambda>d. d\<lparr>d_signaled_retry_after_reserve := False, d_signaled_retry_after_walk := False\<rparr>);
                s_pct \<leftarrow> draw_down_env e (c_session_ceiling_strategy c) SESSION_CEILING_PCT_LO SESSION_CEILING_PCT_HI;
                w_pct \<leftarrow> draw_down_env e (c_weekly_ceiling_strategy c) WEEKLY_CEILING_PCT_LO WEEKLY_CEILING_PCT_HI;
                let session_ceiling = f_div s_pct (Fin 100);
                let weekly_ceiling = f_div w_pct (Fin 100);
                let velocity = (case sustained_session_velocity (acct d0 i) of Some v \<Rightarrow> ema_rate v | None \<Rightarrow> Fin 0);
                let session_threshold = reactive_session_threshold (effective_ceiling session_ceiling) velocity
                      (reactive_poll_gap_secs (c_near_limit_poll_secs c));
                let boundary = viability_boundary session_ceiling (c_target_max_session_usage c) weekly_ceiling;
                if decide active_usage session_threshold (vb_weekly boundary) = SD_Hold
                then velocity_swap c e tm i session_ceiling (vb_weekly boundary) readings
                else if \<not> d_warmed_up d0 then State_Monad.return Held
                else reactive_swap c e tm i active_usage session_ceiling session_threshold boundary readings }) })"

section \<open>Recovery of a scrubbed credential\<close>

definition USIZE_MAX :: nat where "USIZE_MAX = 2 ^ 64 - 1"

text \<open>The first statement: a window that has run out is forgotten.\<close>

definition scrub_window_reset :: "instant \<Rightarrow> daemon \<Rightarrow> daemon" where
  "scrub_window_reset tm d =
     (case d_scrub_adopt_window_start d of
        Some start \<Rightarrow>
          if since tm start \<ge> SCRUB_ADOPT_WINDOW
          then d\<lparr>d_scrub_adopt_count := 0, d_scrub_adopt_window_start := None, d_signaled_scrub_adopt_exhausted := False\<rparr>
          else d
      | None \<Rightarrow> d)"

definition scrub_exhausted :: "cfg \<Rightarrow> nat option \<Rightarrow> daemon \<Rightarrow> daemon \<times> event list" where
  "scrub_exhausted c act d =
     (if \<not> d_signaled_scrub_adopt_exhausted d
      then (d\<lparr>d_signaled_scrub_adopt_exhausted := True\<rparr>, [Ev_CanonicalRecoveryExhausted (map_option (acc_label c) act)])
      else (d, []))"

definition note_adopted :: "instant \<Rightarrow> daemon \<Rightarrow> daemon" where
  "note_adopted tm d =
     d\<lparr>d_scrub_adopt_window_start :=
         (if d_scrub_adopt_window_start d = None then Some tm else d_scrub_adopt_window_start d),
       d_scrub_adopt_count := d_scrub_adopt_count d + 1\<rparr>"

definition recover_scrubbed_canonical ::
  "cfg \<Rightarrow> 'w env \<Rightarrow> nat option \<Rightarrow> usage option list \<Rightarrow> instant \<Rightarrow> ('w ctx, tick_action option) state" where
  "recover_scrubbed_canonical c e act readings tm = do {
     modd (scrub_window_reset tm);
     cnt \<leftarrow> getd d_scrub_adopt_count;
     if cnt \<ge> SCRUB_ADOPT_MAX
     then do { sync (scrub_exhausted c act); State_Monad.return None }
     else do {
       pct \<leftarrow> draw_env e (c_weekly_ceiling_strategy c) WEEKLY_CEILING_PCT_LO WEEKLY_CEILING_PCT_HI;
       d \<leftarrow> getd id;
       (case pick_target_ranked (case act of Some i \<Rightarrow> i | None \<Rightarrow> USIZE_MAX) readings (enabled_mask c) None PInf
           (f_div pct (Fin 100)) (selection_tiebreak_of c d) of
          None \<Rightarrow> State_Monad.return None
        | Some target \<Rightarrow> do {
            let incoming = stash_name (c_roster c ! target);
            r \<leftarrow> in_world (locked_adopt c e incoming);
            (case r of
               Inr _ \<Rightarrow> do {
                 record_swap e target incoming tm;
                 modd (note_adopted tm);
                 emits [Ev_CanonicalRecovered (acc_label c target)];
                 State_Monad.return (Some (CanonicalAdopted target)) }
             | Inl _ \<Rightarrow> State_Monad.return None) }) } }"

section \<open>What the status shows of the next swap\<close>

datatype no_target_cause = NTC_Session | NTC_Weekly

datatype next_swap_view =
    NS_Target string "next_swap_reason option"
  | NS_AwaitingData
  | NS_NoViableTarget "no_target_cause option" "int option"

text \<open>The loop over the readings: is there another enabled, live account, and are all of them unpolled?\<close>

definition others_unpolled :: "cfg \<Rightarrow> nat \<Rightarrow> usage option list \<Rightarrow> daemon \<Rightarrow> bool \<times> bool" where
  "others_unpolled c act readings d =
     fold (\<lambda>(i, reading) (any_other_enabled, all_unpolled).
         if i \<noteq> act \<and> enabled_mask c ! i \<and> \<not> quarantined (hlth d i)
         then (True, all_unpolled \<and> reading = None) else (any_other_enabled, all_unpolled))
       (enumerate 0 readings) (False, True)"

definition next_swap :: "cfg \<Rightarrow> nat option \<Rightarrow> usage option list \<Rightarrow> daemon \<Rightarrow> next_swap_view option" where
  "next_swap c act readings d =
     (case act of
        None \<Rightarrow> None
      | Some i \<Rightarrow> Some
          (case pick_target_with_reason_ranked i readings (enabled_mask c) (Some (c_target_max_session_usage c))
              (c_session_ceiling_base c) (weekly_rotation_line c) (selection_tiebreak_of c d) of
             Some (target, reason) \<Rightarrow> NS_Target (acc_label c target) (Some reason)
           | None \<Rightarrow>
               (case others_unpolled c i readings d of (any_other_enabled, all_unpolled) \<Rightarrow>
                 if any_other_enabled \<and> all_unpolled then NS_AwaitingData
                 else
                   let boundary = viability_boundary (c_session_ceiling_base c) (c_target_max_session_usage c)
                         (c_weekly_ceiling_base c)
                   in (case all_exhausted_relief i readings (enabled_mask c) (vb_session boundary) (vb_weekly boundary) of
                         (cause, _, resets_at) \<Rightarrow>
                           NS_NoViableTarget
                             (case cause of SR_Session \<Rightarrow> Some NTC_Session | SR_Weekly \<Rightarrow> Some NTC_Weekly | _ \<Rightarrow> None)
                             resets_at))))"

end
