(* ===== verification/Snapshot.thy ===== *)
theory Snapshot
  imports Daemon_Decide
begin

text \<open>
  What the daemon publishes (\<open>src/daemon/snapshot.rs\<close>, \<open>snapshot\<close> of \<open>src/daemon/snapshot_build.rs\<close>): the
  status snapshot built from the state, and the response a client of the control socket receives. The
  serialisation of the response is not modelled. The two notices are the tuples of \<open>Records\<close>.
\<close>

section \<open>The snapshot\<close>

record refresh_health =
  rh_last_ok :: bool
  rh_rotated :: "bool option"
  rh_consecutive_failures :: nat

definition refresh_health_view :: "account_health \<Rightarrow> refresh_health option" where
  "refresh_health_view h =
     (case last_refresh_outcome h of
        None \<Rightarrow> None
      | Some outcome \<Rightarrow> Some
          \<lparr>rh_last_ok = (case outcome of REO_Refreshed _ \<Rightarrow> True | REO_RefreshedNotReStashed _ \<Rightarrow> True
             | REO_NoChange \<Rightarrow> True | _ \<Rightarrow> False),
           rh_rotated = refresh_rotated outcome,
           rh_consecutive_failures = consecutive_refresh_failures h\<rparr>)"

datatype canonical_scrub = CSc_Recovering | CSc_Exhausted

record account_reading =
  ar_label :: string
  ar_active :: bool
  ar_enabled :: bool
  ar_quarantined :: bool
  ar_recovering :: bool
  ar_weekly_exhausted :: bool
  ar_usage :: "usage option"
  ar_access_expires_at :: "int option"
  ar_refresh_health :: "refresh_health option"
  ar_health :: credential_health_state
  ar_blind_active :: "blind_active option"
  ar_expiry :: "account_expiry_rec option"

record status_snapshot =
  ss_accounts :: "account_reading list"
  ss_next_swap :: "next_swap_view option"
  ss_refresh_enabled :: bool
  ss_generated_at :: int
  ss_systemic_refresh :: "nat option"
  ss_systemic_refresh_source :: "systemic_refresh_source option"
  ss_canonical_scrub :: "canonical_scrub option"
  ss_keychain_locked :: bool
  ss_recent_blind_preempt_swap :: "(string \<times> string \<times> nat) option"
  ss_recent_landing_overshoot :: "(string \<times> nat \<times> nat) option"
  ss_canary :: "canary_status option"
  ss_expiry_cohort :: "expiry_cohort option"

text \<open>The test of the code on the last reading of an account: its weekly window is used up.\<close>

definition weekly_is_exhausted :: "cfg \<Rightarrow> usage option \<Rightarrow> bool" where
  "weekly_is_exhausted c reading =
     (case reading of None \<Rightarrow> False | Some u \<Rightarrow> some_at_least (weekly u) (weekly_rotation_line c))"

definition or_else :: "'a option \<Rightarrow> 'a option \<Rightarrow> 'a option" where
  "or_else a b = (case a of Some x \<Rightarrow> Some x | None \<Rightarrow> b)"

definition account_reading_of ::
  "cfg \<Rightarrow> nat option \<Rightarrow> usage option list \<Rightarrow> int \<Rightarrow> instant \<Rightarrow> daemon \<Rightarrow> nat \<Rightarrow> account_reading" where
  "account_reading_of c act readings now_secs blind_at d i =
     (let a = c_roster c ! i; h = hlth d i in
      \<lparr>ar_label = label a,
       ar_active = (act = Some i),
       ar_enabled = account_enabled a,
       ar_quarantined = quarantined h,
       ar_recovering = (quarantined h \<and> recovery_successes h > 0),
       ar_weekly_exhausted = weekly_is_exhausted c (readings ! i),
       ar_usage = readings ! i,
       ar_access_expires_at = or_else (access_expires_at h) (poll_expires_at h),
       ar_refresh_health = refresh_health_view h,
       ar_health = credential_health (quarantined h) (last_refresh_outcome h) (consecutive_refresh_failures h)
         (access_expires_at h) (readings ! i \<noteq> None) now_secs,
       ar_blind_active = (if act = Some i
         then blind_active_view \<lparr>aa_last_good = d_last_good d, aa_high_water = high_water (acct d i)\<rparr>
           (last_reading (acct d i) = None) (quarantined h) (server_retry_after_holding h blind_at \<noteq> None)
           (session_velocity (acct d i)) (c_session_ceiling_base c) blind_at
         else None),
       ar_expiry = (if polled_once (acct d i)
         then Some (account_expiry (refresh_token_expires_at h) (c_credential_expiry_horizon_secs c) now_secs)
         else None)\<rparr>)"

definition with_cohort :: "account_reading \<Rightarrow> nat option \<Rightarrow> account_reading" where
  "with_cohort a cohort = a\<lparr>ar_expiry := map_option (\<lambda>x. x\<lparr>ae_cohort_id := cohort\<rparr>) (ar_expiry a)\<rparr>"

definition snapshot :: "cfg \<Rightarrow> nat option \<Rightarrow> usage option list \<Rightarrow> int \<Rightarrow> instant \<Rightarrow> daemon \<Rightarrow> status_snapshot" where
  "snapshot c act readings now_secs blind_at d =
     (let accounts = map (account_reading_of c act readings now_secs blind_at d) [0..<length (c_roster c)];
          deadlines = map (\<lambda>a. Option.bind (ar_expiry a) ae_expires_at) accounts
      in case expiry_cohorts deadlines (c_credential_expiry_cohort_window_secs c)
             (c_credential_expiry_horizon_secs c) now_secs of (cohort_ids, cohort) \<Rightarrow>
      \<lparr>ss_accounts = map2 with_cohort accounts cohort_ids,
       ss_next_swap = next_swap c act readings d,
       ss_refresh_enabled = c_refresh_enabled c,
       ss_generated_at = now_secs,
       ss_systemic_refresh = sr_status (d_systemic_refresh d),
       ss_systemic_refresh_source = sr_source (d_systemic_refresh d),
       ss_canonical_scrub = (if d_signaled_canonical_scrubbed d
         then if d_signaled_scrub_adopt_exhausted d then Some CSc_Exhausted else Some CSc_Recovering
         else None),
       ss_keychain_locked = d_signaled_keychain_locked d,
       ss_recent_blind_preempt_swap = recent_blind_preempt_swap_view (d_last_blind_preempt_swap d)
         (map_option (acc_label c) act) blind_at,
       ss_recent_landing_overshoot = recent_landing_overshoot_view (d_last_landing_overshoot d) blind_at,
       ss_canary = d_canary d,
       ss_expiry_cohort = cohort\<rparr>)"

section \<open>The response\<close>

record account_status_line =
  sl_label :: string
  sl_active :: bool
  sl_enabled :: bool
  sl_quarantined :: bool
  sl_recovering :: bool
  sl_session_pct :: "nat option"
  sl_weekly_pct :: "nat option"
  sl_session_resets_at :: "int option"
  sl_weekly_resets_at :: "int option"
  sl_weekly_exhausted :: bool
  sl_access_expires_at :: "int option"
  sl_refresh_health :: "refresh_health option"
  sl_health :: "credential_health_state option"
  sl_blind_active :: "blind_active option"
  sl_expiry :: "account_expiry_rec option"

record status_response =
  rs_accounts :: "account_status_line list"
  rs_next_swap :: "next_swap_view option"
  rs_refresh_enabled :: "bool option"
  rs_systemic_refresh_failure :: "nat option"
  rs_systemic_refresh_source :: "systemic_refresh_source option"
  rs_canonical_scrub :: "canonical_scrub option"
  rs_keychain_locked :: bool
  rs_recent_blind_preempt_swap :: "(string \<times> string \<times> nat) option"
  rs_recent_landing_overshoot :: "(string \<times> nat \<times> nat) option"
  rs_canary :: "canary_status option"
  rs_expiry_cohort :: "expiry_cohort option"

definition status_line_of :: "account_reading \<Rightarrow> account_status_line" where
  "status_line_of a =
     \<lparr>sl_label = ar_label a,
      sl_active = ar_active a,
      sl_enabled = ar_enabled a,
      sl_quarantined = ar_quarantined a,
      sl_recovering = ar_recovering a,
      sl_session_pct = Option.bind (ar_usage a) (\<lambda>u. map_option to_pct (session u)),
      sl_weekly_pct = Option.bind (ar_usage a) (\<lambda>u. map_option to_pct (weekly u)),
      sl_session_resets_at = Option.bind (ar_usage a) session_resets_at,
      sl_weekly_resets_at = Option.bind (ar_usage a) weekly_resets_at,
      sl_weekly_exhausted = ar_weekly_exhausted a,
      sl_access_expires_at = ar_access_expires_at a,
      sl_refresh_health = ar_refresh_health a,
      sl_health = Some (ar_health a),
      sl_blind_active = ar_blind_active a,
      sl_expiry = ar_expiry a\<rparr>"

definition status_response_of :: "status_snapshot \<Rightarrow> status_response" where
  "status_response_of s =
     \<lparr>rs_accounts = map status_line_of (ss_accounts s),
      rs_next_swap = ss_next_swap s,
      rs_refresh_enabled = Some (ss_refresh_enabled s),
      rs_systemic_refresh_failure = ss_systemic_refresh s,
      rs_systemic_refresh_source = ss_systemic_refresh_source s,
      rs_canonical_scrub = ss_canonical_scrub s,
      rs_keychain_locked = ss_keychain_locked s,
      rs_recent_blind_preempt_swap = ss_recent_blind_preempt_swap s,
      rs_recent_landing_overshoot = ss_recent_landing_overshoot s,
      rs_canary = ss_canary s,
      rs_expiry_cohort = ss_expiry_cohort s\<rparr>"

record schema_version =
  sv_major :: nat
  sv_minor :: nat

definition STATUS_SCHEMA_VERSION :: schema_version where
  "STATUS_SCHEMA_VERSION = \<lparr>sv_major = 1, sv_minor = 14\<rparr>"

record versioned_status =
  vs_schema_version :: schema_version
  vs_generated_at :: int
  vs_status :: status_response

definition versioned_status_response :: "status_snapshot \<Rightarrow> versioned_status" where
  "versioned_status_response s =
     \<lparr>vs_schema_version = STATUS_SCHEMA_VERSION, vs_generated_at = ss_generated_at s,
      vs_status = status_response_of s\<rparr>"

section \<open>Lemmas\<close>

lemma cohort_loop_length: "length (fst (cohort_loop window edge cnt obs next_id a c)) = length a"
  by (induction window edge cnt obs next_id a c rule: cohort_loop.induct) (simp_all add: Let_def)

lemma cohort_ids_length: "length (fst (expiry_cohorts deadlines window horizon now_secs)) = length deadlines"
  by (simp add: expiry_cohorts_def Let_def cohort_loop_length)

text \<open>The published lines: one per account, in roster order.\<close>

abbreviation published :: "cfg \<Rightarrow> nat option \<Rightarrow> usage option list \<Rightarrow> int \<Rightarrow> instant \<Rightarrow> daemon \<Rightarrow> account_status_line list" where
  "published c act readings now_secs blind_at d \<equiv>
     rs_accounts (status_response_of (snapshot c act readings now_secs blind_at d))"

lemma published_length [simp]: "length (published c act readings now_secs blind_at d) = length (c_roster c)"
  by (simp add: status_response_of_def snapshot_def Let_def split_beta cohort_ids_length)

lemma published_nth:
  "i < length (c_roster c) \<Longrightarrow> \<exists>cohort. published c act readings now_secs blind_at d ! i =
     status_line_of (with_cohort (account_reading_of c act readings now_secs blind_at d i) cohort)"
  by (auto simp: status_response_of_def snapshot_def Let_def split_beta cohort_ids_length)

lemma published_line:
  assumes "i < length (c_roster c)" "l = published c act readings now_secs blind_at d ! i"
  shows "sl_label l = acc_label c i" "sl_active l \<longleftrightarrow> act = Some i" "sl_quarantined l = quarantined (hlth d i)"
    "sl_weekly_exhausted l = weekly_is_exhausted c (readings ! i)"
    "sl_weekly_pct l = Option.bind (readings ! i) (\<lambda>u. map_option to_pct (weekly u))"
    "sl_blind_active l \<noteq> None \<Longrightarrow> act = Some i" "sl_expiry l \<noteq> None \<longleftrightarrow> polled_once (acct d i)"
  using published_nth [OF assms(1), of act readings now_secs blind_at d]
  by (auto simp: assms(2) status_line_of_def with_cohort_def account_reading_of_def Let_def split: if_splits)

end
