(* ===== verification/Config.thy ===== *)
theory Config
  imports Swap_Policy World
begin

text \<open>
  \<open>src/config.rs\<close> with \<open>config/validate.rs\<close>, \<open>config/settings.rs\<close> and \<open>config/load.rs\<close>: the configuration
  as the TOML library reads it (\<open>raw_config\<close>, integers are \<open>i64\<close>), its validation into the typed
  \<open>config\<close>, and the overlay of operator settings. The TOML library is a parameter: a function from the
  text to a \<open>raw_config\<close> or a message. The string of a \<open>ConfigInvalid\<close> error is the field its message
  names.
\<close>

section \<open>The typed configuration\<close>

datatype conflict_policy = Skip | Overwrite

fun conflict_policy_as_str :: "conflict_policy \<Rightarrow> string" where
  "conflict_policy_as_str Skip = ''skip''"
| "conflict_policy_as_str Overwrite = ''overwrite''"

datatype plaintext_fallback_mode = PF_Remove | PF_Touch | PF_Off

fun pf_as_str :: "plaintext_fallback_mode \<Rightarrow> string" where
  "pf_as_str PF_Remove = ''remove''"
| "pf_as_str PF_Touch = ''touch''"
| "pf_as_str PF_Off = ''off''"

definition pf_from_token :: "string \<Rightarrow> plaintext_fallback_mode option" where
  "pf_from_token t =
     (if t = ''remove'' then Some PF_Remove else if t = ''touch'' then Some PF_Touch
      else if t = ''off'' then Some PF_Off else None)"

record tunables =
  t_poll_secs :: nat
  t_exhausted_poll_secs :: nat
  t_near_limit_poll_secs :: nat
  t_cooldown_secs :: nat
  t_target_max_session_usage :: nat
  t_session_ceiling :: nat
  t_weekly_ceiling :: nat
  t_session_blind_swap_secs :: nat
  t_session_blind_risk_band :: nat
  t_session_velocity_horizon_secs :: nat
  t_session_velocity_min_project_above :: nat
  t_session_velocity_ema_alpha_pct :: nat
  t_monitor_401_n :: nat
  t_monitor_recovery_m :: nat
  t_fleet_runway_warn_secs :: nat
  t_canary_drift_override :: bool
  t_canary_nostashmatch_override :: bool
  t_canary_online_probe :: bool
  t_canary_online_probe_strict :: bool
  t_verbose :: bool
  t_poll_strategy :: strategy
  t_session_ceiling_strategy :: strategy
  t_weekly_ceiling_strategy :: strategy
  t_cooldown_strategy :: strategy

record refresh_config =
  r_enabled :: bool
  r_accounts :: "string list"
  r_cadence_secs :: nat
  r_idle_after_secs :: nat
  r_timeout_secs :: nat
  r_claude_bin :: "string option"
  r_systemic_failure_n :: nat
  r_proactive_keep_warm :: bool

record login_config =
  l_timeout_secs :: nat
  l_claude_bin :: "string option"

record stats_config =
  s_raw_retention_secs :: nat
  s_hourly_retention_secs :: nat
  s_daily_retention_secs :: nat
  s_default_period :: string

record migration_config =
  m_kdf_memory_kib :: nat
  m_kdf_iterations :: nat
  m_conflict_policy :: conflict_policy

record credential_config =
  k_expiry_horizon_secs :: nat
  k_expiry_cohort_window_secs :: nat
  k_plaintext_fallback :: plaintext_fallback_mode

record config =
  cf_roster :: "account list"
  cf_tunables :: tunables
  cf_refresh :: refresh_config
  cf_login :: login_config
  cf_stats :: stats_config
  cf_migration :: migration_config
  cf_credential :: credential_config

section \<open>The raw configuration\<close>

record raw_account =
  ra_account_uuid :: string
  ra_stash :: string
  ra_label :: string
  ra_enabled :: bool

record raw_tunables =
  rt_poll_secs :: int
  rt_exhausted_poll_secs :: int
  rt_near_limit_poll_secs :: int
  rt_cooldown_secs :: int
  rt_target_max_session_usage :: "int option"
  rt_session_ceiling :: int
  rt_weekly_ceiling :: int
  rt_session_blind_swap_secs :: int
  rt_session_blind_risk_band :: int
  rt_session_velocity_horizon_secs :: int
  rt_session_velocity_min_project_above :: int
  rt_session_velocity_ema_alpha_pct :: int
  rt_monitor_401_n :: int
  rt_monitor_recovery_m :: int
  rt_fleet_runway_warn_secs :: int
  rt_canary_drift_override :: bool
  rt_canary_nostashmatch_override :: bool
  rt_canary_online_probe :: bool
  rt_canary_online_probe_strict :: bool
  rt_verbose :: bool

record raw_jitter_spec =
  rj_kind :: string
  rj_spread :: "f64 option"
  rj_stddev :: "f64 option"

record raw_jitter =
  rj_poll :: "raw_jitter_spec option"
  rj_session_ceiling :: "raw_jitter_spec option"
  rj_weekly_ceiling :: "raw_jitter_spec option"
  rj_cooldown :: "raw_jitter_spec option"

record raw_refresh =
  rr_enabled :: bool
  rr_accounts :: "string list"
  rr_cadence_secs :: int
  rr_idle_after_secs :: int
  rr_timeout_secs :: int
  rr_claude_bin :: "string option"
  rr_systemic_failure_n :: int
  rr_proactive_keep_warm :: bool

record raw_login =
  rl_timeout_secs :: int
  rl_claude_bin :: "string option"

record raw_stats =
  rs_raw_retention_secs :: int
  rs_hourly_retention_secs :: int
  rs_daily_retention_secs :: int
  rs_default_period :: string

record raw_migration =
  rm_kdf_memory_kib :: int
  rm_kdf_iterations :: int
  rm_conflict_policy :: string

record raw_credential =
  rk_expiry_horizon_secs :: int
  rk_expiry_cohort_window_secs :: int
  rk_plaintext_fallback :: string

record raw_config =
  raw_account :: "raw_account list"
  raw_tunables :: raw_tunables
  raw_jitter :: raw_jitter
  raw_refresh :: raw_refresh
  raw_login :: raw_login
  raw_stats :: raw_stats
  raw_migration :: raw_migration
  raw_credential :: raw_credential

section \<open>Defaults\<close>

definition default_poll_jitter :: jitter where
  "default_poll_jitter = Normal (Fin 60)"

definition tunables_default :: tunables where
  "tunables_default = \<lparr>t_poll_secs = 300, t_exhausted_poll_secs = 3600, t_near_limit_poll_secs = 60,
     t_cooldown_secs = 60, t_target_max_session_usage = 80, t_session_ceiling = 95, t_weekly_ceiling = 98,
     t_session_blind_swap_secs = 300, t_session_blind_risk_band = 60,
     t_session_velocity_horizon_secs = 120, t_session_velocity_min_project_above = 85,
     t_session_velocity_ema_alpha_pct = 50, t_monitor_401_n = 3, t_monitor_recovery_m = 2,
     t_fleet_runway_warn_secs = 0, t_canary_drift_override = False,
     t_canary_nostashmatch_override = False, t_canary_online_probe = False,
     t_canary_online_probe_strict = False, t_verbose = False,
     t_poll_strategy = \<lparr>strategy_base = Fin 300, strategy_jitter = default_poll_jitter\<rparr>,
     t_session_ceiling_strategy = Strategy_fixed (Fin 95),
     t_weekly_ceiling_strategy = Strategy_fixed (Fin 98),
     t_cooldown_strategy = Strategy_fixed (Fin 60)\<rparr>"

definition refresh_config_default :: refresh_config where
  "refresh_config_default = \<lparr>r_enabled = True, r_accounts = [], r_cadence_secs = 3600,
     r_idle_after_secs = 60, r_timeout_secs = 90, r_claude_bin = None, r_systemic_failure_n = 3,
     r_proactive_keep_warm = False\<rparr>"

definition login_config_default :: login_config where
  "login_config_default = \<lparr>l_timeout_secs = 180, l_claude_bin = None\<rparr>"

definition stats_config_default :: stats_config where
  "stats_config_default = \<lparr>s_raw_retention_secs = 14 * 86400, s_hourly_retention_secs = 90 * 86400,
     s_daily_retention_secs = 0, s_default_period = ''week''\<rparr>"

definition migration_config_default :: migration_config where
  "migration_config_default = \<lparr>m_kdf_memory_kib = 65536, m_kdf_iterations = 3, m_conflict_policy = Skip\<rparr>"

definition credential_config_default :: credential_config where
  "credential_config_default = \<lparr>k_expiry_horizon_secs = 7 * 86400, k_expiry_cohort_window_secs = 86400,
     k_plaintext_fallback = PF_Touch\<rparr>"

text \<open>The configuration of a first run (\<open>existing.unwrap_or_else\<close> in \<open>capture.rs\<close>).\<close>

definition config_default :: config where
  "config_default = \<lparr>cf_roster = [], cf_tunables = tunables_default, cf_refresh = refresh_config_default,
     cf_login = login_config_default, cf_stats = stats_config_default,
     cf_migration = migration_config_default, cf_credential = credential_config_default\<rparr>"

definition raw_tunables_default :: raw_tunables where
  "raw_tunables_default = \<lparr>rt_poll_secs = 300, rt_exhausted_poll_secs = 3600,
     rt_near_limit_poll_secs = 60, rt_cooldown_secs = 60, rt_target_max_session_usage = None,
     rt_session_ceiling = 95, rt_weekly_ceiling = 98, rt_session_blind_swap_secs = 300,
     rt_session_blind_risk_band = 60, rt_session_velocity_horizon_secs = 120,
     rt_session_velocity_min_project_above = 85, rt_session_velocity_ema_alpha_pct = 50,
     rt_monitor_401_n = 3, rt_monitor_recovery_m = 2, rt_fleet_runway_warn_secs = 0,
     rt_canary_drift_override = False, rt_canary_nostashmatch_override = False,
     rt_canary_online_probe = False, rt_canary_online_probe_strict = False, rt_verbose = False\<rparr>"

definition raw_refresh_default :: raw_refresh where
  "raw_refresh_default = \<lparr>rr_enabled = True, rr_accounts = [], rr_cadence_secs = 3600,
     rr_idle_after_secs = 60, rr_timeout_secs = 90, rr_claude_bin = None, rr_systemic_failure_n = 3,
     rr_proactive_keep_warm = False\<rparr>"

definition raw_login_default :: raw_login where
  "raw_login_default = \<lparr>rl_timeout_secs = 180, rl_claude_bin = None\<rparr>"

definition raw_credential_default :: raw_credential where
  "raw_credential_default = \<lparr>rk_expiry_horizon_secs = 7 * 86400, rk_expiry_cohort_window_secs = 86400,
     rk_plaintext_fallback = pf_as_str PF_Touch\<rparr>"

definition raw_stats_default :: raw_stats where
  "raw_stats_default = \<lparr>rs_raw_retention_secs = 14 * 86400, rs_hourly_retention_secs = 90 * 86400,
     rs_daily_retention_secs = 0, rs_default_period = ''week''\<rparr>"

definition raw_migration_default :: raw_migration where
  "raw_migration_default = \<lparr>rm_kdf_memory_kib = 65536, rm_kdf_iterations = 3,
     rm_conflict_policy = ''skip''\<rparr>"

text \<open>The raw configuration of an empty file: every section is \<open>#[serde(default)]\<close>.\<close>

definition raw_config_default :: raw_config where
  "raw_config_default = \<lparr>raw_account = [], raw_tunables = raw_tunables_default,
     raw_jitter = \<lparr>rj_poll = None, rj_session_ceiling = None, rj_weekly_ceiling = None, rj_cooldown = None\<rparr>,
     raw_refresh = raw_refresh_default, raw_login = raw_login_default, raw_stats = raw_stats_default,
     raw_migration = raw_migration_default, raw_credential = raw_credential_default\<rparr>"

section \<open>Validation\<close>

definition range_check :: "string \<Rightarrow> int \<Rightarrow> int \<Rightarrow> int \<Rightarrow> unit result" where
  "range_check field v lo hi = (if lo \<le> v \<and> v \<le> hi then Inr () else Inl (ConfigInvalid field))"

definition non_negative :: "string \<Rightarrow> f64 \<Rightarrow> unit result" where
  "non_negative field v =
     (if v \<notin> {NInf, PInf, NaN} \<and> f_ge v (Fin 0) then Inr () else Inl (ConfigInvalid field))"

definition parse_jitter :: "string \<Rightarrow> raw_jitter_spec option \<Rightarrow> jitter \<Rightarrow> jitter result" where
  "parse_jitter field spec dflt =
     (case spec of None \<Rightarrow> Inr dflt
      | Some s \<Rightarrow>
          if rj_kind s = ''none'' then
            (if rj_spread s \<noteq> None \<or> rj_stddev s \<noteq> None then Inl (ConfigInvalid field) else Inr JNone)
          else if rj_kind s = ''uniform'' then
            (if rj_stddev s \<noteq> None then Inl (ConfigInvalid field)
             else (case rj_spread s of None \<Rightarrow> Inl (ConfigInvalid field)
                   | Some spread \<Rightarrow> and_then (non_negative field spread) (\<lambda>_. Inr (Uniform spread))))
          else if rj_kind s = ''normal'' then
            (if rj_spread s \<noteq> None then Inl (ConfigInvalid field)
             else (case rj_stddev s of None \<Rightarrow> Inl (ConfigInvalid field)
                   | Some stddev \<Rightarrow> and_then (non_negative field stddev) (\<lambda>_. Inr (Normal stddev))))
          else Inl (ConfigInvalid field))"

definition target_max_of :: "int option \<Rightarrow> int \<Rightarrow> nat result" where
  "target_max_of target session_ceil =
     (case target of
        None \<Rightarrow> Inr (min 80 (nat session_ceil))
      | Some v \<Rightarrow>
          if v = 0 then Inl (ConfigInvalid ''target_max_session_usage'')
          else if v < 0 then Inl (ConfigInvalid ''target_max_session_usage'')
          else if session_ceil < v then Inl (ConfigTargetMaxSessionAboveTrigger v session_ceil)
          else Inr (nat v))"

text \<open>\<open>f64::floor\<close>, and the saturating cast \<open>as i64\<close>.\<close>

fun f_floor :: "f64 \<Rightarrow> f64" where
  "f_floor (Fin q) = Fin (of_int \<lfloor>q\<rfloor>)"
| "f_floor x = x"

fun f_as_i64 :: "f64 \<Rightarrow> int" where
  "f_as_i64 (Fin q) = i64_sat (if 0 \<le> q then \<lfloor>q\<rfloor> else \<lceil>q\<rceil>)"
| "f_as_i64 PInf = I64_MAX"
| "f_as_i64 NInf = I64_MIN"
| "f_as_i64 NaN = 0"

definition peak_runway_bound :: "raw_tunables \<Rightarrow> f64" where
  "peak_runway_bound t =
     peak_runway_reserve_bound (f_div (f_of_nat (nat (rt_session_ceiling t))) (Fin 100))
       (nat (rt_near_limit_poll_secs t)) (nat (rt_session_velocity_horizon_secs t))"

definition peak_runway_error :: "raw_tunables \<Rightarrow> error" where
  "peak_runway_error t =
     StoreError (ConfigPeakRunwayUnsatisfiable (rt_session_ceiling t)
       (nat (rt_near_limit_poll_secs t)) (nat (rt_session_velocity_horizon_secs t))
       (f_as_uint U64_MAX (composed_swap_lookahead_secs (nat (rt_near_limit_poll_secs t))
          (nat (rt_session_velocity_horizon_secs t))))
       (f_as_i64 (f_floor (f_mul (peak_runway_bound t) (Fin 100)))))"

text \<open>The checks of \<open>[tunables]\<close>, in order; the result is the effective target line.\<close>

definition check_tunables :: "raw_tunables \<Rightarrow> nat result" where
  "check_tunables t =
     and_then (range_check ''session_ceiling'' (rt_session_ceiling t) 50 99) (\<lambda>_.
     and_then (range_check ''weekly_ceiling'' (rt_weekly_ceiling t) 50 99) (\<lambda>_.
     and_then (range_check ''session_blind_swap_secs'' (rt_session_blind_swap_secs t) 60 86400) (\<lambda>_.
     and_then (range_check ''session_blind_risk_band'' (rt_session_blind_risk_band t) 50 99) (\<lambda>_.
     and_then (range_check ''session_velocity_horizon_secs'' (rt_session_velocity_horizon_secs t) 0 600) (\<lambda>_.
     and_then (range_check ''session_velocity_min_project_above'' (rt_session_velocity_min_project_above t) 50 99) (\<lambda>_.
     and_then (range_check ''session_velocity_ema_alpha_pct'' (rt_session_velocity_ema_alpha_pct t) 1 100) (\<lambda>_.
     and_then (target_max_of (rt_target_max_session_usage t) (rt_session_ceiling t)) (\<lambda>target.
     and_then (range_check ''poll_secs'' (rt_poll_secs t) 5 3600) (\<lambda>_.
     and_then (range_check ''exhausted_poll_secs'' (rt_exhausted_poll_secs t) (rt_poll_secs t) 86400) (\<lambda>_.
     if rt_near_limit_poll_secs t \<noteq> 0 \<and> \<not> (5 \<le> rt_near_limit_poll_secs t \<and> rt_near_limit_poll_secs t \<le> 3600)
     then Inl (ConfigInvalid ''near_limit_poll_secs'')
     else if f_le (peak_runway_bound t) (Fin 0) then Inl (peak_runway_error t)
     else
     and_then (range_check ''cooldown_secs'' (rt_cooldown_secs t) 5 3600) (\<lambda>_.
     and_then (range_check ''monitor_401_n'' (rt_monitor_401_n t) 1 20) (\<lambda>_.
     and_then (range_check ''monitor_recovery_m'' (rt_monitor_recovery_m t) 1 20) (\<lambda>_.
     if rt_fleet_runway_warn_secs t \<noteq> 0 \<and>
        \<not> (60 \<le> rt_fleet_runway_warn_secs t \<and> rt_fleet_runway_warn_secs t \<le> 7 * 86400)
     then Inl (ConfigInvalid ''fleet_runway_warn_secs'') else Inr target)))))))))))))"

definition build_tunables :: "raw_tunables \<Rightarrow> nat \<Rightarrow> jitter \<Rightarrow> jitter \<Rightarrow> jitter \<Rightarrow> jitter \<Rightarrow> tunables" where
  "build_tunables t target poll_jitter session_jitter weekly_jitter cooldown_jitter =
     \<lparr>t_poll_secs = nat (rt_poll_secs t), t_exhausted_poll_secs = nat (rt_exhausted_poll_secs t),
      t_near_limit_poll_secs = nat (rt_near_limit_poll_secs t), t_cooldown_secs = nat (rt_cooldown_secs t),
      t_target_max_session_usage = target, t_session_ceiling = nat (rt_session_ceiling t),
      t_weekly_ceiling = nat (rt_weekly_ceiling t),
      t_session_blind_swap_secs = nat (rt_session_blind_swap_secs t),
      t_session_blind_risk_band = nat (rt_session_blind_risk_band t),
      t_session_velocity_horizon_secs = nat (rt_session_velocity_horizon_secs t),
      t_session_velocity_min_project_above = nat (rt_session_velocity_min_project_above t),
      t_session_velocity_ema_alpha_pct = nat (rt_session_velocity_ema_alpha_pct t),
      t_monitor_401_n = nat (rt_monitor_401_n t), t_monitor_recovery_m = nat (rt_monitor_recovery_m t),
      t_fleet_runway_warn_secs = nat (rt_fleet_runway_warn_secs t),
      t_canary_drift_override = rt_canary_drift_override t,
      t_canary_nostashmatch_override = rt_canary_nostashmatch_override t,
      t_canary_online_probe = rt_canary_online_probe t,
      t_canary_online_probe_strict = rt_canary_online_probe_strict t, t_verbose = rt_verbose t,
      t_poll_strategy =
        \<lparr>strategy_base = f_of_nat (nat (rt_poll_secs t)), strategy_jitter = poll_jitter\<rparr>,
      t_session_ceiling_strategy =
        \<lparr>strategy_base = f_of_nat (nat (rt_session_ceiling t)), strategy_jitter = session_jitter\<rparr>,
      t_weekly_ceiling_strategy =
        \<lparr>strategy_base = f_of_nat (nat (rt_weekly_ceiling t)), strategy_jitter = weekly_jitter\<rparr>,
      t_cooldown_strategy =
        \<lparr>strategy_base = f_of_nat (nat (rt_cooldown_secs t)), strategy_jitter = cooldown_jitter\<rparr>\<rparr>"

definition ACCOUNT_UUID_MAX_LEN :: nat where "ACCOUNT_UUID_MAX_LEN = 128"

definition ascii_alphanumeric :: "char \<Rightarrow> bool" where
  "ascii_alphanumeric c \<longleftrightarrow> (let n = (of_char c :: nat) in
     (48 \<le> n \<and> n \<le> 57) \<or> (65 \<le> n \<and> n \<le> 90) \<or> (97 \<le> n \<and> n \<le> 122))"

text \<open>The rule an identifier breaks, named by its kind.\<close>

definition account_uuid_violation :: "string \<Rightarrow> string option" where
  "account_uuid_violation u =
     (if ACCOUNT_UUID_MAX_LEN < length u then Some ''length''
      else if \<not> list_all (\<lambda>c. ascii_alphanumeric c \<or> c = CHR ''-'' \<or> c = CHR ''_'') u
      then Some ''characters'' else None)"

fun validate_roster :: "string set \<Rightarrow> raw_account list \<Rightarrow> account list result" where
  "validate_roster uuids [] = Inr []"
| "validate_roster uuids (a # rest) =
     (if trim_is_empty (ra_account_uuid a) then Inl (ConfigInvalid ''account_uuid'')
      else if account_uuid_violation (ra_account_uuid a) \<noteq> None then Inl (ConfigInvalid ''account_uuid'')
      else if trim_is_empty (ra_label a) then Inl (ConfigInvalid ''label'')
      else if ra_account_uuid a \<in> uuids then Inl (ConfigInvalid ''account_uuid'')
      else and_then (validate_roster (insert (ra_account_uuid a) uuids) rest) (\<lambda>roster.
        Inr (\<lparr>account_uuid = ra_account_uuid a, label = ra_label a, account_enabled = ra_enabled a\<rparr> # roster)))"

definition filter_bin :: "string option \<Rightarrow> string option" where
  "filter_bin b = (case b of None \<Rightarrow> None | Some s \<Rightarrow> if trim_is_empty s then None else Some s)"

definition validate_refresh :: "raw_refresh \<Rightarrow> refresh_config result" where
  "validate_refresh r =
     and_then (range_check ''refresh.cadence_secs'' (rr_cadence_secs r) 60 86400) (\<lambda>_.
     and_then (range_check ''refresh.idle_after_secs'' (rr_idle_after_secs r) 0 3600) (\<lambda>_.
     and_then (range_check ''refresh.timeout_secs'' (rr_timeout_secs r) 10 600) (\<lambda>_.
     and_then (range_check ''refresh.systemic_failure_n'' (rr_systemic_failure_n r) 1 100) (\<lambda>_.
     Inr \<lparr>r_enabled = rr_enabled r, r_accounts = rr_accounts r, r_cadence_secs = nat (rr_cadence_secs r),
       r_idle_after_secs = nat (rr_idle_after_secs r), r_timeout_secs = nat (rr_timeout_secs r),
       r_claude_bin = filter_bin (rr_claude_bin r), r_systemic_failure_n = nat (rr_systemic_failure_n r),
       r_proactive_keep_warm = rr_proactive_keep_warm r\<rparr>))))"

definition validate_login :: "raw_login \<Rightarrow> login_config result" where
  "validate_login l =
     and_then (range_check ''login.timeout_secs'' (rl_timeout_secs l) 60 600) (\<lambda>_.
     Inr \<lparr>l_timeout_secs = nat (rl_timeout_secs l), l_claude_bin = filter_bin (rl_claude_bin l)\<rparr>)"

definition STATS_PERIODS :: "string list" where
  "STATS_PERIODS = [''day'', ''week'', ''month'', ''lifetime'']"

definition validate_stats :: "raw_stats \<Rightarrow> stats_config result" where
  "validate_stats s =
     and_then (range_check ''stats.raw_retention_secs'' (rs_raw_retention_secs s) 3600 31536000) (\<lambda>_.
     and_then (range_check ''stats.hourly_retention_secs'' (rs_hourly_retention_secs s) 86400 315360000) (\<lambda>_.
     and_then (range_check ''stats.daily_retention_secs'' (rs_daily_retention_secs s) 0 315360000) (\<lambda>_.
     if rs_default_period s \<notin> set STATS_PERIODS then Inl (ConfigInvalid ''stats.default_period'')
     else Inr \<lparr>s_raw_retention_secs = nat (rs_raw_retention_secs s),
       s_hourly_retention_secs = nat (rs_hourly_retention_secs s),
       s_daily_retention_secs = nat (rs_daily_retention_secs s), s_default_period = rs_default_period s\<rparr>)))"

definition validate_migration :: "raw_migration \<Rightarrow> migration_config result" where
  "validate_migration m =
     and_then (range_check ''migration.kdf_memory_kib'' (rm_kdf_memory_kib m) 8 1048576) (\<lambda>_.
     and_then (range_check ''migration.kdf_iterations'' (rm_kdf_iterations m) 1 16) (\<lambda>_.
     and_then (if rm_conflict_policy m = ''skip'' then Inr Skip
               else if rm_conflict_policy m = ''overwrite'' then Inr Overwrite
               else Inl (ConfigInvalid ''migration.conflict_policy'')) (\<lambda>p.
     Inr \<lparr>m_kdf_memory_kib = nat (rm_kdf_memory_kib m), m_kdf_iterations = nat (rm_kdf_iterations m),
       m_conflict_policy = p\<rparr>)))"

definition validate_credential :: "raw_credential \<Rightarrow> credential_config result" where
  "validate_credential c =
     and_then (range_check ''credential.expiry_horizon_secs'' (rk_expiry_horizon_secs c) 86400 7776000) (\<lambda>_.
     and_then (range_check ''credential.expiry_cohort_window_secs'' (rk_expiry_cohort_window_secs c) 60 604800) (\<lambda>_.
     (case pf_from_token (rk_plaintext_fallback c) of
        None \<Rightarrow> Inl (ConfigInvalid ''credential.plaintext_fallback'')
      | Some mode \<Rightarrow> Inr \<lparr>k_expiry_horizon_secs = nat (rk_expiry_horizon_secs c),
          k_expiry_cohort_window_secs = nat (rk_expiry_cohort_window_secs c), k_plaintext_fallback = mode\<rparr>)))"

definition validate :: "raw_config \<Rightarrow> config result" where
  "validate raw =
     and_then (check_tunables (raw_tunables raw)) (\<lambda>target.
     and_then (parse_jitter ''poll'' (rj_poll (raw_jitter raw)) default_poll_jitter) (\<lambda>poll_jitter.
     and_then (parse_jitter ''session_ceiling'' (rj_session_ceiling (raw_jitter raw)) JNone) (\<lambda>session_jitter.
     and_then (parse_jitter ''weekly_ceiling'' (rj_weekly_ceiling (raw_jitter raw)) JNone) (\<lambda>weekly_jitter.
     and_then (parse_jitter ''cooldown'' (rj_cooldown (raw_jitter raw)) JNone) (\<lambda>cooldown_jitter.
     and_then (validate_roster {} (raw_account raw)) (\<lambda>roster.
     and_then (validate_refresh (raw_refresh raw)) (\<lambda>refresh.
     and_then (validate_login (raw_login raw)) (\<lambda>login.
     and_then (validate_stats (raw_stats raw)) (\<lambda>stats.
     and_then (validate_migration (raw_migration raw)) (\<lambda>migration.
     and_then (validate_credential (raw_credential raw)) (\<lambda>credential.
     Inr \<lparr>cf_roster = roster,
       cf_tunables = build_tunables (raw_tunables raw) target poll_jitter session_jitter weekly_jitter cooldown_jitter,
       cf_refresh = refresh, cf_login = login, cf_stats = stats, cf_migration = migration,
       cf_credential = credential\<rparr>)))))))))))"

section \<open>Reading and editing\<close>

text \<open>The TOML library: the text as a \<open>raw_config\<close>, or its message.\<close>

type_synonym toml = "string \<Rightarrow> string + raw_config"

definition parse_config :: "toml \<Rightarrow> string \<Rightarrow> config result" where
  "parse_config toml text =
     (case toml text of Inl m \<Rightarrow> Inl (ConfigParse m) | Inr raw \<Rightarrow> validate raw)"

definition load_config :: "toml \<Rightarrow> string \<Rightarrow> fs_error + string \<Rightarrow> config result" where
  "load_config toml path contents =
     (case contents of
        Inl FS_NotFound \<Rightarrow> Inl (ConfigNotFound path)
      | Inl (FS_Other m) \<Rightarrow> Inl (Io m)
      | Inr text \<Rightarrow> parse_config toml text)"

definition require_roster :: "config \<Rightarrow> unit result" where
  "require_roster c = (if cf_roster c = [] then Inl (StoreError RosterEmpty) else Inr ())"

record set_tunables =
  st_poll_secs :: "int option"
  st_exhausted_poll_secs :: "int option"
  st_near_limit_poll_secs :: "int option"
  st_cooldown_secs :: "int option"
  st_target_max_session_usage :: "int option"
  st_session_ceiling :: "int option"
  st_weekly_ceiling :: "int option"
  st_session_blind_swap_secs :: "int option"
  st_session_blind_risk_band :: "int option"
  st_session_velocity_horizon_secs :: "int option"
  st_session_velocity_min_project_above :: "int option"
  st_session_velocity_ema_alpha_pct :: "int option"
  st_monitor_401_n :: "int option"
  st_monitor_recovery_m :: "int option"
  st_fleet_runway_warn_secs :: "int option"
  st_canary_drift_override :: "bool option"
  st_canary_nostashmatch_override :: "bool option"
  st_canary_online_probe :: "bool option"
  st_canary_online_probe_strict :: "bool option"

definition set_tunables_none :: set_tunables where
  "set_tunables_none = \<lparr>st_poll_secs = None, st_exhausted_poll_secs = None, st_near_limit_poll_secs = None,
     st_cooldown_secs = None, st_target_max_session_usage = None, st_session_ceiling = None,
     st_weekly_ceiling = None, st_session_blind_swap_secs = None, st_session_blind_risk_band = None,
     st_session_velocity_horizon_secs = None, st_session_velocity_min_project_above = None,
     st_session_velocity_ema_alpha_pct = None, st_monitor_401_n = None, st_monitor_recovery_m = None,
     st_fleet_runway_warn_secs = None, st_canary_drift_override = None,
     st_canary_nostashmatch_override = None, st_canary_online_probe = None,
     st_canary_online_probe_strict = None\<rparr>"

definition or_keep :: "'a option \<Rightarrow> 'a \<Rightarrow> 'a" where
  "or_keep edit old = (case edit of None \<Rightarrow> old | Some v \<Rightarrow> v)"

definition overlay_tunables :: "raw_tunables \<Rightarrow> set_tunables \<Rightarrow> raw_tunables" where
  "overlay_tunables raw e = raw\<lparr>
     rt_poll_secs := or_keep (st_poll_secs e) (rt_poll_secs raw),
     rt_exhausted_poll_secs := or_keep (st_exhausted_poll_secs e) (rt_exhausted_poll_secs raw),
     rt_near_limit_poll_secs := or_keep (st_near_limit_poll_secs e) (rt_near_limit_poll_secs raw),
     rt_cooldown_secs := or_keep (st_cooldown_secs e) (rt_cooldown_secs raw),
     rt_target_max_session_usage :=
       (case st_target_max_session_usage e of None \<Rightarrow> rt_target_max_session_usage raw | Some v \<Rightarrow> Some v),
     rt_session_ceiling := or_keep (st_session_ceiling e) (rt_session_ceiling raw),
     rt_weekly_ceiling := or_keep (st_weekly_ceiling e) (rt_weekly_ceiling raw),
     rt_session_blind_swap_secs := or_keep (st_session_blind_swap_secs e) (rt_session_blind_swap_secs raw),
     rt_session_blind_risk_band := or_keep (st_session_blind_risk_band e) (rt_session_blind_risk_band raw),
     rt_session_velocity_horizon_secs :=
       or_keep (st_session_velocity_horizon_secs e) (rt_session_velocity_horizon_secs raw),
     rt_session_velocity_min_project_above :=
       or_keep (st_session_velocity_min_project_above e) (rt_session_velocity_min_project_above raw),
     rt_session_velocity_ema_alpha_pct :=
       or_keep (st_session_velocity_ema_alpha_pct e) (rt_session_velocity_ema_alpha_pct raw),
     rt_monitor_401_n := or_keep (st_monitor_401_n e) (rt_monitor_401_n raw),
     rt_monitor_recovery_m := or_keep (st_monitor_recovery_m e) (rt_monitor_recovery_m raw),
     rt_fleet_runway_warn_secs := or_keep (st_fleet_runway_warn_secs e) (rt_fleet_runway_warn_secs raw),
     rt_canary_drift_override := or_keep (st_canary_drift_override e) (rt_canary_drift_override raw),
     rt_canary_nostashmatch_override :=
       or_keep (st_canary_nostashmatch_override e) (rt_canary_nostashmatch_override raw),
     rt_canary_online_probe := or_keep (st_canary_online_probe e) (rt_canary_online_probe raw),
     rt_canary_online_probe_strict :=
       or_keep (st_canary_online_probe_strict e) (rt_canary_online_probe_strict raw)\<rparr>"

text \<open>The label edits, an ordered map from identifiers to labels as the list of its entries.\<close>

fun overlay_labels :: "raw_account list \<Rightarrow> (string \<times> string) list \<Rightarrow> raw_account list result" where
  "overlay_labels accounts [] = Inr accounts"
| "overlay_labels accounts ((uuid, new_label) # labels) =
     (case position (\<lambda>a. ra_account_uuid a = uuid) accounts of
        None \<Rightarrow> Inl (AccountUuidNotFound uuid)
      | Some i \<Rightarrow> overlay_labels (accounts[i := (accounts ! i)\<lparr>ra_label := new_label\<rparr>]) labels)"

record settings_change =
  tunables_changed :: bool
  labels_changed :: bool

definition apply_settings :: "toml \<Rightarrow> string \<Rightarrow> set_tunables \<Rightarrow> (string \<times> string) list \<Rightarrow>
    (config \<times> settings_change) result" where
  "apply_settings toml text edits labels =
     and_then (parse_config toml text) (\<lambda>before.
     (case toml text of Inl m \<Rightarrow> Inl (ConfigParse m) | Inr raw \<Rightarrow>
       and_then (overlay_labels (raw_account raw) labels) (\<lambda>accounts.
       and_then (validate (raw\<lparr>raw_tunables := overlay_tunables (raw_tunables raw) edits,
                               raw_account := accounts\<rparr>)) (\<lambda>after.
       Inr (after, \<lparr>tunables_changed = (cf_tunables after \<noteq> cf_tunables before),
                    labels_changed = (cf_roster after \<noteq> cf_roster before)\<rparr>)))))"

section \<open>What the configuration tells others\<close>

record account_view =
  av_account_uuid :: string
  av_label :: string
  av_enabled :: bool

record tunables_view =
  tv_poll_secs :: nat
  tv_exhausted_poll_secs :: nat
  tv_near_limit_poll_secs :: nat
  tv_cooldown_secs :: nat
  tv_target_max_session_usage :: nat
  tv_session_ceiling :: nat
  tv_weekly_ceiling :: nat
  tv_session_blind_swap_secs :: nat
  tv_session_blind_risk_band :: nat
  tv_session_velocity_horizon_secs :: nat
  tv_session_velocity_min_project_above :: nat
  tv_session_velocity_ema_alpha_pct :: nat
  tv_monitor_401_n :: nat
  tv_monitor_recovery_m :: nat
  tv_fleet_runway_warn_secs :: nat
  tv_canary_drift_override :: bool
  tv_canary_nostashmatch_override :: bool
  tv_canary_online_probe :: bool
  tv_canary_online_probe_strict :: bool

record config_view =
  cv_tunables :: tunables_view
  cv_accounts :: "account_view list"

definition tunables_view_of :: "tunables \<Rightarrow> tunables_view" where
  "tunables_view_of t =
     \<lparr>tv_poll_secs = t_poll_secs t, tv_exhausted_poll_secs = t_exhausted_poll_secs t,
      tv_near_limit_poll_secs = t_near_limit_poll_secs t, tv_cooldown_secs = t_cooldown_secs t,
      tv_target_max_session_usage = t_target_max_session_usage t, tv_session_ceiling = t_session_ceiling t,
      tv_weekly_ceiling = t_weekly_ceiling t, tv_session_blind_swap_secs = t_session_blind_swap_secs t,
      tv_session_blind_risk_band = t_session_blind_risk_band t,
      tv_session_velocity_horizon_secs = t_session_velocity_horizon_secs t,
      tv_session_velocity_min_project_above = t_session_velocity_min_project_above t,
      tv_session_velocity_ema_alpha_pct = t_session_velocity_ema_alpha_pct t,
      tv_monitor_401_n = t_monitor_401_n t, tv_monitor_recovery_m = t_monitor_recovery_m t,
      tv_fleet_runway_warn_secs = t_fleet_runway_warn_secs t,
      tv_canary_drift_override = t_canary_drift_override t,
      tv_canary_nostashmatch_override = t_canary_nostashmatch_override t,
      tv_canary_online_probe = t_canary_online_probe t,
      tv_canary_online_probe_strict = t_canary_online_probe_strict t\<rparr>"

definition view :: "config \<Rightarrow> config_view" where
  "view c = \<lparr>cv_tunables = tunables_view_of (cf_tunables c),
     cv_accounts = map (\<lambda>a. \<lparr>av_account_uuid = account_uuid a, av_label = label a, av_enabled = account_enabled a\<rparr>)
       (cf_roster c)\<rparr>"

definition view_from_text :: "toml \<Rightarrow> string \<Rightarrow> config_view result" where
  "view_from_text toml body = and_then (parse_config toml body) (\<lambda>c. Inr (view c))"

definition swap_threshold :: "config \<Rightarrow> f64" where
  "swap_threshold c = f_div (f_of_nat (t_session_ceiling (cf_tunables c))) (Fin 100)"

text \<open>The advisory of a target line that the peak session velocity could carry past the ceiling.\<close>

record peak_runway_advisory =
  pa_target_max_session_usage :: nat
  pa_bound_pct :: nat
  pa_window_secs :: nat

definition advisory_of :: "config \<Rightarrow> peak_runway_advisory option" where
  "advisory_of c =
     (let t = cf_tunables c;
          bound = peak_runway_reserve_bound (f_div (f_of_nat (t_session_ceiling t)) (Fin 100))
            (t_near_limit_poll_secs t) (t_session_velocity_horizon_secs t)
      in if f_le bound (Fin 0) then None
         else let bound_pct = f_as_uint 255 (f_floor (f_mul bound (Fin 100)))
              in if t_target_max_session_usage t > bound_pct
                 then Some \<lparr>pa_target_max_session_usage = t_target_max_session_usage t, pa_bound_pct = bound_pct,
                   pa_window_secs = f_as_uint U64_MAX (composed_swap_lookahead_secs (t_near_limit_poll_secs t)
                     (t_session_velocity_horizon_secs t))\<rparr>
                 else None)"

section \<open>What validation guarantees\<close>

definition tunables_ok :: "tunables \<Rightarrow> bool" where
  "tunables_ok t \<longleftrightarrow>
     5 \<le> t_poll_secs t \<and> t_poll_secs t \<le> 3600 \<and>
     t_poll_secs t \<le> t_exhausted_poll_secs t \<and> t_exhausted_poll_secs t \<le> 86400 \<and>
     (t_near_limit_poll_secs t = 0 \<or> 5 \<le> t_near_limit_poll_secs t \<and> t_near_limit_poll_secs t \<le> 3600) \<and>
     5 \<le> t_cooldown_secs t \<and> t_cooldown_secs t \<le> 3600 \<and>
     1 \<le> t_target_max_session_usage t \<and> t_target_max_session_usage t \<le> t_session_ceiling t \<and>
     50 \<le> t_session_ceiling t \<and> t_session_ceiling t \<le> 99 \<and>
     50 \<le> t_weekly_ceiling t \<and> t_weekly_ceiling t \<le> 99 \<and>
     60 \<le> t_session_blind_swap_secs t \<and> t_session_blind_swap_secs t \<le> 86400 \<and>
     50 \<le> t_session_blind_risk_band t \<and> t_session_blind_risk_band t \<le> 99 \<and>
     t_session_velocity_horizon_secs t \<le> 600 \<and>
     50 \<le> t_session_velocity_min_project_above t \<and> t_session_velocity_min_project_above t \<le> 99 \<and>
     1 \<le> t_session_velocity_ema_alpha_pct t \<and> t_session_velocity_ema_alpha_pct t \<le> 100 \<and>
     1 \<le> t_monitor_401_n t \<and> t_monitor_401_n t \<le> 20 \<and>
     1 \<le> t_monitor_recovery_m t \<and> t_monitor_recovery_m t \<le> 20 \<and>
     (t_fleet_runway_warn_secs t = 0 \<or>
      60 \<le> t_fleet_runway_warn_secs t \<and> t_fleet_runway_warn_secs t \<le> 7 * 86400) \<and>
     \<not> f_le (peak_runway_reserve_bound (f_div (f_of_nat (t_session_ceiling t)) (Fin 100))
              (t_near_limit_poll_secs t) (t_session_velocity_horizon_secs t)) (Fin 0) \<and>
     strategy_base (t_poll_strategy t) = f_of_nat (t_poll_secs t) \<and>
     strategy_base (t_session_ceiling_strategy t) = f_of_nat (t_session_ceiling t) \<and>
     strategy_base (t_weekly_ceiling_strategy t) = f_of_nat (t_weekly_ceiling t) \<and>
     strategy_base (t_cooldown_strategy t) = f_of_nat (t_cooldown_secs t) \<and>
     jitter_ok (strategy_jitter (t_poll_strategy t)) \<and>
     jitter_ok (strategy_jitter (t_session_ceiling_strategy t)) \<and>
     jitter_ok (strategy_jitter (t_weekly_ceiling_strategy t)) \<and>
     jitter_ok (strategy_jitter (t_cooldown_strategy t))"

definition roster_ok :: "account list \<Rightarrow> bool" where
  "roster_ok roster \<longleftrightarrow> distinct (map account_uuid roster) \<and>
     list_all (\<lambda>a. \<not> trim_is_empty (account_uuid a) \<and> account_uuid_violation (account_uuid a) = None \<and>
                   \<not> trim_is_empty (label a)) roster"

definition sections_ok :: "config \<Rightarrow> bool" where
  "sections_ok c \<longleftrightarrow>
     (let r = cf_refresh c; s = cf_stats c; m = cf_migration c; k = cf_credential c in
      60 \<le> r_cadence_secs r \<and> r_cadence_secs r \<le> 86400 \<and> r_idle_after_secs r \<le> 3600 \<and>
      10 \<le> r_timeout_secs r \<and> r_timeout_secs r \<le> 600 \<and>
      1 \<le> r_systemic_failure_n r \<and> r_systemic_failure_n r \<le> 100 \<and>
      60 \<le> l_timeout_secs (cf_login c) \<and> l_timeout_secs (cf_login c) \<le> 600 \<and>
      3600 \<le> s_raw_retention_secs s \<and> s_raw_retention_secs s \<le> 31536000 \<and>
      86400 \<le> s_hourly_retention_secs s \<and> s_hourly_retention_secs s \<le> 315360000 \<and>
      s_daily_retention_secs s \<le> 315360000 \<and> s_default_period s \<in> set STATS_PERIODS \<and>
      8 \<le> m_kdf_memory_kib m \<and> m_kdf_memory_kib m \<le> 1048576 \<and>
      1 \<le> m_kdf_iterations m \<and> m_kdf_iterations m \<le> 16 \<and>
      86400 \<le> k_expiry_horizon_secs k \<and> k_expiry_horizon_secs k \<le> 7776000 \<and>
      60 \<le> k_expiry_cohort_window_secs k \<and> k_expiry_cohort_window_secs k \<le> 604800)"

definition config_ok :: "config \<Rightarrow> bool" where
  "config_ok c \<longleftrightarrow> tunables_ok (cf_tunables c) \<and> roster_ok (cf_roster c) \<and> sections_ok c"

named_theorems checks \<open>what a passed check says\<close>

declare and_then_Inr [checks]

lemma range_check_ok [checks]: "range_check field v lo hi = Inr u \<longleftrightarrow> lo \<le> v \<and> v \<le> hi"
  by (simp add: range_check_def)

lemma non_negative_ok [checks]: "non_negative field v = Inr u \<longleftrightarrow> (\<exists>q. v = Fin q \<and> 0 \<le> q)"
  by (cases v) (simp_all add: non_negative_def)

lemma parse_jitter_ok:
  "parse_jitter field spec dflt = Inr j \<Longrightarrow> jitter_ok dflt \<Longrightarrow> jitter_ok j"
  by (auto simp: parse_jitter_def checks split: option.splits if_splits)

lemma parse_jitter_absent [simp]: "parse_jitter field None dflt = Inr dflt"
  by (simp add: parse_jitter_def)

lemma default_poll_jitter_ok [simp]: "jitter_ok default_poll_jitter"
  by (simp add: default_poll_jitter_def)

lemma target_max_ok [checks]:
  "target_max_of target c = Inr n \<longleftrightarrow>
     (case target of None \<Rightarrow> n = min 80 (nat c) | Some v \<Rightarrow> 0 < v \<and> v \<le> c \<and> n = nat v)"
  by (auto simp: target_max_of_def split: option.splits)

lemma validate_roster_ok:
  "validate_roster uuids accounts = Inr roster \<Longrightarrow>
     roster_ok roster \<and> account_uuid ` set roster \<inter> uuids = {} \<and>
     map account_uuid roster = map ra_account_uuid accounts \<and>
     map label roster = map ra_label accounts \<and> map account_enabled roster = map ra_enabled accounts"
proof (induction uuids accounts arbitrary: roster rule: validate_roster.induct)
  case (1 uuids)
  then show ?case by (simp add: roster_ok_def)
next
  case (2 uuids a rest)
  have new: "\<not> trim_is_empty (ra_account_uuid a)" "account_uuid_violation (ra_account_uuid a) = None"
    "\<not> trim_is_empty (ra_label a)" "ra_account_uuid a \<notin> uuids"
    using 2(2) by (auto split: if_splits)
  then obtain rs where rs: "validate_roster (insert (ra_account_uuid a) uuids) rest = Inr rs"
    "roster = \<lparr>account_uuid = ra_account_uuid a, label = ra_label a, account_enabled = ra_enabled a\<rparr> # rs"
    using 2(2) by (auto simp: and_then_Inr)
  note IH = 2(1) [OF _ _ _ _ rs(1), simplified new, simplified]
  have "ra_account_uuid a \<notin> account_uuid ` set rs" using IH by blast
  then have fresh: "ra_account_uuid a \<notin> set (map account_uuid rs)" unfolding set_map .
  have rest: "roster_ok rs" "account_uuid ` set rs \<inter> uuids = {}"
      "map account_uuid rs = map ra_account_uuid rest"
      "map label rs = map ra_label rest" "map account_enabled rs = map ra_enabled rest"
    using IH by blast+
  have "roster_ok roster"
    using new(1-3) fresh rest(1) by (simp add: roster_ok_def rs(2) del: set_map)
  moreover have "account_uuid ` set roster \<inter> uuids = {}" using new(4) rest(2) rs(2) by simp
  ultimately show ?case using rest(3-) rs(2) by simp
qed

lemma check_tunables_ok:
  assumes "check_tunables t = Inr n"
    and "jitter_ok pj" "jitter_ok sj" "jitter_ok wj" "jitter_ok cj"
  shows "tunables_ok (build_tunables t n pj sj wj cj)"
  using assms
  by (auto simp: tunables_ok_def build_tunables_def check_tunables_def checks peak_runway_bound_def
      nat_le_eq_zle le_nat_iff split: if_splits option.splits)

lemma sections_checked:
  assumes "validate_refresh rr = Inr r" "validate_login rl = Inr l" "validate_stats rs = Inr s"
    "validate_migration rm = Inr m" "validate_credential rk = Inr k"
  shows "sections_ok \<lparr>cf_roster = roster, cf_tunables = tn, cf_refresh = r, cf_login = l, cf_stats = s,
           cf_migration = m, cf_credential = k\<rparr>"
  using assms
  by (auto simp: sections_ok_def validate_refresh_def validate_login_def validate_stats_def
      validate_migration_def validate_credential_def checks nat_le_eq_zle le_nat_iff
      split: if_splits option.splits)

text \<open>The parts of an accepted configuration.\<close>

lemma validateE:
  assumes "validate raw = Inr c"
  obtains n pj sj wj cj r l s m k where
    "check_tunables (raw_tunables raw) = Inr n"
    "jitter_ok pj" "jitter_ok sj" "jitter_ok wj" "jitter_ok cj"
    "validate_roster {} (raw_account raw) = Inr (cf_roster c)"
    "cf_tunables c = build_tunables (raw_tunables raw) n pj sj wj cj"
    "validate_refresh (raw_refresh raw) = Inr r" "validate_login (raw_login raw) = Inr l"
    "validate_stats (raw_stats raw) = Inr s" "validate_migration (raw_migration raw) = Inr m"
    "validate_credential (raw_credential raw) = Inr k"
    "cf_refresh c = r" "cf_login c = l" "cf_stats c = s" "cf_migration c = m" "cf_credential c = k"
proof -
  from assms obtain n pj sj wj cj r l s m k where
    f: "check_tunables (raw_tunables raw) = Inr n"
    and j: "parse_jitter ''poll'' (rj_poll (raw_jitter raw)) default_poll_jitter = Inr pj"
      "parse_jitter ''session_ceiling'' (rj_session_ceiling (raw_jitter raw)) JNone = Inr sj"
      "parse_jitter ''weekly_ceiling'' (rj_weekly_ceiling (raw_jitter raw)) JNone = Inr wj"
      "parse_jitter ''cooldown'' (rj_cooldown (raw_jitter raw)) JNone = Inr cj"
    and g: "validate_roster {} (raw_account raw) = Inr (cf_roster c)"
      "cf_tunables c = build_tunables (raw_tunables raw) n pj sj wj cj"
      "validate_refresh (raw_refresh raw) = Inr r" "validate_login (raw_login raw) = Inr l"
      "validate_stats (raw_stats raw) = Inr s" "validate_migration (raw_migration raw) = Inr m"
      "validate_credential (raw_credential raw) = Inr k"
      "cf_refresh c = r" "cf_login c = l" "cf_stats c = s" "cf_migration c = m" "cf_credential c = k"
    by (auto simp: validate_def and_then_Inr)
  have "jitter_ok pj" "jitter_ok sj" "jitter_ok wj" "jitter_ok cj"
    using parse_jitter_ok [OF j(1)] parse_jitter_ok [OF j(2)] parse_jitter_ok [OF j(3)]
      parse_jitter_ok [OF j(4)] by simp_all
  with f g show ?thesis using that by blast
qed

lemma validate_ok: "validate raw = Inr c \<Longrightarrow> config_ok c"
proof (elim validateE)
  fix n pj sj wj cj r l s m k
  assume a: "check_tunables (raw_tunables raw) = Inr n"
    "jitter_ok pj" "jitter_ok sj" "jitter_ok wj" "jitter_ok cj"
    "validate_roster {} (raw_account raw) = Inr (cf_roster c)"
    "cf_tunables c = build_tunables (raw_tunables raw) n pj sj wj cj"
    and b: "validate_refresh (raw_refresh raw) = Inr r" "validate_login (raw_login raw) = Inr l"
    "validate_stats (raw_stats raw) = Inr s" "validate_migration (raw_migration raw) = Inr m"
    "validate_credential (raw_credential raw) = Inr k"
    and eqs: "cf_refresh c = r" "cf_login c = l" "cf_stats c = s" "cf_migration c = m" "cf_credential c = k"
  have "tunables_ok (cf_tunables c)" using check_tunables_ok [OF a(1-5)] a(7) by simp
  moreover have "roster_ok (cf_roster c)" using validate_roster_ok [OF a(6)] by simp
  moreover have "sections_ok c"
    using sections_checked [OF b, of "cf_roster c" "cf_tunables c"] eqs by (simp add: sections_ok_def)
  ultimately show ?thesis by (simp add: config_ok_def)
qed

section \<open>The built-in defaults\<close>

lemma to_f64_dyadic: "\<bar>k\<bar> \<le> 2 ^ 53 \<Longrightarrow> n \<le> 60 \<Longrightarrow> to_f64 (of_int k / 2 ^ n) = Fin (of_int k / 2 ^ n)"
proof -
  assume k: "\<bar>k\<bar> \<le> 2 ^ 53" and n: "n \<le> 60"
  have "\<bar>of_int k\<bar> \<le> (2::rat) ^ 53" using k by (simp flip: of_int_abs)
  moreover have "(1::rat) \<le> 2 ^ n" by simp
  then have "(2::rat) ^ 64 * 1 \<le> 2 ^ 64 * 2 ^ n" by (intro mult_left_mono) simp_all
  moreover have "(2::rat) ^ 53 \<le> 2 ^ 64 * 1" by simp
  ultimately have "\<bar>of_int k\<bar> \<le> (2::rat) ^ 64 * 2 ^ n" by (metis order_trans)
  then have "\<bar>of_int k / 2 ^ n\<bar> \<le> (2::rat) ^ 64" by (simp add: abs_divide divide_le_eq)
  then show ?thesis using rnd_dyadic [OF k, of n] n by (simp add: to_f64_small)
qed

lemma to_f64_within:
  assumes "of_int j / 2 ^ n \<le> q" "q \<le> of_int k / 2 ^ n" "\<bar>j\<bar> \<le> 2 ^ 53" "\<bar>k\<bar> \<le> 2 ^ 53" "n \<le> 60"
  obtains r where "to_f64 q = Fin r" "of_int j / 2 ^ n \<le> r" "r \<le> of_int k / 2 ^ n"
proof -
  have "Fin (of_int j / 2 ^ n) \<le> to_f64 q" "to_f64 q \<le> Fin (of_int k / 2 ^ n)"
    using to_f64_mono [OF assms(1)] to_f64_mono [OF assms(2)]
    unfolding to_f64_dyadic [OF assms(3,5)] to_f64_dyadic [OF assms(4,5)] .
  then show ?thesis using that by (cases "to_f64 q") auto
qed

lemma default_peak_runway:
  "\<not> f_le (peak_runway_reserve_bound (f_div (f_of_nat 95) (Fin 100)) 60 120) (Fin 0)"
proof -
  obtain c where c: "to_f64 (19 / 20) = Fin c" "15 / 16 \<le> c" "c \<le> 1"
    by (rule to_f64_within [of 15 4 "19 / 20" 16]) auto
  obtain m where m: "TAIL_MARGIN = Fin m" "0 \<le> m" "m \<le> 1 / 16"
    unfolding TAIL_MARGIN_def by (rule to_f64_within [of 0 4 "6 / 100" 1]) auto
  obtain e where e: "to_f64 (c - m) = Fin e" "7 / 8 \<le> e"
    by (rule to_f64_within [of 14 4 "c - m" 16]) (use c m in auto)
  obtain v where v: "V_PEAK_SESSION_PCT_PER_MIN = Fin v" "0 \<le> v" "v \<le> 7"
    unfolding V_PEAK_SESSION_PCT_PER_MIN_def by (rule to_f64_within [of 0 0 "695 / 100" 7]) auto
  obtain w where w: "to_f64 (v / 100) = Fin w" "0 \<le> w" "w \<le> 9 / 128"
    by (rule to_f64_within [of 0 7 "v / 100" 9]) (use v in auto)
  obtain s where s: "to_f64 (w / 60) = Fin s" "0 \<le> s" "s \<le> 5 / 4096"
    by (rule to_f64_within [of 0 12 "w / 60" 5]) (use w in auto)
  have frac: "V_PEAK_SESSION_FRAC_PER_SEC = Fin s"
    by (simp add: V_PEAK_SESSION_FRAC_PER_SEC_def v w s)
  obtain p where p: "to_f64 (s * 313) = Fin p" "p \<le> 1565 / 4096"
    by (rule to_f64_within [of 0 12 "s * 313" 1565]) (use s in auto)
  have "f_of_nat 60 = Fin 60" "f_of_nat 120 = Fin 120" "f_of_nat 95 = Fin 95"
    using to_f64_nat [of 60] to_f64_nat [of 120] to_f64_nat [of 95] by (simp_all add: f_of_nat_def)
  moreover have "to_f64 120 = Fin 120" using to_f64_nat [of 120] by simp
  ultimately have window: "composed_swap_lookahead_secs 60 120 = Fin 313"
    by (simp add: composed_swap_lookahead_secs_def reactive_poll_gap_secs_def
        REACTIVE_REOBSERVATION_GAP_SECS_def f_max_def)
  have eff: "effective_ceiling (f_div (f_of_nat 95) (Fin 100)) = Fin e"
    using \<open>f_of_nat 95 = Fin 95\<close> e by (simp add: effective_ceiling_def c m f_sub_def f_max_def)
  have "Fin (1 / 4) \<le> to_f64 (e - p)"
    using to_f64_mono [of "1 / 4" "e - p"] to_f64_dyadic [of 1 2] e p by simp
  then have "\<not> f_le (to_f64 (e - p)) (Fin 0)" by (cases "to_f64 (e - p)") (simp_all add: f_le_def)
  then show ?thesis
    by (simp add: peak_runway_reserve_bound_def eff window frac f_sub_def p)
qed

lemma validate_default: "validate raw_config_default = Inr config_default"
proof -
  have conv: "f_of_nat 95 = Fin 95" "f_of_nat 98 = Fin 98" "f_of_nat 300 = Fin 300" "f_of_nat 60 = Fin 60"
    using to_f64_nat [of 95] to_f64_nat [of 98] to_f64_nat [of 300] to_f64_nat [of 60]
    by (simp_all add: f_of_nat_def)
  have "\<not> f_le (peak_runway_bound raw_tunables_default) (Fin 0)"
    using default_peak_runway by (simp add: peak_runway_bound_def raw_tunables_default_def)
  then have "check_tunables raw_tunables_default = Inr 80"
    by (simp add: check_tunables_def raw_tunables_default_def range_check_def target_max_of_def)
  then show ?thesis
    by (simp add: validate_def raw_config_default_def config_default_def
        raw_refresh_default_def refresh_config_default_def validate_refresh_def raw_login_default_def
        login_config_default_def validate_login_def raw_stats_default_def stats_config_default_def
        validate_stats_def STATS_PERIODS_def raw_migration_default_def migration_config_default_def
        validate_migration_def raw_credential_default_def credential_config_default_def
        validate_credential_def pf_from_token_def range_check_def filter_bin_def
        build_tunables_def raw_tunables_default_def tunables_default_def Strategy_fixed_def conv)
qed

text \<open>
  An empty configuration file stands for exactly the built-in defaults: the raw defaults of every
  section pass validation, and what they validate to is the configuration of a first run.
\<close>

theorem empty_file_is_default: "validate raw_config_default = Inr config_default"
  by (rule validate_default)

text \<open>
  C27: Whatever passes validation is a usable configuration: every tunable and every setting of the
  other sections is in its range, the poll intervals are ordered, the target line lies under the
  session ceiling, the peak-runway reserve is positive, every jitter has a non-negative finite
  magnitude around its own base, and the roster has non-empty, well-formed, distinct identifiers.
\<close>

theorem validated_config_ok:
  assumes "validate raw = Inr c"
  shows "config_ok c"
  using assms by (rule validate_ok)

theorem validated_config_ok_witness: "config_ok config_default"
  by (rule validated_config_ok [OF validate_default])

section \<open>Editing settings\<close>

lemma overlay_labels_frame:
  assumes "overlay_labels accounts labels = Inr accounts'"
  shows "map ra_account_uuid accounts' = map ra_account_uuid accounts \<and>
     map ra_enabled accounts' = map ra_enabled accounts"
  using assms
proof (induction accounts labels rule: overlay_labels.induct)
  case (2 accounts uuid new_label labels)
  then obtain i where i: "position (\<lambda>a. ra_account_uuid a = uuid) accounts = Some i"
    and rest: "overlay_labels (accounts[i := (accounts ! i)\<lparr>ra_label := new_label\<rparr>]) labels = Inr accounts'"
    by (auto split: option.splits)
  let ?a = "accounts[i := (accounts ! i)\<lparr>ra_label := new_label\<rparr>]"
  have "map ra_account_uuid ?a = map ra_account_uuid accounts" "map ra_enabled ?a = map ra_enabled accounts"
    using position_less [OF i] by (simp_all add: map_update) (metis list_update_id nth_map)+
  then show ?case using 2(1) [OF i rest] by simp
qed simp

lemma overlay_labels_untouched:
  assumes "overlay_labels accounts labels = Inr accounts'" "j < length accounts"
    and "ra_account_uuid (accounts ! j) \<notin> fst ` set labels"
  shows "accounts' ! j = accounts ! j"
  using assms
proof (induction accounts labels rule: overlay_labels.induct)
  case (2 accounts uuid new_label labels)
  then obtain i where i: "position (\<lambda>a. ra_account_uuid a = uuid) accounts = Some i"
    and rest: "overlay_labels (accounts[i := (accounts ! i)\<lparr>ra_label := new_label\<rparr>]) labels = Inr accounts'"
    by (auto split: option.splits)
  have "i \<noteq> j" using position_Some [OF i] 2(4) by auto
  then show ?case using 2(1) [OF i rest] 2(3,4) by simp
qed simp

lemma overlay_labels_unknown:
  "uuid \<in> fst ` set labels \<Longrightarrow> uuid \<notin> ra_account_uuid ` set accounts \<Longrightarrow>
   \<exists>u. overlay_labels accounts labels = Inl (AccountUuidNotFound u)"
proof (induction accounts labels rule: overlay_labels.induct)
  case (2 accounts u new_label labels)
  show ?case
  proof (cases "position (\<lambda>a. ra_account_uuid a = u) accounts")
    case None
    then show ?thesis by simp
  next
    case (Some i)
    have len: "i < length accounts" by (rule position_less [OF Some])
    have "u \<in> ra_account_uuid ` set accounts"
      using position_Some [OF Some] by (metis image_eqI nth_mem)
    then have "uuid \<in> fst ` set labels" using 2(2,3) by auto
    moreover have "ra_account_uuid ` set (accounts[i := (accounts ! i)\<lparr>ra_label := new_label\<rparr>]) \<subseteq>
        ra_account_uuid ` set accounts"
      using set_update_subset_insert [of accounts i] nth_mem [OF len] by fastforce
    ultimately show ?thesis using 2(1) [OF Some] 2(3) Some by auto
  qed
qed simp

lemma overlay_tunables_none [simp]: "overlay_tunables raw set_tunables_none = raw"
  by (simp add: overlay_tunables_def set_tunables_none_def or_keep_def)

lemma validate_tunables_local:
  assumes "validate raw = Inr c" "validate raw' = Inr c'"
    and "raw_tunables raw' = raw_tunables raw" "raw_jitter raw' = raw_jitter raw"
  shows "cf_tunables c' = cf_tunables c"
  using assms by (auto simp: validate_def and_then_Inr)

lemma validate_deterministic_sections:
  assumes "validate raw = Inr c" "validate (raw\<lparr>raw_tunables := tn, raw_account := accounts\<rparr>) = Inr c'"
  shows "cf_refresh c' = cf_refresh c \<and> cf_login c' = cf_login c \<and> cf_stats c' = cf_stats c \<and>
    cf_migration c' = cf_migration c \<and> cf_credential c' = cf_credential c"
  using assms by (elim validateE) simp

lemma validate_with_roster:
  assumes "validate raw = Inr c" "validate_roster {} accounts = Inr roster"
  shows "validate (raw\<lparr>raw_account := accounts\<rparr>) = Inr (c\<lparr>cf_roster := roster\<rparr>)"
  using assms by (auto simp: validate_def and_then_Inr)

text \<open>
  A settings edit changes what it names and nothing else. It succeeds only on a valid file, yields
  a valid configuration with the same accounts in the same order and the same enabled flags, keeps
  every other section, keeps the tunables when no tunable is edited and the label of every account the
  edit does not name; an edit that names an unknown account is refused.
\<close>

theorem apply_settings_frame:
  assumes "apply_settings toml text edits labels = Inr (after, change)"
  shows "\<exists>before. parse_config toml text = Inr before \<and> config_ok after \<and>
    map account_uuid (cf_roster after) = map account_uuid (cf_roster before) \<and>
    map account_enabled (cf_roster after) = map account_enabled (cf_roster before) \<and>
    (\<forall>j < length (cf_roster before). account_uuid (cf_roster before ! j) \<notin> fst ` set labels \<longrightarrow>
       cf_roster after ! j = cf_roster before ! j) \<and>
    fst ` set labels \<subseteq> account_uuid ` set (cf_roster before) \<and>
    cf_refresh after = cf_refresh before \<and> cf_login after = cf_login before \<and>
    cf_stats after = cf_stats before \<and> cf_migration after = cf_migration before \<and>
    cf_credential after = cf_credential before \<and>
    (edits = set_tunables_none \<longrightarrow> cf_tunables after = cf_tunables before \<and> \<not> tunables_changed change)"
proof -
  obtain before raw accounts where p: "toml text = Inr raw" "validate raw = Inr before"
    and o: "overlay_labels (raw_account raw) labels = Inr accounts"
    and v: "validate (raw\<lparr>raw_tunables := overlay_tunables (raw_tunables raw) edits, raw_account := accounts\<rparr>) = Inr after"
    and ch: "tunables_changed change \<longleftrightarrow> cf_tunables after \<noteq> cf_tunables before"
    using assms by (auto simp: apply_settings_def parse_config_def and_then_Inr split: sum.splits)
  have rb: "map account_uuid (cf_roster before) = map ra_account_uuid (raw_account raw)"
    "map label (cf_roster before) = map ra_label (raw_account raw)"
    "map account_enabled (cf_roster before) = map ra_enabled (raw_account raw)"
    using p(2) by (elim validateE, use validate_roster_ok in blast)+
  have ra: "map account_uuid (cf_roster after) = map ra_account_uuid accounts"
    "map label (cf_roster after) = map ra_label accounts"
    "map account_enabled (cf_roster after) = map ra_enabled accounts"
    using v by (elim validateE, use validate_roster_ok in fastforce)+
  note frame = overlay_labels_frame [OF o]
  have same: "cf_roster after ! j = cf_roster before ! j"
    if j: "j < length (cf_roster before)" and n: "account_uuid (cf_roster before ! j) \<notin> fst ` set labels" for j
  proof -
    have len: "j < length (raw_account raw)" "j < length accounts" "j < length (cf_roster after)"
      using j rb(1) ra(1) frame by (metis length_map)+
    have "account_uuid (cf_roster before ! j) = ra_account_uuid (raw_account raw ! j)"
      using rb(1) j len by (metis nth_map)
    then have "accounts ! j = raw_account raw ! j"
      using overlay_labels_untouched [OF o len(1)] n by simp
    then show ?thesis using rb ra j len by (intro account.equality) (metis nth_map, metis nth_map, metis nth_map, simp)
  qed
  have known: "fst ` set labels \<subseteq> account_uuid ` set (cf_roster before)"
  proof
    fix u assume "u \<in> fst ` set labels"
    then have "u \<in> ra_account_uuid ` set (raw_account raw)"
      using overlay_labels_unknown [of u labels "raw_account raw"] o by auto
    then show "u \<in> account_uuid ` set (cf_roster before)" using rb(1) by (metis set_map)
  qed
  have tn: "edits = set_tunables_none \<Longrightarrow> cf_tunables after = cf_tunables before"
    using validate_tunables_local [OF p(2) v] by simp
  show ?thesis
    using validate_deterministic_sections [OF p(2) v] validate_ok [OF v] same known tn ch rb ra frame p
    by (auto simp: parse_config_def)
qed

definition sample_toml :: toml where
  "sample_toml text = (if text = ''ok''
     then Inr (raw_config_default\<lparr>raw_account :=
       [\<lparr>ra_account_uuid = ''a'', ra_stash = [], ra_label = ''one'', ra_enabled = True\<rparr>]\<rparr>)
     else Inl ''bad'')"

theorem apply_settings_frame_witness:
  "\<exists>after change. apply_settings sample_toml ''ok'' set_tunables_none [(''a'', ''two'')] = Inr (after, change) \<and>
     map account_uuid (cf_roster after) = [''a''] \<and> cf_tunables after = tunables_default"
proof -
  have valid: "validate (raw_config_default\<lparr>raw_account :=
      [\<lparr>ra_account_uuid = ''a'', ra_stash = [], ra_label = l, ra_enabled = True\<rparr>]\<rparr>) =
    Inr (config_default\<lparr>cf_roster := [\<lparr>account_uuid = ''a'', label = l, account_enabled = True\<rparr>]\<rparr>)"
    if "l = ''one'' \<or> l = ''two''" for l
    using that by (intro validate_with_roster [OF validate_default])
      (auto simp: account_uuid_violation_def ACCOUNT_UUID_MAX_LEN_def ascii_alphanumeric_def white_space_def)
  have raw: "sample_toml ''ok'' = Inr (raw_config_default\<lparr>raw_account :=
      [\<lparr>ra_account_uuid = ''a'', ra_stash = [], ra_label = ''one'', ra_enabled = True\<rparr>]\<rparr>)"
    by (simp add: sample_toml_def)
  have acc: "raw_tunables (raw_config_default\<lparr>raw_account := x\<rparr>) = raw_tunables raw_config_default" for x by simp
  obtain after change where ap: "apply_settings sample_toml ''ok'' set_tunables_none [(''a'', ''two'')] = Inr (after, change)"
    using valid [of "''one''"] valid [of "''two''"]
    by (simp add: apply_settings_def parse_config_def raw)
  moreover have "map account_uuid (cf_roster after) = [''a''] \<and> cf_tunables after = tunables_default"
    using apply_settings_frame [OF ap] valid [of "''one''"]
    by (auto simp: parse_config_def raw config_default_def)
  ultimately show ?thesis by (intro exI [of _ after] exI [of _ change]) simp
qed

end
