(* ===== verification/Control.thy ===== *)
theory Control
  imports Snapshot Config Text
begin

text \<open>
  The control protocol of the daemon (\<open>src/daemon/socket.rs\<close>): the commands a client sends over the control
  socket, what the daemon answers, and what it hands on to the run loop. One request is one line of at most
  \<open>MAX_CONTROL_LINE_BYTES\<close>. Parsing a line (the \<open>serde_json\<close> instances of \<open>ControlRequest\<close> and
  \<open>ConfigSetRequest\<close>) is a parameter, as is whether the peer is the same user; the bytes of a reply, the
  time limits and the streams of \<open>watch\<close>, \<open>stats\<close> and \<open>config-get\<close> are input and output and not modelled.
\<close>

section \<open>Commands\<close>

datatype reload_intent = RI_AppendOnly | RI_Mutating

fun intent_as_wire :: "reload_intent \<Rightarrow> string" where
  "intent_as_wire RI_AppendOnly = ''append-only''"
| "intent_as_wire RI_Mutating = ''mutating''"

definition intent_from_wire :: "string option \<Rightarrow> reload_intent" where
  "intent_from_wire token =
     (case token of Some t \<Rightarrow> if t = intent_as_wire RI_Mutating then RI_Mutating else RI_AppendOnly
      | None \<Rightarrow> RI_AppendOnly)"

datatype control_signal =
    Sig_ManualSwapped
  | Sig_RosterReload reload_intent
  | Sig_Restored string
  | Sig_Shutdown

record swap_command =
  sc_target :: string
  sc_force :: bool

record capture_command =
  cc_label :: "string option"

record config_set_command =
  csc_tunables :: set_tunables
  csc_labels :: "(string \<times> string) list"

section \<open>Acknowledgements\<close>

datatype swap_ack = SwapAccepted string string | SwapAlreadyActive string | SwapRejected swap_rejection

datatype config_set_effect = CSE_Live | CSE_RestartRequired | CSE_Unchanged

datatype config_set_rejection =
    CSR_Invalid | CSR_UnknownAccount | CSR_NoConfig | CSR_ConfigUnreadable | CSR_SaveFailed | CSR_Unavailable

datatype config_set_ack = ConfigSetApplied config_set_effect | ConfigSetRejected config_set_rejection "string option"

datatype capture_ack = CaptureCaptured string nat | CaptureRefreshed string nat | CaptureRejected capture_rejection

section \<open>One exchange\<close>

record control_request =
  rq_cmd :: string
  rq_uuid :: "string option"
  rq_target :: "string option"
  rq_force :: bool
  rq_label :: "string option"
  rq_period :: "string option"
  rq_intent :: "string option"

text \<open>What is written back: an acknowledgement, an error with or without a detail, or the status.\<close>

datatype reply_line = RL_Ok | RL_Error string | RL_ErrorDetail string string | RL_Status versioned_status

definition control_reply ::
  "(string \<Rightarrow> string + control_request) \<Rightarrow> string \<Rightarrow> status_snapshot \<Rightarrow> bool \<Rightarrow> reply_line \<times> control_signal option" where
  "control_reply parse line snap peer_authenticated =
     (case parse line of
        Inl err \<Rightarrow> (RL_ErrorDetail ''malformed request'' err, None)
      | Inr request \<Rightarrow>
          if rq_cmd request = ''status'' then (RL_Status (versioned_status_response snap), None)
          else if rq_cmd request = ''manual-swapped'' then
            (if peer_authenticated then (RL_Ok, Some Sig_ManualSwapped) else (RL_Error ''unauthorized'', None))
          else if rq_cmd request = ''roster-reload'' then
            (if peer_authenticated then (RL_Ok, Some (Sig_RosterReload (intent_from_wire (rq_intent request))))
             else (RL_Error ''unauthorized'', None))
          else if rq_cmd request = ''restored'' then
            (if peer_authenticated then
               (case rq_uuid request of
                  Some uuid \<Rightarrow> (RL_Ok, Some (Sig_Restored uuid))
                | None \<Rightarrow> (RL_Error ''malformed request'', None))
             else (RL_Error ''unauthorized'', None))
          else if rq_cmd request = ''shutdown'' then
            (if peer_authenticated then (RL_Ok, Some Sig_Shutdown) else (RL_Error ''unauthorized'', None))
          else (RL_Error ''unknown command'', None))"

definition MAX_CONTROL_LINE_BYTES :: nat where "MAX_CONTROL_LINE_BYTES = 8 * 1024"

text \<open>\<open>read_line\<close> on the first bytes of the stream: up to and with the first newline.\<close>

definition NEWLINE :: char where "NEWLINE = char_of (10 :: nat)"

definition read_control_line :: "string \<Rightarrow> string" where
  "read_control_line sent =
     (let head = take MAX_CONTROL_LINE_BYTES sent;
          line = takeWhile (\<lambda>ch. ch \<noteq> NEWLINE) head
      in take (length line + 1) head)"

datatype serve_outcome =
    SO_OneShot "control_signal option"
  | SO_Watch
  | SO_Swap swap_command
  | SO_Capture capture_command
  | SO_Stats "string option"
  | SO_ConfigGet
  | SO_ConfigSet config_set_command

text \<open>The reply, where one is written at once, and the outcome. A refusal is replied to and yields nothing.\<close>

definition refused :: "string \<Rightarrow> reply_line option \<times> serve_outcome" where
  "refused reason = (Some (RL_Error reason), SO_OneShot None)"

definition serve_control ::
  "(string \<Rightarrow> string + control_request) \<Rightarrow> (string \<Rightarrow> string + config_set_command) \<Rightarrow> string \<Rightarrow> status_snapshot \<Rightarrow>
   bool \<Rightarrow> reply_line option \<times> serve_outcome" where
  "serve_control parse parse_set sent snap peer_authenticated =
     (let trimmed = trim_end (read_control_line sent);
          one_shot = (case control_reply parse trimmed snap peer_authenticated of
              (reply, sig) \<Rightarrow> (Some reply, SO_OneShot sig))
      in case parse trimmed of
        Inl _ \<Rightarrow> one_shot
      | Inr request \<Rightarrow>
          if rq_cmd request = ''watch'' then (None, SO_Watch)
          else if rq_cmd request = ''stats'' then (None, SO_Stats (rq_period request))
          else if rq_cmd request = ''swap'' then
            (if \<not> peer_authenticated then refused ''unauthorized''
             else (case rq_target request of
                 Some target \<Rightarrow> (None, SO_Swap \<lparr>sc_target = target, sc_force = rq_force request\<rparr>)
               | None \<Rightarrow> refused ''malformed request''))
          else if rq_cmd request = ''capture'' then
            (if \<not> peer_authenticated then refused ''unauthorized''
             else (None, SO_Capture \<lparr>cc_label = rq_label request\<rparr>))
          else if rq_cmd request = ''config-get'' then (None, SO_ConfigGet)
          else if rq_cmd request = ''config-set'' then
            (if \<not> peer_authenticated then refused ''unauthorized''
             else (case parse_set trimmed of
                 Inr command \<Rightarrow> (None, SO_ConfigSet command)
               | Inl err \<Rightarrow> (Some (RL_ErrorDetail ''malformed request'' err), SO_OneShot None)))
          else one_shot)"

datatype control_yield =
    CY_Signal "control_signal option"
  | CY_Swap swap_command
  | CY_Capture capture_command
  | CY_ConfigSet config_set_command

text \<open>What the run loop gets of an exchange; a failed one is \<open>None\<close>.\<close>

definition control_yield_of :: "serve_outcome option \<Rightarrow> control_yield" where
  "control_yield_of served =
     (case served of
        Some (SO_OneShot sig) \<Rightarrow> CY_Signal sig
      | Some SO_Watch \<Rightarrow> CY_Signal None
      | Some (SO_Swap command) \<Rightarrow> CY_Swap command
      | Some (SO_Capture command) \<Rightarrow> CY_Capture command
      | Some (SO_Stats _) \<Rightarrow> CY_Signal None
      | Some SO_ConfigGet \<Rightarrow> CY_Signal None
      | Some (SO_ConfigSet command) \<Rightarrow> CY_ConfigSet command
      | None \<Rightarrow> CY_Signal None)"

section \<open>Properties\<close>

lemma intent_wire_roundtrip: "intent_from_wire (Some (intent_as_wire i)) = i"
  by (cases i) (simp_all add: intent_from_wire_def)

lemma intent_from_wire_mutating: "intent_from_wire token = RI_Mutating \<longleftrightarrow> token = Some ''mutating''"
  by (auto simp: intent_from_wire_def split: option.split)

lemma control_reply_unauthorized: "snd (control_reply parse line snap False) = None"
  by (simp add: control_reply_def split: sum.split)

lemma foreign_yield:
  "control_yield_of (Some (snd (serve_control parse parse_set sent snap False))) = CY_Signal None"
  using control_reply_unauthorized [of parse "trim_end (read_control_line sent)" snap]
  by (cases "control_reply parse (trim_end (read_control_line sent)) snap False")
    (simp add: serve_control_def Let_def control_yield_of_def refused_def split: sum.split)

lemma reload_yield:
  "control_yield_of (Some (snd (serve_control parse parse_set sent snap True))) = CY_Signal (Some (Sig_RosterReload i)) \<longleftrightarrow>
     (\<exists>rq. parse (trim_end (read_control_line sent)) = Inr rq \<and> rq_cmd rq = ''roster-reload'' \<and>
        (i = RI_Mutating \<longleftrightarrow> rq_intent rq = Some ''mutating''))"
proof (cases "parse (trim_end (read_control_line sent))")
  case (Inl err)
  then show ?thesis by (simp add: serve_control_def Let_def control_reply_def control_yield_of_def)
next
  case (Inr rq)
  show ?thesis
    using intent_from_wire_mutating [of "rq_intent rq"]
    by (cases i; cases "intent_from_wire (rq_intent rq)")
      (auto simp: serve_control_def Let_def control_reply_def control_yield_of_def refused_def Inr
        split: option.split sum.split)
qed

text \<open>
  C28: A peer that is not the daemon's own user can only read. Whatever it sends, the run loop receives no
  signal, no swap, no capture and no configuration change; an own peer makes the daemon shrink its roster
  only by naming the mutating intent.
\<close>

theorem foreign_peer_only_reads:
  "control_yield_of (Some (snd (serve_control parse parse_set sent snap False))) = CY_Signal None \<and>
   (control_yield_of (Some (snd (serve_control parse parse_set sent snap True))) = CY_Signal (Some (Sig_RosterReload i)) \<longleftrightarrow>
     (\<exists>rq. parse (trim_end (read_control_line sent)) = Inr rq \<and> rq_cmd rq = ''roster-reload'' \<and>
        (i = RI_Mutating \<longleftrightarrow> rq_intent rq = Some ''mutating'')))"
  by (rule conjI [OF foreign_yield reload_yield])

end
