(* ===== verification/Use_Account.thy ===== *)
theory Use_Account
  imports Control Canary Swap_Engine
begin

text \<open>
  The \<open>use\<close> command (\<open>src/use_account.rs\<close>): naming the target, the gate that keeps an operator off a
  quarantined or exhausted account, the standalone swap, and the delegation to a running daemon. What the
  command prints is not modelled. The collaborators are the fields of \<open>use_env\<close>: the stores, the status
  reply of a running daemon (\<open>None\<close> when there is none in time), the poller, the event log, the notifier.
\<close>

section \<open>The target\<close>

definition resolve_target :: "account list \<Rightarrow> string \<Rightarrow> nat result" where
  "resolve_target roster query =
     (let matches = map fst (filter (\<lambda>(_, a). label a = query \<or> account_uuid a = query) (enumerate 0 roster))
      in case matches of
           [] \<Rightarrow> Inl (UseError (UseTargetNotFound query))
         | [i] \<Rightarrow> Inr i
         | many \<Rightarrow> Inl (UseError (UseTargetAmbiguous query (length many))))"

record swap_target =
  incoming_stash :: string

datatype viability = Via_Viable | Via_Quarantined | Via_WeeklyExhausted

datatype refusal = Ref_WeeklyExhausted | Ref_Cooldown | Ref_Quarantined

datatype gate_outcome = GO_Proceed swap_target | GO_AlreadyActive | GO_Refused refusal

section \<open>Viability\<close>

definition cached_viability_of :: "account_status_line \<Rightarrow> viability option" where
  "cached_viability_of line =
     (if sl_quarantined line then Some Via_Quarantined
      else if sl_weekly_exhausted line then Some Via_WeeklyExhausted
      else if sl_weekly_pct line \<noteq> None then Some Via_Viable
      else None)"

definition cached_viability_for :: "status_response \<Rightarrow> account list \<Rightarrow> string \<Rightarrow> viability option" where
  "cached_viability_for response roster lbl =
     (case filter (\<lambda>a. label a = lbl) roster of
        [_] \<Rightarrow>
          (case filter (\<lambda>l. sl_label l = lbl) (rs_accounts response) of
             [line] \<Rightarrow> cached_viability_of line
           | _ \<Rightarrow> None)
      | _ \<Rightarrow> None)"

record 'w use_env =
  ue_io :: "'w io"
  ue_status :: "('w, status_response option) state"
  ue_poll :: "account \<Rightarrow> bool \<Rightarrow> ('w, polled_reading result) state"
  ue_emit :: "event \<Rightarrow> ('w, unit result) state"
  ue_notify :: "('w, unit result) state"
  ue_claude_json :: string
  ue_lock_path :: string

definition cached_viability :: "'w use_env \<Rightarrow> account list \<Rightarrow> account \<Rightarrow> ('w, viability option) state" where
  "cached_viability e roster a = do {
     response \<leftarrow> ue_status e;
     State_Monad.return (case response of None \<Rightarrow> None | Some r \<Rightarrow> cached_viability_for r roster (label a)) }"

definition viability_of_poll :: "f64 \<Rightarrow> polled_reading result \<Rightarrow> viability result" where
  "viability_of_poll weekly_ceiling polled =
     (case polled of
        Inr reading \<Rightarrow>
          if some_at_least (weekly (pr_usage reading)) weekly_ceiling then Inr Via_WeeklyExhausted else Inr Via_Viable
      | Inl err \<Rightarrow> if err = UsageUnauthorized \<or> err = UsageScopeMissing then Inr Via_Quarantined else Inl err)"

definition poll_viability :: "'w use_env \<Rightarrow> account \<Rightarrow> f64 \<Rightarrow> ('w, viability result) state" where
  "poll_viability e a weekly_ceiling = do {
     polled \<leftarrow> ue_poll e a False;
     State_Monad.return (viability_of_poll weekly_ceiling polled) }"

definition gate_viability :: "'w use_env \<Rightarrow> account list \<Rightarrow> account \<Rightarrow> f64 \<Rightarrow> ('w, viability result) state" where
  "gate_viability e roster a weekly_ceiling = do {
     cached \<leftarrow> cached_viability e roster a;
     (case cached of
        Some v \<Rightarrow> State_Monad.return (Inr v)
      | None \<Rightarrow> do {
          polled \<leftarrow> poll_viability e a weekly_ceiling;
          State_Monad.return (case polled of
              Inl (UsageRateLimited _ _) \<Rightarrow> Inl (UseError (UseViabilityUnverifiable (label a)))
            | other \<Rightarrow> other) }) }"

text \<open>\<open>SwapTarget::resolve\<close> and \<open>SwapTarget::forced\<close>.\<close>

definition resolve_gate ::
  "'w use_env \<Rightarrow> account list \<Rightarrow> account \<Rightarrow> string \<Rightarrow> f64 \<Rightarrow> bool \<Rightarrow> ('w, gate_outcome result) state" where
  "resolve_gate e roster a active_stash weekly_ceiling cooling =
     (if stash_name a = active_stash then State_Monad.return (Inr GO_AlreadyActive)
      else if cooling then State_Monad.return (Inr (GO_Refused Ref_Cooldown))
      else try_bind (gate_viability e roster a weekly_ceiling) (\<lambda>v. State_Monad.return (Inr
        (case v of
           Via_Viable \<Rightarrow> GO_Proceed \<lparr>incoming_stash = stash_name a\<rparr>
         | Via_WeeklyExhausted \<Rightarrow> GO_Refused Ref_WeeklyExhausted
         | Via_Quarantined \<Rightarrow> GO_Refused Ref_Quarantined))))"

definition forced_target :: "account \<Rightarrow> swap_target" where
  "forced_target a = \<lparr>incoming_stash = stash_name a\<rparr>"

definition cooldown_active :: "nat option \<Rightarrow> nat \<Rightarrow> duration \<Rightarrow> bool" where
  "cooldown_active last_swap_at now cooldown =
     (case last_swap_at of None \<Rightarrow> False | Some t \<Rightarrow> t \<le> now \<and> now - t < cooldown)"

text \<open>A forced swap onto a non-viable account is warned about; only a locked keychain stops it.\<close>

definition warn_if_forcing_onto_non_viable ::
  "'w use_env \<Rightarrow> account list \<Rightarrow> account \<Rightarrow> f64 \<Rightarrow> ('w, unit result) state" where
  "warn_if_forcing_onto_non_viable e roster a weekly_ceiling = do {
     cached \<leftarrow> cached_viability e roster a;
     (case cached of
        Some _ \<Rightarrow> State_Monad.return (Inr ())
      | None \<Rightarrow> do {
          polled \<leftarrow> poll_viability e a weekly_ceiling;
          State_Monad.return (case polled of
              Inl (KeychainLocked op) \<Rightarrow> Inl (KeychainLocked op)
            | _ \<Rightarrow> Inr ()) }) }"

section \<open>The standalone swap\<close>

definition ADOPT_UNKNOWN_FROM :: string where "ADOPT_UNKNOWN_FROM = ''(unknown)''"

definition use_canonical :: "'w use_env \<Rightarrow> ('w, credential option result) state" where
  "use_canonical e = do {
     r \<leftarrow> store_read (ue_io e);
     State_Monad.return (case r of
         Inr canonical \<Rightarrow> Inr (Some canonical)
       | Inl err \<Rightarrow> if err = CredentialNotFound then Inr None else Inl err) }"

definition use_owner :: "'w use_env \<Rightarrow> account list \<Rightarrow> credential option \<Rightarrow> ('w, nat option) state" where
  "use_owner e roster canonical =
     (case canonical of
        Some cred \<Rightarrow> resolve_account_for (ue_io e) roster (ue_claude_json e) cred
      | None \<Rightarrow> resolve_via_display (ue_io e) roster (ue_claude_json e))"

text \<open>The event is logged on a best-effort basis; then the verdict stands.\<close>

definition logged :: "'w use_env \<Rightarrow> event \<Rightarrow> unit result \<Rightarrow> ('w, unit result) state" where
  "logged e ev verdict = State_Monad.bind (ue_emit e ev) (\<lambda>_. State_Monad.return verdict)"

definition use_canary :: "config \<Rightarrow> 'w use_env \<Rightarrow> ('w, unit result) state" where
  "use_canary config e =
     (let roster = cf_roster config; t = cf_tunables config in
      try_bind (run_canary (ue_io e) roster (ue_claude_json e)) (\<lambda>outcome.
        (case outcome of
           CA_NotFound \<Rightarrow> State_Monad.return (Inl CredentialNotFound)
         | CA_Ambiguous n \<Rightarrow> logged e (Ev_CanaryAmbiguous n) (Inl (CredentialAmbiguous n))
         | CA_Drift displayed matched \<Rightarrow>
             let shown = label (roster ! displayed); held = label (roster ! matched);
                 overridden = t_canary_drift_override t
             in logged e (Ev_CanaryDrift shown held overridden) (if \<not> overridden then Inl (CanaryDrift shown held) else Inr ())
         | CA_Inconclusive (IR_NoStashMatch False) \<Rightarrow>
             let overridden = t_canary_nostashmatch_override t
             in logged e (Ev_CanaryUnparseableCanonical overridden)
                  (if \<not> overridden then Inl CanaryUnparseableCanonical else Inr ())
         | CA_Ok \<Rightarrow> State_Monad.return (Inr ())
         | CA_Inconclusive _ \<Rightarrow> State_Monad.return (Inr ()))))"

definition use_probe :: "config \<Rightarrow> bool \<Rightarrow> 'w use_env \<Rightarrow> account \<Rightarrow> ('w, unit result) state" where
  "use_probe config force e active = do {
     let gate = (if t_canary_online_probe (cf_tunables config)
           then if force then PG_Overridden else PG_Armed else PG_Disarmed);
     live \<leftarrow> probe_liveness (ue_poll e) active gate;
     let refused = probe_refuses live (t_canary_online_probe_strict (cf_tunables config));
     let verdict = (if refused then Inl (CanaryProbeNotLive (liveness_as_str live)) else Inr ());
     if probe_alarms live then logged e (Ev_CanaryOnlineProbe (liveness_as_str live) refused) verdict
     else State_Monad.return verdict }"

definition use_lock :: "'w use_env \<Rightarrow> (string \<times> duration) option" where
  "use_lock e = Some (ue_lock_path e, SWAP_LOCK_MAX_WAIT)"

text \<open>A forced adoption: the live credential is gone or nobody's, so nothing is put away.\<close>

definition use_adopt :: "config \<Rightarrow> 'w use_env \<Rightarrow> account \<Rightarrow> account option \<Rightarrow> f64 \<Rightarrow>
    ('w, (string \<times> swap_reason) option result) state" where
  "use_adopt config e target active weekly_ceiling =
     try_bind (warn_if_forcing_onto_non_viable e (cf_roster config) target weekly_ceiling) (\<lambda>_.
     try_bind (adopt_target_locked (ue_io e) (use_lock e) (stash_name target) (ue_claude_json e)) (\<lambda>_.
     State_Monad.return (Inr (Some (case active of Some a \<Rightarrow> label a | None \<Rightarrow> ADOPT_UNKNOWN_FROM, SR_Forced)))))"

text \<open>The choice of a swap that is not an adoption: \<open>None\<close> where the target is already active.\<close>

definition use_choose :: "config \<Rightarrow> bool \<Rightarrow> bool \<Rightarrow> 'w use_env \<Rightarrow> account \<Rightarrow> account \<Rightarrow> f64 \<Rightarrow>
    ('w, (swap_target \<times> swap_reason) option result) state" where
  "use_choose config force cooling e target active weekly_ceiling =
     (if force then
        try_bind (warn_if_forcing_onto_non_viable e (cf_roster config) target weekly_ceiling) (\<lambda>_.
        State_Monad.return (Inr (Some (forced_target target, SR_Forced))))
      else
        try_bind (resolve_gate e (cf_roster config) target (stash_name active) weekly_ceiling cooling) (\<lambda>gate.
        State_Monad.return (case gate of
            GO_Proceed st \<Rightarrow> Inr (Some (st, SR_Manual))
          | GO_AlreadyActive \<Rightarrow> Inr None
          | GO_Refused Ref_WeeklyExhausted \<Rightarrow> Inl (UseError (UseTargetWeeklyExhausted (label target)))
          | GO_Refused Ref_Cooldown \<Rightarrow> Inl (UseError UseCooldownActive)
          | GO_Refused Ref_Quarantined \<Rightarrow> Inl (UseError (UseTargetQuarantined (label target))))))"

text \<open>The guarded swap: the canary, the probe of the outgoing account, the swap itself.\<close>

definition use_guarded_swap :: "config \<Rightarrow> bool \<Rightarrow> 'w use_env \<Rightarrow> account \<Rightarrow> swap_target \<Rightarrow> ('w, swap_report result) state" where
  "use_guarded_swap config force e active st =
     try_bind (use_canary config e) (\<lambda>_.
     try_bind (use_probe config force e active) (\<lambda>_.
     swap_locked (ue_io e) (use_lock e) (stash_name active) (incoming_stash st) (ue_claude_json e)))"

definition use_swap :: "config \<Rightarrow> bool \<Rightarrow> bool \<Rightarrow> 'w use_env \<Rightarrow> account \<Rightarrow> account option \<Rightarrow> f64 \<Rightarrow>
    ('w, (string \<times> swap_reason) option result) state" where
  "use_swap config force cooling e target active weekly_ceiling =
     (case active of
        None \<Rightarrow> State_Monad.return (Inl (UseError ActiveAccountUnresolved))
      | Some a \<Rightarrow>
          try_bind (use_choose config force cooling e target a weekly_ceiling) (\<lambda>choice.
          (case choice of
             None \<Rightarrow> State_Monad.return (Inr None)
           | Some (st, reason) \<Rightarrow>
               try_bind (use_guarded_swap config force e a st) (\<lambda>_.
               State_Monad.return (Inr (Some (label a, reason)))))))"

definition use_report :: "'w use_env \<Rightarrow> string \<Rightarrow> string \<Rightarrow> swap_reason \<Rightarrow> ('w, unit result) state" where
  "use_report e from_label to_label reason =
     try_bind (ue_emit e (Ev_Swap from_label to_label reason (Some 0) None)) (\<lambda>_.
     State_Monad.bind (ue_notify e) (\<lambda>_. State_Monad.return (Inr ())))"

definition run_use :: "config \<Rightarrow> string \<Rightarrow> bool \<Rightarrow> bool \<Rightarrow> 'w use_env \<Rightarrow> ('w, unit result) state" where
  "run_use config query force cooling e =
     (case resolve_target (cf_roster config) query of
        Inl err \<Rightarrow> State_Monad.return (Inl err)
      | Inr t \<Rightarrow>
          let target = cf_roster config ! t in
          try_bind (use_canonical e) (\<lambda>canonical.
          State_Monad.bind (use_owner e (cf_roster config) canonical) (\<lambda>owner.
            let active = map_option (\<lambda>i. cf_roster config ! i) owner;
                weekly_ceiling = weekly_effective_ceiling (f_div (f_of_nat (t_weekly_ceiling (cf_tunables config))) (Fin 100));
                adopt = (force \<and> (canonical = None \<or> active = None))
            in try_bind (if adopt then use_adopt config e target active weekly_ceiling
                         else use_swap config force cooling e target active weekly_ceiling) (\<lambda>dn.
               (case dn of
                  None \<Rightarrow> State_Monad.return (Inr ())
                | Some (from_label, reason) \<Rightarrow> use_report e from_label (label target) reason)))))"

section \<open>Delegation to a running daemon\<close>

text \<open>\<open>out_of_capacity_phrase\<close> is the status display's wording, a parameter.\<close>

definition next_swap_target :: "(int option \<Rightarrow> int \<Rightarrow> string) \<Rightarrow> next_swap_view option \<Rightarrow> int \<Rightarrow>
    (string \<times> next_swap_reason option) result" where
  "next_swap_target out_of_capacity_phrase nxt now =
     (case nxt of
        Some (NS_Target to_label reason) \<Rightarrow> Inr (to_label, reason)
      | Some (NS_NoViableTarget cause resets_at) \<Rightarrow> Inl (UseError (UseNextNoViableTarget
          (case cause of None \<Rightarrow> ''no viable target'' | Some _ \<Rightarrow> out_of_capacity_phrase resets_at now)))
      | Some NS_AwaitingData \<Rightarrow> Inl (UseError (UseNextUnresolved ''the daemon has not polled the rotation yet''))
      | None \<Rightarrow> Inl (UseError (UseNextUnresolved ''the daemon published no next-swap candidate'')))"

fun ack_falls_back_to_standalone :: "swap_ack \<Rightarrow> bool" where
  "ack_falls_back_to_standalone (SwapRejected SwRej_NoActiveAccount) = True"
| "ack_falls_back_to_standalone _ = False"

fun swap_rejection_error :: "swap_rejection \<Rightarrow> string \<Rightarrow> error" where
  "swap_rejection_error SwRej_UnknownTarget query = UseError (UseTargetNotFound query)"
| "swap_rejection_error SwRej_AmbiguousTarget query = UseError (UseTargetAmbiguous query 2)"
| "swap_rejection_error SwRej_Quarantined query = UseError (UseTargetQuarantined query)"
| "swap_rejection_error SwRej_WeeklyExhausted query = UseError (UseTargetWeeklyExhausted query)"
| "swap_rejection_error SwRej_Cooldown query = UseError UseCooldownActive"
| "swap_rejection_error SwRej_NoActiveAccount query = UseError ActiveAccountUnresolved"
| "swap_rejection_error SwRej_KeychainLocked query = KeychainLocked ''read''"
| "swap_rejection_error SwRej_SwapLockBusy query = SwapLockBusy"
| "swap_rejection_error SwRej_Failed query = UseError DaemonSwapFailed"

fun report_swap_ack :: "swap_ack \<Rightarrow> string \<Rightarrow> unit result" where
  "report_swap_ack (SwapAccepted _ _) query = Inr ()"
| "report_swap_ack (SwapAlreadyActive _) query = Inr ()"
| "report_swap_ack (SwapRejected reason) query = Inl (swap_rejection_error reason query)"

text \<open>
  The host the command runs on: the configuration, the last swap the event log records, the private
  support directory and paths, the status and swap requests to the daemon (\<open>None\<close> where none listens), the clock.
\<close>

record 'w use_host =
  uh_config :: "('w, config result) state"
  uh_last_swap_at :: "'w \<Rightarrow> nat option"
  uh_prepare :: "('w, unit result) state"
  uh_query_next :: "('w, status_response result) state"
  uh_request_swap :: "string \<Rightarrow> bool \<Rightarrow> ('w, swap_ack option result) state"
  uh_open_log :: "('w, unit result) state"
  uh_now :: "'w \<Rightarrow> nat"
  uh_now_secs :: "'w \<Rightarrow> int"
  uh_phrase :: "int option \<Rightarrow> int \<Rightarrow> string"

definition resolve_next_target :: "'w use_host \<Rightarrow> ('w, string result) state" where
  "resolve_next_target h =
     try_bind (uh_query_next h) (\<lambda>response. do {
       now \<leftarrow> sget (uh_now_secs h);
       State_Monad.return (map_sum id fst (next_swap_target (uh_phrase h) (rs_next_swap response) now)) })"

definition use_account :: "'w use_host \<Rightarrow> 'w use_env \<Rightarrow> string option \<Rightarrow> bool \<Rightarrow> bool \<Rightarrow> ('w, unit result) state" where
  "use_account h e query force next_flag =
     (if query = None \<and> \<not> next_flag then State_Monad.return (Inl (UseError UseTargetRequired))
      else try_bind (uh_config h) (\<lambda>config.
        try_bind (State_Monad.return (require_roster config)) (\<lambda>_. do {
          cooling \<leftarrow> (if force then State_Monad.return False else
            sget (\<lambda>w. cooldown_active (uh_last_swap_at h w) (uh_now h w)
              (from_secs (t_cooldown_secs (cf_tunables config)))));
          try_bind (uh_prepare h) (\<lambda>_.
          try_bind (case query of Some target \<Rightarrow> State_Monad.return (Inr target) | None \<Rightarrow> resolve_next_target h) (\<lambda>q.
          try_bind (uh_request_swap h q force) (\<lambda>ack.
            if (case ack of None \<Rightarrow> True | Some a \<Rightarrow> ack_falls_back_to_standalone a)
            then try_bind (uh_open_log h) (\<lambda>_. run_use config q force cooling e)
            else State_Monad.return (report_swap_ack (the ack) q)))) })))"

section \<open>What the command does to the stores\<close>

context vault
begin

lemma t_adopt_ok:
  "triple (holds C S) (adopt_target io inc f) (\<lambda>r s. is_ok r \<longrightarrow>
     (\<exists>i. S inc = Some i \<and> canon s = Some (stashed_credential i)))" (is "triple _ _ ?Q")
  unfolding adopt_target_def
proof (rule try_sread)
  fix i
  assume i: "S inc = Some i"
  have inst: "triple (holds C S) (try_bind (store_write io (stashed_credential i)) (\<lambda>_. finish_swap io f i)) ?Q"
    by (rule triple_weaken [OF t_install]) (use i in auto)
  show "triple (holds C S) (State_Monad.bind (store_read io) (\<lambda>probe. case probe of
      Inl err \<Rightarrow> if err = CredentialNotFound
        then try_bind (store_write io (stashed_credential i)) (\<lambda>_. finish_swap io f i) else State_Monad.return (Inl err)
    | Inr _ \<Rightarrow> try_bind (store_write io (stashed_credential i)) (\<lambda>_. finish_swap io f i))) ?Q"
  proof (rule triple_bind [OF t_read])
    fix r :: "credential result"
    have "triple (holds C S) (case r of
      Inl err \<Rightarrow> if err = CredentialNotFound
        then try_bind (store_write io (stashed_credential i)) (\<lambda>_. finish_swap io f i) else State_Monad.return (Inl err)
    | Inr _ \<Rightarrow> try_bind (store_write io (stashed_credential i)) (\<lambda>_. finish_swap io f i)) ?Q"
      by (intro triple_case_sum triple_if inst) (simp add: triple_def)
    then show "triple (\<lambda>s. holds C S s \<and> (\<forall>c. r = Inr c \<longrightarrow> C = Some c)) (case r of
      Inl err \<Rightarrow> if err = CredentialNotFound
        then try_bind (store_write io (stashed_credential i)) (\<lambda>_. finish_swap io f i) else State_Monad.return (Inl err)
    | Inr _ \<Rightarrow> try_bind (store_write io (stashed_credential i)) (\<lambda>_. finish_swap io f i)) ?Q"
      by (rule triple_pre) simp
  qed
qed simp

end

text \<open>
  The collaborators beside the stores leave the stores alone: the status request, the poller (which only
  reads a credential to present it), the event log and the notifier.
\<close>

locale use_client = vault "ue_io e" canon stash
  for e :: "'w use_env" and canon :: "'w \<Rightarrow> credential option" and stash :: "'w \<Rightarrow> string \<Rightarrow> stashed_account option" +
  assumes t_status: "keeps (holds C S) (ue_status e)"
    and t_poll: "keeps (holds C S) (ue_poll e a b)"
    and t_emit: "keeps (holds C S) (ue_emit e ev)"
    and t_notify: "keeps (holds C S) (ue_notify e)"

text \<open>The effect of the command: a safe swap, or the forced adoption of the target's stashed token.\<close>

definition use_effect ::
  "bool \<Rightarrow> string \<Rightarrow> credential option \<Rightarrow> (string \<Rightarrow> stashed_account option) \<Rightarrow>
   credential option \<Rightarrow> (string \<Rightarrow> stashed_account option) \<Rightarrow> bool" where
  "use_effect force inc C S C' S' \<longleftrightarrow>
     (\<exists>out. safe_swap out inc C S C' S') \<or>
     (force \<and> S' = S \<and> (\<exists>i. S inc = Some i \<and> C' = Some (stashed_credential i)))"

lemma use_effect_refl: "use_effect force inc C S C S"
  using safe_swap_refl unfolding use_effect_def by blast

context use_client
begin

lemma t_canary_keeps: "keeps (holds C S) (run_canary (ue_io e) roster f)"
  by (rule triple_weaken [OF t_canary [where C = C and S = S]]) simp_all

lemma t_by_token: "keeps (holds C S) (resolve_by_token (ue_io e) roster c i)"
  by (simp add: triple_def holds_def resolve_by_token_pure)

lemma t_via_display_keeps: "keeps (holds C S) (resolve_via_display (ue_io e) roster f)"
  by (rule triple_weaken [OF t_via_display [where C = C and S = S]]) simp_all

lemma t_resolve: "keeps (holds C S) (resolve_account_for (ue_io e) roster f c)"
  unfolding resolve_account_for_def
  by (intro keeps_bind t_by_token triple_case_option keeps_return t_via_display_keeps)

lemma t_cached: "keeps (holds C S) (cached_viability e roster a)"
  unfolding cached_viability_def by (intro keeps_bind t_status keeps_return)

lemma t_viability: "keeps (holds C S) (poll_viability e a line)"
  unfolding poll_viability_def by (intro keeps_bind t_poll keeps_return)

lemma t_gate: "keeps (holds C S) (resolve_gate e roster a active line b)"
proof -
  have "keeps (holds C S) (gate_viability e roster a line)"
    unfolding gate_viability_def by (intro keeps_bind t_cached triple_case_option keeps_return t_viability)
  then show ?thesis
    unfolding resolve_gate_def by (intro triple_if keeps_return) (rule triple_try, auto simp: triple_def)
qed

lemma t_warn: "keeps (holds C S) (warn_if_forcing_onto_non_viable e roster a line)"
  unfolding warn_if_forcing_onto_non_viable_def
  by (intro keeps_bind t_cached triple_case_option keeps_return t_viability)

lemma t_use_canonical: "keeps (holds C S) (use_canonical e)"
  unfolding use_canonical_def by (rule triple_bind [OF t_read]) (simp add: triple_def)

lemma t_use_owner: "keeps (holds C S) (use_owner e roster canonical)"
  unfolding use_owner_def by (intro triple_case_option t_resolve t_via_display_keeps)

lemma t_logged: "keeps (holds C S) (logged e ev v)"
  unfolding logged_def by (intro keeps_bind t_emit keeps_return)

lemma t_use_canary: "keeps (holds C S) (use_canary config e)"
proof -
  have "keeps (holds C S) (case oc of
           CA_NotFound \<Rightarrow> State_Monad.return (Inl CredentialNotFound)
         | CA_Ambiguous n \<Rightarrow> logged e (Ev_CanaryAmbiguous n) (Inl (CredentialAmbiguous n))
         | CA_Drift displayed matched \<Rightarrow> logged e (f displayed matched) (g displayed matched)
         | CA_Inconclusive (IR_NoStashMatch False) \<Rightarrow> logged e ev v
         | CA_Ok \<Rightarrow> State_Monad.return (Inr ())
         | CA_Inconclusive _ \<Rightarrow> State_Monad.return (Inr ()))" for oc f g ev v
    by (simp add: t_logged keeps_return split: canary_outcome.split inconclusive_reason.split bool.split)
  then show ?thesis unfolding use_canary_def Let_def
    by (intro triple_try [OF t_canary_keeps]) (auto simp: triple_def)
qed

lemma t_use_probe: "keeps (holds C S) (use_probe config force e a)"
proof -
  have "keeps (holds C S) (probe_liveness (ue_poll e) a gate)" for gate
    unfolding probe_liveness_def by (cases gate) (auto intro: keeps_bind t_poll keeps_return)
  then show ?thesis unfolding use_probe_def Let_def by (intro keeps_bind triple_if t_logged keeps_return)
qed

lemma t_use_choose:
  "triple (holds C S) (use_choose config force cooling e target active line) (\<lambda>r s. holds C S s \<and>
     (\<forall>st reason. r = Inr (Some (st, reason)) \<longrightarrow> incoming_stash st = stash_name target))"
proof -
  have gate: "triple (holds C S) (resolve_gate e roster target act line cooling)
      (\<lambda>r s. holds C S s \<and> (\<forall>st. r = Inr (GO_Proceed st) \<longrightarrow> incoming_stash st = stash_name target))" for roster act
  proof (rule triple_conj [OF t_gate])
    show "triple (holds C S) (resolve_gate e roster target act line cooling)
      (\<lambda>r s. \<forall>st. r = Inr (GO_Proceed st) \<longrightarrow> incoming_stash st = stash_name target)"
      by (auto simp: triple_def resolve_gate_def run_try_bind split_beta split: sum.split viability.split)
  qed
  show ?thesis unfolding use_choose_def
  proof (rule triple_if)
    show "triple (holds C S) (try_bind (warn_if_forcing_onto_non_viable e (cf_roster config) target line)
        (\<lambda>_. State_Monad.return (Inr (Some (forced_target target, SR_Forced))))) (\<lambda>r s. holds C S s \<and>
     (\<forall>st reason. r = Inr (Some (st, reason)) \<longrightarrow> incoming_stash st = stash_name target))"
      by (rule triple_try [OF t_warn]) (auto simp: triple_def forced_target_def)
    show "triple (holds C S) (try_bind (resolve_gate e (cf_roster config) target (stash_name active) line cooling)
        (\<lambda>gate. State_Monad.return (case gate of
            GO_Proceed st \<Rightarrow> Inr (Some (st, SR_Manual))
          | GO_AlreadyActive \<Rightarrow> Inr None
          | GO_Refused Ref_WeeklyExhausted \<Rightarrow> Inl (UseError (UseTargetWeeklyExhausted (label target)))
          | GO_Refused Ref_Cooldown \<Rightarrow> Inl (UseError UseCooldownActive)
          | GO_Refused Ref_Quarantined \<Rightarrow> Inl (UseError (UseTargetQuarantined (label target))))))
     (\<lambda>r s. holds C S s \<and> (\<forall>st reason. r = Inr (Some (st, reason)) \<longrightarrow> incoming_stash st = stash_name target))"
      by (rule triple_try [OF gate]) (auto simp: triple_def split: gate_outcome.splits refusal.splits)
  qed
qed

lemma t_guarded_swap:
  "triple (holds C S) (use_guarded_swap config force e active st) (\<lambda>r s.
     safe_swap (stash_name active) (incoming_stash st) C S (canon s) (stash s) \<and>
     (is_ok r \<longrightarrow> (\<exists>i. S (incoming_stash st) = Some i \<and> canon s = Some (stashed_credential i))))"
  (is "triple _ _ (\<lambda>r s. ?Q r (canon s) (stash s))")
proof -
  have "triple (holds C S) (swap_locked (ue_io e) lock (stash_name active) (incoming_stash st) f)
      (\<lambda>r s. ?Q r (canon s) (stash s))" for lock f
    unfolding swap_locked_def
    by (rule t_with_lock, rule triple_conj [OF t_swap], rule triple_weaken [OF t_swap_ok])
      (auto simp: safe_swap_refl)
  then show ?thesis unfolding use_guarded_swap_def
    by (intro triple_try [OF t_use_canary] triple_try [OF t_use_probe]) (auto simp: holds_def safe_swap_refl)
qed

lemma t_use_report: "keeps (holds C S) (use_report e a b reason)"
  unfolding use_report_def
  by (rule triple_try [OF t_emit]) (auto intro: keeps_bind t_notify keeps_return)

text \<open>The guarantee of the command, over the target's stash \<open>inc\<close>.\<close>

definition use_done :: "bool \<Rightarrow> string \<Rightarrow> credential option \<Rightarrow> (string \<Rightarrow> stashed_account option) \<Rightarrow> bool \<Rightarrow> 'w \<Rightarrow> bool" where
  "use_done force inc C S swapped s \<longleftrightarrow> use_effect force inc C S (canon s) (stash s) \<and>
     (swapped \<longrightarrow> (\<exists>i. S inc = Some i \<and> canon s = Some (stashed_credential i)))"

lemma use_done_stop: "holds C S s \<Longrightarrow> use_done force inc C S False s"
  by (auto simp: use_done_def holds_def use_effect_refl)

lemma t_use_adopt:
  "triple (holds C S) (use_adopt config e target active line)
     (\<lambda>r s. use_done True (stash_name target) C S (is_ok r) s \<and> r \<noteq> Inr None)"
proof -
  have adopt: "triple (holds C S) (adopt_target_locked (ue_io e) lock (stash_name target) f)
      (\<lambda>r s. use_done True (stash_name target) C S (is_ok r) s)" for lock f
    unfolding adopt_target_locked_def
  proof -
    let ?Q = "\<lambda>(r :: swap_report result) C' S'. use_effect True (stash_name target) C S C' S' \<and>
       (is_ok r \<longrightarrow> (\<exists>i. S (stash_name target) = Some i \<and> C' = Some (stashed_credential i)))"
    have "triple (holds C S) (with_lock (ue_io e) lock (adopt_target (ue_io e) (stash_name target) f))
        (\<lambda>r s. ?Q r (canon s) (stash s))"
    proof (rule t_with_lock)
      show "triple (holds C S) (adopt_target (ue_io e) (stash_name target) f) (\<lambda>r s. ?Q r (canon s) (stash s))"
        using triple_conj [OF t_adopt t_adopt_ok] by (rule triple_weaken) (auto simp: use_effect_def safe_swap_refl)
    qed (simp add: use_effect_refl)
    then show "triple (holds C S) (with_lock (ue_io e) lock (adopt_target (ue_io e) (stash_name target) f))
        (\<lambda>r s. use_done True (stash_name target) C S (is_ok r) s)"
      by (simp add: use_done_def)
  qed
  show ?thesis unfolding use_adopt_def
    by (rule triple_try [OF t_warn], simp add: use_done_stop, rule triple_try [OF adopt])
      (auto simp: triple_def)
qed

lemma t_use_swap:
  "triple (holds C S) (use_swap config force cooling e target active line)
     (\<lambda>r s. use_done force (stash_name target) C S (is_ok r \<and> r \<noteq> Inr None) s \<and>
       (r = Inr None \<longrightarrow> holds C S s))"
proof (cases active)
  case None
  then show ?thesis by (auto simp: use_swap_def triple_def use_done_stop)
next
  case (Some a)
  have swap: "triple (holds C S) (use_guarded_swap config force e a st)
      (\<lambda>r s. use_done force (stash_name target) C S (is_ok r) s)" if "incoming_stash st = stash_name target" for st
    by (rule triple_weaken [OF t_guarded_swap]) (auto simp: use_done_def use_effect_def that)
  let ?Q = "\<lambda>(r :: (string \<times> swap_reason) option result) s.
      use_done force (stash_name target) C S (is_ok r \<and> r \<noteq> Inr None) s \<and> (r = Inr None \<longrightarrow> holds C S s)"
  have rest: "triple (holds C S) (case choice of None \<Rightarrow> State_Monad.return (Inr None)
      | Some (st, reason) \<Rightarrow> try_bind (use_guarded_swap config force e a st) (\<lambda>_.
          State_Monad.return (Inr (Some (label a, reason))))) ?Q"
    if "\<forall>st reason. choice = Some (st, reason) \<longrightarrow> incoming_stash st = stash_name target"
    for choice :: "(swap_target \<times> swap_reason) option"
  proof (cases choice)
    case None
    then show ?thesis by (auto simp: triple_def use_done_stop)
  next
    case (Some c)
    obtain st reason where c: "c = (st, reason)" by (cases c)
    have "triple (holds C S) (try_bind (use_guarded_swap config force e a st) (\<lambda>_.
          State_Monad.return (Inr (Some (label a, reason))))) ?Q"
      by (rule triple_try [OF swap]) (use that Some c in \<open>auto simp: triple_def\<close>)
    then show ?thesis by (simp add: Some c)
  qed
  show ?thesis unfolding use_swap_def Some option.case
  proof (rule triple_try [OF t_use_choose])
    show "triple (\<lambda>s. holds C S s \<and> (\<forall>st reason. (Inr choice :: (swap_target \<times> swap_reason) option result) = Inr (Some (st, reason)) \<longrightarrow>
          incoming_stash st = stash_name target)) (case choice of None \<Rightarrow> State_Monad.return (Inr None)
      | Some (st, reason) \<Rightarrow> try_bind (use_guarded_swap config force e a st) (\<lambda>_.
          State_Monad.return (Inr (Some (label a, reason))))) ?Q" for choice
    proof (cases "\<forall>st reason. choice = Some (st, reason) \<longrightarrow> incoming_stash st = stash_name target")
      case True
      then show ?thesis by (rule triple_pre [OF rest]) simp
    next
      case False
      then show ?thesis by (auto simp: triple_def)
    qed
  qed (auto simp: use_done_stop)
qed

lemma t_run_use:
  "triple (holds C S) (run_use config query force cooling e) (\<lambda>r s.
     case resolve_target (cf_roster config) query of
       Inl err \<Rightarrow> r = Inl err \<and> holds C S s
     | Inr t \<Rightarrow> use_effect force (stash_name (cf_roster config ! t)) C S (canon s) (stash s) \<and>
         (is_ok r \<longrightarrow> holds C S s \<or> (\<exists>i. S (stash_name (cf_roster config ! t)) = Some i \<and>
            canon s = Some (stashed_credential i))))"
  (is "triple _ _ ?Q")
proof (cases "resolve_target (cf_roster config) query")
  case (Inl err)
  then show ?thesis by (simp add: run_use_def triple_def)
next
  case (Inr t)
  let ?target = "cf_roster config ! t"
  have step: "triple (holds C S) (try_bind (if adopt then use_adopt config e ?target active line
        else use_swap config force cooling e ?target active line) (\<lambda>dn. case dn of
          None \<Rightarrow> State_Monad.return (Inr ())
        | Some (from_label, reason) \<Rightarrow> use_report e from_label (label ?target) reason)) ?Q"
    if "adopt \<Longrightarrow> force" for adopt active line
  proof (rule triple_try [where R = "\<lambda>r s. use_done force (stash_name ?target) C S (is_ok r \<and> r \<noteq> Inr None) s \<and>
      (r = Inr None \<longrightarrow> holds C S s)"])
    show "triple (holds C S) (if adopt then use_adopt config e ?target active line
        else use_swap config force cooling e ?target active line)
      (\<lambda>r s. use_done force (stash_name ?target) C S (is_ok r \<and> r \<noteq> Inr None) s \<and> (r = Inr None \<longrightarrow> holds C S s))"
    proof (rule triple_if)
      assume adopt
      with that have force by blast
      then show "triple (holds C S) (use_adopt config e ?target active line)
          (\<lambda>r s. use_done force (stash_name ?target) C S (is_ok r \<and> r \<noteq> Inr None) s \<and> (r = Inr None \<longrightarrow> holds C S s))"
        by (intro triple_weaken [OF t_use_adopt]) auto
    qed (rule t_use_swap)
    show "triple (\<lambda>s. use_done force (stash_name ?target) C S (is_ok (Inr dn :: (string \<times> swap_reason) option result) \<and> Inr dn \<noteq> (Inr None :: (string \<times> swap_reason) option result)) s \<and>
        (Inr dn = (Inr None :: (string \<times> swap_reason) option result) \<longrightarrow> holds C S s)) (case dn of
          None \<Rightarrow> State_Monad.return (Inr ())
        | Some (from_label, reason) \<Rightarrow> use_report e from_label (label ?target) reason) ?Q" for dn
    proof (cases dn)
      case None
      then show ?thesis by (auto simp: triple_def Inr use_done_def)
    next
      case (Some d)
      have keep: "keeps (use_done force (stash_name ?target) C S True) (use_report e a b reason)" for a b reason
      proof -
        have "canon (exec (use_report e a b reason) w) = canon w \<and> stash (exec (use_report e a b reason) w) = stash w" for w
          using t_use_report [where C = "canon w" and S = "stash w"] by (simp add: triple_def holds_def)
        then show ?thesis by (simp add: triple_def use_done_def)
      qed
      show ?thesis unfolding Some
        by (cases d, simp, rule triple_weaken [OF keep]) (auto simp: Inr use_done_def)
    qed
  qed (auto simp: Inr use_done_def)
  note step' = step [unfolded Inr sum.case]
  show ?thesis unfolding run_use_def Inr sum.case Let_def
    by (rule triple_try [OF t_use_canonical [where C = C and S = S]], simp add: use_effect_refl holds_def,
        rule triple_bind_keep [OF t_use_owner], rule step', simp)
qed

text \<open>An unforced command onto a target that is refused leaves both stores as they are.\<close>

definition target_refused :: "bool \<Rightarrow> account list \<Rightarrow> account \<Rightarrow> bool" where
  "target_refused cooling roster target \<longleftrightarrow> cooling \<or>
     (\<forall>w. \<exists>response v. res (ue_status e) w = Some response \<and>
        cached_viability_for response roster (label target) = Some v \<and> v \<noteq> Via_Viable)"

lemma gate_refused:
  assumes "target_refused cooling roster target"
  shows "res (resolve_gate e roster target act line cooling) w = Inr (GO_Proceed st) \<Longrightarrow> False"
proof -
  assume go: "res (resolve_gate e roster target act line cooling) w = Inr (GO_Proceed st)"
  show False
  proof (cases "cooling \<or> stash_name target = act")
    case True
    then show ?thesis using go by (auto simp: resolve_gate_def split: if_splits)
  next
    case False
    then obtain response v where "res (ue_status e) w = Some response"
      "cached_viability_for response roster (label target) = Some v" "v \<noteq> Via_Viable"
      using assms unfolding target_refused_def by blast
    then show ?thesis using go False
      by (cases v) (simp_all add: resolve_gate_def gate_viability_def cached_viability_def run_try_bind split_beta)
  qed
qed

lemma t_run_use_refused:
  assumes ref: "target_refused cooling (cf_roster config) (cf_roster config ! t)"
    and t: "resolve_target (cf_roster config) query = Inr t"
  shows "keeps (holds C S) (run_use config query False cooling e)"
proof -
  let ?target = "cf_roster config ! t"
  have choose: "triple (holds C S) (use_choose config False cooling e ?target a line)
      (\<lambda>r s. holds C S s \<and> (\<forall>c. r = Inr c \<longrightarrow> c = None))" for a line
    unfolding use_choose_def if_False
  proof (rule triple_try [where R = "\<lambda>r s. holds C S s \<and> (\<forall>st. r \<noteq> Inr (GO_Proceed st))"])
    show "triple (holds C S) (resolve_gate e (cf_roster config) ?target (stash_name a) line cooling)
        (\<lambda>r s. holds C S s \<and> (\<forall>st. r \<noteq> Inr (GO_Proceed st)))"
      using t_gate gate_refused [OF ref] unfolding triple_def by blast
  qed (auto simp: triple_def split: gate_outcome.splits refusal.splits)
  have swap: "triple (holds C S) (use_swap config False cooling e ?target active line)
      (\<lambda>r s. holds C S s \<and> (\<forall>c. r = Inr c \<longrightarrow> c = None))" for active line
  proof (cases active)
    case (Some a)
    show ?thesis unfolding use_swap_def Some option.case
      by (rule triple_try [OF choose]) (auto simp: triple_def split: option.splits)
  qed (simp add: use_swap_def triple_def)
  have "keeps (holds C S) (try_bind (use_swap config False cooling e ?target active line) (\<lambda>dn. case dn of
          None \<Rightarrow> State_Monad.return (Inr ())
        | Some (from_label, reason) \<Rightarrow> use_report e from_label (label ?target) reason))" for active line
    by (rule triple_try [OF swap]) (auto simp: triple_def split: option.splits)
  then show ?thesis unfolding run_use_def t sum.case Let_def simp_thms if_False
    by (intro triple_try [OF t_use_canonical [where C = C and S = S]] triple_bind_keep [OF t_use_owner]) simp_all
qed

end

section \<open>The gate and the daemon\<close>

lemma filter_single:
  assumes "distinct (map f xs)" "i < length xs"
  shows "filter (\<lambda>x. f x = f (xs ! i)) xs = [xs ! i]"
  using assms
proof (induction xs arbitrary: i)
  case (Cons x xs)
  show ?case
  proof (cases i)
    case 0
    have "\<forall>y \<in> set xs. f y \<noteq> f x" using Cons.prems(1) by (metis distinct.simps(2) imageI list.map(2) set_map)
    then show ?thesis using 0 by (simp add: filter_empty_conv)
  next
    case (Suc k)
    then have "f (xs ! k) \<in> f ` set xs" using Cons.prems(2) by simp
    then have "f x \<noteq> f ((x # xs) ! i)" using Cons.prems(1) Suc by auto
    then show ?thesis using Cons Suc by simp
  qed
qed simp

text \<open>The line a client finds for an account whose label is its own.\<close>

lemma published_cached:
  assumes "distinct (map label (c_roster c))" "i < length (c_roster c)"
  shows "cached_viability_for (status_response_of (snapshot c act readings now_secs blind_at d)) (c_roster c) (acc_label c i)
    = cached_viability_of (published c act readings now_secs blind_at d ! i)"
proof -
  let ?lines = "published c act readings now_secs blind_at d"
  have labels: "map sl_label ?lines = map label (c_roster c)"
    by (rule nth_equalityI) (simp_all add: published_line(1) [OF _ refl])
  have "filter (\<lambda>a. label a = acc_label c i) (c_roster c) = [c_roster c ! i]"
    using filter_single [OF assms] by simp
  moreover have "filter (\<lambda>l. sl_label l = acc_label c i) ?lines = [?lines ! i]"
    using filter_single [of sl_label ?lines i] assms labels published_line(1) [OF assms(2) refl] by simp
  ultimately show ?thesis by (simp add: cached_viability_for_def)
qed

lemma decision_reading_nth:
  "i < length (c_roster c) \<Longrightarrow> decision_readings c act d ! i =
     (if act = Some i \<or> account_enabled (c_roster c ! i) \<and> \<not> quarantined (hlth d i) then last_reading (acct d i) else None)"
  by (simp add: decision_readings_def)

section \<open>In-memory collaborators\<close>

definition fake_use_env :: "fake_world io \<Rightarrow> status_response option \<Rightarrow> polled_reading result \<Rightarrow> fake_world use_env" where
  "fake_use_env io response polled = \<lparr>ue_io = io, ue_status = State_Monad.return response,
     ue_poll = (\<lambda>_ _. State_Monad.return polled), ue_emit = (\<lambda>_. State_Monad.return (Inr ())),
     ue_notify = State_Monad.return (Inr ()), ue_claude_json = ''file'', ue_lock_path = ''lock''\<rparr>"

lemma fake_client:
  assumes "vault io canon stash"
  shows "use_client (fake_use_env io response polled) canon stash"
proof (rule use_client.intro)
  show "vault (ue_io (fake_use_env io response polled)) canon stash" using assms by (simp add: fake_use_env_def)
qed (unfold_locales, simp_all add: fake_use_env_def keeps_return)

interpretation fake_use: use_client "fake_use_env (fake_io prs rnd) response polled" fake_slot fake_items
  for prs rnd response polled
  by (rule fake_client) (rule fake.vault_axioms)

section \<open>Properties\<close>



text \<open>
  A refusal is a refusal: an unforced command onto a target that the running daemon publishes as
  quarantined or exhausted, or inside the cooldown, changes neither the live credential nor any stash.
\<close>

theorem use_refusal_changes_nothing:
  assumes "use_client e canon stash" "resolve_target (cf_roster config) query = Inr t"
    and "cooling \<or> (\<forall>w. \<exists>response v. res (ue_status e) w = Some response \<and>
      cached_viability_for response (cf_roster config) (label (cf_roster config ! t)) = Some v \<and> v \<noteq> Via_Viable)"
  shows "canon (exec (run_use config query False cooling e) w) = canon w \<and>
    stash (exec (run_use config query False cooling e) w) = stash w"
proof -
  have "use_client.target_refused e cooling (cf_roster config) (cf_roster config ! t)"
    using assms(3) by (simp add: use_client.target_refused_def [OF assms(1)])
  from use_client.t_run_use_refused [OF assms(1) this assms(2), where C = "canon w" and S = "stash w"]
  show ?thesis by (simp add: triple_def vault.holds_def [OF use_client.axioms(1) [OF assms(1)]])
qed

theorem use_refusal_changes_nothing_witness:
  "fake_slot (exec (run_use (config_default\<lparr>cf_roster := [\<lparr>account_uuid = ''inc'', label = ''one'', account_enabled = True\<rparr>]\<rparr>)
      ''one'' False True (fake_use_env sample_io None (Inl UsageUnauthorized))) sample_world) = Some [9]"
  using use_refusal_changes_nothing [OF fake_client [where response = None and polled = "Inl UsageUnauthorized", OF sample_vault], where query = "''one''" and t = 0 and cooling = True
      and w = sample_world and config = "config_default\<lparr>cf_roster := [\<lparr>account_uuid = ''inc'', label = ''one'', account_enabled = True\<rparr>]\<rparr>"]
  by (simp add: resolve_target_def sample_world_def)

text \<open>
  C24: The command line and the daemon judge alike. Where the labels are distinct, the viability a client
  reads off the published status is the verdict the daemon itself gives on an unforced swap command for
  that account out of the cooldown: viable is accepted, quarantined and exhausted are rejected as such.
\<close>

theorem published_gate_agrees:
  assumes "distinct (map label (c_roster c))" "i < length (c_roster c)" "i \<noteq> j"
    and "cached_viability_for (status_response_of (snapshot c (Some j) (decision_readings c (Some j) d) now_secs blind_at d))
      (c_roster c) (acc_label c i) = Some v"
  shows "swap_command_verdict i (Some j) (quarantined (hlth d i)) (weekly_is_exhausted c (last_reading (acct d i))) False False
    = (case v of Via_Viable \<Rightarrow> SV_Swap | Via_Quarantined \<Rightarrow> SV_Reject SwRej_Quarantined
       | Via_WeeklyExhausted \<Rightarrow> SV_Reject SwRej_WeeklyExhausted)"
proof -
  let ?l = "published c (Some j) (decision_readings c (Some j) d) now_secs blind_at d ! i"
  let ?r = "decision_readings c (Some j) d ! i"
  have cached: "cached_viability_of ?l = Some v" using assms(4) published_cached [OF assms(1,2)] by simp
  note line = published_line(3-5) [OF assms(2) refl, of "Some j" "decision_readings c (Some j) d" now_secs blind_at d]
  show ?thesis
  proof (cases "quarantined (hlth d i)")
    case True
    then have "v = Via_Quarantined" using cached by (simp add: cached_viability_of_def line)
    then show ?thesis using True assms(3) by (simp add: swap_command_verdict_def)
  next
    case False
    then have v: "?r \<noteq> None" "v = (if weekly_is_exhausted c ?r then Via_WeeklyExhausted else Via_Viable)"
      using cached False by (cases ?r; auto simp: cached_viability_of_def line weekly_is_exhausted_def split: if_splits)+
    then have "?r = last_reading (acct d i)" by (simp add: decision_reading_nth [OF assms(2)] split: if_splits)
    then show ?thesis using v(2) False assms(3) by (simp add: swap_command_verdict_def)
  qed
qed

theorem published_gate_agrees_witness:
  "swap_command_verdict 1 (Some 0) True False False False = SV_Reject SwRej_Quarantined"
proof -
  let ?d = "upd_health 1 (\<lambda>h. h\<lparr>quarantined := True\<rparr>) sample_daemon"
  have i: "1 < length (c_roster sample_cfg)" by (simp add: sample_cfg_def)
  have q: "quarantined (hlth ?d 1)" "last_reading (acct ?d 1) = None"
    by (simp_all add: sample_daemon_def daemon_init_def account_runtime_default_def)
  have dist: "distinct (map label (c_roster sample_cfg))" by (simp add: sample_cfg_def)
  have "cached_viability_for (status_response_of (snapshot sample_cfg (Some 0) (decision_readings sample_cfg (Some 0) ?d) 0 0 ?d))
      (c_roster sample_cfg) (acc_label sample_cfg 1) = Some Via_Quarantined"
    unfolding published_cached [OF dist i] cached_viability_of_def
    using published_line(3) [OF i refl, of "Some 0" "decision_readings sample_cfg (Some 0) ?d" 0 0 ?d] q(1) by simp
  from published_gate_agrees [OF dist i _ this] q show ?thesis by (simp add: weekly_is_exhausted_def)
qed

text \<open>
  The target the status advertises is one the daemon would swap to: it is an enabled account other
  than the active one, and the daemon's own verdict on an unforced command for it is to swap.
\<close>

theorem advertised_target_accepted:
  assumes "ss_next_swap (snapshot c (Some j) (decision_readings c (Some j) d) now_secs blind_at d) = Some (NS_Target lbl reason)"
  shows "\<exists>i < length (c_roster c). lbl = acc_label c i \<and> i \<noteq> j \<and> account_enabled (c_roster c ! i) \<and>
    swap_command_verdict i (Some j) (quarantined (hlth d i)) (weekly_is_exhausted c (last_reading (acct d i))) False False = SV_Swap"
proof -
  let ?rs = "decision_readings c (Some j) d"
  have "next_swap c (Some j) ?rs d = Some (NS_Target lbl reason)"
    using assms by (simp add: snapshot_def Let_def split_beta)
  then obtain i why where pick: "pick_target_with_reason_ranked j ?rs (enabled_mask c) (Some (c_target_max_session_usage c))
      (c_session_ceiling_base c) (weekly_rotation_line c) (selection_tiebreak_of c d) = Some (i, why)" "lbl = acc_label c i"
    by (auto simp: next_swap_def Let_def split: option.splits prod.splits if_splits)
  obtain u where u: "(i, u) \<in> set (viable_targets j ?rs (enabled_mask c) (Some (c_target_max_session_usage c))
      (c_session_ceiling_base c) (weekly_rotation_line c))"
    using pick_ranked_Some [OF pick(1)] by blast
  then have v: "i < length ?rs" "?rs ! i = Some u" "i \<noteq> j" "enabled_mask c ! i" "none_or_below (weekly u) (weekly_rotation_line c)"
    by (simp_all add: viable_targets_iff)
  then have i: "i < length (c_roster c)" by (simp add: decision_readings_def)
  then have "\<not> quarantined (hlth d i)" "last_reading (acct d i) = Some u"
    using v(2,3) decision_reading_nth [OF i, of "Some j" d] by (auto split: if_splits)
  moreover have "\<not> weekly_is_exhausted c (Some u)"
    using v(5) none_or_below_not_ge by (auto simp: weekly_is_exhausted_def some_at_least_def split: option.splits)
  ultimately show ?thesis using i v(3,4) pick(2)
    by (intro exI [of _ i]) (simp add: enabled_mask_def swap_command_verdict_def)
qed

definition idle_usage :: usage where
  "idle_usage = \<lparr>session = Some (Fin (1 / 4)), weekly = None, weekly_resets_at = None, session_resets_at = None\<rparr>"

definition advertised_daemon :: daemon where
  "advertised_daemon = upd_account 1 (\<lambda>a. a\<lparr>last_reading := Some idle_usage\<rparr>) sample_daemon"

theorem advertised_target_accepted_witness:
  "\<exists>i. i \<noteq> 0 \<and> swap_command_verdict i (Some 0) (quarantined (hlth advertised_daemon i))
     (weekly_is_exhausted sample_cfg (last_reading (acct advertised_daemon i))) False False = SV_Swap"
proof -
  have rs: "decision_readings sample_cfg (Some 0) advertised_daemon = [None, Some idle_usage]"
    by (simp add: decision_readings_def advertised_daemon_def sample_daemon_def daemon_init_def sample_cfg_def
        account_runtime_default_def account_health_default_def upd_account_def numeral_2_eq_2)
  have "viable_targets 0 [None, Some idle_usage] (enabled_mask sample_cfg) (Some (Fin (1 / 2))) (Fin (3 / 4)) wc = [(1, idle_usage)]" for wc
    by (simp add: viable_targets_def idle_usage_def none_or_below_def f_lt_def enumerate_simps List.map_filter_def
        enabled_mask_def sample_cfg_def)
  then have "ss_next_swap (snapshot sample_cfg (Some 0) (decision_readings sample_cfg (Some 0) advertised_daemon) 0 0 advertised_daemon)
      = Some (NS_Target (acc_label sample_cfg 1) (Some NSR_OnlyCandidate))"
    unfolding rs by (simp add: snapshot_def next_swap_def pick_target_with_reason_ranked_def Let_def split_beta)
      (simp add: sample_cfg_def)
  from advertised_target_accepted [OF this] show ?thesis by blast
qed

end
