(* ===== verification/Capture.thy ===== *)
theory Capture
  imports Config Swap_Engine
begin

text \<open>
  Onboarding: \<open>src/witness.rs\<close> (may a roster be created on this machine?), \<open>src/capture.rs\<close> (the account
  that is logged in joins the roster) and the reconciliation of a harvested login. The prompts, the
  browser login itself and the notifications to the daemon are input and output and are not modelled.
\<close>

section \<open>The prior-configuration witness\<close>

datatype prior_configuration = PC_Present | PC_Absent

text \<open>\<open>Observable\<close> carries the two halves the code reads: the keychain and the usage store files.\<close>

datatype witness_sources = WS_Observable string "string list" | WS_Unwired

definition resolve_probe :: "bool result \<Rightarrow> prior_configuration" where
  "resolve_probe probe = (case probe of Inr True \<Rightarrow> PC_Present | Inr False \<Rightarrow> PC_Absent | Inl _ \<Rightarrow> PC_Present)"

text \<open>
  \<open>is_non_empty\<close> (a file system test) and \<open>any_stash_item_present\<close> (a keychain query) are parameters.
\<close>

definition observe :: "(string \<Rightarrow> 'w \<Rightarrow> bool) \<Rightarrow> (string \<Rightarrow> ('w, bool result) state) \<Rightarrow> witness_sources \<Rightarrow>
    ('w, prior_configuration) state" where
  "observe is_non_empty any_stash_item_present src =
     (case src of
        WS_Unwired \<Rightarrow> State_Monad.return PC_Present
      | WS_Observable keychain usage_store \<Rightarrow> do {
          nonempty \<leftarrow> sget (\<lambda>w. list_ex (\<lambda>path. is_non_empty path w) usage_store);
          if nonempty then State_Monad.return PC_Present
          else do { probe \<leftarrow> any_stash_item_present keychain; State_Monad.return (resolve_probe probe) } })"

fun admit :: "bool \<Rightarrow> prior_configuration \<Rightarrow> unit result" where
  "admit False PC_Present = Inl PriorConfigurationWithoutConfig"
| "admit False PC_Absent = Inr ()"
| "admit True _ = Inr ()"

definition admit_append_only :: "('w, prior_configuration) state \<Rightarrow> bool \<Rightarrow> ('w, unit result) state" where
  "admit_append_only observed config_present =
     (if config_present then State_Monad.return (Inr ())
      else do { w \<leftarrow> observed; State_Monad.return (admit False w) })"

section \<open>Planning a capture\<close>

record capture_report =
  cr_config :: config
  cr_outcome :: capture_outcome
  cr_label :: string
  cr_count :: nat

definition derive_label :: "string \<Rightarrow> string" where
  "derive_label uuid = uuid"

definition provided_label :: "string option \<Rightarrow> string option" where
  "provided_label lbl = (case lbl of None \<Rightarrow> None | Some l \<Rightarrow> if trim l = [] then None else Some (trim l))"

definition plan_capture :: "account list \<Rightarrow> string \<Rightarrow> string option \<Rightarrow> (account list \<times> string \<times> capture_outcome) result" where
  "plan_capture roster uuid lbl =
     (case account_uuid_violation uuid of
        Some rule \<Rightarrow> Inl (OauthAccountFieldMalformed ''accountUuid'' rule)
      | None \<Rightarrow>
          (case position (\<lambda>a. account_uuid a = uuid) roster of
             Some i \<Rightarrow>
               Inr (case provided_label lbl of None \<Rightarrow> roster | Some l \<Rightarrow> roster[i := (roster ! i)\<lparr>label := l\<rparr>],
                    stash_name (roster ! i), CO_Refreshed)
           | None \<Rightarrow>
               let account = \<lparr>account_uuid = uuid,
                     label = (case provided_label lbl of None \<Rightarrow> derive_label uuid | Some l \<Rightarrow> l),
                     account_enabled = True\<rparr>
               in Inr (roster @ [account], stash_name account, CO_Captured)))"

text \<open>The planned account is in the roster, so the look-up of its label finds it.\<close>

definition label_of_stash :: "account list \<Rightarrow> string \<Rightarrow> string" where
  "label_of_stash roster name = (case find (\<lambda>a. stash_name a = name) roster of Some a \<Rightarrow> label a | None \<Rightarrow> [])"

definition existing_or_default :: "config option \<Rightarrow> config" where
  "existing_or_default existing = (case existing of None \<Rightarrow> config_default | Some c \<Rightarrow> c)"

definition run_capture :: "'w io \<Rightarrow> credential \<Rightarrow> oauth_account \<Rightarrow> config option \<Rightarrow> string option \<Rightarrow>
    ('w, capture_report result) state" where
  "run_capture io credential oauth existing lbl =
     (let base = existing_or_default existing in
      case plan_capture (cf_roster base) (oa_account_uuid oauth) lbl of
        Inl e \<Rightarrow> State_Monad.return (Inl e)
      | Inr (roster, name, outcome) \<Rightarrow>
          try_bind (stash_write io name \<lparr>stashed_credential = credential, stashed_oauth = oauth\<rparr>) (\<lambda>_.
          State_Monad.return (Inr \<lparr>cr_config = base\<lparr>cf_roster := roster\<rparr>, cr_outcome = outcome,
            cr_label = label_of_stash roster name, cr_count = length roster\<rparr>)))"

definition capture_locked :: "'w io \<Rightarrow> (string \<times> duration) option \<Rightarrow> string \<Rightarrow> config option \<Rightarrow> string option \<Rightarrow>
    ('w, capture_report result) state" where
  "capture_locked io lock claude_json existing lbl =
     with_lock io lock
       (try_bind (read_oauth_account_from io claude_json) (\<lambda>oauth.
        try_bind (store_read io) (\<lambda>credential.
        run_capture io credential oauth existing lbl)))"

section \<open>A harvested login\<close>

datatype login_outcome = LO_Onboarded | LO_Revived

fun login_outcome_of :: "capture_outcome \<Rightarrow> login_outcome" where
  "login_outcome_of CO_Captured = LO_Onboarded"
| "login_outcome_of CO_Refreshed = LO_Revived"

record login_report =
  lr_config :: config
  lr_outcome :: login_outcome
  lr_label :: string
  lr_count :: nat

record harvested_login =
  hl_captured :: stashed_account
  hl_activate :: bool

definition run_login :: "'w io \<Rightarrow> harvested_login \<Rightarrow> config option \<Rightarrow> string option \<Rightarrow> string \<Rightarrow>
    ('w, login_report result) state" where
  "run_login io login existing lbl claude_json =
     (let base = existing_or_default existing; captured = hl_captured login in
      case plan_capture (cf_roster base) (oa_account_uuid (stashed_oauth captured)) lbl of
        Inl e \<Rightarrow> State_Monad.return (Inl e)
      | Inr (roster, name, outcome) \<Rightarrow>
          try_bind (stash_write io name captured) (\<lambda>_.
          try_bind (if hl_activate login
                    then try_bind (store_write io (stashed_credential captured)) (\<lambda>_.
                           State_Monad.bind (write_oauth_account io claude_json (stashed_oauth captured)) (\<lambda>_.
                           State_Monad.return (Inr ())))
                    else State_Monad.return (Inr ())) (\<lambda>_.
          State_Monad.return (Inr \<lparr>lr_config = base\<lparr>cf_roster := roster\<rparr>, lr_outcome = login_outcome_of outcome,
            lr_label = label_of_stash roster name, lr_count = length roster\<rparr>))))"

definition run_login_locked :: "'w io \<Rightarrow> (string \<times> duration) option \<Rightarrow> harvested_login \<Rightarrow> config option \<Rightarrow>
    string option \<Rightarrow> string \<Rightarrow> ('w, login_report result) state" where
  "run_login_locked io lock login existing lbl claude_json =
     with_lock io lock (run_login io login existing lbl claude_json)"

definition should_activate :: "string option \<Rightarrow> string \<Rightarrow> bool" where
  "should_activate active_uuid captured_uuid =
     (case active_uuid of Some active \<Rightarrow> active = captured_uuid | None \<Rightarrow> True)"

definition should_signal_restored :: "bool \<Rightarrow> login_outcome \<Rightarrow> bool" where
  "should_signal_restored activate outcome \<longleftrightarrow> \<not> activate \<and> outcome = LO_Revived"

text \<open>
  \<open>reconcile_login\<close> up to the report: the displayed identity decides whether the harvested credential
  also becomes the live one. Saving the configuration is the caller's argument \<open>save\<close>; the flag of the
  result says whether the daemon is told that a parked account is back.
\<close>

definition reconcile_login :: "'w io \<Rightarrow> (string \<times> duration) option \<Rightarrow> string \<Rightarrow> (config \<Rightarrow> ('w, unit result) state) \<Rightarrow>
    stashed_account \<Rightarrow> string option \<Rightarrow> config option \<Rightarrow>
    ('w, (login_outcome \<times> string \<times> nat \<times> bool) result) state" where
  "reconcile_login io lock claude_json save captured lbl existing =
     State_Monad.bind (read_oauth_account_from io claude_json) (\<lambda>displayed.
     let activate = should_activate (map_option oa_account_uuid (ok displayed))
           (oa_account_uuid (stashed_oauth captured)) in
     try_bind (run_login_locked io lock \<lparr>hl_captured = captured, hl_activate = activate\<rparr> existing lbl claude_json)
       (\<lambda>report.
     try_bind (save (lr_config report)) (\<lambda>_.
     State_Monad.return (Inr (lr_outcome report, lr_label report, lr_count report,
       should_signal_restored activate (lr_outcome report))))))"

section \<open>Trimmed labels\<close>

definition leading :: "string list \<Rightarrow> string \<Rightarrow> bool" where
  "leading ws s \<longleftrightarrow> (\<exists>w \<in> set ws. w \<noteq> [] \<and> take (length w) s = w)"

lemma find_leading: "find (\<lambda>w. w \<noteq> [] \<and> take (length w) s = w) ws = None \<longleftrightarrow> \<not> leading ws s"
  by (auto simp: leading_def find_None_iff)

lemma drop_words_step: "\<not> leading ws s \<Longrightarrow> drop_words ws s = s"
  by (simp add: drop_words.simps [of ws s] flip: find_leading)

lemma drop_words_clean: "\<not> leading ws (drop_words ws s)"
proof (induction ws s rule: drop_words.induct)
  case (1 ws s)
  show ?case
  proof (cases "find (\<lambda>w. w \<noteq> [] \<and> take (length w) s = w) ws")
    case None
    then show ?thesis by (simp add: find_leading drop_words_step)
  next
    case (Some w)
    then show ?thesis using 1 [OF Some] by (simp add: drop_words.simps [of ws s])
  qed
qed

lemma not_leading_prefix: "\<not> leading ws (p @ q) \<Longrightarrow> \<not> leading ws p"
proof
  assume n: "\<not> leading ws (p @ q)" and "leading ws p"
  then obtain w where w: "w \<in> set ws" "w \<noteq> []" "take (length w) p = w" by (auto simp: leading_def)
  then have "length w \<le> length p" by (metis length_take min.cobounded1)
  then have "take (length w) (p @ q) = w" using w(3) by simp
  then show False using n w by (auto simp: leading_def)
qed

lemma trim_end_prefix: "\<exists>q. s = trim_end s @ q"
proof -
  obtain q where "rev s = q @ drop_words (map rev white_space) (rev s)" using drop_words_suffix by blast
  then have "s = rev (drop_words (map rev white_space) (rev s)) @ rev q" by (metis rev_append rev_rev_ident)
  then show ?thesis unfolding trim_end_def by blast
qed

lemma trim_trim [simp]: "trim (trim s) = trim s"
proof -
  obtain q where "trim_start s = trim s @ q" using trim_end_prefix [of "trim_start s"] unfolding trim_def by blast
  then have "\<not> leading white_space (trim s)"
    using drop_words_clean [of white_space s] not_leading_prefix unfolding trim_start_def by metis
  then have "trim_start (trim s) = trim s" by (simp add: trim_start_def drop_words_step)
  moreover have "trim_end (trim s) = trim s"
    using drop_words_clean [of "map rev white_space" "rev (trim_start s)"]
    by (simp add: trim_def trim_end_def drop_words_step)
  ultimately show ?thesis by (simp add: trim_def)
qed

lemma provided_label_nonempty: "provided_label lbl = Some l \<Longrightarrow> \<not> trim_is_empty l"
  by (auto simp: provided_label_def trim_is_empty_def split: option.splits if_splits)

section \<open>The roster only grows\<close>

lemma stash_name_inj: "stash_name a = stash_name b \<longleftrightarrow> account_uuid a = account_uuid b"
  by (simp add: stash_name_def)

lemma map_update_same: "i < length xs \<Longrightarrow> f y = f (xs ! i) \<Longrightarrow> map f (xs[i := y]) = map f xs"
  by (metis list_update_id map_update)

lemma roster_ok_relabel:
  assumes "roster_ok roster" "i < length roster" "\<not> trim_is_empty l"
  shows "roster_ok (roster[i := (roster ! i)\<lparr>label := l\<rparr>])"
  using assms set_update_subset_insert [of roster i "(roster ! i)\<lparr>label := l\<rparr>"] nth_mem [OF assms(2)]
  by (fastforce simp: roster_ok_def list_all_iff map_update_same)

lemma roster_ok_append:
  assumes "roster_ok roster" "account_uuid a \<notin> account_uuid ` set roster" "\<not> trim_is_empty (account_uuid a)"
    "account_uuid_violation (account_uuid a) = None" "\<not> trim_is_empty (label a)"
  shows "roster_ok (roster @ [a])"
  using assms by (simp add: roster_ok_def)

lemma plan_capture_cases:
  assumes "plan_capture roster uuid lbl = Inr (roster', name, oc)"
  obtains
    (refreshed) i where "i < length roster" "account_uuid (roster ! i) = uuid" "oc = CO_Refreshed"
      "name = STASH_PREFIX @ uuid"
      "roster' = roster \<or> (\<exists>l. \<not> trim_is_empty l \<and> roster' = roster[i := (roster ! i)\<lparr>label := l\<rparr>])"
  | (captured) l where "uuid \<notin> account_uuid ` set roster" "oc = CO_Captured" "name = STASH_PREFIX @ uuid"
      "roster' = roster @ [\<lparr>account_uuid = uuid, label = l, account_enabled = True\<rparr>]"
      "account_uuid_violation uuid = None" "l = uuid \<or> \<not> trim_is_empty l"
proof -
  have v: "account_uuid_violation uuid = None" using assms by (simp add: plan_capture_def split: option.splits)
  show thesis
  proof (cases "position (\<lambda>a. account_uuid a = uuid) roster")
    case (Some i)
    then have i: "i < length roster" "account_uuid (roster ! i) = uuid" using position_Some [OF Some] by auto
    from assms v Some i show thesis
      by (intro refreshed [OF i]) (auto simp: plan_capture_def stash_name_def split: option.splits
          dest: provided_label_nonempty)
  next
    case None
    then have n: "uuid \<notin> account_uuid ` set roster" by (auto simp: position_None)
    show thesis
    proof (cases "provided_label lbl")
      case None
      with assms v n \<open>position _ _ = None\<close> show thesis
        by (intro captured [OF n, where l = uuid]) (auto simp: plan_capture_def stash_name_def derive_label_def)
    next
      case (Some l)
      with assms v n \<open>position _ _ = None\<close> show thesis
        by (intro captured [OF n, where l = l])
          (auto simp: plan_capture_def stash_name_def provided_label_nonempty)
    qed
  qed
qed

text \<open>
  Planning a capture only ever adds to the roster. The captured account ends up in it exactly once,
  at its old place when it was known and at the end otherwise; every other account keeps its place, its
  label and its enabled flag, no account is dropped, and a well-formed roster stays well-formed, whatever
  label the operator typed.
\<close>

theorem plan_capture_grows:
  assumes "plan_capture roster uuid lbl = Inr (roster', name, oc)" "roster_ok roster" "\<not> trim_is_empty uuid"
  shows "roster_ok roster' \<and> name = STASH_PREFIX @ uuid \<and> uuid \<in> account_uuid ` set roster' \<and>
    (oc = CO_Refreshed \<longleftrightarrow> uuid \<in> account_uuid ` set roster) \<and>
    map account_uuid roster' =
      map account_uuid roster @ (if uuid \<in> account_uuid ` set roster then [] else [uuid]) \<and>
    (\<forall>j < length roster. roster' ! j = roster ! j \<or>
       account_uuid (roster ! j) = uuid \<and> account_enabled (roster' ! j) = account_enabled (roster ! j))"
  using assms(1)
proof (cases rule: plan_capture_cases)
  case (refreshed i)
  have mem: "uuid \<in> account_uuid ` set roster" using refreshed(1,2) nth_mem by blast
  have "roster_ok roster'" using refreshed roster_ok_relabel [OF assms(2) refreshed(1)] assms(2) by auto
  moreover have same: "map account_uuid roster' = map account_uuid roster"
    using refreshed by (auto simp: map_update_same)
  moreover have "uuid \<in> account_uuid ` set roster'" using same mem by (metis set_map)
  moreover have "roster' ! j = roster ! j \<or>
       account_uuid (roster ! j) = uuid \<and> account_enabled (roster' ! j) = account_enabled (roster ! j)" for j
    using refreshed(1,2,5) by (cases "j = i") auto
  ultimately show ?thesis using refreshed mem by simp
next
  case (captured l)
  have "roster_ok roster'" unfolding captured(4) using captured assms
    by (intro roster_ok_append) auto
  then show ?thesis using captured by (auto simp: nth_append)
qed

theorem plan_capture_grows_witness:
  "roster_ok [\<lparr>account_uuid = ''a'', label = ''a'', account_enabled = True\<rparr>]"
proof -
  have "plan_capture [] ''a'' None = Inr ([\<lparr>account_uuid = ''a'', label = ''a'', account_enabled = True\<rparr>],
      STASH_PREFIX @ ''a'', CO_Captured)"
    by (simp add: plan_capture_def account_uuid_violation_def ACCOUNT_UUID_MAX_LEN_def ascii_alphanumeric_def
        provided_label_def derive_label_def stash_name_def)
  from plan_capture_grows [OF this] show ?thesis by (simp add: roster_ok_def white_space_def)
qed

section \<open>What onboarding writes\<close>

lemma plan_name:
  assumes "plan_capture roster uuid lbl = Inr (roster', name, oc)"
  shows "name = STASH_PREFIX @ uuid \<and> uuid \<in> account_uuid ` set roster'"
  using assms
proof (cases rule: plan_capture_cases)
  case (refreshed i)
  then have "map account_uuid roster' = map account_uuid roster" by (auto simp: map_update_same)
  moreover have "uuid \<in> set (map account_uuid roster)" using refreshed(1,2) nth_mem by fastforce
  ultimately show ?thesis using refreshed by (metis set_map)
qed simp

lemma upd_other: "f = g(k := f k) \<Longrightarrow> j \<noteq> k \<Longrightarrow> f j = g j"
  by (metis fun_upd_other)

context vault
begin

lemma t_read_display: "keeps (holds C S) (read_oauth_account_from io f)"
  by (auto simp: read_oauth_account_from_def read_state_file_def triple_def holds_def run_try_bind split_beta
      files_pure split: sum.split)

lemma t_run_capture:
  assumes "C = Some c"
  shows "triple (holds C S) (run_capture io c oauth existing lbl) (\<lambda>r s. canon s = C \<and>
    (\<forall>j. j \<noteq> STASH_PREFIX @ oa_account_uuid oauth \<longrightarrow> stash s j = S j) \<and>
    (\<forall>rep. r = Inr rep \<longrightarrow>
       stash s (STASH_PREFIX @ oa_account_uuid oauth) = Some \<lparr>stashed_credential = c, stashed_oauth = oauth\<rparr> \<and>
       oa_account_uuid oauth \<in> account_uuid ` set (cf_roster (cr_config rep))))"
proof (cases "plan_capture (cf_roster (existing_or_default existing)) (oa_account_uuid oauth) lbl")
  case (Inl e)
  then show ?thesis by (simp add: run_capture_def triple_def holds_def)
next
  case (Inr plan)
  obtain roster name oc where plan: "plan = (roster, name, oc)" by (cases plan) auto
  note pn = plan_name [OF Inr [unfolded plan]]
  show ?thesis
    unfolding run_capture_def Let_def
    by (simp add: Inr plan, rule triple_try [OF t_swrite]) (auto simp: holds_def triple_def pn intro: upd_other)
qed

lemma t_capture_locked:
  "triple (holds C S) (capture_locked io lock f existing lbl) (\<lambda>r s. canon s = C \<and>
     (\<exists>k. \<forall>j. j \<noteq> k \<longrightarrow> stash s j = S j) \<and>
     (\<forall>rep. r = Inr rep \<longrightarrow> (\<exists>c oauth. C = Some c \<and>
        stash s = S(STASH_PREFIX @ oa_account_uuid oauth :=
          Some \<lparr>stashed_credential = c, stashed_oauth = oauth\<rparr>) \<and>
        oa_account_uuid oauth \<in> account_uuid ` set (cf_roster (cr_config rep)))))"
  (is "triple _ _ (\<lambda>r s. ?Q r (canon s) (stash s))")
  unfolding capture_locked_def
proof (rule t_with_lock)
  show "triple (holds C S) (try_bind (read_oauth_account_from io f) (\<lambda>oauth.
      try_bind (store_read io) (\<lambda>c. run_capture io c oauth existing lbl))) (\<lambda>r s. ?Q r (canon s) (stash s))"
    by (rule triple_try [OF t_read_display], simp add: holds_def, rule try_read,
        rule triple_weaken [OF t_run_capture], assumption)
      (auto simp: holds_def fun_eq_iff)
qed simp

lemma t_run_login:
  fixes login :: harvested_login
  defines "name \<equiv> STASH_PREFIX @ oa_account_uuid (stashed_oauth (hl_captured login))"
  shows "triple (holds C S) (run_login io login existing lbl f) (\<lambda>r s.
     (\<forall>j. j \<noteq> name \<longrightarrow> stash s j = S j) \<and>
     (canon s = C \<or> hl_activate login \<and> canon s = Some (stashed_credential (hl_captured login)) \<and>
        stash s name = Some (hl_captured login)) \<and>
     (is_ok r \<longrightarrow> stash s name = Some (hl_captured login) \<and>
        (hl_activate login \<longrightarrow> canon s = Some (stashed_credential (hl_captured login)))))"
  (is "triple _ _ ?Q")
proof (cases "plan_capture (cf_roster (existing_or_default existing))
    (oa_account_uuid (stashed_oauth (hl_captured login))) lbl")
  case (Inl e)
  then show ?thesis by (simp add: run_login_def triple_def holds_def)
next
  case (Inr plan)
  obtain roster nm oc where plan: "plan = (roster, nm, oc)" by (cases plan) auto
  have nm: "nm = name" using plan_name [OF Inr [unfolded plan]] by (simp add: name_def)
  let ?S = "S(name := Some (hl_captured login))"
  let ?c = "stashed_credential (hl_captured login)"
  let ?act = "try_bind (store_write io ?c) (\<lambda>_. State_Monad.bind
      (write_oauth_account io f (stashed_oauth (hl_captured login))) (\<lambda>_. State_Monad.return (Inr ())))"
  have act: "triple (holds C ?S) ?act (\<lambda>r s. stash s = ?S \<and> canon s \<in> {C, Some ?c} \<and> (is_ok r \<longrightarrow> canon s = Some ?c))"
    by (rule triple_try [OF t_write])
      (auto simp: holds_def triple_def split_beta write_oauth_pure)
  have quiet: "triple (holds C ?S) (State_Monad.return (Inr ())) (\<lambda>r s. stash s = ?S \<and> canon s = C)"
    by (simp add: triple_def holds_def)
  have rest: "triple (holds C ?S) (try_bind (if hl_activate login then ?act else State_Monad.return (Inr ()))
      (\<lambda>_. State_Monad.return (Inr rep))) ?Q" for rep :: login_report
  proof (rule triple_try [where R = "\<lambda>r s. stash s = ?S \<and> canon s \<in> {C, Some ?c} \<and>
      (canon s \<noteq> C \<longrightarrow> hl_activate login) \<and> (is_ok r \<and> hl_activate login \<longrightarrow> canon s = Some ?c)"])
    show "triple (holds C ?S) (if hl_activate login then ?act else State_Monad.return (Inr ()))
      (\<lambda>r s. stash s = ?S \<and> canon s \<in> {C, Some ?c} \<and> (canon s \<noteq> C \<longrightarrow> hl_activate login) \<and>
        (is_ok r \<and> hl_activate login \<longrightarrow> canon s = Some ?c))"
      by (rule triple_if) (rule triple_weaken [OF act] triple_weaken [OF quiet]; auto)+
  qed (auto simp: triple_def)
  have body: "run_login io login existing lbl f = try_bind (stash_write io name (hl_captured login)) (\<lambda>_.
      try_bind (if hl_activate login then ?act else State_Monad.return (Inr ())) (\<lambda>_. State_Monad.return (Inr
        \<lparr>lr_config = (existing_or_default existing)\<lparr>cf_roster := roster\<rparr>, lr_outcome = login_outcome_of oc,
         lr_label = label_of_stash roster nm, lr_count = length roster\<rparr>)))"
    by (simp add: run_login_def Let_def Inr plan nm)
  show ?thesis unfolding body
    by (rule triple_try [OF t_swrite], simp add: holds_def, metis upd_other, rule triple_pre [OF rest])
      (auto simp: holds_def)
qed

end


definition capture_io :: "fake_world io" where
  "capture_io = fake_io
     (\<lambda>_. Inr (JObject [(''oauthAccount'', JObject [(''accountUuid'', JString ''a'')])])) (\<lambda>_. [1])"

definition capture_world :: fake_world where
  "capture_world = sample_world\<lparr>fake_files := (\<lambda>_. Some [0])\<rparr>"

lemma capture_vault: "vault capture_io fake_slot fake_items"
  unfolding capture_io_def by (rule fake.vault_axioms)

lemma not_empty_a: "\<not> trim_is_empty ''a''"
  by (simp add: white_space_def)

lemmas capture_eval = run_try_bind read_oauth_account_from_def read_state_file_def oauth_from_object_def
  string_field_def not_empty_a capture_io_def fake_defs capture_world_def sample_world_def
  fake_world_empty_def with_lock_def existing_or_default_def config_default_def plan_capture_def
  account_uuid_violation_def ACCOUNT_UUID_MAX_LEN_def ascii_alphanumeric_def provided_label_def
  derive_label_def stash_name_def Let_def


text \<open>
  C26: A login stores before it activates. Whatever it returns, only the entry of the harvested account
  changes, and the live credential changes only when activation was asked for, to the harvested token,
  which is then safe in its entry; success means the entry holds the harvest and an activated harvest
  is live.
\<close>

theorem login_safe:
  assumes "vault io canon stash" "name = STASH_PREFIX @ oa_account_uuid (stashed_oauth (hl_captured login))"
  shows "let r = res (run_login_locked io lock login existing lbl claude_json) w;
             w' = exec (run_login_locked io lock login existing lbl claude_json) w in
    (\<forall>j. j \<noteq> name \<longrightarrow> stash w' j = stash w j) \<and>
    (canon w' = canon w \<or> hl_activate login \<and> canon w' = Some (stashed_credential (hl_captured login)) \<and>
       stash w' name = Some (hl_captured login)) \<and>
    (is_ok r \<longrightarrow> stash w' name = Some (hl_captured login) \<and>
       (hl_activate login \<longrightarrow> canon w' = Some (stashed_credential (hl_captured login))))"
proof -
  have "triple (vault.holds canon stash (canon w) (stash w)) (run_login_locked io lock login existing lbl claude_json)
     (\<lambda>r s. (\<forall>j. j \<noteq> name \<longrightarrow> stash s j = stash w j) \<and>
     (canon s = canon w \<or> hl_activate login \<and> canon s = Some (stashed_credential (hl_captured login)) \<and>
        stash s name = Some (hl_captured login)) \<and>
     (is_ok r \<longrightarrow> stash s name = Some (hl_captured login) \<and>
        (hl_activate login \<longrightarrow> canon s = Some (stashed_credential (hl_captured login)))))"
    unfolding run_login_locked_def assms(2)
    by (rule vault.t_with_lock [OF assms(1)], rule vault.t_run_login [OF assms(1)]) simp
  then show ?thesis by (simp add: Let_def triple_def vault.holds_def [OF assms(1)])
qed

definition sample_login :: harvested_login where
  "sample_login = \<lparr>hl_captured = \<lparr>stashed_credential = [5], stashed_oauth = \<lparr>oa_raw = [1], oa_account_uuid = ''a''\<rparr>\<rparr>,
     hl_activate = True\<rparr>"

theorem login_safe_witness:
  "fake_slot (exec (run_login_locked capture_io None sample_login None None ''file'') capture_world) = Some [5]"
proof -
  have "is_ok (res (run_login_locked capture_io None sample_login None None ''file'') capture_world)"
    by (simp add: run_login_locked_def run_login_def sample_login_def write_oauth_account_def capture_eval)
  then show ?thesis
    using login_safe [OF capture_vault refl, of None sample_login None None "''file''" capture_world]
    by (simp add: Let_def sample_login_def)
qed

end
