(* ===== verification/Daemon_Tick.thy ===== *)
theory Daemon_Tick
  imports Snapshot
begin

text \<open>
  One tick of the daemon (\<open>tick\<close> of \<open>src/daemon.rs\<close>): read the canonical credential, poll the next account
  of the schedule and fold what came back, keep the active credential warm, decide, settle the alarms, and
  take the status snapshot.
\<close>

section \<open>Before the poll\<close>

datatype canonical_read = CR_Locked | CR_Read "credential option" bool

definition unlock :: "daemon \<Rightarrow> daemon" where
  "unlock d = d\<lparr>d_lock_backoff := None, d_signaled_keychain_locked := False\<rparr>"

text \<open>The read of the canonical item; the flag says that it is absent.\<close>

definition tick_read :: "cfg \<Rightarrow> 'w env \<Rightarrow> ('w ctx, canonical_read) state" where
  "tick_read c e = do {
     r \<leftarrow> in_world (store_read (env_io e));
     (case r of
        Inl (KeychainLocked _) \<Rightarrow> State_Monad.return CR_Locked
      | Inr canonical \<Rightarrow> do {
          modd unlock;
          reconcile_canonical_change c e canonical;
          State_Monad.return (CR_Read (Some canonical) False) }
      | Inl CredentialNotFound \<Rightarrow> do { modd unlock; State_Monad.return (CR_Read None True) }
      | Inl _ \<Rightarrow> do { modd unlock; State_Monad.return (CR_Read None False) }) }"

text \<open>The active account is resolved where it is not known; a change restarts the poll schedule.\<close>

definition tick_resolve :: "cfg \<Rightarrow> 'w env \<Rightarrow> nat option \<Rightarrow> credential option \<Rightarrow> ('w ctx, unit) state" where
  "tick_resolve c e before canonical = do {
     known \<leftarrow> getd d_active;
     (if known = None then do {
        owner \<leftarrow> in_world (case canonical of Some cred \<Rightarrow> resolve_for c e cred | None \<Rightarrow> resolve_active c e);
        modd (\<lambda>d. d\<lparr>d_active := owner\<rparr>) }
      else State_Monad.return ());
     modd (\<lambda>d. if d_active d \<noteq> before then invalidate_poll_schedule d else d) }"

section \<open>The poll\<close>

text \<open>The velocity of the account between its last reading and this one.\<close>

definition tick_velocity :: "cfg \<Rightarrow> nat \<Rightarrow> usage result \<Rightarrow> instant \<Rightarrow> daemon \<Rightarrow> daemon \<times> event list" where
  "tick_velocity c i result now d =
     (case (last_reading (acct d i), result, last_reading_at (acct d i)) of
        (Some prev, Inr nxt, Some prev_at) \<Rightarrow>
          (case usage_velocity prev nxt of (session_delta, weekly_delta) \<Rightarrow>
            let elapsed = as_secs (since now prev_at);
                moved = (\<lambda>delta. case delta of None \<Rightarrow> False | Some x \<Rightarrow> x \<noteq> (0 :: int));
                es = (if (moved session_delta \<or> moved weekly_delta) \<and> elapsed > 0
                      then [Ev_UsageVelocity (acc_uuid c i) session_delta weekly_delta elapsed] else []);
                stale_low_interval = (is_stale_low (high_water (acct d i)) prev \<or> is_stale_low (high_water (acct d i)) nxt)
            in (case (stale_low_interval, session prev, session nxt) of
                  (False, Some prev_session, Some next_session) \<Rightarrow>
                    (note_session_velocity c i prev_session next_session elapsed d, es)
                | _ \<Rightarrow> (d, es)))
      | _ \<Rightarrow> (d, []))"

text \<open>The report of a blind window that a reading of the active account ends.\<close>

definition tick_blind_window :: "cfg \<Rightarrow> nat \<Rightarrow> nat option \<Rightarrow> usage result \<Rightarrow> instant \<Rightarrow> daemon \<Rightarrow> event list" where
  "tick_blind_window c i act result now d =
     (if act = Some i \<and> is_ok result \<and> last_reading (acct d i) = None
      then (case (d_last_good d, result) of
          (Some anchor, Inr fresh) \<Rightarrow>
            [Ev_BlindWindow (acc_uuid c i) (as_secs (since now (lg_at anchor)))
               (map_option to_pct (lg_session anchor)) (map_option to_pct (session fresh))
               (some_at_least (lg_session anchor) (c_session_ceiling_base c))
               (blind_velocity_ingredients c i d)
               (blind_anchor_high_water i (lg_session anchor) d)]
        | _ \<Rightarrow> [])
      else [])"

text \<open>The reading, or its absence, becomes the account's.\<close>

definition store_reading :: "nat \<Rightarrow> usage result \<Rightarrow> instant \<Rightarrow> daemon \<Rightarrow> daemon" where
  "store_reading i result now =
     upd_account i (\<lambda>a.
       let a1 = (case result of Inr fresh \<Rightarrow> a\<lparr>high_water := high_water_fold (high_water a) fresh\<rparr> | Inl _ \<Rightarrow> a);
           a2 = (case result of
               Inr fresh \<Rightarrow> if session fresh = None then a1\<lparr>session_velocity := None\<rparr> else a1
             | Inl _ \<Rightarrow> a1)
       in (case result of
             Inr fresh \<Rightarrow> a2\<lparr>last_reading := Some fresh, last_reading_at := Some now\<rparr>
           | Inl _ \<Rightarrow> a2\<lparr>last_reading := None, last_reading_at := None\<rparr>))"

definition note_last_good :: "nat \<Rightarrow> nat option \<Rightarrow> instant \<Rightarrow> daemon \<Rightarrow> daemon" where
  "note_last_good i act now d =
     (if act = Some i
      then (case last_reading (acct d i) of
          Some reading \<Rightarrow> d\<lparr>d_last_good := Some \<lparr>lg_session = session reading, lg_weekly = weekly reading, lg_at = now\<rparr>\<rparr>
        | None \<Rightarrow> d)
      else d)"

text \<open>The retries: an idle account is refreshed in isolation, the active one is kept warm.\<close>

definition tick_retry :: "cfg \<Rightarrow> 'w env \<Rightarrow> nat \<Rightarrow> credential option \<Rightarrow> usage result \<Rightarrow> ('w ctx, usage result) state" where
  "tick_retry c e i canonical result = do {
     d \<leftarrow> getd id;
     if should_refresh_retry e i result d then do {
       retried \<leftarrow> refresh_retry c e i;
       modd (note_own_credential_refresh i);
       State_Monad.return retried }
     else if should_keep_warm_retry e i result d then keep_warm_retry c e i canonical
     else State_Monad.return result }"

text \<open>What the daemon folds of the final result.\<close>

definition tick_fold :: "cfg \<Rightarrow> 'w env \<Rightarrow> nat \<Rightarrow> nat option \<Rightarrow> usage result \<Rightarrow> ('w ctx, tick_backoff option) state" where
  "tick_fold c e i act result = do {
     sync (note_poll_outcome c i result);
     diags [Dg_Poll (acc_label c i) (diag_poll_class result)];
     now \<leftarrow> asks (clock_now (env_io e));
     backoff \<leftarrow> sync_val (note_account_backoff (env_libm e) c i (act = Some i) result now);
     sync (tick_velocity c i result now);
     sync (\<lambda>d. (d, tick_blind_window c i act result now d));
     sync (note_blind_episode c i act result now);
     modd (note_landing_overshoot c i act result now);
     modd (store_reading i result now);
     now_secs \<leftarrow> asks (env_wall_secs e);
     sync (note_exhausted_poll c i act now now_secs);
     modd (note_last_good i act now);
     State_Monad.return backoff }"

definition tick_clocks :: "cfg \<Rightarrow> 'w env \<Rightarrow> nat \<Rightarrow> nat option \<Rightarrow> ('w ctx, unit) state" where
  "tick_clocks c e i act = do {
     (clocks, source) \<leftarrow> in_world (read_poll_clocks e (c_roster c ! i) (act = Some i));
     modd (upd_health i (\<lambda>h. h\<lparr>poll_expires_at := cc_access_expires_at clocks,
       refresh_token_expires_at := cc_refresh_token_expires_at clocks\<rparr>));
     now_secs \<leftarrow> asks (env_wall_secs e);
     sync (note_polled_expiry c i (cc_refresh_token_expires_at clocks) source now_secs) }"

definition tick_poll :: "cfg \<Rightarrow> 'w env \<Rightarrow> nat option \<Rightarrow> credential option \<Rightarrow> nat \<Rightarrow> ('w ctx, tick_backoff option) state" where
  "tick_poll c e act canonical i = do {
     polled \<leftarrow> in_world (env_poll e (c_roster c ! i) (act = Some i));
     now_secs \<leftarrow> asks (env_wall_secs e);
     (case (env_append_sample e, polled) of
        (Some put, Inr reading) \<Rightarrow> in_world (put (acc_label c i) reading now_secs)
      | _ \<Rightarrow> State_Monad.return ());
     now_secs' \<leftarrow> asks (env_wall_secs e);
     swhen (c_stats_enabled c) (stats_events_for_poll (env_compact e) (acc_label c i) (\<not> is_ok polled) now_secs');
     result \<leftarrow> tick_retry c e i canonical (map_sum id pr_usage polled);
     backoff \<leftarrow> tick_fold c e i act result;
     tick_clocks c e i act;
     modd (note_polled i);
     State_Monad.return backoff }"

text \<open>The account at the head of the schedule is skipped while it backs off or is slowly polled.\<close>

definition tick_poll_next :: "cfg \<Rightarrow> 'w env \<Rightarrow> nat option \<Rightarrow> credential option \<Rightarrow> ('w ctx, tick_backoff option) state" where
  "tick_poll_next c e act canonical = do {
     idx \<leftarrow> sync_val (\<lambda>d. no_events (next_poll_index c act d));
     now \<leftarrow> asks (clock_now (env_io e));
     d \<leftarrow> getd id;
     (case idx of
        None \<Rightarrow> State_Monad.return None
      | Some i \<Rightarrow>
          if account_backing_off i now d \<or> exhausted_slow_polling i act now d then State_Monad.return None
          else tick_poll c e act canonical i) }"

section \<open>After the decision\<close>

definition settle_alarms :: "tick_action \<Rightarrow> daemon \<Rightarrow> daemon \<times> event list" where
  "settle_alarms action d =
     (let (d1, es1) = (if action \<noteq> NoViableTarget
              then (d\<lparr>d_signaled_all_exhausted := False\<rparr>,
                    if d_signaled_all_exhausted d then [Ev_AllExhaustedCleared] else [])
              else (d, []))
      in if action \<noteq> ActiveDeadNoTarget
         then (d1\<lparr>d_signaled_active_dead_no_target := False\<rparr>,
               es1 @ (if d_signaled_active_dead_no_target d1 then [Ev_ActiveDeadNoTargetCleared] else []))
         else (d1, es1))"

definition note_near_limit :: "cfg \<Rightarrow> daemon \<Rightarrow> daemon \<times> event list" where
  "note_near_limit c d =
     (let engaged = near_limit_fast_poll_engaged c d
      in (d\<lparr>d_near_limit_fast_poll := engaged\<rparr>,
          if engaged \<and> \<not> d_near_limit_fast_poll d
          then (case d_active d of
              Some i \<Rightarrow> [Ev_NearLimitPollCoverage (acc_uuid c i) (near_limit_applied_sub_interval_secs c d)
                          (c_near_limit_poll_secs c)]
            | None \<Rightarrow> [])
          else []))"

definition tick_decide ::
  "cfg \<Rightarrow> 'w env \<Rightarrow> instant \<Rightarrow> nat option \<Rightarrow> canonical_liveness \<Rightarrow> usage option list \<Rightarrow> ('w ctx, tick_action) state" where
  "tick_decide c e tm act live readings =
     (if live = CL_Scrubbed then do {
        recovered \<leftarrow> recover_scrubbed_canonical c e act readings tm;
        (case recovered of
           Some action \<Rightarrow> State_Monad.return action
         | None \<Rightarrow> decide_action c e tm act readings) }
      else decide_action c e tm act readings)"

definition tick_finish :: "cfg \<Rightarrow> 'w env \<Rightarrow> tick_action \<Rightarrow> tick_backoff option \<Rightarrow> ('w ctx, unit) state" where
  "tick_finish c e action backoff = do {
     sync (settle_alarms action);
     now_secs \<leftarrow> asks (env_wall_secs e);
     probe \<leftarrow> asks (\<lambda>w. map_option (\<lambda>p. p w) (env_fleet_probe e));
     sync (check_fleet_runway_warn c probe now_secs);
     sync (note_near_limit c);
     diags [Dg_Tick (tick_decision_class action) (map_option (\<lambda>b. as_secs (tb_wait b)) backoff)
              (Option.bind backoff (\<lambda>b. map_option as_secs (tb_retry_after b)))] }"

section \<open>The tick\<close>

text \<open>The events and diagnostics of \<open>TickOutcome\<close> are those pushed to the context.\<close>

record tick_outcome =
  to_action :: tick_action
  to_snapshot :: status_snapshot
  to_next_wait :: "duration option"

definition tick_snapshot :: "cfg \<Rightarrow> 'w env \<Rightarrow> usage option list \<Rightarrow> ('w ctx, status_snapshot) state" where
  "tick_snapshot c e readings = do {
     now_secs \<leftarrow> asks (env_wall_secs e);
     blind_at \<leftarrow> asks (clock_now (env_io e));
     getd (\<lambda>d. snapshot c (d_active d) readings now_secs blind_at d) }"

definition tick_unlocked ::
  "cfg \<Rightarrow> 'w env \<Rightarrow> instant \<Rightarrow> nat option \<Rightarrow> credential option \<Rightarrow> bool \<Rightarrow> ('w ctx, tick_outcome) state" where
  "tick_unlocked c e tm before canonical absent = do {
     tick_resolve c e before canonical;
     act \<leftarrow> getd d_active;
     now \<leftarrow> asks (clock_now (env_io e));
     modd (note_active_designation c act now);
     (live, ds) \<leftarrow> sync_val (note_canonical_liveness c (env_io e) canonical absent act);
     diags ds;
     backoff \<leftarrow> tick_poll_next c e act canonical;
     gap_now \<leftarrow> asks (clock_now (env_io e));
     sync (note_observation_gap c act gap_now);
     now_ms \<leftarrow> asks (env_wall_ms e);
     keep_active_warm c e act canonical now_ms;
     readings \<leftarrow> getd (decision_readings c act);
     sync (note_blind_gate_eligibility c act readings tm);
     action \<leftarrow> tick_decide c e tm act live readings;
     tick_finish c e action backoff;
     snap \<leftarrow> tick_snapshot c e readings;
     State_Monad.return \<lparr>to_action = action, to_snapshot = snap, to_next_wait = None\<rparr> }"

definition tick_locked :: "cfg \<Rightarrow> 'w env \<Rightarrow> ('w ctx, tick_outcome) state" where
  "tick_locked c e = do {
     backoff \<leftarrow> sync_val locked_tick;
     snap \<leftarrow> tick_snapshot c e (replicate (length (c_roster c)) None);
     diags [Dg_Tick (tick_decision_class KeychainLockedAction) (Some (as_secs backoff)) None];
     State_Monad.return \<lparr>to_action = KeychainLockedAction, to_snapshot = snap, to_next_wait = Some backoff\<rparr> }"

definition tick :: "cfg \<Rightarrow> 'w env \<Rightarrow> ('w ctx, tick_outcome) state" where
  "tick c e = do {
     modd (\<lambda>d. d\<lparr>d_ticks := d_ticks d + 1\<rparr>);
     tm \<leftarrow> asks (clock_now (env_io e));
     before \<leftarrow> getd d_active;
     load \<leftarrow> asks (env_config_len e);
     sync (check_roster_divergence c load);
     canonical \<leftarrow> tick_read c e;
     (case canonical of
        CR_Locked \<Rightarrow> tick_locked c e
      | CR_Read cred absent \<Rightarrow> tick_unlocked c e tm before cred absent) }"

end
