(* ===== verification/Daemon_Alarms.thy ===== *)
theory Daemon_Alarms
  imports Daemon_Tick
begin

text \<open>
  Invariants of whole ticks. A tick keeps the invariant \<open>wf\<close>: every account index the daemon remembers stays
  in range. And the paired events of the daemon alternate over every history of ticks, whatever the world
  does: an alarm is only raised while its flag is down and only cleared while it is up. One predicate on the
  computations of the daemon, \<open>holds_alarm\<close>, carries both; its rules follow the shape of the monad, and each
  synchronous step is judged on its own by \<open>settled\<close>.
\<close>

section \<open>The alarms\<close>

text \<open>Fleet-wide alarms, and alarms of one account.\<close>

datatype alarm =
    A_AllExhausted | A_ActiveDead | A_Scrubbed | A_Fleet
  | A_Dead nat | A_Blind nat | A_Gap nat | A_SlowPoll nat

fun alarm_flag :: "alarm \<Rightarrow> daemon \<Rightarrow> bool" where
  "alarm_flag A_AllExhausted d = d_signaled_all_exhausted d"
| "alarm_flag A_ActiveDead d = d_signaled_active_dead_no_target d"
| "alarm_flag A_Scrubbed d = d_signaled_canonical_scrubbed d"
| "alarm_flag A_Fleet d = d_signaled_fleet_runway_low d"
| "alarm_flag (A_Dead i) d = quarantined (hlth d i)"
| "alarm_flag (A_Blind i) d = (blind_anchor_of (acct d i) \<noteq> None)"
| "alarm_flag (A_Gap i) d = (observation_gap (acct d i) \<noteq> None)"
| "alarm_flag (A_SlowPoll i) d = (exhausted_poll_until (hlth d i) \<noteq> None)"

fun raises :: "cfg \<Rightarrow> alarm \<Rightarrow> event \<Rightarrow> bool" where
  "raises c A_AllExhausted e = (\<exists>l r t. e = Ev_AllExhausted l r t)"
| "raises c A_ActiveDead e = (\<exists>l r t. e = Ev_ActiveDeadNoTarget l r t)"
| "raises c A_Scrubbed e = (\<exists>l. e = Ev_CanonicalScrubbed l)"
| "raises c A_Fleet e = (\<exists>r t n m. e = Ev_FleetRunwayLow r t n m)"
| "raises c (A_Dead i) e = (e = Ev_CredentialDead (acc_label c i))"
| "raises c (A_Blind i) e = (\<exists>s w x n. e = Ev_BlindEnter (acc_uuid c i) s w x n)"
| "raises c (A_Gap i) e = (\<exists>s t x. e = Ev_ObservationGapEnter (acc_uuid c i) s t x)"
| "raises c (A_SlowPoll i) e = (\<exists>w. e = Ev_ExhaustedSlowPoll (acc_uuid c i) w)"

fun clears :: "cfg \<Rightarrow> alarm \<Rightarrow> event \<Rightarrow> bool" where
  "clears c A_AllExhausted e = (e = Ev_AllExhaustedCleared)"
| "clears c A_ActiveDead e = (e = Ev_ActiveDeadNoTargetCleared)"
| "clears c A_Scrubbed e = (\<exists>l. e = Ev_CanonicalRestored l)"
| "clears c A_Fleet e = (e = Ev_FleetRunwayRecovered)"
| "clears c (A_Dead i) e = (e = Ev_CredentialRestored (acc_label c i))"
| "clears c (A_Blind i) e = (\<exists>s1 s2 s3 s4 s5 s6 s7 s8. e = Ev_BlindExit (acc_uuid c i) s1 s2 s3 s4 s5 s6 s7 s8)"
| "clears c (A_Gap i) e = (\<exists>s x y. e = Ev_ObservationGapExit (acc_uuid c i) s x y)"
| "clears c (A_SlowPoll i) e = (e = Ev_ExhaustedSlowPollCleared (acc_uuid c i))"

text \<open>The events that belong to some alarm.\<close>

fun alarming :: "event \<Rightarrow> bool" where
  "alarming (Ev_AllExhausted _ _ _) = True"
| "alarming Ev_AllExhaustedCleared = True"
| "alarming (Ev_ActiveDeadNoTarget _ _ _) = True"
| "alarming Ev_ActiveDeadNoTargetCleared = True"
| "alarming (Ev_CanonicalScrubbed _) = True"
| "alarming (Ev_CanonicalRestored _) = True"
| "alarming (Ev_FleetRunwayLow _ _ _ _) = True"
| "alarming Ev_FleetRunwayRecovered = True"
| "alarming (Ev_CredentialDead _) = True"
| "alarming (Ev_CredentialRestored _) = True"
| "alarming (Ev_BlindEnter _ _ _ _ _) = True"
| "alarming (Ev_BlindExit _ _ _ _ _ _ _ _ _) = True"
| "alarming (Ev_ObservationGapEnter _ _ _ _) = True"
| "alarming (Ev_ObservationGapExit _ _ _ _) = True"
| "alarming (Ev_ExhaustedSlowPoll _ _) = True"
| "alarming (Ev_ExhaustedSlowPollCleared _) = True"
| "alarming _ = False"

lemma raises_alarming: "raises c a e \<Longrightarrow> alarming e"
  by (cases a) auto

lemma clears_alarming: "clears c a e \<Longrightarrow> alarming e"
  by (cases a) auto

text \<open>An alarm of an account is told by the handle its events carry; the handles are pairwise different.\<close>

definition distinct_handles :: "cfg \<Rightarrow> bool" where
  "distinct_handles c \<longleftrightarrow> distinct (map label (c_roster c)) \<and> distinct (map account_uuid (c_roster c))"

fun alarm_index :: "alarm \<Rightarrow> nat option" where
  "alarm_index (A_Dead i) = Some i"
| "alarm_index (A_Blind i) = Some i"
| "alarm_index (A_Gap i) = Some i"
| "alarm_index (A_SlowPoll i) = Some i"
| "alarm_index _ = None"

definition alarm_ok :: "cfg \<Rightarrow> alarm \<Rightarrow> bool" where
  "alarm_ok c a \<longleftrightarrow> (\<forall>i. alarm_index a = Some i \<longrightarrow> i < length (c_roster c) \<and> distinct_handles c)"

lemma same_label [simp]:
  "distinct_handles c \<Longrightarrow> i < length (c_roster c) \<Longrightarrow> j < length (c_roster c) \<Longrightarrow>
   acc_label c i = acc_label c j \<longleftrightarrow> i = j"
  by (metis distinct_handles_def length_map nth_eq_iff_index_eq nth_map)

lemma same_uuid [simp]:
  "distinct_handles c \<Longrightarrow> i < length (c_roster c) \<Longrightarrow> j < length (c_roster c) \<Longrightarrow>
   acc_uuid c i = acc_uuid c j \<longleftrightarrow> i = j"
  by (metis distinct_handles_def length_map nth_eq_iff_index_eq nth_map)

section \<open>Synchronous steps\<close>

definition settled :: "cfg \<Rightarrow> alarm \<Rightarrow> daemon \<Rightarrow> daemon \<Rightarrow> event list \<Rightarrow> bool" where
  "settled c a d d' es \<longleftrightarrow> (wf c d \<longrightarrow> wf c d' \<and>
     bracketed (raises c a) (clears c a) (alarm_flag a d) es \<and>
     bracket_end (raises c a) (clears c a) (alarm_flag a d) es = alarm_flag a d')"

lemma settled_trans:
  "settled c a d d1 xs \<Longrightarrow> settled c a d1 d2 ys \<Longrightarrow> settled c a d d2 (xs @ ys)"
  by (auto simp: settled_def bracketed_append bracket_end_append)

lemma settled_refl [simp]: "settled c a d d []"
  by (simp add: settled_def)

lemma settled_quiet:
  assumes "wf c d \<Longrightarrow> wf c d'" "alarm_flag a d' = alarm_flag a d"
    and "list_all (\<lambda>e. \<not> alarming e) es"
  shows "settled c a d d' es"
proof -
  have "\<not> raises c a e \<and> \<not> clears c a e" if "e \<in> set es" for e
    using assms(3) that raises_alarming clears_alarming by (auto simp: list_all_iff)
  then show ?thesis using assms(1,2) bracketed_neutral [of es "raises c a" "clears c a"] by (simp add: settled_def)
qed

lemma acct_upd:
  "acct (upd_account j f d) i = (if i = j \<and> j < length (d_accounts d) then f (acct d i) else acct d i)"
  by (cases "j < length (d_accounts d)") (auto simp: upd_account_def nth_list_update list_update_beyond)

lemma hlth_upd:
  "hlth (upd_health j f d) i = (if i = j \<and> j < length (d_accounts d) then f (hlth d i) else hlth d i)"
  "acct (upd_health j f d) i = (if i = j \<and> j < length (d_accounts d) then health_update f (acct d i) else acct d i)"
  by (simp_all add: upd_health_def acct_upd)

lemma upd_globals [simp]:
  "d_signaled_all_exhausted (upd_account j f d) = d_signaled_all_exhausted d"
  "d_signaled_active_dead_no_target (upd_account j f d) = d_signaled_active_dead_no_target d"
  "d_signaled_canonical_scrubbed (upd_account j f d) = d_signaled_canonical_scrubbed d"
  "d_signaled_fleet_runway_low (upd_account j f d) = d_signaled_fleet_runway_low d"
  by (simp_all add: upd_account_def)

lemma upd_health_globals [simp]:
  "d_signaled_all_exhausted (upd_health j g d) = d_signaled_all_exhausted d"
  "d_signaled_active_dead_no_target (upd_health j g d) = d_signaled_active_dead_no_target d"
  "d_signaled_canonical_scrubbed (upd_health j g d) = d_signaled_canonical_scrubbed d"
  "d_signaled_fleet_runway_low (upd_health j g d) = d_signaled_fleet_runway_low d"
  by (simp_all add: upd_health_def)

lemma alarm_flag_upd:
  assumes "quarantined (health (f (acct d j))) = quarantined (hlth d j)"
    and "(blind_anchor_of (f (acct d j)) = None) = (blind_anchor_of (acct d j) = None)"
    and "(observation_gap (f (acct d j)) = None) = (observation_gap (acct d j) = None)"
    and "(exhausted_poll_until (health (f (acct d j))) = None) = (exhausted_poll_until (hlth d j) = None)"
  shows "alarm_flag a (upd_account j f d) = alarm_flag a d"
  using assms by (cases a) (auto simp: acct_upd)

lemma alarm_flag_upd_health:
  assumes "quarantined (f (hlth d j)) = quarantined (hlth d j)"
    and "(exhausted_poll_until (f (hlth d j)) = None) = (exhausted_poll_until (hlth d j) = None)"
  shows "alarm_flag a (upd_health j f d) = alarm_flag a d"
  unfolding upd_health_def by (rule alarm_flag_upd) (use assms in simp_all)

section \<open>Computations\<close>

text \<open>From a well-formed daemon: still well-formed, the new events bracketed, and the result in \<open>Q\<close>.\<close>

definition holds_alarm :: "cfg \<Rightarrow> alarm \<Rightarrow> ('w ctx, 'a) state \<Rightarrow> ('a \<Rightarrow> bool) \<Rightarrow> bool" where
  "holds_alarm c a m Q \<longleftrightarrow> (\<forall>s. wf c (cx_d s) \<longrightarrow> Q (res m s) \<and>
     (\<exists>es. cx_events (exec m s) = cx_events s @ es \<and> settled c a (cx_d s) (cx_d (exec m s)) es))"

lemma ha_bind:
  assumes "holds_alarm c a m Q" "\<And>x. Q x \<Longrightarrow> holds_alarm c a (f x) R"
  shows "holds_alarm c a (State_Monad.bind m f) R"
  unfolding holds_alarm_def
proof (intro allI impI)
  fix s :: "'a ctx"
  assume wf: "wf c (cx_d s)"
  obtain es where q: "Q (res m s)" and ev: "cx_events (exec m s) = cx_events s @ es"
      and st: "settled c a (cx_d s) (cx_d (exec m s)) es"
    using assms(1) wf by (auto simp: holds_alarm_def)
  have wf': "wf c (cx_d (exec m s))" using st wf by (simp add: settled_def)
  obtain es' where "R (res (f (res m s)) (exec m s))"
      "cx_events (exec (f (res m s)) (exec m s)) = cx_events (exec m s) @ es'"
      "settled c a (cx_d (exec m s)) (cx_d (exec (f (res m s)) (exec m s))) es'"
    using assms(2) [OF q] wf' by (auto simp: holds_alarm_def)
  then show "R (res (State_Monad.bind m f) s) \<and>
      (\<exists>es. cx_events (exec (State_Monad.bind m f) s) = cx_events s @ es \<and>
        settled c a (cx_d s) (cx_d (exec (State_Monad.bind m f) s)) es)"
    using settled_trans [OF st] ev by (auto simp: split_beta)
qed

lemma ha_weaken: "holds_alarm c a m Q \<Longrightarrow> (\<And>x. Q x \<Longrightarrow> R x) \<Longrightarrow> holds_alarm c a m R"
  by (auto simp: holds_alarm_def)

lemma ha_return: "Q x \<Longrightarrow> holds_alarm c a (State_Monad.return x) Q"
  by (simp add: holds_alarm_def)

lemma ha_in_world: "(\<And>w. Q (res m w)) \<Longrightarrow> holds_alarm c a (in_world m) Q"
  by (simp add: holds_alarm_def)

lemma ha_asks: "(\<And>w. Q (f w)) \<Longrightarrow> holds_alarm c a (asks f) Q"
  by (simp add: holds_alarm_def)

lemma ha_getd: "(\<And>d. wf c d \<Longrightarrow> Q (f d)) \<Longrightarrow> holds_alarm c a (getd f) Q"
  by (simp add: holds_alarm_def)

lemma ha_modd: "(\<And>d. wf c d \<Longrightarrow> settled c a d (f d) []) \<Longrightarrow> holds_alarm c a (modd f) (\<lambda>_. True)"
  by (simp add: holds_alarm_def)

lemma ha_emits:
  assumes "list_all (\<lambda>e. \<not> alarming e) es"
  shows "holds_alarm c a (emits es) (\<lambda>_. True)"
  using settled_quiet [OF _ refl assms] by (simp add: holds_alarm_def)

lemma ha_diags: "holds_alarm c a (diags ds) (\<lambda>_. True)"
  by (simp add: holds_alarm_def)

lemma ha_sync:
  "(\<And>d. wf c d \<Longrightarrow> settled c a d (fst (f d)) (snd (f d))) \<Longrightarrow> holds_alarm c a (sync f) (\<lambda>_. True)"
  by (simp add: holds_alarm_def)

lemma ha_sync_val:
  "(\<And>d. wf c d \<Longrightarrow> Q (fst (f d)) \<and> settled c a d (fst (snd (f d))) (snd (snd (f d)))) \<Longrightarrow>
   holds_alarm c a (sync_val f) Q"
  by (simp add: holds_alarm_def)

lemma ha_swhen: "(b \<Longrightarrow> holds_alarm c a m Q) \<Longrightarrow> holds_alarm c a (swhen b m) (\<lambda>_. True)"
  by (auto simp: holds_alarm_def)

lemma ha_if:
  "(b \<Longrightarrow> holds_alarm c a m Q) \<Longrightarrow> (\<not> b \<Longrightarrow> holds_alarm c a n Q) \<Longrightarrow> holds_alarm c a (if b then m else n) Q"
  by simp

lemma ha_option:
  "(x = None \<Longrightarrow> holds_alarm c a m Q) \<Longrightarrow> (\<And>y. x = Some y \<Longrightarrow> holds_alarm c a (f y) Q) \<Longrightarrow>
   holds_alarm c a (case x of None \<Rightarrow> m | Some y \<Rightarrow> f y) Q"
  by (cases x) auto

lemma ha_sum:
  "(\<And>y. x = Inl y \<Longrightarrow> holds_alarm c a (f y) Q) \<Longrightarrow> (\<And>y. x = Inr y \<Longrightarrow> holds_alarm c a (g y) Q) \<Longrightarrow>
   holds_alarm c a (case x of Inl y \<Rightarrow> f y | Inr y \<Rightarrow> g y) Q"
  by (cases x) auto

lemma ha_prod: "(\<And>y z. x = (y, z) \<Longrightarrow> holds_alarm c a (f y z) Q) \<Longrightarrow> holds_alarm c a (case x of (y, z) \<Rightarrow> f y z) Q"
  by (cases x) auto

lemma ha_let: "(\<And>y. y = x \<Longrightarrow> holds_alarm c a (f y) Q) \<Longrightarrow> holds_alarm c a (let y = x in f y) Q"
  by simp

section \<open>The synchronous steps of a tick\<close>

lemma wf_len: "wf c d \<Longrightarrow> length (d_accounts d) = length (c_roster c)"
  by (simp add: wf_def)

lemma wf_active: "wf c d \<Longrightarrow> d_active d = Some i \<Longrightarrow> i < length (c_roster c)"
  by (simp add: wf_def)

text \<open>Steps that touch neither the accounts nor an alarm.\<close>

lemma settled_globals:
  assumes "wf c d \<Longrightarrow> wf c d'" "d_accounts d' = d_accounts d"
    and "d_signaled_all_exhausted d' = d_signaled_all_exhausted d"
    and "d_signaled_active_dead_no_target d' = d_signaled_active_dead_no_target d"
    and "d_signaled_canonical_scrubbed d' = d_signaled_canonical_scrubbed d"
    and "d_signaled_fleet_runway_low d' = d_signaled_fleet_runway_low d"
    and "list_all (\<lambda>e. \<not> alarming e) es"
  shows "settled c a d d' es"
  by (rule settled_quiet) (use assms in \<open>cases a; simp\<close>)+

text \<open>Steps on one account that keep its standing.\<close>

lemma settled_account:
  assumes "\<And>r. quarantined (health (f r)) = quarantined (health r)"
    and "\<And>r. blind_anchor_of (f r) = blind_anchor_of r" "\<And>r. observation_gap (f r) = observation_gap r"
    and "\<And>r. exhausted_poll_until (health (f r)) = exhausted_poll_until (health r)"
    and "list_all (\<lambda>e. \<not> alarming e) es"
  shows "settled c a d (upd_account j f d) es"
  by (rule settled_quiet) (use assms in \<open>simp_all add: alarm_flag_upd\<close>)

lemma settled_health:
  assumes "\<And>h. quarantined (f h) = quarantined h"
    and "\<And>h. exhausted_poll_until (f h) = exhausted_poll_until h"
    and "list_all (\<lambda>e. \<not> alarming e) es"
  shows "settled c a d (upd_health j f d) es"
  unfolding upd_health_def by (rule settled_account) (use assms in simp_all)

lemma st_divergence: "settled c a d (fst (check_roster_divergence c load d)) (snd (check_roster_divergence c load d))"
  by (rule settled_globals)
    (auto simp: check_roster_divergence_def Let_def wf_def split: if_splits roster_check_verdict.splits)

lemma st_designation: "settled c a d (note_active_designation c act now d) []"
  by (rule settled_globals) (auto simp: note_active_designation_def wf_def split: option.splits)

lemma st_invalidate: "settled c a d (invalidate_poll_schedule d) []"
  by (rule settled_globals) (auto simp: invalidate_poll_schedule_def wf_def)

lemma st_liveness:
  "settled c a d (fst (snd (note_canonical_liveness c io canonical absent act d)))
     (snd (snd (note_canonical_liveness c io canonical absent act d)))"
proof -
  obtain st fp ex where "canonical_state io canonical absent = (st, fp, ex)" by (cases rule: prod_cases3)
  then show ?thesis
    by (cases a) (auto simp: settled_def note_canonical_liveness_def Let_def wf_def
        split: canonical_liveness.splits option.splits)
qed

lemma st_expiry:
  "settled c a d (fst (fold_expiry_observation c i observed source provenance replaced now d))
     (snd (fold_expiry_observation c i observed source provenance replaced now d))"
proof (cases observed)
  case (Some deadline)
  let ?d1 = "upd_health i (\<lambda>h. h\<lparr>expires_baseline := Some deadline, expires_baseline_source := Some source,
                     own_refresh_since_expiry_observation := False\<rparr>) d"
  have edge: "settled c a d' (fst (note_expiry_horizon_edge c i deadline now d'))
      (snd (note_expiry_horizon_edge c i deadline now d'))" for d'
    unfolding note_expiry_horizon_edge_def Let_def
    by (cases "ae_horizon_state (account_expiry (Some deadline) (c_credential_expiry_horizon_secs c) now)")
      (auto intro!: settled_health)
  have "settled c a d ?d1 (if expires_baseline (hlth d i) \<noteq> Some deadline \<or> provenance = EP_CanonicalRestash
      then [Ev_CredentialExpiryObserved (acc_uuid c i) provenance (expires_baseline (hlth d i)) deadline replaced] else [])"
    by (rule settled_health) auto
  from settled_trans [OF this edge] show ?thesis using Some
    by (simp add: fold_expiry_observation_def Let_def split_beta)
qed (simp add: fold_expiry_observation_def)

lemma st_polled_expiry:
  "settled c a d (fst (note_polled_expiry c i observed source now d)) (snd (note_polled_expiry c i observed source now d))"
  unfolding note_polled_expiry_def Let_def by (rule st_expiry)

lemma st_restore:
  assumes "alarm_ok c a" "wf c d" "i < length (c_roster c)" "quarantined (hlth d i)"
  shows "settled c a d (restore i d) [Ev_CredentialRestored (acc_label c i)]"
  using assms by (cases a) (auto simp: settled_def restore_def hlth_upd wf_len alarm_ok_def)

lemma st_deactivate: "settled c a d (deactivate_recovery_probe prev nxt d) []"
  by (auto simp: deactivate_recovery_probe_def split: option.splits intro!: settled_health)

lemma st_poll_outcome:
  assumes "alarm_ok c a" "wf c d" "i < length (c_roster c)"
  shows "settled c a d (fst (note_poll_outcome c i result d)) (snd (note_poll_outcome c i result d))"
  using assms
  by (cases a) (auto simp: note_poll_outcome_def poll_fold_cases settled_def hlth_upd wf_len alarm_ok_def split_beta
      simp del: classify_poll_Live classify_poll_Unauthorized)

lemma st_backoff:
  "settled c a d (fst (snd (note_account_backoff m c i is_active result now d)))
     (snd (snd (note_account_backoff m c i is_active result now d)))"
proof (cases "backoff_signal result")
  case None
  then show ?thesis by (auto simp: note_account_backoff_def Let_def intro!: settled_health)
next
  case (Some sig)
  let ?h1 = "\<lambda>h. h\<lparr>poll_backoff_streak := u32_sat_add (poll_backoff_streak (hlth d i)) 1\<rparr>"
  have one: "settled c a d (upd_health i ?h1 d) []" by (rule settled_health) auto
  have drawn: "settled c a d' (snd (next_poll_interval m c d')) []" for d'
    by (rule settled_globals) (auto simp: next_poll_interval_def draw_on_def split_beta wf_def)
  have two: "settled c a d' (upd_health i (\<lambda>h. h\<lparr>poll_backoff_until := x, poll_backoff_retry_after := y\<rparr>) d')
      [Ev_UsageBackoff l1 l2 l3 l4 l5]" for d' x y l1 l2 l3 l4 l5
    by (rule settled_health) auto
  show ?thesis using settled_trans [OF settled_trans [OF one drawn] two] Some
    by (simp add: note_account_backoff_def Let_def split_beta)
qed

lemma st_velocity: "settled c a d (fst (tick_velocity c i result now d)) (snd (tick_velocity c i result now d))"
proof (cases "\<exists>p q t. last_reading (acct d i) = Some p \<and> result = Inr q \<and> last_reading_at (acct d i) = Some t")
  case True
  then obtain p q t where facts: "last_reading (acct d i) = Some p" "result = Inr q" "last_reading_at (acct d i) = Some t"
    by auto
  have upd: "settled c a d (note_session_velocity c i x y z d) es" if "list_all (\<lambda>e. \<not> alarming e) es" for x y z es
    unfolding note_session_velocity_def by (rule settled_account) (use that in auto)
  have quiet: "settled c a d d es" if "list_all (\<lambda>e. \<not> alarming e) es" for es
    by (rule settled_globals) (use that in auto)
  show ?thesis using facts
    by (auto simp: tick_velocity_def Let_def split_beta intro!: upd quiet split: bool.splits option.splits)
next
  case False
  then have "tick_velocity c i result now d = (d, [])"
    by (auto simp: tick_velocity_def split: option.splits sum.splits)
  then show ?thesis by simp
qed

lemma st_blind_window: "settled c a d d (tick_blind_window c i act result now d)"
  by (rule settled_globals) (simp_all add: tick_blind_window_def split: option.split sum.split)

lemma st_blind_episode:
  assumes "alarm_ok c a" "wf c d" "i < length (c_roster c)"
  shows "settled c a d (fst (note_blind_episode c i act result now d)) (snd (note_blind_episode c i act result now d))"
  using assms
  by (cases a) (auto simp: note_blind_episode_def Let_def settled_def acct_upd wf_len alarm_ok_def
      split: option.splits sum.splits)

lemma st_landing: "settled c a d (note_landing_overshoot c i act result now d) []"
proof -
  have "settled c a d (d\<lparr>d_last_landing_overshoot := x\<rparr>) []" for x by (rule settled_globals) (auto simp: wf_def)
  moreover have "settled c a d' (upd_account i (\<lambda>a. a\<lparr>parked := None\<rparr>) d') []" for d' by (rule settled_account) auto
  ultimately show ?thesis
    by (auto simp: note_landing_overshoot_def Let_def split: option.splits sum.splits intro: settled_trans [where xs = "[]", simplified])
qed

lemma st_store_reading: "settled c a d (store_reading i result now d) []"
  unfolding store_reading_def by (rule settled_account) (auto simp: Let_def split: sum.split)

lemma st_exhausted:
  assumes "alarm_ok c a" "wf c d" "i < length (c_roster c)"
  shows "settled c a d (fst (note_exhausted_poll c i act now secs d)) (snd (note_exhausted_poll c i act now secs d))"
  using assms
  by (cases a) (auto simp: note_exhausted_poll_def Let_def settled_def hlth_upd wf_len alarm_ok_def split: option.splits)

lemma st_last_good: "settled c a d (note_last_good i act now d) []"
  by (rule settled_globals) (auto simp: note_last_good_def wf_def split: option.splits)

lemma st_polled: "settled c a d (note_polled i d) []"
proof -
  have one: "settled c a d (upd_account i (\<lambda>a. a\<lparr>polled_once := True\<rparr>) d) []" by (rule settled_account) auto
  have two: "settled c a d' (d'\<lparr>d_warmed_up := True\<rparr>) []" for d' by (rule settled_globals) (auto simp: wf_def)
  show ?thesis using one settled_trans [OF one two] by (simp add: note_polled_def Let_def)
qed

lemma st_gap_step:
  assumes "alarm_ok c a" "wf c d" "i < length (c_roster c)"
  shows "settled c a d (fst (gap_step c act now th lda da i d)) (snd (gap_step c act now th lda da i d))"
  using assms
  by (cases a) (auto simp: gap_step_def Let_def settled_def acct_upd wf_len alarm_ok_def split: option.splits)

lemma settled_fold:
  assumes "\<And>i d. i \<in> set xs \<Longrightarrow> wf c d \<Longrightarrow> settled c a d (fst (f i d)) (snd (f i d))"
  shows "settled c a d0 d es \<Longrightarrow> wf c d0 \<Longrightarrow>
    settled c a d0 (fst (fold (\<lambda>i (d, es). case f i d of (d', es') \<Rightarrow> (d', es @ es')) xs (d, es)))
      (snd (fold (\<lambda>i (d, es). case f i d of (d', es') \<Rightarrow> (d', es @ es')) xs (d, es)))"
  using assms
proof (induction xs arbitrary: d es)
  case (Cons x xs)
  have "wf c d" using Cons.prems(1,2) by (simp add: settled_def)
  then have "settled c a d0 (fst (f x d)) (es @ snd (f x d))"
    using settled_trans [OF Cons.prems(1)] Cons.prems(3) by simp
  from Cons.IH [OF this Cons.prems(2)] Cons.prems(3) show ?case by (simp add: split_beta)
qed simp

lemma st_observation_gap:
  assumes "alarm_ok c a" "wf c d"
  shows "settled c a d (fst (note_observation_gap c act now d)) (snd (note_observation_gap c act now d))"
  unfolding note_observation_gap_def Let_def
  by (rule settled_fold [OF st_gap_step [OF assms(1)]]) (use assms(2) in simp_all)

lemma st_gate: "settled c a d (fst (note_blind_gate_eligibility c act readings tm d)) (snd (note_blind_gate_eligibility c act readings tm d))"
  by (rule settled_globals)
    (auto simp: note_blind_gate_eligibility_def Let_def wf_def split: option.splits if_splits)

lemma st_settle: "settled c a d (fst (settle_alarms action d)) (snd (settle_alarms action d))"
  by (cases a) (auto simp: settled_def settle_alarms_def Let_def wf_def)

lemma st_near_limit: "settled c a d (fst (note_near_limit c d)) (snd (note_near_limit c d))"
  by (rule settled_globals) (simp_all add: note_near_limit_def Let_def wf_def split: option.split)

lemma st_fleet: "settled c a d (fst (check_fleet_runway_warn c probe now d)) (snd (check_fleet_runway_warn c probe now d))"
  by (cases a) (auto simp: settled_def check_fleet_runway_warn_def Let_def wf_def split: option.splits fleet_runway_state.splits)

lemma st_note_swap: "wf c d \<Longrightarrow> i < length (c_roster c) \<Longrightarrow> settled c a d (note_swap i tm d) []"
proof -
  assume wf: "wf c d" and i: "i < length (c_roster c)"
  let ?d1 = "invalidate_poll_schedule (d\<lparr>d_active := Some i\<rparr>)"
  have one: "settled c a d ?d1 []"
    by (rule settled_globals) (use i in \<open>auto simp: invalidate_poll_schedule_def wf_def\<close>)
  have two: "settled c a ?d1 (upd_account i (\<lambda>a. a\<lparr>parked := None\<rparr>) ?d1) []" by (rule settled_account) auto
  have three: "settled c a d' (d'\<lparr>d_last_good := None, d_last_swap := Some tm, d_last_blind_preempt_swap := None,
            d_signaled_retry_after_reserve := False, d_signaled_retry_after_walk := False\<rparr>) []" for d'
    by (rule settled_globals) (auto simp: wf_def)
  show ?thesis using settled_trans [OF settled_trans [OF one two] three] by (simp add: note_swap_def Let_def)
qed

lemma st_canary: "settled c a d (fst (note_canary status d)) (snd (note_canary status d))"
  by (rule settled_globals)
    (auto simp: note_canary_def wf_def close_canary_alarm_bracket_def split: canary_status.splits if_splits)

lemma st_adopt_changed:
  assumes "alarm_ok c a" "wf c d" "i < length (c_roster c)"
  shows "settled c a d (fst (adopt_changed c io i canonical now d)) (snd (adopt_changed c io i canonical now d))"
proof -
  let ?p1 = "note_restash_expiry c i (map_option millis_to_secs (refresh_token_expires_at_ms io canonical))
      (grant_replaced io (watch_baseline (d_canonical_watch d)) canonical) now d"
  let ?p2 = "if quarantined (hlth (fst ?p1) i) then (restore i (fst ?p1), [Ev_CredentialRestored (acc_label c i)]) else (fst ?p1, [])"
  have zero: "settled c a d d [Ev_ReStash (acc_label c i)]" by (rule settled_globals) auto
  have one: "settled c a d (fst ?p1) (snd ?p1)" unfolding note_restash_expiry_def by (rule st_expiry)
  have "wf c (fst ?p1)" using one assms(2) by (simp add: settled_def)
  then have two: "settled c a (fst ?p1) (fst ?p2) (snd ?p2)" using st_restore [OF assms(1) _ assms(3)] by simp
  have last: "settled c a d' (d'\<lparr>d_canonical_watch := w, d_active := None, d_last_good := None\<rparr>) []" for d' w
    by (rule settled_globals) (auto simp: wf_def)
  show ?thesis
    using settled_trans [OF settled_trans [OF settled_trans [OF settled_trans [OF zero one] two] st_deactivate] last]
    by (simp add: adopt_changed_def Let_def split_beta)
qed

section \<open>The computations of a tick\<close>

abbreviation keeps_alarm :: "cfg \<Rightarrow> alarm \<Rightarrow> ('w ctx, 'a) state \<Rightarrow> bool" where
  "keeps_alarm c a m \<equiv> holds_alarm c a m (\<lambda>_. True)"

lemma ka_bind: "keeps_alarm c a m \<Longrightarrow> (\<And>x. keeps_alarm c a (f x)) \<Longrightarrow> keeps_alarm c a (State_Monad.bind m f)"
  by (rule ha_bind)

lemma ka_simple:
  "keeps_alarm c a (State_Monad.return x)" "keeps_alarm c a (in_world m)" "keeps_alarm c a (asks f)"
  "keeps_alarm c a (getd g)" "keeps_alarm c a (diags ds)"
  by (simp_all add: holds_alarm_def)

lemma ka_sync_val:
  "(\<And>d. wf c d \<Longrightarrow> settled c a d (fst (snd (f d))) (snd (snd (f d)))) \<Longrightarrow> keeps_alarm c a (sync_val f)"
  by (rule ha_sync_val) simp

lemma ka_swhen: "keeps_alarm c a m \<Longrightarrow> keeps_alarm c a (swhen b m)"
  by (rule ha_swhen)

lemmas ka_rules = ka_bind ka_simple ka_sync_val ka_swhen ha_sync ha_modd ha_emits ha_if ha_option ha_sum ha_prod ha_let

text \<open>An attributed account is one of the roster.\<close>

definition in_roster :: "cfg \<Rightarrow> nat option \<Rightarrow> bool" where
  "in_roster c o' \<longleftrightarrow> (\<forall>i. o' = Some i \<longrightarrow> i < length (c_roster c))"

lemma resolve_by_token_range: "res (resolve_by_token io roster cred k) w = Some j \<Longrightarrow> j < k + length roster"
proof (induction roster arbitrary: k w)
  case (Cons x roster)
  show ?case
  proof (cases "\<exists>s. res (stash_read io (stash_name x)) w = Inr s \<and> credential_matches (stashed_credential s) cred")
    case True
    then show ?thesis using Cons.prems by (auto simp: split_beta)
  next
    case False
    then have "res (resolve_by_token io roster cred (Suc k)) (exec (stash_read io (stash_name x)) w) = Some j"
      using Cons.prems by (auto simp: split_beta split: sum.splits if_splits)
    from Cons.IH [OF this] show ?thesis by simp
  qed
qed simp

lemma resolve_via_display_range: "in_roster c (res (resolve_via_display io (c_roster c) f) w)"
  by (auto simp: in_roster_def resolve_via_display_def split_beta dest: position_less split: sum.splits)

lemma resolve_for_range: "in_roster c (res (resolve_for c e cred) w)"
proof (cases "res (resolve_by_token (env_io e) (c_roster c) cred 0) w")
  case None
  then show ?thesis using resolve_via_display_range [of c "env_io e" "c_claude_json c"]
    by (simp add: resolve_for_def resolve_account_for_def split_beta)
next
  case (Some j)
  then show ?thesis using resolve_by_token_range [OF Some]
    by (simp add: resolve_for_def resolve_account_for_def split_beta in_roster_def)
qed

lemma resolve_active_range: "in_roster c (res (resolve_active c e) w)"
  by (simp add: resolve_active_def split_beta resolve_for_range resolve_via_display_range split: sum.split)

lemma ha_resolve: "holds_alarm c a (in_world (resolve_for c e cred)) (in_roster c)"
  by (rule ha_in_world) (rule resolve_for_range)

lemma ka_reconcile:
  assumes "alarm_ok c a"
  shows "keeps_alarm c a (reconcile_canonical_change c e canonical)"
proof -
  have commit: "settled c a d (d\<lparr>d_canonical_watch := x\<rparr>) []" for d x by (rule settled_globals) (auto simp: wf_def)
  have forget: "settled c a d (d\<lparr>d_canonical_watch := x, d_active := None, d_last_good := None\<rparr>) []" for d x
    by (rule settled_globals) (auto simp: wf_def)
  have some: "keeps_alarm c a (do {
      stashed \<leftarrow> in_world (restash_account c e i canonical);
      now_secs \<leftarrow> asks (env_wall_secs e);
      swhen stashed (sync (adopt_changed c (env_io e) i canonical now_secs)) })" if "i < length (c_roster c)" for i
    by (intro ka_rules st_adopt_changed assms that)
  have none: "keeps_alarm c a (do {
      shown \<leftarrow> in_world (read_oauth_account_from (env_io e) (c_claude_json c));
      emits [Ev_UncapturedLogin (case shown of Inr oa \<Rightarrow> Some (oa_account_uuid oa) | Inl _ \<Rightarrow> None)];
      modd (\<lambda>d. d\<lparr>d_canonical_watch := watch_commit (d_canonical_watch d) canonical,
        d_active := None, d_last_good := None\<rparr>) })"
    by (intro ka_rules forget) simp
  have changed: "keeps_alarm c a (do {
          owner \<leftarrow> in_world (resolve_for c e canonical);
          (case owner of
             Some i \<Rightarrow> do {
               stashed \<leftarrow> in_world (restash_account c e i canonical);
               now_secs \<leftarrow> asks (env_wall_secs e);
               swhen stashed (sync (adopt_changed c (env_io e) i canonical now_secs)) }
           | None \<Rightarrow> do {
               shown \<leftarrow> in_world (read_oauth_account_from (env_io e) (c_claude_json c));
               emits [Ev_UncapturedLogin (case shown of Inr oa \<Rightarrow> Some (oa_account_uuid oa) | Inl _ \<Rightarrow> None)];
               modd (\<lambda>d. d\<lparr>d_canonical_watch := watch_commit (d_canonical_watch d) canonical,
                 d_active := None, d_last_good := None\<rparr>) }) })"
    by (rule ha_bind [OF ha_resolve])
      (auto simp: in_roster_def intro!: some none split: option.split)
  show ?thesis unfolding reconcile_canonical_change_def
    by (rule ka_bind [OF ka_simple(4)]) (auto intro!: changed ka_simple(1) ha_modd commit split: canonical_change.split)
qed

subsection \<open>The poll\<close>

lemma settled_own_refresh: "settled c a d (note_own_credential_refresh i d) []"
  unfolding note_own_credential_refresh_def by (rule settled_health) auto

lemma ka_promote: "keeps_alarm c a (promote_canonical c e i cred)"
proof -
  have one: "settled c a d (d\<lparr>d_canonical_watch := x\<rparr>) []" for d x by (rule settled_globals) (auto simp: wf_def)
  have two: "settled c a d (upd_health i (\<lambda>h. h\<lparr>access_expires_at := x\<rparr>) d) []" for d x
    by (rule settled_health) auto
  show ?thesis unfolding promote_canonical_def
    by (intro ka_rules settled_trans [OF one two, simplified])
qed

lemma ka_keep_warm: "keeps_alarm c a (keep_warm_and_promote c e i canonical trigger)"
proof -
  have attempt: "settled c a d (upd_health i (\<lambda>h. h\<lparr>last_keep_warm_attempt := x\<rparr>) d) []" for d x
    by (rule settled_health) auto
  show ?thesis unfolding keep_warm_and_promote_def
    by (intro ka_rules attempt settled_own_refresh ka_promote) simp
qed

lemma ka_refresh_retry: "keeps_alarm c a (refresh_retry c e i)"
  unfolding refresh_retry_def by (intro ka_rules) simp

lemma ka_keep_warm_retry: "keeps_alarm c a (keep_warm_retry c e i canonical)"
  unfolding keep_warm_retry_def by (intro ka_rules ka_keep_warm)

lemma ka_tick_retry: "keeps_alarm c a (tick_retry c e i canonical result)"
  unfolding tick_retry_def by (intro ka_rules ka_refresh_retry ka_keep_warm_retry settled_own_refresh)

lemma ka_keep_active_warm: "keeps_alarm c a (keep_active_warm c e act canonical now_ms)"
  unfolding keep_active_warm_def by (intro ka_rules ka_keep_warm)

lemma ka_stats: "keeps_alarm c a (stats_events_for_poll roll lbl is_gap now)"
proof -
  have gap: "settled c a d (d\<lparr>d_stats_state := x\<rparr>) es" if "list_all (\<lambda>e. \<not> alarming e) es" for d x es
    by (rule settled_globals) (use that in \<open>auto simp: wf_def\<close>)
  have "list_all (\<lambda>e. \<not> alarming e) (snd (gap_fold lbl is_gap now r g))" for r g
    by (simp add: gap_fold_def split: option.split)
  then show ?thesis unfolding stats_events_for_poll_def
    by (intro ka_rules) (auto simp: split_beta intro!: gap split: sum.split)
qed

lemma ka_tick_fold:
  assumes "alarm_ok c a" "i < length (c_roster c)"
  shows "keeps_alarm c a (tick_fold c e i act result)"
  unfolding tick_fold_def
  by (intro ka_rules st_poll_outcome st_backoff st_velocity st_blind_episode st_landing st_store_reading st_exhausted
      st_last_good assms) (simp_all add: st_blind_window)

lemma ka_tick_clocks: "keeps_alarm c a (tick_clocks c e i act)"
proof -
  have clocks: "settled c a d (upd_health i (\<lambda>h. h\<lparr>poll_expires_at := x, refresh_token_expires_at := y\<rparr>) d) []" for d x y
    by (rule settled_health) auto
  show ?thesis unfolding tick_clocks_def by (intro ka_rules clocks st_polled_expiry)
qed

lemma ka_tick_poll:
  assumes "alarm_ok c a" "i < length (c_roster c)"
  shows "keeps_alarm c a (tick_poll c e act canonical i)"
  unfolding tick_poll_def
  by (intro ka_rules ka_stats ka_tick_retry ka_tick_fold ka_tick_clocks st_polled assms)

lemma ka_tick_poll_next:
  assumes "alarm_ok c a" "in_roster c act"
  shows "keeps_alarm c a (tick_poll_next c e act canonical)"
proof -
  have idx: "holds_alarm c a (sync_val (\<lambda>d. no_events (next_poll_index c act d))) (in_roster c)"
  proof (rule ha_sync_val)
    fix d assume wf: "wf c d"
    have act: "\<And>i. act = Some i \<Longrightarrow> i < length (c_roster c)" using assms(2) by (simp add: in_roster_def)
    have "settled c a d (snd (next_poll_index c act d)) []"
      by (rule settled_globals) (use next_poll_index_wf(1) [OF wf act] in \<open>auto simp: next_poll_index_def Let_def\<close>)
    moreover have "in_roster c (fst (next_poll_index c act d))"
      using next_poll_index_wf(2) [OF wf act] by (auto simp: in_roster_def)
    ultimately show "in_roster c (fst (no_events (next_poll_index c act d))) \<and>
        settled c a d (fst (snd (no_events (next_poll_index c act d)))) (snd (snd (no_events (next_poll_index c act d))))"
      by (simp add: no_events_def)
  qed
  show ?thesis unfolding tick_poll_next_def
    by (rule ha_bind [OF idx]) (intro ka_rules ka_tick_poll assms, simp add: in_roster_def)
qed

subsection \<open>The decision\<close>

lemma settled_drawn: "settled c a d (snd (draw_on m st lo hi d)) []" "settled c a d (snd (draw_down_on m st lo hi d)) []"
  by (rule settled_globals; simp add: draw_on_def draw_down_on_def split_beta wf_def)+

lemma ka_draw: "keeps_alarm c a (draw_env e st lo hi)" "keeps_alarm c a (draw_down_env e st lo hi)"
  unfolding draw_env_def draw_down_env_def
  by (intro ka_sync_val, simp add: no_events_def settled_drawn)+

lemma ka_cooldown: "keeps_alarm c a (draw_cooldown c e)"
  unfolding draw_cooldown_def by (intro ka_rules ka_draw)

lemma ka_locked_swap: "keeps_alarm c a (locked_swap c e outgoing incoming force)"
proof -
  have canary: "keeps_alarm c a (refresh_canary c e)"
    unfolding refresh_canary_def by (intro ka_rules st_canary)
  have live: "keeps_alarm c a (outgoing_liveness c e outgoing force)"
    unfolding outgoing_liveness_def by (intro ka_rules)
  have verdict: "list_all (\<lambda>e. \<not> alarming e) (fst (canary_verdict c oc))" for oc
    by (simp add: canary_verdict_def split: canary_outcome.split inconclusive_reason.split bool.split)
  show ?thesis unfolding locked_swap_def
    by (intro ka_rules canary live verdict) simp
qed

lemma ka_record_swap: "target < length (c_roster c) \<Longrightarrow> keeps_alarm c a (record_swap e target incoming tm)"
proof -
  assume t: "target < length (c_roster c)"
  have commit: "settled c a d (d\<lparr>d_canonical_watch := x\<rparr>) []" for d x by (rule settled_globals) (auto simp: wf_def)
  show ?thesis unfolding record_swap_def by (intro ka_rules st_note_swap commit t)
qed

lemma ka_swap_and_record:
  assumes "target < length (c_roster c)" "list_all (\<lambda>e. \<not> alarming e) report" "\<And>d. wf c d \<Longrightarrow> settled c a d (after d) []"
  shows "keeps_alarm c a (swap_and_record c e tm act target report after action)"
  unfolding swap_and_record_def by (intro ka_rules ka_locked_swap ka_record_swap assms)

lemma pick_ranked_range:
  "pick_target_with_reason_ranked act readings enabled fl sc wc sel = Some (t, why) \<Longrightarrow>
   t < length readings \<and> t \<noteq> act \<and> enabled ! t"
  by (auto elim!: pick_ranked_Some simp: viable_targets_iff)

lemma pick_range:
  "pick_target_ranked act readings enabled fl sc wc sel = Some t \<Longrightarrow> t < length readings \<and> t \<noteq> act \<and> enabled ! t"
  by (auto simp: pick_target_ranked_def dest: pick_ranked_range)

lemma ka_emergency:
  assumes "length readings = length (c_roster c)"
  shows "keeps_alarm c a (emergency_swap c e tm act readings)"
proof -
  have dead: "settled c a d (fst (if \<not> d_signaled_active_dead_no_target d
      then (case x of (cause, _, resets_at) \<Rightarrow>
         (d\<lparr>d_signaled_active_dead_no_target := True\<rparr>, [Ev_ActiveDeadNoTarget l cause resets_at]))
      else (d, []))) (snd (if \<not> d_signaled_active_dead_no_target d
      then (case x of (cause, _, resets_at) \<Rightarrow>
         (d\<lparr>d_signaled_active_dead_no_target := True\<rparr>, [Ev_ActiveDeadNoTarget l cause resets_at]))
      else (d, [])))" for d and x :: "swap_reason \<times> nat \<times> int option" and l
    by (cases x; cases a) (auto simp: settled_def wf_def)
  show ?thesis unfolding emergency_swap_def
    by (intro ka_rules ka_draw ka_swap_and_record dead) (use assms in \<open>auto dest: pick_range\<close>)
qed

lemma ka_blind_target:
  assumes "length readings = length (c_roster c)"
  shows "keeps_alarm c a (blind_target c e tm act readings anchor blind_elapsed retry_after speculative)"
proof -
  have reserve: "settled c a d (fst (hold_reserve c act ra bs d)) (snd (hold_reserve c act ra bs d))" for d ra bs
    by (rule settled_globals) (auto simp: hold_reserve_def wf_def)
  have after: "settled c a d (d\<lparr>d_last_blind_preempt_swap := x, d_retry_after_swaps := y\<rparr>) []" for d x y
    by (rule settled_globals) (auto simp: wf_def)
  show ?thesis unfolding blind_target_def
    by (intro ka_rules ka_swap_and_record reserve after) (use assms in \<open>auto dest: pick_ranked_range\<close>)
qed

lemma ka_blind:
  assumes "length readings = length (c_roster c)"
  shows "keeps_alarm c a (blind_swap c e tm act readings)"
proof -
  have walk: "settled c a d (fst (hold_walk c act n ra d)) (snd (hold_walk c act n ra d))" for d n ra
    by (rule settled_globals) (auto simp: hold_walk_def wf_def)
  have cnt: "settled c a d (snd (retry_after_walk_count tm d)) []" for d
    by (rule settled_globals) (auto simp: retry_after_walk_count_def Let_def wf_def)
  show ?thesis unfolding blind_swap_def
    by (intro ka_rules ka_cooldown ka_blind_target walk assms) (simp_all add: no_events_def cnt)
qed

lemma ka_velocity_swap:
  assumes "length readings = length (c_roster c)"
  shows "keeps_alarm c a (velocity_swap c e tm act sc wt readings)"
  unfolding velocity_swap_def
  by (intro ka_rules ka_cooldown ka_swap_and_record) (use assms in \<open>auto dest: pick_range\<close>)

lemma ka_reactive:
  assumes "length readings = length (c_roster c)"
  shows "keeps_alarm c a (reactive_swap c e tm act u sc st boundary readings)"
proof -
  have exhausted: "settled c a d (fst (if \<not> d_signaled_all_exhausted d
      then (case x of (cause, hold, resets_at) \<Rightarrow>
         (d\<lparr>d_signaled_all_exhausted := True\<rparr>, [Ev_AllExhausted (acc_label c hold) cause resets_at]))
      else (d, []))) (snd (if \<not> d_signaled_all_exhausted d
      then (case x of (cause, hold, resets_at) \<Rightarrow>
         (d\<lparr>d_signaled_all_exhausted := True\<rparr>, [Ev_AllExhausted (acc_label c hold) cause resets_at]))
      else (d, [])))" for d and x :: "swap_reason \<times> nat \<times> int option"
    by (cases x; cases a) (auto simp: settled_def wf_def)
  have park: "settled c a d (upd_account i (\<lambda>a. a\<lparr>parked := x\<rparr>) d) []" for d i x by (rule settled_account) auto
  show ?thesis unfolding reactive_swap_def
    by (intro ka_rules ka_cooldown ka_swap_and_record exhausted)
      (use assms in \<open>auto dest: pick_range intro: park split: option.split\<close>)
qed

lemma ka_decide:
  assumes "length readings = length (c_roster c)"
  shows "keeps_alarm c a (decide_action c e tm act readings)"
proof -
  have signals: "settled c a d (d\<lparr>d_signaled_retry_after_reserve := x, d_signaled_retry_after_walk := y\<rparr>) []" for d x y
    by (rule settled_globals) (auto simp: wf_def)
  show ?thesis unfolding decide_action_def
    by (intro ka_rules ka_emergency ka_blind ka_draw ka_velocity_swap ka_reactive signals assms)
qed

lemma ka_recover:
  assumes "length readings = length (c_roster c)"
  shows "keeps_alarm c a (recover_scrubbed_canonical c e act readings tm)"
proof -
  have window: "settled c a d (scrub_window_reset tm d) []" for d
    by (rule settled_globals) (auto simp: scrub_window_reset_def wf_def split: option.splits)
  have out: "settled c a d (fst (scrub_exhausted c act d)) (snd (scrub_exhausted c act d))" for d
    by (rule settled_globals) (auto simp: scrub_exhausted_def wf_def)
  have adopted: "settled c a d (note_adopted tm d) []" for d
    by (rule settled_globals) (auto simp: note_adopted_def wf_def)
  show ?thesis unfolding recover_scrubbed_canonical_def
    by (intro ka_rules ka_draw ka_record_swap window out adopted) (use assms in \<open>auto dest: pick_range\<close>)
qed

subsection \<open>The tick\<close>

lemma ka_tick_read: "alarm_ok c a \<Longrightarrow> keeps_alarm c a (tick_read c e)"
proof -
  assume ok: "alarm_ok c a"
  have unlocked: "settled c a d (unlock d) []" for d by (rule settled_globals) (auto simp: unlock_def wf_def)
  show ?thesis unfolding tick_read_def
    by (rule ka_bind [OF ka_simple(2)])
      (auto split: sum.split error.split intro!: ka_rules unlocked ka_reconcile ok)
qed

lemma ka_tick_resolve: "keeps_alarm c a (tick_resolve c e before canonical)"
proof -
  have owner: "holds_alarm c a (in_world (case canonical of Some cred \<Rightarrow> resolve_for c e cred | None \<Rightarrow> resolve_active c e))
      (in_roster c)"
    by (rule ha_in_world) (auto simp: resolve_for_range resolve_active_range split: option.split)
  have set_active: "keeps_alarm c a (modd (\<lambda>d. d\<lparr>d_active := o'\<rparr>))" if "in_roster c o'" for o'
    by (rule ha_modd, rule settled_globals) (use that in \<open>auto simp: wf_def in_roster_def\<close>)
  have inval: "settled c a d (if P then invalidate_poll_schedule d else d) []" for d P
    by (simp add: st_invalidate)
  have resolved: "keeps_alarm c a (do {
        owner \<leftarrow> in_world (case canonical of Some cred \<Rightarrow> resolve_for c e cred | None \<Rightarrow> resolve_active c e);
        modd (\<lambda>d. d\<lparr>d_active := owner\<rparr>) })"
    by (rule ha_bind [OF owner]) (rule set_active)
  show ?thesis unfolding tick_resolve_def
    by (intro ka_rules resolved inval)
qed

lemma ka_tick_decide:
  assumes "length readings = length (c_roster c)"
  shows "keeps_alarm c a (tick_decide c e tm act live readings)"
  unfolding tick_decide_def by (intro ka_rules ka_decide ka_recover assms)

lemma ka_tick_finish: "keeps_alarm c a (tick_finish c e action backoff)"
  unfolding tick_finish_def by (intro ka_rules st_settle st_fleet st_near_limit)

lemma ka_tick_snapshot: "keeps_alarm c a (tick_snapshot c e readings)"
  unfolding tick_snapshot_def by (intro ka_rules)

lemma ka_tick_unlocked:
  assumes "alarm_ok c a"
  shows "keeps_alarm c a (tick_unlocked c e tm before canonical absent)"
proof -
  have active: "holds_alarm c a (getd d_active) (in_roster c)"
    by (rule ha_getd) (simp add: wf_def in_roster_def)
  have readings: "holds_alarm c a (getd (decision_readings c act)) (\<lambda>r. length r = length (c_roster c))" for act
    by (rule ha_getd) (simp add: decision_readings_def)
  show ?thesis unfolding tick_unlocked_def
  proof (rule ka_bind [OF ka_tick_resolve], rule ha_bind [OF active])
    fix act assume act: "in_roster c act"
    have decide: "keeps_alarm c a (do {
        readings \<leftarrow> getd (decision_readings c act);
        sync (note_blind_gate_eligibility c act readings tm);
        action \<leftarrow> tick_decide c e tm act live readings;
        tick_finish c e action backoff;
        snap \<leftarrow> tick_snapshot c e readings;
        State_Monad.return \<lparr>to_action = action, to_snapshot = snap, to_next_wait = None\<rparr> })" for live backoff
      by (rule ha_bind [OF readings]) (intro ka_rules st_gate ka_tick_decide ka_tick_finish ka_tick_snapshot)
    show "keeps_alarm c a (do {
        now \<leftarrow> asks (clock_now (env_io e));
        modd (note_active_designation c act now);
        (live, ds) \<leftarrow> sync_val (note_canonical_liveness c (env_io e) canonical absent act);
        diags ds;
        backoff \<leftarrow> tick_poll_next c e act canonical;
        gap_now \<leftarrow> asks (clock_now (env_io e));
        sync (note_observation_gap c act gap_now);
        now_ms \<leftarrow> asks (env_wall_ms e);
        keep_active_warm c e act canonical now_ms;
        readings \<leftarrow> getd (decision_readings c act);
        sync (note_blind_gate_eligibility c act readings tm);
        action \<leftarrow> tick_decide c e tm act live readings;
        tick_finish c e action backoff;
        snap \<leftarrow> tick_snapshot c e readings;
        State_Monad.return \<lparr>to_action = action, to_snapshot = snap, to_next_wait = None\<rparr> })"
      by (intro ka_rules st_designation st_liveness ka_tick_poll_next st_observation_gap ka_keep_active_warm
          decide assms act)
  qed
qed

lemma ka_tick: "alarm_ok c a \<Longrightarrow> keeps_alarm c a (tick c e)"
proof -
  assume ok: "alarm_ok c a"
  have count: "settled c a d (d\<lparr>d_ticks := x\<rparr>) []" for d x by (rule settled_globals) (auto simp: wf_def)
  have locked: "settled c a d (fst (snd (locked_tick d))) (snd (snd (locked_tick d)))" for d
    by (rule settled_globals) (auto simp: locked_tick_def Let_def wf_def)
  have tick_locked: "keeps_alarm c a (tick_locked c e)"
    unfolding tick_locked_def by (intro ka_rules locked ka_tick_snapshot)
  show ?thesis unfolding tick_def
    by (intro ka_rules count st_divergence ka_tick_read ok)
      (auto split: canonical_read.split intro!: tick_locked ka_tick_unlocked ok)
qed

subsection \<open>Between the ticks\<close>

lemma st_refresh_outcome: "settled c a d (fst (note_refresh_outcome c i oc d)) (snd (note_refresh_outcome c i oc d))"
proof -
  have "fst (note_refresh_outcome c i oc d) = upd_health i (\<lambda>_. fst (refresh_outcome_fold (acc_label c i) (hlth d i) oc)) d"
    by (simp add: note_refresh_outcome_def split_beta)
  moreover have "alarm_flag a (upd_health i (\<lambda>_. fst (refresh_outcome_fold (acc_label c i) (hlth d i) oc)) d) = alarm_flag a d"
    by (rule alarm_flag_upd_health) (simp_all add: refresh_outcome_fold_def Let_def)
  moreover have "list_all (\<lambda>e. \<not> alarming e) (snd (note_refresh_outcome c i oc d))"
    by (simp add: note_refresh_outcome_def refresh_outcome_fold_def Let_def split_beta)
  ultimately show ?thesis by (intro settled_quiet) simp_all
qed

lemma roster_index_range: "roster_index c uuid = Some i \<Longrightarrow> i < length (c_roster c)"
  by (simp add: roster_index_def position_less)

lemma st_apply_restore:
  assumes "alarm_ok c a" "wf c d"
  shows "settled c a d (fst (apply_refresh_restore c uuid d)) (snd (apply_refresh_restore c uuid d))"
  using st_restore [OF assms] roster_index_range by (auto simp: apply_refresh_restore_def split: option.split)

lemma st_recovery:
  assumes "alarm_ok c a" "wf c d"
  shows "settled c a d (fst (fold_recovery_outcome c i oc ms d)) (snd (fold_recovery_outcome c i oc ms d))"
proof -
  let ?p1 = "note_refresh_outcome c i oc d"
  let ?d2 = "case ms of Some ms \<Rightarrow> upd_health i (\<lambda>h. h\<lparr>access_expires_at := Some (trunc_div ms 1000)\<rparr>) (fst ?p1) | None \<Rightarrow> fst ?p1"
  have two: "settled c a (fst ?p1) ?d2 []" by (auto intro!: settled_health split: option.split)
  have both: "settled c a d ?d2 (snd ?p1)" using settled_trans [OF st_refresh_outcome two] by simp
  then have "wf c ?d2" using assms(2) by (simp add: settled_def)
  from both settled_trans [OF both st_apply_restore [OF assms(1) this]] show ?thesis
    by (cases "oc = REO_Dead", hypsubst) (simp_all add: fold_recovery_outcome_def Let_def split_beta)
qed

lemma st_observation: "settled c a d (fst (apply_refresh_observation c ob d)) (snd (apply_refresh_observation c ob d))"
proof (cases "roster_index c (ob_account_uuid ob)")
  case (Some i)
  have one: "settled c a d (upd_health i (\<lambda>h. h\<lparr>access_expires_at := x\<rparr>) d) []" for x by (rule settled_health) auto
  show ?thesis using Some one settled_trans [OF one st_refresh_outcome]
    by (simp add: apply_refresh_observation_def Let_def split: option.split)
qed (simp add: apply_refresh_observation_def)

lemma st_systemic: "settled c a d (fst (note_systemic_refresh c sweep d)) (snd (note_systemic_refresh c sweep d))"
proof (rule settled_globals)
  show "list_all (\<lambda>e. \<not> alarming e) (snd (note_systemic_refresh c sweep d))"
    by (cases sweep) (simp_all add: note_systemic_refresh_def Let_def)
qed (auto simp: note_systemic_refresh_def split_beta wf_def)

lemma st_health: "wf c d \<Longrightarrow> settled c a d (fst (note_health_transitions c now d)) (snd (note_health_transitions c now d))"
proof -
  assume wf: "wf c d"
  have "settled c a d (fst (health_transition c now x d)) (snd (health_transition c now x d))" for x d
    by (cases x) (auto simp: health_transition_alt transition_events_def intro!: settled_health split: option.split)
  then show ?thesis unfolding note_health_transitions_def by (intro settled_fold wf settled_refl)
qed

lemma ka_restored: "alarm_ok c a \<Longrightarrow> keeps_alarm c a (reconcile_restored c e uuid)"
proof -
  assume ok: "alarm_ok c a"
  have "keeps_alarm c a (reprobe_dead_parked_credential c e i)" for i
    unfolding reprobe_dead_parked_credential_def by (intro ka_rules st_recovery ok) simp
  then show ?thesis unfolding reconcile_restored_def by (intro ka_rules st_apply_restore ok)
qed

lemma ka_reprobe: "alarm_ok c a \<Longrightarrow> keeps_alarm c a (reprobe_active_if_dead c e)"
  unfolding reprobe_active_if_dead_def by (intro ka_rules ka_keep_warm st_recovery)

section \<open>Histories\<close>

text \<open>
  What happens to the daemon: the world moves on by itself, a tick, what the run loop feeds from the
  periodic refresh and from its health round.
\<close>

datatype 'w daemon_input =
    DI_World "'w \<Rightarrow> 'w"
  | DI_Tick
  | DI_Restored string
  | DI_Observation refresh_observation
  | DI_Sweep sweep_health
  | DI_Health
  | DI_Reprobe

fun daemon_step :: "cfg \<Rightarrow> 'w env \<Rightarrow> 'w daemon_input \<Rightarrow> ('w ctx, unit) state" where
  "daemon_step c e (DI_World f) = smod (cx_w_update f)"
| "daemon_step c e DI_Tick = do { _ \<leftarrow> tick c e; State_Monad.return () }"
| "daemon_step c e (DI_Restored uuid) = reconcile_restored c e uuid"
| "daemon_step c e (DI_Observation ob) = sync (apply_refresh_observation c ob)"
| "daemon_step c e (DI_Sweep sweep) = sync (note_systemic_refresh c sweep)"
| "daemon_step c e DI_Health = do { now_secs \<leftarrow> asks (env_wall_secs e); sync (note_health_transitions c now_secs) }"
| "daemon_step c e DI_Reprobe = reprobe_active_if_dead c e"

fun daemon_run :: "cfg \<Rightarrow> 'w env \<Rightarrow> 'w daemon_input list \<Rightarrow> ('w ctx, unit) state" where
  "daemon_run c e [] = State_Monad.return ()"
| "daemon_run c e (i # is) = do { _ \<leftarrow> daemon_step c e i; daemon_run c e is }"

lemma ka_step: "alarm_ok c a \<Longrightarrow> keeps_alarm c a (daemon_step c e i)"
proof (cases i)
  case (DI_World f)
  then show ?thesis by (simp add: holds_alarm_def)
qed (simp_all, (intro ka_rules ka_tick ka_restored st_observation st_systemic st_health ka_reprobe; assumption?)+)

lemma ka_run: "alarm_ok c a \<Longrightarrow> keeps_alarm c a (daemon_run c e is)"
  by (induction "is") (auto intro!: ka_rules ka_step)

section \<open>A sample daemon\<close>

text \<open>The in-memory stores, a poller that reads a tenth of the session for everybody, no engines.\<close>

definition sample_env :: "fake_world env" where
  "sample_env = \<lparr>env_io = sample_io,
     env_poll = (\<lambda>_ _. State_Monad.return (Inr \<lparr>pr_usage = reading_sample (1 / 10) 0, pr_severity = None\<rparr>)),
     env_poll_refresh = None, env_keep_warm = None, env_wall_secs = (\<lambda>_. 0), env_wall_ms = (\<lambda>_. 0),
     env_config_len = (\<lambda>_ _. Inr 2), env_fleet_probe = None, env_append_sample = None,
     env_compact = (\<lambda>_. State_Monad.return (Inr (0, 0))), env_libm = libm_sample\<rparr>"

definition sample_ctx :: "fake_world ctx" where
  "sample_ctx = \<lparr>cx_d = sample_daemon, cx_w = sample_world, cx_events = [], cx_diags = []\<rparr>"

lemma sample_wf: "wf sample_cfg (cx_d sample_ctx)"
  by (simp add: wf_def sample_ctx_def sample_daemon_def daemon_init_def sample_cfg_def)

section \<open>Properties\<close>



text \<open>
  Over every history of the daemon the indices it keeps stay in range: there is one runtime record per
  account, the active account and every scheduled account are on the roster, so no later access is out of
  bounds.
\<close>

theorem indices_stay_in_range:
  assumes "wf c (cx_d s)"
  shows "wf c (cx_d (exec (daemon_run c e inputs) s))"
proof -
  have "alarm_ok c A_Fleet" by (simp add: alarm_ok_def)
  from ka_run [OF this, of e inputs] assms show ?thesis by (auto simp: holds_alarm_def settled_def)
qed

theorem indices_stay_in_range_witness:
  "wf sample_cfg (cx_d (exec (daemon_run sample_cfg sample_env [DI_Tick, DI_Tick]) sample_ctx))"
  by (rule indices_stay_in_range [OF sample_wf])

end
