(* ===== verification/Daemon_Commands.thy ===== *)
theory Daemon_Commands
  imports Use_Account Capture Daemon_Alarms
begin

text \<open>
  The commands the daemon carries out for a client (\<open>src/daemon/commands.rs\<close>): adopting a swap made
  outside, the swap, capture and configuration commands of the control socket, and the reload of the
  roster. The roster is a field of \<open>cfg\<close>, so a command that may reload it returns the new \<open>cfg\<close>.
\<close>

section \<open>The surroundings\<close>

text \<open>
  What the commands reach beyond \<open>env\<close>: the text of the configuration file, writing it, the TOML parser,
  the observation of \<open>src/witness.rs\<close>, and the wording of an error.
\<close>

record 'w shell =
  sh_env :: "'w env"
  sh_read_config :: "string \<Rightarrow> ('w, fs_error + string) state"
  sh_save_config :: "string \<Rightarrow> config \<Rightarrow> ('w, unit result) state"
  sh_toml :: toml
  sh_witness :: "('w, prior_configuration) state"
  sh_display :: "error \<Rightarrow> string"

definition load_path :: "'w shell \<Rightarrow> string \<Rightarrow> ('w, config result) state" where
  "load_path sh path = do {
     contents \<leftarrow> sh_read_config sh path;
     State_Monad.return (load_config (sh_toml sh) path contents) }"

section \<open>Adopting a manual swap\<close>

definition note_manual_swap :: "credential \<Rightarrow> nat option \<Rightarrow> daemon \<Rightarrow> daemon" where
  "note_manual_swap canonical next_active d =
     (let prev_active = d_active d;
          d1 = deactivate_recovery_probe prev_active next_active (d\<lparr>d_active := next_active\<rparr>);
          d2 = (if next_active \<noteq> prev_active then invalidate_poll_schedule (d1\<lparr>d_last_good := None\<rparr>) else d1)
      in d2\<lparr>d_canonical_watch := watch_commit (d_canonical_watch d2) canonical\<rparr>)"

definition adopt_manual_swap :: "cfg \<Rightarrow> 'w env \<Rightarrow> ('w ctx, unit) state" where
  "adopt_manual_swap c e = do {
     tm \<leftarrow> asks (clock_now (env_io e));
     r \<leftarrow> in_world (store_read (env_io e));
     (case r of
        Inr canonical \<Rightarrow> do {
          next_active \<leftarrow> in_world (resolve_for c e canonical);
          modd (note_manual_swap canonical next_active) }
      | Inl _ \<Rightarrow> State_Monad.return ());
     modd (\<lambda>d. d\<lparr>d_last_swap := Some tm\<rparr>) }"

section \<open>The swap command\<close>

text \<open>The verdict on a command whose target is on the roster, at the instant of the call.\<close>

definition socket_verdict :: "cfg \<Rightarrow> nat \<Rightarrow> bool \<Rightarrow> instant \<Rightarrow> daemon \<Rightarrow> swap_verdict" where
  "socket_verdict c target force now d =
     swap_command_verdict target (d_active d) (quarantined (hlth d target))
       (weekly_is_exhausted c (last_reading (acct d target))) (in_cooldown now (c_cooldown_base c) d) force"

text \<open>The swap itself, past the verdict: the active account \<open>i\<close> is put away, the target installed.\<close>

definition socket_swap :: "cfg \<Rightarrow> 'w env \<Rightarrow> nat \<Rightarrow> nat \<Rightarrow> bool \<Rightarrow> instant \<Rightarrow> ('w ctx, swap_ack) state" where
  "socket_swap c e i target force now = do {
     let outgoing = stash_name (c_roster c ! i);
     let incoming = stash_name (c_roster c ! target);
     r \<leftarrow> locked_swap c e outgoing incoming force;
     (case r of
        Inr _ \<Rightarrow> do {
          prev_active \<leftarrow> getd d_active;
          record_swap e target incoming now;
          modd (deactivate_recovery_probe prev_active (Some target));
          emits [Ev_Swap (acc_label c i) (acc_label c target) (if force then SR_Forced else SR_Manual) (Some 0) None];
          State_Monad.return (SwapAccepted (acc_label c i) (acc_label c target)) }
      | Inl err \<Rightarrow> State_Monad.return (SwapRejected (classify_swap_failure err))) }"

definition perform_socket_swap :: "cfg \<Rightarrow> 'w env \<Rightarrow> swap_command \<Rightarrow> ('w ctx, swap_ack) state" where
  "perform_socket_swap c e command =
     (case resolve_target (c_roster c) (sc_target command) of
        Inl (UseError (UseTargetAmbiguous _ _)) \<Rightarrow> State_Monad.return (SwapRejected SwRej_AmbiguousTarget)
      | Inl _ \<Rightarrow> State_Monad.return (SwapRejected SwRej_UnknownTarget)
      | Inr target \<Rightarrow> do {
          now \<leftarrow> asks (clock_now (env_io e));
          d \<leftarrow> getd id;
          (case socket_verdict c target (sc_force command) now d of
             SV_AlreadyActive \<Rightarrow> State_Monad.return (SwapAlreadyActive (acc_label c target))
           | SV_Reject reason \<Rightarrow> State_Monad.return (SwapRejected reason)
           | SV_Swap \<Rightarrow>
               (case d_active d of
                  None \<Rightarrow> State_Monad.return (SwapRejected SwRej_NoActiveAccount)
                | Some i \<Rightarrow> socket_swap c e i target (sc_force command) now)) })"

section \<open>Reloading the roster\<close>

datatype reconcile_outcome = RecAdopted | RecRefusedShrink

text \<open>The runtime record of an account on the new roster: its old one where the old roster has it.\<close>

definition carried_runtime :: "account list \<Rightarrow> account_runtime list \<Rightarrow> account \<Rightarrow> account_runtime" where
  "carried_runtime old accounts a =
     (case position (\<lambda>o'. account_uuid o' = account_uuid a) old of
        Some i \<Rightarrow> accounts ! i
      | None \<Rightarrow> account_runtime_default)"

definition active_uuid :: "cfg \<Rightarrow> daemon \<Rightarrow> string option" where
  "active_uuid c d =
     (case d_active d of None \<Rightarrow> None
      | Some i \<Rightarrow> if i < length (c_roster c) then Some (acc_uuid c i) else None)"

definition reconcile_roster ::
  "cfg \<Rightarrow> account list \<Rightarrow> reload_intent \<Rightarrow> daemon \<Rightarrow> reconcile_outcome \<times> cfg \<times> daemon" where
  "reconcile_roster c new_roster intent d =
     (if intent = RI_AppendOnly \<and> length new_roster < length (c_roster c) then (RecRefusedShrink, c, d)
      else
        let accounts = map (carried_runtime (c_roster c) (d_accounts d)) new_roster;
            act = Option.bind (active_uuid c d) (\<lambda>uuid. position (\<lambda>a. account_uuid a = uuid) new_roster);
            d1 = d\<lparr>d_accounts := accounts, d_active := act\<rparr>;
            d2 = (if act = None then d1\<lparr>d_last_good := None\<rparr> else d1)
        in (RecAdopted, c\<lparr>c_roster := new_roster\<rparr>, invalidate_poll_schedule d2))"

definition reconcile :: "cfg \<Rightarrow> account list \<Rightarrow> reload_intent \<Rightarrow> ('w ctx, reconcile_outcome \<times> cfg) state" where
  "reconcile c new_roster intent = do {
     d \<leftarrow> getd id;
     (case reconcile_roster c new_roster intent d of
        (outcome, c', d') \<Rightarrow> do { modd (\<lambda>_. d'); State_Monad.return (outcome, c') }) }"

definition adopt_roster_reload :: "cfg \<Rightarrow> 'w shell \<Rightarrow> reload_intent \<Rightarrow> ('w ctx, event \<times> cfg) state" where
  "adopt_roster_reload c sh intent =
     (let previous = Some (length (c_roster c)) in
      case c_config_path c of
        None \<Rightarrow> State_Monad.return (Ev_RosterReload RRO_Refused previous None (Some RRR_ReloadDisabled), c)
      | Some path \<Rightarrow> do {
          loaded \<leftarrow> in_world (load_path sh path);
          (case loaded of
             Inr config \<Rightarrow> do {
               let incoming = Some (length (cf_roster config));
               (outcome, c') \<leftarrow> reconcile c (cf_roster config) intent;
               State_Monad.return (case outcome of
                   RecAdopted \<Rightarrow> (Ev_RosterReload RRO_Adopted previous incoming None, c')
                 | RecRefusedShrink \<Rightarrow> (Ev_RosterReload RRO_Refused previous incoming (Some RRR_Shrink), c')) }
           | Inl err \<Rightarrow> State_Monad.return (Ev_RosterReload RRO_Failed previous None
               (Some (case err of ConfigNotFound _ \<Rightarrow> RRR_Absent | _ \<Rightarrow> RRR_Unreadable)), c)) })"

section \<open>The capture command\<close>

definition capture_failure :: "capture_command \<Rightarrow> capture_rejection \<Rightarrow> capture_ack \<times> event" where
  "capture_failure command reason =
     (CaptureRejected reason, Ev_Capture (cc_label command) (capture_event_outcome_rejected reason))"

text \<open>The gate on an absent configuration: a roster is only created where nothing was configured before.\<close>

definition capture_admitted :: "cfg \<Rightarrow> 'w shell \<Rightarrow> config option \<Rightarrow> ('w, unit result) state" where
  "capture_admitted c sh existing =
     (if existing = None then do {
        witness \<leftarrow> (if c_roster c = [] then sh_witness sh else State_Monad.return PC_Present);
        State_Monad.return (admit False witness) }
      else State_Monad.return (Inr ()))"

definition capture_existing :: "config result \<Rightarrow> config option result" where
  "capture_existing loaded =
     (case loaded of Inr config \<Rightarrow> Inr (Some config) | Inl (ConfigNotFound _) \<Rightarrow> Inr None | Inl err \<Rightarrow> Inl err)"

text \<open>The fallible part: load, admit, capture under the lock, save.\<close>

definition capture_and_save :: "cfg \<Rightarrow> 'w shell \<Rightarrow> string \<Rightarrow> capture_command \<Rightarrow> ('w, capture_report result) state" where
  "capture_and_save c sh path command = do {
     loaded \<leftarrow> load_path sh path;
     (case capture_existing loaded of
        Inl err \<Rightarrow> State_Monad.return (Inl err)
      | Inr existing \<Rightarrow>
          try_bind (capture_admitted c sh existing) (\<lambda>_.
          try_bind (capture_locked (env_io (sh_env sh)) (swap_lock c) (c_claude_json c) existing (cc_label command)) (\<lambda>report.
          try_bind (sh_save_config sh path (cr_config report)) (\<lambda>_.
          State_Monad.return (Inr report))))) }"

definition perform_socket_capture :: "cfg \<Rightarrow> 'w shell \<Rightarrow> capture_command \<Rightarrow> ('w ctx, capture_ack \<times> event \<times> cfg) state" where
  "perform_socket_capture c sh command =
     (let failed = (\<lambda>reason. case capture_failure command reason of (ack, ev) \<Rightarrow> State_Monad.return (ack, ev, c)) in
      case c_config_path c of
        None \<Rightarrow> failed CapRej_Failed
      | Some path \<Rightarrow> do {
          captured \<leftarrow> in_world (capture_and_save c sh path command);
          (case captured of
             Inl err \<Rightarrow> failed (classify_capture_failure err)
           | Inr report \<Rightarrow> do {
               (_, c') \<leftarrow> reconcile c (cf_roster (cr_config report)) RI_AppendOnly;
               let count = length (c_roster c');
               State_Monad.return
                 (case cr_outcome report of
                    CO_Captured \<Rightarrow> CaptureCaptured (cr_label report) count
                  | CO_Refreshed \<Rightarrow> CaptureRefreshed (cr_label report) count,
                  Ev_Capture (Some (cr_label report)) (capture_event_outcome_of (cr_outcome report)), c') }) })"

section \<open>The configuration command\<close>

text \<open>\<open>classify_config_set_failure\<close> of \<open>src/daemon/classify.rs\<close>.\<close>

definition classify_config_set_failure :: "(error \<Rightarrow> string) \<Rightarrow> error \<Rightarrow> config_set_rejection \<times> string option" where
  "classify_config_set_failure display err =
     (case err of
        ConfigParse _ \<Rightarrow> (CSR_ConfigUnreadable, Some (display err))
      | AccountUuidNotFound _ \<Rightarrow> (CSR_UnknownAccount, None)
      | ConfigTargetMaxSessionAboveTrigger _ _ \<Rightarrow> (CSR_Invalid, Some (display err))
      | ConfigInvalid msg \<Rightarrow> (CSR_Invalid, Some msg)
      | _ \<Rightarrow> (CSR_Invalid, Some (display err)))"

definition config_set_effect_of :: "settings_change \<Rightarrow> reconcile_outcome \<Rightarrow> config_set_effect" where
  "config_set_effect_of change reconciled =
     (if tunables_changed change \<or> reconciled = RecRefusedShrink then CSE_RestartRequired else CSE_Live)"

definition perform_config_set :: "cfg \<Rightarrow> 'w shell \<Rightarrow> config_set_command \<Rightarrow> ('w ctx, config_set_ack \<times> cfg) state" where
  "perform_config_set c sh command =
     (case c_config_path c of
        None \<Rightarrow> State_Monad.return (ConfigSetRejected CSR_Unavailable None, c)
      | Some path \<Rightarrow> do {
          contents \<leftarrow> in_world (sh_read_config sh path);
          (case contents of
             Inl FS_NotFound \<Rightarrow> State_Monad.return (ConfigSetRejected CSR_NoConfig None, c)
           | Inl _ \<Rightarrow> State_Monad.return (ConfigSetRejected CSR_ConfigUnreadable None, c)
           | Inr text \<Rightarrow>
               (case apply_settings (sh_toml sh) text (csc_tunables command) (csc_labels command) of
                  Inl err \<Rightarrow> (case classify_config_set_failure (sh_display sh) err of
                      (reason, detail) \<Rightarrow> State_Monad.return (ConfigSetRejected reason detail, c))
                | Inr (config, change) \<Rightarrow>
                    if \<not> tunables_changed change \<and> \<not> labels_changed change
                    then State_Monad.return (ConfigSetApplied CSE_Unchanged, c)
                    else do {
                      saved \<leftarrow> in_world (sh_save_config sh path config);
                      if \<not> is_ok saved then State_Monad.return (ConfigSetRejected CSR_SaveFailed None, c)
                      else do {
                        (reconciled, c') \<leftarrow> (if labels_changed change
                           then reconcile c (cf_roster config) RI_AppendOnly
                           else State_Monad.return (RecAdopted, c));
                        State_Monad.return (ConfigSetApplied (config_set_effect_of change reconciled), c') } })) })"

section \<open>What the commands keep\<close>

lemma resolve_target_less: "resolve_target roster query = Inr t \<Longrightarrow> t < length roster"
proof -
  assume "resolve_target roster query = Inr t"
  then have "map fst (filter (\<lambda>(_, a). label a = query \<or> account_uuid a = query) (enumerate 0 roster)) = [t]"
    by (simp add: resolve_target_def Let_def split: list.splits)
  then have "t \<in> set (map fst (filter (\<lambda>(_, a). label a = query \<or> account_uuid a = query) (enumerate 0 roster)))" by simp
  then show ?thesis by (auto simp: in_set_enumerate_eq)
qed

lemma st_manual_swap:
  assumes "wf c d" "in_roster c next_active"
  shows "settled c a d (note_manual_swap canonical next_active d) []"
proof -
  let ?d1 = "deactivate_recovery_probe (d_active d) next_active (d\<lparr>d_active := next_active\<rparr>)"
  let ?d2 = "if next_active \<noteq> d_active d then invalidate_poll_schedule (?d1\<lparr>d_last_good := None\<rparr>) else ?d1"
  have zero: "settled c a d (d\<lparr>d_active := next_active\<rparr>) []"
    by (rule settled_globals) (use assms(2) in \<open>auto simp: wf_def in_roster_def\<close>)
  have good: "settled c a d' (d'\<lparr>d_last_good := None\<rparr>) []" "settled c a d' (d'\<lparr>d_canonical_watch := x\<rparr>) []" for d' x
    by (rule settled_globals; auto simp: wf_def)+
  have s1: "settled c a d ?d1 []" using settled_trans [OF zero st_deactivate] unfolding append_Nil .
  have s2: "settled c a d (invalidate_poll_schedule (?d1\<lparr>d_last_good := None\<rparr>)) []"
    using settled_trans [OF settled_trans [OF s1 good(1)] st_invalidate] unfolding append_Nil .
  have "settled c a d ?d2 []" using s1 s2 by (simp only: simp_thms split: if_split)
  from settled_trans [OF this good(2)] show ?thesis by (simp add: note_manual_swap_def Let_def)
qed

lemma ka_manual_swap: "keeps_alarm c a (adopt_manual_swap c e)"
proof -
  have swapped: "settled c a d (d\<lparr>d_last_swap := x\<rparr>) []" for d x by (rule settled_globals) (auto simp: wf_def)
  have adopt: "keeps_alarm c a (do {
      next_active \<leftarrow> in_world (resolve_for c e canonical);
      modd (note_manual_swap canonical next_active) })" for canonical
    by (rule ha_bind [OF ha_resolve]) (intro ha_modd st_manual_swap)
  show ?thesis unfolding adopt_manual_swap_def by (intro ka_rules adopt swapped)
qed

lemma ka_socket_swap:
  assumes "target < length (c_roster c)"
  shows "keeps_alarm c a (socket_swap c e i target force now)"
  unfolding socket_swap_def
  by (intro ka_rules ka_locked_swap ka_record_swap assms st_deactivate) simp

lemma ka_perform_swap: "keeps_alarm c a (perform_socket_swap c e command)"
proof -
  have inside: "keeps_alarm c a (do {
          now \<leftarrow> asks (clock_now (env_io e));
          d \<leftarrow> getd id;
          (case socket_verdict c target (sc_force command) now d of
             SV_AlreadyActive \<Rightarrow> State_Monad.return (SwapAlreadyActive (acc_label c target))
           | SV_Reject reason \<Rightarrow> State_Monad.return (SwapRejected reason)
           | SV_Swap \<Rightarrow>
               (case d_active d of
                  None \<Rightarrow> State_Monad.return (SwapRejected SwRej_NoActiveAccount)
                | Some i \<Rightarrow> socket_swap c e i target (sc_force command) now)) })"
    if "target < length (c_roster c)" for target
    using that
    by (intro ka_rules) (auto intro!: ka_socket_swap ka_simple split: swap_verdict.split option.split)
  show ?thesis
  proof (cases "resolve_target (c_roster c) (sc_target command)")
    case (Inl err)
    then show ?thesis by (auto simp: perform_socket_swap_def intro!: ka_simple split: error.split use_error.split)
  next
    case (Inr target)
    then show ?thesis using inside [OF resolve_target_less [OF Inr]] by (simp add: perform_socket_swap_def)
  qed
qed

section \<open>Reconciling the roster\<close>

lemma reconcile_refused:
  "reconcile_roster c new intent d = (RecRefusedShrink, c', d') \<longleftrightarrow>
     intent = RI_AppendOnly \<and> length new < length (c_roster c) \<and> c' = c \<and> d' = d"
  by (auto simp: reconcile_roster_def Let_def)

lemma reconcile_adopted:
  assumes "reconcile_roster c new intent d = (RecAdopted, c', d')"
  shows "c' = c\<lparr>c_roster := new\<rparr>" "d_accounts d' = map (carried_runtime (c_roster c) (d_accounts d)) new"
    "d_active d' = Option.bind (active_uuid c d) (\<lambda>uuid. position (\<lambda>a. account_uuid a = uuid) new)"
    "d_poll_schedule d' = []" "intent = RI_AppendOnly \<Longrightarrow> length (c_roster c) \<le> length new"
  using assms by (auto simp: reconcile_roster_def invalidate_poll_schedule_def Let_def split: if_splits)

lemma reconcile_wf:
  assumes "reconcile_roster c new intent d = (outcome, c', d')" "wf c d"
  shows "wf c' d'"
proof (cases outcome)
  case RecAdopted
  note r = reconcile_adopted [OF assms(1) [unfolded RecAdopted]]
  show ?thesis unfolding wf_def r(1-4) by (auto simp: bind_eq_Some_conv dest: position_less)
next
  case RecRefusedShrink
  then show ?thesis using assms reconcile_refused by metis
qed

lemma position_uuid:
  assumes "distinct (map account_uuid roster)" "i < length roster"
  shows "position (\<lambda>a. account_uuid a = account_uuid (roster ! i)) roster = Some i"
proof (cases "position (\<lambda>a. account_uuid a = account_uuid (roster ! i)) roster")
  case None
  then show ?thesis using assms(2) by (auto simp: position_None)
next
  case (Some j)
  then have "j < length roster" "account_uuid (roster ! j) = account_uuid (roster ! i)"
    using position_Some [OF Some] by auto
  then show ?thesis using assms Some nth_eq_iff_index_eq [OF assms(1), of i j] by simp
qed

lemma carried_old:
  assumes "distinct (map account_uuid old)" "i < length old" "account_uuid a = account_uuid (old ! i)"
  shows "carried_runtime old accounts a = accounts ! i"
  using position_uuid [OF assms(1,2)] by (simp add: carried_runtime_def assms(3))

lemma carried_new:
  "account_uuid a \<notin> account_uuid ` set old \<Longrightarrow> carried_runtime old accounts a = account_runtime_default"
proof -
  assume "account_uuid a \<notin> account_uuid ` set old"
  then have "position (\<lambda>o'. account_uuid o' = account_uuid a) old = None" by (auto simp: position_None image_iff)
  then show ?thesis by (simp add: carried_runtime_def)
qed

text \<open>
  C8: Reloading the roster carries the daemon across. A shrink that the intent does not allow is refused and
  changes nothing; otherwise the new roster is in force, the indices are in range, every account that stays
  keeps its own runtime record wherever it now stands, a new account starts afresh, and the active account
  stays active exactly if it is still on the roster.
\<close>

theorem reconcile_carries_over:
  assumes "wf c d" "distinct (map account_uuid (c_roster c))" "reconcile_roster c new intent d = (outcome, c', d')"
  shows "wf c' d' \<and>
    (outcome = RecRefusedShrink \<longleftrightarrow> intent = RI_AppendOnly \<and> length new < length (c_roster c)) \<and>
    (outcome = RecRefusedShrink \<longrightarrow> c' = c \<and> d' = d) \<and>
    (outcome = RecAdopted \<longrightarrow> c_roster c' = new \<and>
       (\<forall>k < length new.
          (\<forall>i < length (c_roster c). account_uuid (new ! k) = acc_uuid c i \<longrightarrow> acct d' k = acct d i) \<and>
          (account_uuid (new ! k) \<notin> account_uuid ` set (c_roster c) \<longrightarrow> acct d' k = account_runtime_default)) \<and>
       (case d_active d of
          None \<Rightarrow> d_active d' = None
        | Some i \<Rightarrow> if acc_uuid c i \<in> account_uuid ` set new
            then \<exists>k. d_active d' = Some k \<and> k < length new \<and> account_uuid (new ! k) = acc_uuid c i
            else d_active d' = None \<and> d_last_good d' = None))"
proof (cases outcome)
  case RecRefusedShrink
  then show ?thesis using assms reconcile_refused by (metis reconcile_outcome.distinct(1))
next
  case RecAdopted
  note r = reconcile_adopted [OF assms(3) [unfolded RecAdopted]]
  have "\<not> (intent = RI_AppendOnly \<and> length new < length (c_roster c))" using r(5) by auto
  moreover have "acct d' k = acct d i" if "k < length new" "i < length (c_roster c)" "account_uuid (new ! k) = acc_uuid c i" for k i
    using that carried_old [OF assms(2) that(2,3)] by (simp add: r(2))
  moreover have "acct d' k = account_runtime_default" if "k < length new" "account_uuid (new ! k) \<notin> account_uuid ` set (c_roster c)" for k
    using that carried_new [OF that(2)] by (simp add: r(2))
  moreover have "case d_active d of
          None \<Rightarrow> d_active d' = None
        | Some i \<Rightarrow> if acc_uuid c i \<in> account_uuid ` set new
            then \<exists>k. d_active d' = Some k \<and> k < length new \<and> account_uuid (new ! k) = acc_uuid c i
            else d_active d' = None \<and> d_last_good d' = None"
  proof (cases "d_active d")
    case None
    then show ?thesis by (simp add: r(3) active_uuid_def)
  next
    case (Some i)
    then have i: "i < length (c_roster c)" using assms(1) by (simp add: wf_def)
    have act: "d_active d' = position (\<lambda>a. account_uuid a = acc_uuid c i) new"
      by (simp add: r(3) active_uuid_def Some i)
    show ?thesis
    proof (cases "position (\<lambda>a. account_uuid a = acc_uuid c i) new")
      case None
      then have "acc_uuid c i \<notin> account_uuid ` set new" by (auto simp: position_None image_iff)
      moreover have "d_last_good d' = None"
        using assms(3) act None by (auto simp: RecAdopted reconcile_roster_def invalidate_poll_schedule_def Let_def
            active_uuid_def Some i split: if_splits)
      ultimately show ?thesis using act None by (simp add: Some)
    next
      case (Some k)
      then have k: "k < length new" "account_uuid (new ! k) = acc_uuid c i" using position_Some [OF Some] by auto
      then have "acc_uuid c i \<in> account_uuid ` set new" by (metis imageI nth_mem)
      then show ?thesis using act Some k \<open>d_active d = Some i\<close> by simp
    qed
  qed
  ultimately show ?thesis using reconcile_wf [OF assms(3,1)] r(1) RecAdopted by simp
qed

theorem reconcile_carries_over_witness:
  "acct (snd (snd (reconcile_roster sample_cfg (rev (c_roster sample_cfg)) RI_AppendOnly sample_daemon))) 0 = acct sample_daemon 1"
proof -
  have wf: "wf sample_cfg sample_daemon" using sample_wf by (simp add: sample_ctx_def)
  have dist: "distinct (map account_uuid (c_roster sample_cfg))" by (simp add: sample_cfg_def)
  obtain outcome c' d' where r: "reconcile_roster sample_cfg (rev (c_roster sample_cfg)) RI_AppendOnly sample_daemon = (outcome, c', d')"
    by (metis prod_cases3)
  note carried = reconcile_carries_over [OF wf dist r]
  have "outcome = RecAdopted" using carried by (cases outcome) simp_all
  then have "\<forall>k < length (rev (c_roster sample_cfg)). \<forall>i < length (c_roster sample_cfg).
      account_uuid (rev (c_roster sample_cfg) ! k) = acc_uuid sample_cfg i \<longrightarrow> acct d' k = acct sample_daemon i"
    using carried by blast
  then have "acct d' 0 = acct sample_daemon 1" by (auto simp: sample_cfg_def)
  then show ?thesis by (simp add: r)
qed

section \<open>The swap command and the credentials\<close>

text \<open>
  The daemon's collaborators beside its stores: the poller only reads. The two refresh engines are not
  asked by the swap command.
\<close>

locale daemon_client = vault "env_io e" canon stash
  for e :: "'w env" and canon :: "'w \<Rightarrow> credential option" and stash :: "'w \<Rightarrow> string \<Rightarrow> stashed_account option" +
  assumes t_env_poll: "keeps (holds C S) (env_poll e a b)"
begin

definition holding :: "credential option \<Rightarrow> (string \<Rightarrow> stashed_account option) \<Rightarrow> 'w ctx \<Rightarrow> bool" where
  "holding C S s \<longleftrightarrow> holds C S (cx_w s)"

lemma holding_simps [simp]:
  "holding C S (s\<lparr>cx_d := d\<rparr>) = holding C S s" "holding C S (s\<lparr>cx_events := es\<rparr>) = holding C S s"
  by (simp_all add: holding_def)

lemma t_in_world: "triple (holds C S) m Q \<Longrightarrow> triple (holding C S) (in_world m) (\<lambda>r s. Q r (cx_w s))"
  by (simp add: triple_def holding_def)

lemma k_pure:
  "keeps (holding C S) (asks f)" "keeps (holding C S) (getd g)" "keeps (holding C S) (modd h)"
  "keeps (holding C S) (emits es)" "keeps (holding C S) (sync k)"
  by (simp_all add: triple_def holding_def)

lemma k_in_world: "keeps (holds C S) m \<Longrightarrow> keeps (holding C S) (in_world m)"
  by (simp add: triple_def holding_def)

lemma k_canary: "keeps (holding C S) (refresh_canary c e)"
proof -
  have "keeps (holds C S) (run_canary (env_io e) roster f)" for roster f
    by (rule triple_weaken [OF t_canary [where C = C and S = S]]) simp_all
  then show ?thesis unfolding refresh_canary_def
    by (intro keeps_bind k_in_world triple_case_sum keeps_return k_pure)
qed

lemma k_liveness: "keeps (holding C S) (outgoing_liveness c e outgoing force)"
proof -
  have "keeps (holds C S) (probe_liveness (env_poll e) a gate)" for a gate
    unfolding probe_liveness_def by (cases gate) (auto intro: keeps_bind t_env_poll keeps_return)
  then show ?thesis unfolding outgoing_liveness_def
    by (intro triple_case_option keeps_bind k_pure k_in_world keeps_return)
qed

text \<open>The locked swap of the daemon, over both stores.\<close>

definition swapped_to :: "string \<Rightarrow> string \<Rightarrow> credential option \<Rightarrow> (string \<Rightarrow> stashed_account option) \<Rightarrow> bool \<Rightarrow> 'w ctx \<Rightarrow> bool" where
  "swapped_to out inc C S fine s \<longleftrightarrow> safe_swap out inc C S (canon (cx_w s)) (stash (cx_w s)) \<and>
     (fine \<longrightarrow> (\<exists>i. S inc = Some i \<and> canon (cx_w s) = Some (stashed_credential i)))"

lemma swapped_to_stop: "holding C S s \<Longrightarrow> swapped_to out inc C S False s"
  by (simp add: swapped_to_def holding_def holds_def safe_swap_refl)

lemma t_locked_swap:
  "triple (holding C S) (locked_swap c e out inc force) (\<lambda>r s. swapped_to out inc C S (is_ok r) s)"
  (is "triple _ _ ?Q")
proof -
  let ?P = "\<lambda>(r :: swap_report result) C' S'. safe_swap out inc C S C' S' \<and>
      (is_ok r \<longrightarrow> (\<exists>i. S inc = Some i \<and> C' = Some (stashed_credential i)))"
  have "triple (holds C S) (swap_locked (env_io e) lock out inc f) (\<lambda>r s. ?P r (canon s) (stash s))" for lock f
    unfolding swap_locked_def
    by (rule t_with_lock, rule triple_conj [OF t_swap], rule triple_weaken [OF t_swap_ok]) (auto simp: safe_swap_refl)
  then have swap: "triple (holding C S) (in_world (swap_locked (env_io e) lock out inc f)) ?Q" for lock f
    using t_in_world unfolding swapped_to_def by blast
  have stop: "triple (holding C S) (State_Monad.return (Inl err)) ?Q" for err
    by (simp add: triple_def swapped_to_stop)
  have guarded: "triple (holding C S) (do {
               live \<leftarrow> outgoing_liveness c e out force;
               let refused = probe_refuses live (c_canary_online_probe_strict c);
               emits (if probe_alarms live then [Ev_CanaryOnlineProbe (liveness_as_str live) refused] else []);
               if refused then State_Monad.return (Inl (CanaryProbeNotLive (liveness_as_str live)))
               else in_world (swap_locked (env_io e) (swap_lock c) out inc (c_claude_json c)) }) ?Q"
    unfolding Let_def by (intro triple_bind_keep [OF k_liveness] triple_bind_keep [OF k_pure(4)] triple_if stop swap)
  show ?thesis unfolding locked_swap_def
    by (intro triple_bind_keep [OF k_canary] triple_case_sum stop triple_bind_keep [OF k_pure(4)] triple_case_option guarded)
qed

lemma t_record_swap:
  "triple (\<lambda>s. swapped_to out inc C S fine s) (record_swap e target inc tm) (\<lambda>_ s. swapped_to out inc C S fine s \<and> d_active (cx_d s) = Some target)"
  by (auto simp: triple_def record_swap_def swapped_to_def note_swap_def Let_def split_beta sread_pure invalidate_poll_schedule_def split: sum.split)

lemma deactivate_active: "d_active (deactivate_recovery_probe prev nxt d) = d_active d"
  by (simp add: deactivate_recovery_probe_def split: option.split)

lemma t_socket_swap:
  fixes c :: cfg and i target :: nat
  defines "out \<equiv> stash_name (c_roster c ! i)" and "inc \<equiv> stash_name (c_roster c ! target)"
  shows "triple (\<lambda>s. holding C S s \<and> d_active (cx_d s) = Some i) (socket_swap c e i target force now) (\<lambda>ack s.
     swapped_to out inc C S (ack = SwapAccepted (acc_label c i) (acc_label c target)) s \<and>
     (ack = SwapAccepted (acc_label c i) (acc_label c target) \<and> d_active (cx_d s) = Some target \<or>
      (\<exists>err. ack = SwapRejected (classify_swap_failure err))))"
  unfolding socket_swap_def Let_def out_def [symmetric] inc_def [symmetric]
proof (rule triple_bind [where R = "\<lambda>r s. swapped_to out inc C S (is_ok r) s"])
  show "triple (\<lambda>s. holding C S s \<and> d_active (cx_d s) = Some i) (locked_swap c e out inc force) (\<lambda>r s. swapped_to out inc C S (is_ok r) s)"
    by (rule triple_pre [OF t_locked_swap]) simp
next
  fix r :: "swap_report result"
  show "triple (swapped_to out inc C S (is_ok r)) (case r of
        Inr _ \<Rightarrow> do {
          prev_active \<leftarrow> getd d_active;
          record_swap e target inc now;
          modd (deactivate_recovery_probe prev_active (Some target));
          emits [Ev_Swap (acc_label c i) (acc_label c target) (if force then SR_Forced else SR_Manual) (Some 0) None];
          State_Monad.return (SwapAccepted (acc_label c i) (acc_label c target)) }
      | Inl err \<Rightarrow> State_Monad.return (SwapRejected (classify_swap_failure err)))
     (\<lambda>ack s. swapped_to out inc C S (ack = SwapAccepted (acc_label c i) (acc_label c target)) s \<and>
     (ack = SwapAccepted (acc_label c i) (acc_label c target) \<and> d_active (cx_d s) = Some target \<or>
      (\<exists>err. ack = SwapRejected (classify_swap_failure err))))"
  proof (cases r)
    case (Inl err)
    then show ?thesis by (auto simp: triple_def swapped_to_def)
  next
    case (Inr rep)
    have get: "triple (swapped_to out inc C S b) (getd d_active) (\<lambda>_. swapped_to out inc C S b)" for b
      by (simp add: triple_def)
    show ?thesis unfolding Inr sum.case
      by (rule triple_bind [OF get], rule triple_bind [OF t_record_swap])
        (simp add: triple_def swapped_to_def deactivate_active)
  qed
qed

lemma socket_swap_run:
  assumes "run_state (socket_swap c e i target force now) s = (ack, s')" "d_active (cx_d s) = Some i"
  shows "safe_swap (stash_name (c_roster c ! i)) (stash_name (c_roster c ! target)) (canon (cx_w s)) (stash (cx_w s))
      (canon (cx_w s')) (stash (cx_w s')) \<and>
    (ack = SwapAccepted (acc_label c i) (acc_label c target) \<and> d_active (cx_d s') = Some target \<and>
       (\<exists>x. stash (cx_w s) (stash_name (c_roster c ! target)) = Some x \<and> canon (cx_w s') = Some (stashed_credential x)) \<or>
     (\<exists>err. ack = SwapRejected (classify_swap_failure err)))"
  using tripleD [OF t_socket_swap [of "canon (cx_w s)" "stash (cx_w s)" i c target force now] _ assms(1)] assms(2)
  by (auto simp: holding_def holds_def swapped_to_def)

end

definition quiet_rejections :: "swap_rejection list" where
  "quiet_rejections = [SwRej_UnknownTarget, SwRej_AmbiguousTarget, SwRej_Quarantined, SwRej_WeeklyExhausted, SwRej_Cooldown]"

lemma perform_unresolved:
  assumes "resolve_target (c_roster c) (sc_target command) = Inl err"
  shows "\<exists>reason. run_state (perform_socket_swap c e command) s = (SwapRejected reason, s) \<and>
    exit_code (swap_rejection_error reason (sc_target command)) = exit_code err"
  using assms
  by (auto simp: perform_socket_swap_def resolve_target_def Let_def split: list.splits)

lemma perform_resolved:
  assumes "resolve_target (c_roster c) (sc_target command) = Inr target"
    and "v = socket_verdict c target (sc_force command) (clock_now (env_io e) (cx_w s)) (cx_d s)"
  shows "run_state (perform_socket_swap c e command) s =
    (case v of SV_AlreadyActive \<Rightarrow> (SwapAlreadyActive (acc_label c target), s)
     | SV_Reject reason \<Rightarrow> (SwapRejected reason, s)
     | SV_Swap \<Rightarrow> (case d_active (cx_d s) of None \<Rightarrow> (SwapRejected SwRej_NoActiveAccount, s)
         | Some i \<Rightarrow> run_state (socket_swap c e i target (sc_force command) (clock_now (env_io e) (cx_w s))) s))"
  using assms by (simp add: perform_socket_swap_def split: swap_verdict.split option.split)

text \<open>
  C5: The swap command of the socket does what its answer says. Accepted: the account that was active is
  put away under the rules of a safe swap, the named target's stored token is live and the target is the
  active account, and unless forced the target was neither quarantined nor exhausted and no cooldown ran.
  Already active, or rejected for the target or the cooldown: nothing at all changed. Any other rejection:
  no credential is lost.
\<close>

theorem socket_swap_answers:
  assumes "daemon_client e canon stash" "run_state (perform_socket_swap c e command) s = (ack, s')"
  shows "case ack of
      SwapAccepted from_label to_label \<Rightarrow> \<exists>i target x.
        d_active (cx_d s) = Some i \<and> resolve_target (c_roster c) (sc_target command) = Inr target \<and>
        from_label = acc_label c i \<and> to_label = acc_label c target \<and> d_active (cx_d s') = Some target \<and>
        safe_swap (stash_name (c_roster c ! i)) (stash_name (c_roster c ! target)) (canon (cx_w s)) (stash (cx_w s))
          (canon (cx_w s')) (stash (cx_w s')) \<and>
        stash (cx_w s) (stash_name (c_roster c ! target)) = Some x \<and> canon (cx_w s') = Some (stashed_credential x) \<and>
        (sc_force command \<or> \<not> quarantined (hlth (cx_d s) target) \<and>
           \<not> weekly_is_exhausted c (last_reading (acct (cx_d s) target)) \<and>
           \<not> in_cooldown (clock_now (env_io e) (cx_w s)) (c_cooldown_base c) (cx_d s))
    | SwapAlreadyActive _ \<Rightarrow> s' = s
    | SwapRejected reason \<Rightarrow> (reason \<in> set quiet_rejections \<longrightarrow> s' = s) \<and>
        (\<exists>out inc. safe_swap out inc (canon (cx_w s)) (stash (cx_w s)) (canon (cx_w s')) (stash (cx_w s')))"
proof (cases "resolve_target (c_roster c) (sc_target command)")
  case (Inl err)
  then show ?thesis using perform_unresolved [OF Inl, of e s] assms(2) safe_swap_refl by auto
next
  case (Inr target)
  note run = perform_resolved [OF Inr refl, of e s]
  let ?v = "socket_verdict c target (sc_force command) (clock_now (env_io e) (cx_w s)) (cx_d s)"
  show ?thesis
  proof (cases ?v)
    case SV_AlreadyActive
    then show ?thesis using assms(2) run by auto
  next
    case (SV_Reject reason)
    then show ?thesis using assms(2) run safe_swap_refl by auto
  next
    case SV_Swap
    then obtain i where i: "d_active (cx_d s) = Some i"
      by (auto simp: socket_verdict_def swap_command_verdict_def split: if_splits)
    have ok: "sc_force command \<or> \<not> quarantined (hlth (cx_d s) target) \<and>
        \<not> weekly_is_exhausted c (last_reading (acct (cx_d s) target)) \<and>
        \<not> in_cooldown (clock_now (env_io e) (cx_w s)) (c_cooldown_base c) (cx_d s)"
      using SV_Swap by (auto simp: socket_verdict_def swap_command_verdict_def split: if_splits)
    have "run_state (socket_swap c e i target (sc_force command) (clock_now (env_io e) (cx_w s))) s = (ack, s')"
      using assms(2) run by (simp add: SV_Swap i)
    note swapped = daemon_client.socket_swap_run [OF assms(1) this i]
    have quiet: "classify_swap_failure err \<notin> set quiet_rejections" for err
      by (cases err rule: classify_swap_failure.cases) (simp_all add: quiet_rejections_def)
    show ?thesis
    proof (cases ack)
      case (SwapAccepted f to)
      then show ?thesis using swapped i Inr ok by auto
    next
      case (SwapRejected reason)
      then have "reason \<notin> set quiet_rejections" using swapped quiet by auto
      then show ?thesis using swapped SwapRejected by auto
    qed (use swapped in auto)
  qed
qed

lemma sample_env_client: "daemon_client sample_env fake_slot fake_items"
proof (rule daemon_client.intro)
  show "vault (env_io sample_env) fake_slot fake_items" using sample_vault by (simp add: sample_env_def)
qed (unfold_locales, simp add: sample_env_def keeps_return)

interpretation sample_daemon_client: daemon_client sample_env fake_slot fake_items
  by (rule sample_env_client)

theorem socket_swap_answers_witness:
  "exec (perform_socket_swap sample_cfg sample_env \<lparr>sc_target = ''nobody'', sc_force = True\<rparr>) sample_ctx = sample_ctx"
proof -
  have "run_state (perform_socket_swap sample_cfg sample_env \<lparr>sc_target = ''nobody'', sc_force = True\<rparr>) sample_ctx
      = (SwapRejected SwRej_UnknownTarget,
         exec (perform_socket_swap sample_cfg sample_env \<lparr>sc_target = ''nobody'', sc_force = True\<rparr>) sample_ctx)"
    by (simp add: perform_socket_swap_def resolve_target_def sample_cfg_def enumerate_simps)
  from socket_swap_answers [OF sample_env_client this] show ?thesis by (simp add: quiet_rejections_def)
qed

text \<open>
  An unknown or ambiguous name fails alike with and without a daemon: the daemon rejects it without
  touching anything, and the error the client makes of the rejection has the exit code of the error the
  standalone command gives.
\<close>

theorem delegation_same_exit:
  assumes "resolve_target (c_roster c) query = Inl err"
  shows "\<exists>reason. run_state (perform_socket_swap c e \<lparr>sc_target = query, sc_force = force\<rparr>) s = (SwapRejected reason, s) \<and>
    report_swap_ack (SwapRejected reason) query = Inl (swap_rejection_error reason query) \<and>
    exit_code (swap_rejection_error reason query) = exit_code err \<and> exit_code err \<in> {5, 6}"
proof -
  have "exit_code err \<in> {5, 6}"
    using assms by (auto simp: resolve_target_def Let_def split: list.splits)
  then show ?thesis using perform_unresolved [of c "\<lparr>sc_target = query, sc_force = force\<rparr>" err e s] assms by simp
qed

theorem delegation_same_exit_witness: "\<exists>reason. exit_code (swap_rejection_error reason ''nobody'') = 5"
proof -
  have "resolve_target (c_roster sample_cfg) ''nobody'' = Inl (UseError (UseTargetNotFound ''nobody''))"
    by (simp add: resolve_target_def sample_cfg_def enumerate_simps)
  from delegation_same_exit [OF this, of sample_env False sample_ctx] show ?thesis by auto
qed

section \<open>The configuration command\<close>

text \<open>What applying the settings guarantees beyond the file: the result is a validated configuration.\<close>

lemma apply_settings_validated: "apply_settings toml text edits labels = Inr (config, change) \<Longrightarrow> config_ok config"
  by (cases "toml text") (auto simp: apply_settings_def parse_config_def and_then_Inr dest: validate_ok)

lemma reconcile_run:
  "run_state (reconcile c new intent) s =
     (case reconcile_roster c new intent (cx_d s) of (outcome, c', d') \<Rightarrow> ((outcome, c'), s\<lparr>cx_d := d'\<rparr>))"
  by (simp add: reconcile_def split_beta)

text \<open>
  C15: The configuration command does what its answer says. An answer of no change, and every rejection but
  a failed save, wrote nothing and left the daemon as it was; an applied change was validated and saved, it
  is announced as live only if no tunable changed and the labels are in force, and the daemon's own
  configuration changes in nothing but the roster.
\<close>

theorem config_set_answers:
  assumes "run_state (perform_config_set c sh command) s = ((ack, c'), s')"
  shows "case ack of
      ConfigSetRejected reason detail \<Rightarrow> c' = c \<and> cx_d s' = cx_d s \<and>
        (reason \<noteq> CSR_SaveFailed \<longrightarrow> s' = s \<or> (\<exists>path. c_config_path c = Some path \<and> cx_w s' = exec (sh_read_config sh path) (cx_w s)))
    | ConfigSetApplied effect \<Rightarrow> \<exists>path text config change.
        c_config_path c = Some path \<and> res (sh_read_config sh path) (cx_w s) = Inr text \<and>
        apply_settings (sh_toml sh) text (csc_tunables command) (csc_labels command) = Inr (config, change) \<and>
        config_ok config \<and>
        (effect = CSE_Unchanged \<longrightarrow> c' = c \<and> cx_d s' = cx_d s \<and> cx_w s' = exec (sh_read_config sh path) (cx_w s)) \<and>
        (effect \<noteq> CSE_Unchanged \<longrightarrow>
           is_ok (res (sh_save_config sh path config) (exec (sh_read_config sh path) (cx_w s))) \<and>
           c'\<lparr>c_roster := c_roster c\<rparr> = c) \<and>
        (effect = CSE_Live \<longrightarrow> \<not> tunables_changed change \<and> c_roster c' = cf_roster config)"
proof (cases "c_config_path c")
  case None
  then show ?thesis using assms by (auto simp: perform_config_set_def)
next
  case (Some path)
  obtain contents w1 where r: "run_state (sh_read_config sh path) (cx_w s) = (contents, w1)" by fastforce
  show ?thesis
  proof (cases contents)
    case (Inl err)
    then show ?thesis using assms Some r by (cases err) (auto simp: perform_config_set_def)
  next
    case (Inr body)
    show ?thesis
    proof (cases "apply_settings (sh_toml sh) body (csc_tunables command) (csc_labels command)")
      case (Inl err)
      then show ?thesis using assms Some r Inr
        by (cases "classify_config_set_failure (sh_display sh) err") (auto simp: perform_config_set_def)
    next
      case ap: (Inr p)
      obtain config change where p: "p = (config, change)" by (cases p)
      note ap = ap [unfolded p]
      obtain saved w2 where sv: "run_state (sh_save_config sh path config) w1 = (saved, w2)" by fastforce
      note facts = Some r Inr ap sv apply_settings_validated [OF ap]
      consider "\<not> tunables_changed change \<and> \<not> labels_changed change" | "tunables_changed change \<or> labels_changed change" "\<not> is_ok saved"
        | (go) "tunables_changed change \<or> labels_changed change" "is_ok saved" by blast
      then show ?thesis
      proof cases
        case 1
        then show ?thesis using assms facts by (auto simp: perform_config_set_def)
      next
        case 2
        then show ?thesis using assms facts by (auto simp: perform_config_set_def)
      next
        case go
        obtain rec c1 d1 where rc: "reconcile_roster c (cf_roster config) RI_AppendOnly (cx_d s) = (rec, c1, d1)"
          by (metis prod_cases3)
        have c1: "c1\<lparr>c_roster := c_roster c\<rparr> = c" "rec = RecRefusedShrink \<or> c_roster c1 = cf_roster config"
          using rc by (auto simp: reconcile_roster_def Let_def split: if_splits)
        show ?thesis
          using assms go c1 facts
          by (cases "labels_changed change")
            (auto simp: perform_config_set_def reconcile_run rc config_set_effect_of_def split: if_splits)
      qed
    qed
  qed
qed

definition sample_shell :: "fake_world shell" where
  "sample_shell = \<lparr>sh_env = sample_env, sh_read_config = (\<lambda>_. State_Monad.return (Inr ''ok'')),
     sh_save_config = (\<lambda>_ _. State_Monad.return (Inr ())), sh_toml = sample_toml,
     sh_witness = State_Monad.return PC_Absent, sh_display = (\<lambda>_. [])\<rparr>"

theorem config_set_answers_witness:
  "\<exists>config change. apply_settings sample_toml ''ok'' set_tunables_none [] = Inr (config, change) \<and> config_ok config"
proof -
  let ?raw = "raw_config_default\<lparr>raw_account := [\<lparr>ra_account_uuid = ''a'', ra_stash = [], ra_label = ''one'', ra_enabled = True\<rparr>]\<rparr>"
  let ?c = "sample_cfg\<lparr>c_config_path := Some ''file''\<rparr>"
  let ?cmd = "\<lparr>csc_tunables = set_tunables_none, csc_labels = []\<rparr>"
  have valid: "validate ?raw = Inr (config_default\<lparr>cf_roster := [\<lparr>account_uuid = ''a'', label = ''one'', account_enabled = True\<rparr>]\<rparr>)"
    by (intro validate_with_roster [OF validate_default])
      (auto simp: account_uuid_violation_def ACCOUNT_UUID_MAX_LEN_def ascii_alphanumeric_def white_space_def)
  have raw: "sample_toml ''ok'' = Inr ?raw" by (simp add: sample_toml_def)
  have same: "?raw\<lparr>raw_tunables := raw_tunables ?raw, raw_account := raw_account ?raw\<rparr> = ?raw" by simp
  have ap: "apply_settings sample_toml ''ok'' set_tunables_none [] =
      Inr (config_default\<lparr>cf_roster := [\<lparr>account_uuid = ''a'', label = ''one'', account_enabled = True\<rparr>]\<rparr>,
        \<lparr>tunables_changed = False, labels_changed = False\<rparr>)"
    using valid unfolding apply_settings_def parse_config_def raw
    by (simp only: sum.case and_then_simps overlay_labels.simps overlay_tunables_none same simp_thms)
  have "run_state (perform_config_set ?c sample_shell ?cmd) sample_ctx
      = ((ConfigSetApplied CSE_Unchanged, ?c), sample_ctx)"
    using ap by (simp add: perform_config_set_def sample_shell_def sample_ctx_def)
  from config_set_answers [OF this] show ?thesis by (auto simp: sample_shell_def)
qed

end
