(* ===== verification/Refresh_Tick.thy ===== *)
theory Refresh_Tick
  imports Config Daemon_Fold "HOL-Library.Sublist"
begin

text \<open>
  \<open>src/refresh_tick.rs\<close>: the periodic refresh of the parked credentials. When it is due, which accounts a
  sweep touches, the back-off of an account whose refresh keeps failing, and what a sweep hands back to
  the daemon. The isolated engine (\<open>Refresh_Engine\<close>) and the clock are the fields of \<open>sweep_env\<close>; a
  refresh that outlasts the configured timeout is \<open>None\<close>.
\<close>

section \<open>Back-off of one account\<close>

definition REFRESH_BACKOFF_MIN_BASE :: duration where "REFRESH_BACKOFF_MIN_BASE = from_secs 60"
definition REFRESH_BACKOFF_MAX_SHIFT :: nat where "REFRESH_BACKOFF_MAX_SHIFT = 6"
definition REFRESH_BACKOFF_CAP :: duration where "REFRESH_BACKOFF_CAP = from_secs 3600"

record refresh_backoff =
  rb_streak :: nat
  rb_until :: instant

definition refresh_backoff_delay :: "nat \<Rightarrow> duration \<Rightarrow> duration" where
  "refresh_backoff_delay streak base =
     (let shift = min streak REFRESH_BACKOFF_MAX_SHIFT;
          cap = max REFRESH_BACKOFF_CAP base
      in min (case dur_checked_mul base (2 ^ shift) of None \<Rightarrow> cap | Some w \<Rightarrow> w) cap)"

section \<open>The resolved binary\<close>

text \<open>The observer of the resolved client binary: a path is reported once, until it changes or is lost.\<close>

record observer_state =
  os_surfaced :: "string option"
  os_pending :: "string option"

definition observer_default :: observer_state where
  "observer_default = \<lparr>os_surfaced = None, os_pending = None\<rparr>"

definition observer_note :: "string option \<Rightarrow> observer_state \<Rightarrow> observer_state" where
  "observer_note resolved st =
     (case resolved of
        Some path \<Rightarrow> if os_surfaced st = Some path then st else st\<lparr>os_surfaced := Some path, os_pending := Some path\<rparr>
      | None \<Rightarrow> st\<lparr>os_surfaced := None\<rparr>)"

definition observer_take :: "observer_state \<Rightarrow> string option \<times> observer_state" where
  "observer_take st = (os_pending st, st\<lparr>os_pending := None\<rparr>)"

section \<open>The ticker\<close>

record ticker =
  tk_roster :: "account list"
  tk_config :: refresh_config
  tk_enabled :: bool
  tk_last_refresh :: "instant option"
  tk_idle_anchor :: "instant option"
  tk_backoff :: "refresh_backoff option list"

definition ticker_new :: "account list \<Rightarrow> refresh_config \<Rightarrow> bool \<Rightarrow> ticker" where
  "ticker_new roster config enabled =
     \<lparr>tk_roster = roster, tk_config = config, tk_enabled = enabled, tk_last_refresh = None,
      tk_idle_anchor = None, tk_backoff = replicate (length roster) None\<rparr>"

record 'w sweep_env =
  sw_stored_expires_at :: "account \<Rightarrow> ('w, int option) state"
  sw_refresh :: "account \<Rightarrow> ('w, refresh_report result option) state"
  sw_take_resolved_binary :: "('w, string option) state"
  sw_now :: "'w \<Rightarrow> instant"

definition delay_until_due :: "ticker \<Rightarrow> instant \<Rightarrow> instant \<Rightarrow> bool \<Rightarrow> duration" where
  "delay_until_due tk now idle_anchor has_recovery_work =
     (let idle_remaining = from_secs (r_idle_after_secs (tk_config tk)) - since now idle_anchor
      in if has_recovery_work then idle_remaining
         else let cadence_remaining = (case tk_last_refresh tk of
                  Some done_at \<Rightarrow> from_secs (r_cadence_secs (tk_config tk)) - since now done_at
                | None \<Rightarrow> 0)
              in max idle_remaining cadence_remaining)"

text \<open>\<open>until_due\<close>: how long to wait (forever when disabled), with the anchor set on the first call.\<close>

definition until_due :: "instant \<Rightarrow> bool \<Rightarrow> ticker \<Rightarrow> duration option \<times> ticker" where
  "until_due now has_recovery_work tk =
     (if \<not> tk_enabled tk then (None, tk)
      else let anchor = (case tk_idle_anchor tk of Some a \<Rightarrow> a | None \<Rightarrow> now)
           in (Some (delay_until_due tk now anchor has_recovery_work), tk\<lparr>tk_idle_anchor := Some anchor\<rparr>))"

definition account_listed_in :: "string list \<Rightarrow> account \<Rightarrow> bool" where
  "account_listed_in allowlist a \<longleftrightarrow> list_ex (\<lambda>entry. entry = label a \<or> entry = account_uuid a) allowlist"

definition sweepable :: "refresh_config \<Rightarrow> account \<Rightarrow> bool" where
  "sweepable config a \<longleftrightarrow> r_accounts config = [] \<or> account_listed_in (r_accounts config) a"

definition MAX_SWEEP_EXCLUSIONS :: nat where "MAX_SWEEP_EXCLUSIONS = 2"

definition mechanism_is_observable :: "account list \<Rightarrow> refresh_config \<Rightarrow> bool" where
  "mechanism_is_observable roster config \<longleftrightarrow>
     r_enabled config \<and> length (filter (sweepable config) roster) > MAX_SWEEP_EXCLUSIONS"

section \<open>Events of a sweep\<close>

definition is_near_expiry :: "int option \<Rightarrow> int \<Rightarrow> int \<Rightarrow> bool" where
  "is_near_expiry expires now_ms horizon_ms =
     (case expires of Some t \<Rightarrow> t \<le> i64_sat (now_ms + horizon_ms) | None \<Rightarrow> False)"

definition expires_after :: "int option \<Rightarrow> refresh_report \<Rightarrow> int option" where
  "expires_after before_ms report =
     (case rr_expires_at_delta_secs report of
        Some delta_secs \<Rightarrow>
          if rr_re_stashed report
          then map_option (\<lambda>before. i64_sat (before + i64_sat (delta_secs * 1000))) before_ms
          else before_ms
      | None \<Rightarrow> before_ms)"

definition refresh_event_reason_of :: "refresh_report \<Rightarrow> refresh_event_reason option" where
  "refresh_event_reason_of report =
     (case rr_outcome report of
        RO_Error RER_SpawnFailed \<Rightarrow> Some RES_SpawnFailed
      | RO_Error RER_ReadbackUnreadable \<Rightarrow> Some RES_ReadbackUnreadable
      | RO_Error RER_Malformed \<Rightarrow> Some RES_Malformed
      | _ \<Rightarrow> None)"

definition engine_error_reason :: "error \<Rightarrow> refresh_event_reason option" where
  "engine_error_reason err = (if err = HostError ClaudeBinaryNotFound then Some RES_Unresolved else None)"

definition refresh_event_of :: "string \<Rightarrow> int option \<Rightarrow> refresh_report \<Rightarrow> nat option \<Rightarrow> event" where
  "refresh_event_of lbl before_ms report backoff_secs =
     Ev_Refresh lbl (refresh_event_outcome_of report) before_ms (expires_after before_ms report)
       (refresh_event_reason_of report) backoff_secs"

definition error_refresh_event :: "string \<Rightarrow> int option \<Rightarrow> refresh_event_reason option \<Rightarrow> nat option \<Rightarrow> event" where
  "error_refresh_event lbl before_ms reason backoff_secs =
     Ev_Refresh lbl REO_Error before_ms before_ms reason backoff_secs"

section \<open>A sweep\<close>

record sweep_outcome =
  so_events :: "event list"
  so_restored :: "string list"
  so_observations :: "refresh_observation list"

definition sweep_outcome_default :: sweep_outcome where
  "sweep_outcome_default = \<lparr>so_events = [], so_restored = [], so_observations = []\<rparr>"

type_synonym backoff_update = "nat \<times> refresh_backoff option"

text \<open>What a finished cycle says: its event outcome, its report, and the reason of an engine error.\<close>

definition cycle_result ::
  "refresh_report result option \<Rightarrow> refresh_event_outcome \<times> refresh_report option \<times> refresh_event_reason option" where
  "cycle_result cycle =
     (case cycle of
        Some (Inr report) \<Rightarrow> (refresh_event_outcome_of report, Some report, None)
      | Some (Inl err) \<Rightarrow> (REO_Error, None, engine_error_reason err)
      | None \<Rightarrow> (REO_Error, None, Some RES_Timeout))"

text \<open>The back-off an outcome leads to: its update, and the seconds reported with the event.\<close>

definition backoff_after ::
  "ticker \<Rightarrow> nat \<Rightarrow> refresh_event_outcome \<Rightarrow> instant \<Rightarrow> backoff_update list \<times> nat option" where
  "backoff_after tk i oc now =
     (if oc = REO_Error then
        let streak = u32_sat_add (case tk_backoff tk ! i of Some b \<Rightarrow> rb_streak b | None \<Rightarrow> 0) 1;
            base = max (from_secs (r_idle_after_secs (tk_config tk))) REFRESH_BACKOFF_MIN_BASE;
            wait = refresh_backoff_delay streak base;
            until = (case instant_checked_add now wait of Some t \<Rightarrow> t | None \<Rightarrow> now)
        in ([(i, Some \<lparr>rb_streak = streak, rb_until = until\<rparr>)], Some (as_secs wait))
      else (if tk_backoff tk ! i \<noteq> None then [(i, None)] else [], None))"

definition add_observation :: "refresh_observation \<Rightarrow> sweep_outcome \<Rightarrow> sweep_outcome" where
  "add_observation ob so = so\<lparr>so_observations := so_observations so @ [ob]\<rparr>"

definition add_events :: "event list \<Rightarrow> sweep_outcome \<Rightarrow> sweep_outcome" where
  "add_events es so = so\<lparr>so_events := so_events so @ es\<rparr>"

text \<open>The part of the loop body past the skips: one refresh cycle of account \<open>i\<close>.\<close>

definition sweep_cycle ::
  "ticker \<Rightarrow> 'w sweep_env \<Rightarrow> bool \<Rightarrow> nat \<Rightarrow> account \<Rightarrow> int option \<Rightarrow> sweep_outcome \<times> backoff_update list \<Rightarrow>
   ('w, sweep_outcome \<times> backoff_update list) state" where
  "sweep_cycle tk e is_quarantined i a before_ms acc = do {
     cycle \<leftarrow> sw_refresh e a;
     binary \<leftarrow> sw_take_resolved_binary e;
     now \<leftarrow> sget (sw_now e);
     (case cycle_result cycle of (oc, report, reason) \<Rightarrow>
      (case backoff_after tk i oc now of (updates, backoff_secs) \<Rightarrow>
        let so1 = add_events (case binary of Some path \<Rightarrow> [Ev_RefreshBinaryResolved path] | None \<Rightarrow> []) (fst acc);
            restored = (is_quarantined \<and> (case report of Some r \<Rightarrow>
                (case rr_outcome r of RO_Refreshed _ \<Rightarrow> rr_re_stashed r | _ \<Rightarrow> False) | None \<Rightarrow> False));
            so2 = (if restored then so1\<lparr>so_restored := so_restored so1 @ [account_uuid a]\<rparr> else so1);
            so3 = (case report of
                Some r \<Rightarrow> add_observation \<lparr>ob_account_uuid = account_uuid a,
                    ob_expires_at_ms = expires_after before_ms r, ob_refresh = Some oc\<rparr>
                  (add_events [refresh_event_of (label a) before_ms r backoff_secs] so2)
              | None \<Rightarrow> add_observation \<lparr>ob_account_uuid = account_uuid a,
                    ob_expires_at_ms = before_ms, ob_refresh = Some REO_Error\<rparr>
                  (add_events [error_refresh_event (label a) before_ms reason backoff_secs] so2))
        in State_Monad.return (so3, snd acc @ updates))) }"

definition sweep_account ::
  "ticker \<Rightarrow> 'w sweep_env \<Rightarrow> string list \<Rightarrow> string list \<Rightarrow> int \<Rightarrow> nat \<Rightarrow> account \<Rightarrow>
   sweep_outcome \<times> backoff_update list \<Rightarrow> ('w, sweep_outcome \<times> backoff_update list) state" where
  "sweep_account tk e excluded quarantined_ids now_ms i a acc =
     (if account_uuid a \<in> set excluded then State_Monad.return acc
      else if r_accounts (tk_config tk) \<noteq> [] \<and> \<not> account_listed_in (r_accounts (tk_config tk)) a
      then State_Monad.return acc
      else do {
        now \<leftarrow> sget (sw_now e);
        if (case tk_backoff tk ! i of Some b \<Rightarrow> now < rb_until b | None \<Rightarrow> False) then State_Monad.return acc
        else do {
          before_ms \<leftarrow> sw_stored_expires_at e a;
          let is_quarantined = (account_uuid a \<in> set quarantined_ids);
          let horizon_ms = i64_sat (int (r_cadence_secs (tk_config tk)) * 1000);
          if \<not> is_quarantined \<and> \<not> is_near_expiry before_ms now_ms horizon_ms
          then State_Monad.return (add_observation
            \<lparr>ob_account_uuid = account_uuid a, ob_expires_at_ms = before_ms, ob_refresh = None\<rparr> (fst acc), snd acc)
          else sweep_cycle tk e is_quarantined i a before_ms acc } })"

fun sweep_loop ::
  "ticker \<Rightarrow> 'w sweep_env \<Rightarrow> string list \<Rightarrow> string list \<Rightarrow> int \<Rightarrow> nat \<Rightarrow> account list \<Rightarrow>
   sweep_outcome \<times> backoff_update list \<Rightarrow> ('w, sweep_outcome \<times> backoff_update list) state" where
  "sweep_loop tk e excluded quar now_ms i [] acc = State_Monad.return acc"
| "sweep_loop tk e excluded quar now_ms i (a # as) acc = do {
     acc' \<leftarrow> sweep_account tk e excluded quar now_ms i a acc;
     sweep_loop tk e excluded quar now_ms (Suc i) as acc' }"

definition run_sweep ::
  "ticker \<Rightarrow> 'w sweep_env \<Rightarrow> string list \<Rightarrow> string list \<Rightarrow> int \<Rightarrow> ('w, sweep_outcome \<times> backoff_update list) state" where
  "run_sweep tk e excluded quar now_ms =
     sweep_loop tk e excluded quar now_ms 0 (tk_roster tk) (sweep_outcome_default, [])"

definition apply_updates :: "backoff_update list \<Rightarrow> refresh_backoff option list \<Rightarrow> refresh_backoff option list" where
  "apply_updates updates bs = fold (\<lambda>(i, st) bs. bs[i := st]) updates bs"

definition sweep ::
  "'w sweep_env \<Rightarrow> string list \<Rightarrow> string list \<Rightarrow> int \<Rightarrow> ticker \<Rightarrow> ('w, sweep_outcome \<times> ticker) state" where
  "sweep e excluded quar now_ms tk =
     (if \<not> tk_enabled tk then State_Monad.return (sweep_outcome_default, tk)
      else do {
        (so, updates) \<leftarrow> run_sweep tk e excluded quar now_ms;
        now \<leftarrow> sget (sw_now e);
        State_Monad.return (so, tk\<lparr>tk_backoff := apply_updates updates (tk_backoff tk),
          tk_last_refresh := Some now, tk_idle_anchor := None\<rparr>) })"

definition recovery_pending :: "ticker \<Rightarrow> string list \<Rightarrow> string list \<Rightarrow> bool" where
  "recovery_pending tk excluded quar \<longleftrightarrow> tk_enabled tk \<and>
     list_ex (\<lambda>a. account_uuid a \<in> set quar \<and> account_uuid a \<notin> set excluded \<and>
                  (r_accounts (tk_config tk) = [] \<or> account_listed_in (r_accounts (tk_config tk)) a)) (tk_roster tk)"

section \<open>What the back-off promises\<close>

lemma refresh_backoff_delay_bounds:
  assumes "REFRESH_BACKOFF_MIN_BASE \<le> base"
  shows "base \<le> refresh_backoff_delay streak base \<and>
    refresh_backoff_delay streak base \<le> max REFRESH_BACKOFF_CAP base"
proof -
  have "base * 1 \<le> base * 2 ^ min streak REFRESH_BACKOFF_MAX_SHIFT" by (intro mult_left_mono) simp_all
  then show ?thesis by (auto simp: refresh_backoff_delay_def Let_def dur_checked_mul_def)
qed

lemma capped_mono:
  fixes a :: nat
  assumes "a \<le> b"
  shows "min (case if a \<le> m then Some a else None of None \<Rightarrow> c | Some x \<Rightarrow> x) c
    \<le> min (case if b \<le> m then Some b else None of None \<Rightarrow> c | Some x \<Rightarrow> x) c"
  using assms by (auto simp: min_def)

definition next_streak :: "refresh_backoff option \<Rightarrow> nat" where
  "next_streak b = u32_sat_add (case b of Some b \<Rightarrow> rb_streak b | None \<Rightarrow> 0) 1"

section \<open>What a sweep does to each account\<close>

definition eligible :: "ticker \<Rightarrow> string list \<Rightarrow> account \<Rightarrow> bool" where
  "eligible tk excluded a \<longleftrightarrow> account_uuid a \<notin> set excluded \<and> sweepable (tk_config tk) a"

text \<open>The updates an outcome of account \<open>i\<close> may lead to.\<close>

definition outcome_updates :: "ticker \<Rightarrow> nat \<Rightarrow> refresh_event_outcome \<Rightarrow> backoff_update list \<Rightarrow> bool" where
  "outcome_updates tk i oc ups \<longleftrightarrow>
     (if oc = REO_Error then \<exists>b. ups = [(i, Some b)] \<and> rb_streak b = next_streak (tk_backoff tk ! i)
      else ups = (if tk_backoff tk ! i \<noteq> None then [(i, None)] else []))"

text \<open>One pass of the loop body: nothing, a bare observation, or a refresh cycle.\<close>

definition account_swept ::
  "ticker \<Rightarrow> string list \<Rightarrow> string list \<Rightarrow> nat \<Rightarrow> account \<Rightarrow> sweep_outcome \<times> backoff_update list \<Rightarrow>
   sweep_outcome \<times> backoff_update list \<Rightarrow> bool" where
  "account_swept tk excluded quar i a acc acc' \<longleftrightarrow> acc' = acc \<or>
     (eligible tk excluded a \<and> (\<exists>ob r ups.
        so_observations (fst acc') = so_observations (fst acc) @ [ob] \<and>
        so_restored (fst acc') = so_restored (fst acc) @ r \<and> snd acc' = snd acc @ ups \<and>
        ob_account_uuid ob = account_uuid a \<and>
        (case ob_refresh ob of
           None \<Rightarrow> r = [] \<and> ups = []
         | Some oc \<Rightarrow> outcome_updates tk i oc ups \<and>
             (r = [] \<or> r = [account_uuid a] \<and> account_uuid a \<in> set quar \<and> (\<exists>x. oc = REO_Refreshed x)))))"

lemma backoff_after_updates: "outcome_updates tk i oc (fst (backoff_after tk i oc now))"
  by (simp add: outcome_updates_def backoff_after_def next_streak_def Let_def)

lemma sweep_cycle_swept:
  assumes "eligible tk excluded a" "q \<Longrightarrow> account_uuid a \<in> set quar"
  shows "account_swept tk excluded quar i a acc (res (sweep_cycle tk e q i a before acc) w)"
proof -
  obtain cycle w1 where c: "run_state (sw_refresh e a) w = (cycle, w1)" by fastforce
  obtain binary w2 where b: "run_state (sw_take_resolved_binary e) w1 = (binary, w2)" by fastforce
  obtain oc report reason where r: "cycle_result cycle = (oc, report, reason)" by (cases "cycle_result cycle") auto
  have err: "report = None \<Longrightarrow> oc = REO_Error" and out: "report = Some x \<Longrightarrow> oc = refresh_event_outcome_of x" for x
    using r by (auto simp: cycle_result_def split: option.splits sum.splits)
  show ?thesis
    using assms err out
    by (cases report) (auto simp: sweep_cycle_def split_beta c b r backoff_after_updates account_swept_def add_observation_def
        add_events_def Let_def refresh_event_outcome_of_def split: refresh_outcome.splits option.splits)
qed

lemma sweep_account_swept:
  "account_swept tk excluded quar i a acc (res (sweep_account tk e excluded quar now_ms i a acc) w)"
proof (cases "eligible tk excluded a")
  case False
  then show ?thesis
    by (auto simp: sweep_account_def account_swept_def eligible_def sweepable_def)
next
  case True
  have bare: "account_swept tk excluded quar i a acc (add_observation
      \<lparr>ob_account_uuid = account_uuid a, ob_expires_at_ms = x, ob_refresh = None\<rparr> (fst acc), snd acc)" for x
    using True by (simp add: account_swept_def add_observation_def)
  have same: "account_swept tk excluded quar i a acc acc" by (simp add: account_swept_def)
  show ?thesis
    using True bare same
    by (auto simp: sweep_account_def eligible_def sweepable_def Let_def split: prod.split intro!: sweep_cycle_swept [OF True])
qed

section \<open>What a sweep does to the roster\<close>

text \<open>What the observations of a sweep say about the back-off of the account \<open>u\<close>.\<close>

definition judged :: "refresh_observation list \<Rightarrow> string \<Rightarrow> refresh_backoff option \<Rightarrow> refresh_backoff option \<Rightarrow> bool" where
  "judged obs u old new \<longleftrightarrow>
     (u \<notin> ob_account_uuid ` set obs \<longrightarrow> new = old) \<and>
     (\<forall>ob \<in> set obs. ob_account_uuid ob = u \<longrightarrow>
        (case ob_refresh ob of
           None \<Rightarrow> new = old
         | Some oc \<Rightarrow> if oc = REO_Error then \<exists>b. new = Some b \<and> rb_streak b = next_streak old else new = None))"

definition sweep_inv ::
  "ticker \<Rightarrow> string list \<Rightarrow> string list \<Rightarrow> nat \<Rightarrow> sweep_outcome \<times> backoff_update list \<Rightarrow> bool" where
  "sweep_inv tk excluded quar k acc \<longleftrightarrow>
     subseq (map ob_account_uuid (so_observations (fst acc)))
       (map account_uuid (filter (eligible tk excluded) (take k (tk_roster tk)))) \<and>
     (\<forall>u \<in> set (so_restored (fst acc)). u \<in> set quar \<and>
        (\<exists>ob \<in> set (so_observations (fst acc)). ob_account_uuid ob = u \<and> (\<exists>x. ob_refresh ob = Some (REO_Refreshed x)))) \<and>
     length (apply_updates (snd acc) (tk_backoff tk)) = length (tk_backoff tk) \<and>
     (\<forall>i < length (tk_roster tk).
        (k \<le> i \<longrightarrow> apply_updates (snd acc) (tk_backoff tk) ! i = tk_backoff tk ! i) \<and>
        (i < k \<longrightarrow> judged (so_observations (fst acc)) (account_uuid (tk_roster tk ! i))
            (tk_backoff tk ! i) (apply_updates (snd acc) (tk_backoff tk) ! i)))"

lemma apply_updates_append: "apply_updates (xs @ ys) bs = apply_updates ys (apply_updates xs bs)"
  by (simp add: apply_updates_def)

lemma apply_updates_simps [simp]:
  "apply_updates [] bs = bs" "apply_updates ((i, st) # ups) bs = apply_updates ups (bs[i := st])"
  by (simp_all add: apply_updates_def)

lemma subseq_subset: "subseq xs ys \<Longrightarrow> set xs \<subseteq> set ys"
  by (induction rule: list_emb.induct) auto

text \<open>The uuids observed so far belong to the accounts already visited.\<close>

lemma observed_visited:
  assumes "sweep_inv tk excluded quar k acc" "ob \<in> set (so_observations (fst acc))"
  shows "ob_account_uuid ob \<in> account_uuid ` set (take k (tk_roster tk))"
proof -
  have "ob_account_uuid ob \<in> set (map ob_account_uuid (so_observations (fst acc)))" using assms(2) by simp
  also have "\<dots> \<subseteq> set (map account_uuid (filter (eligible tk excluded) (take k (tk_roster tk))))"
    using assms(1) by (intro subseq_subset) (simp add: sweep_inv_def)
  finally show ?thesis by auto
qed

lemma fresh_uuid:
  assumes "distinct (map account_uuid roster)" "k < length roster"
  shows "account_uuid (roster ! k) \<notin> account_uuid ` set (take k roster)"
proof -
  have "set (take k (map account_uuid roster)) \<inter> set (drop k (map account_uuid roster)) = {}"
    using set_take_disj_set_drop_if_distinct [OF assms(1), of k k] by simp
  moreover have "roster ! k \<in> set (drop k roster)"
    using assms(2) by (metis Cons_nth_drop_Suc list.set_intros(1))
  ultimately show ?thesis by (auto simp: take_map drop_map)
qed

lemma judged_snoc:
  assumes "judged obs u old new" "ob_account_uuid ob \<noteq> u"
  shows "judged (obs @ [ob]) u old new"
  using assms by (auto simp: judged_def)

lemma judged_unseen:
  assumes "u \<notin> ob_account_uuid ` set obs"
  shows "judged obs u b b"
proof -
  have "\<forall>ob \<in> set obs. ob_account_uuid ob \<noteq> u" using assms by (auto simp: image_iff)
  then show ?thesis unfolding judged_def by simp
qed

lemma judged_seen:
  assumes "u \<notin> ob_account_uuid ` set obs" "ob_account_uuid ob = u"
    and "case ob_refresh ob of None \<Rightarrow> new = old
      | Some oc \<Rightarrow> if oc = REO_Error then \<exists>b. new = Some b \<and> rb_streak b = next_streak old else new = None"
  shows "judged (obs @ [ob]) u old new"
proof -
  have "\<forall>x \<in> set obs. ob_account_uuid x \<noteq> u" using assms(1) by (auto simp: image_iff)
  then show ?thesis using assms(2,3) unfolding judged_def by simp
qed

lemma sweep_inv_step:
  assumes inv: "sweep_inv tk excluded quar k acc" and k: "k < length (tk_roster tk)"
    and swept: "account_swept tk excluded quar k (tk_roster tk ! k) acc acc'"
    and d: "distinct (map account_uuid (tk_roster tk))" and len: "length (tk_backoff tk) = length (tk_roster tk)"
  shows "sweep_inv tk excluded quar (Suc k) acc'"
proof -
  let ?a = "tk_roster tk ! k" and ?bs = "apply_updates (snd acc) (tk_backoff tk)"
  have fresh: "account_uuid ?a \<notin> ob_account_uuid ` set (so_observations (fst acc))"
  proof
    assume "account_uuid ?a \<in> ob_account_uuid ` set (so_observations (fst acc))"
    then obtain ob where ob: "account_uuid ?a = ob_account_uuid ob" "ob \<in> set (so_observations (fst acc))"
      by (rule imageE)
    show False using observed_visited [OF inv ob(2)] fresh_uuid [OF d k] by (simp add: ob(1))
  qed
  have tk: "take (Suc k) (tk_roster tk) = take k (tk_roster tk) @ [?a]" using k by (rule take_Suc_conv_app_nth)
  have old: "?bs ! k = tk_backoff tk ! k" "k < length ?bs" using inv k len by (auto simp: sweep_inv_def)
  consider (skip) "acc' = acc" | (obs) ob r ups where "eligible tk excluded ?a"
      "so_observations (fst acc') = so_observations (fst acc) @ [ob]"
      "so_restored (fst acc') = so_restored (fst acc) @ r" "snd acc' = snd acc @ ups"
      "ob_account_uuid ob = account_uuid ?a"
      "case ob_refresh ob of None \<Rightarrow> r = [] \<and> ups = []
        | Some oc \<Rightarrow> outcome_updates tk k oc ups \<and>
            (r = [] \<or> r = [account_uuid ?a] \<and> account_uuid ?a \<in> set quar \<and> (\<exists>x. oc = REO_Refreshed x))"
    using swept unfolding account_swept_def by blast
  then show ?thesis
  proof cases
    case skip
    have "judged (so_observations (fst acc)) (account_uuid ?a) (tk_backoff tk ! k) (?bs ! k)"
      unfolding old(1) by (rule judged_unseen [OF fresh])
    then show ?thesis using inv unfolding skip sweep_inv_def tk
      by (auto simp: less_Suc_eq filter_append intro: list_emb_append2)
  next
    case obs
    have upd: "ups = [] \<or> (\<exists>st. ups = [(k, st)])"
      using obs(6) by (auto simp: outcome_updates_def split: option.splits if_splits)
    then have other: "apply_updates (snd acc') (tk_backoff tk) ! i = ?bs ! i" if "i \<noteq> k" for i
      using that by (auto simp: obs(4) apply_updates_append)
    have mine: "judged (so_observations (fst acc')) (account_uuid ?a) (tk_backoff tk ! k)
        (apply_updates (snd acc') (tk_backoff tk) ! k)"
      unfolding obs(2) by (rule judged_seen [OF fresh obs(5)])
        (use obs(6) old in \<open>auto simp: obs(4) apply_updates_append outcome_updates_def split: option.splits if_splits\<close>)
    have theirs: "judged (so_observations (fst acc')) (account_uuid (tk_roster tk ! i)) (tk_backoff tk ! i)
        (apply_updates (snd acc') (tk_backoff tk) ! i)" if i: "i < k" for i
    proof -
      have "account_uuid ?a \<noteq> account_uuid (tk_roster tk ! i)"
        using nth_eq_iff_index_eq [OF d, of k i] i k by simp
      moreover have "judged (so_observations (fst acc)) (account_uuid (tk_roster tk ! i)) (tk_backoff tk ! i) (?bs ! i)"
        using inv i k by (simp add: sweep_inv_def)
      ultimately show ?thesis using other [of i] i obs(2,5) by (auto intro: judged_snoc)
    qed
    have "subseq (map ob_account_uuid (so_observations (fst acc')))
        (map account_uuid (filter (eligible tk excluded) (take (Suc k) (tk_roster tk))))"
      using inv obs(1,2,5) unfolding tk by (simp add: sweep_inv_def)
    moreover have "\<forall>u \<in> set (so_restored (fst acc')). u \<in> set quar \<and> (\<exists>ob \<in> set (so_observations (fst acc')).
        ob_account_uuid ob = u \<and> (\<exists>x. ob_refresh ob = Some (REO_Refreshed x)))"
      using inv obs(2,3,5,6) by (auto simp: sweep_inv_def split: option.splits)
    moreover have "length (apply_updates (snd acc') (tk_backoff tk)) = length (tk_backoff tk)"
      using inv upd by (auto simp: obs(4) apply_updates_append sweep_inv_def)
    moreover have "Suc k \<le> i \<Longrightarrow> i < length (tk_roster tk) \<Longrightarrow>
        apply_updates (snd acc') (tk_backoff tk) ! i = tk_backoff tk ! i" for i
      using inv other [of i] by (auto simp: sweep_inv_def)
    ultimately show ?thesis using mine theirs unfolding sweep_inv_def by (auto simp: less_Suc_eq)
  qed
qed

lemma sweep_loop_inv:
  assumes "sweep_inv tk excluded quar k acc" "drop k (tk_roster tk) = as" "k \<le> length (tk_roster tk)"
    and "distinct (map account_uuid (tk_roster tk))" "length (tk_backoff tk) = length (tk_roster tk)"
  shows "sweep_inv tk excluded quar (length (tk_roster tk)) (res (sweep_loop tk e excluded quar now_ms k as acc) w)"
  using assms
proof (induction as arbitrary: k acc w)
  case Nil
  then show ?case by (simp add: drop_eq_Nil)
next
  case (Cons a as)
  then have k: "k < length (tk_roster tk)" "tk_roster tk ! k = a" "drop (Suc k) (tk_roster tk) = as"
    by (auto simp: nth_via_drop drop_Suc simp flip: tl_drop intro: not_le_imp_less)
  obtain acc' w' where s: "run_state (sweep_account tk e excluded quar now_ms k a acc) w = (acc', w')" by fastforce
  have "account_swept tk excluded quar k a acc acc'"
    using sweep_account_swept [of tk excluded quar k a acc e now_ms w] by (simp add: s)
  then have "sweep_inv tk excluded quar (Suc k) acc'"
    using sweep_inv_step [OF Cons.prems(1) k(1) _ Cons.prems(4,5)] k(2) by simp
  from Cons.IH [OF this k(3) _ Cons.prems(4,5)] k(1) show ?case by (simp add: s)
qed

lemma run_sweep_inv:
  assumes "distinct (map account_uuid (tk_roster tk))" "length (tk_backoff tk) = length (tk_roster tk)"
  shows "sweep_inv tk excluded quar (length (tk_roster tk)) (res (run_sweep tk e excluded quar now_ms) w)"
  unfolding run_sweep_def
  by (rule sweep_loop_inv) (use assms in \<open>auto simp: sweep_inv_def sweep_outcome_default_def\<close>)

section \<open>The theorems of the periodic refresh\<close>

text \<open>
  C14: One sweep of a ticker whose roster names every account once: it observes each account at most once,
  in roster order, and only accounts that are neither excluded (the active one, the one about to be
  drained) nor off the allow-list; it announces as restored only quarantined accounts whose refresh it
  observed to succeed; and it leaves the back-off of every account as its observation demands: untouched
  without a refresh, one streak longer after a failed one, cleared after any other.
\<close>

theorem sweep_sound:
  assumes "distinct (map account_uuid (tk_roster tk))" "length (tk_backoff tk) = length (tk_roster tk)"
  shows "case res (sweep e excluded quar now_ms tk) w of (so, tk') \<Rightarrow>
    subseq (map ob_account_uuid (so_observations so)) (map account_uuid (filter (eligible tk excluded) (tk_roster tk))) \<and>
    (\<forall>u \<in> set (so_restored so). u \<in> set quar \<and>
       (\<exists>ob \<in> set (so_observations so). ob_account_uuid ob = u \<and> (\<exists>x. ob_refresh ob = Some (REO_Refreshed x)))) \<and>
    (\<forall>i < length (tk_roster tk).
       judged (so_observations so) (account_uuid (tk_roster tk ! i)) (tk_backoff tk ! i) (tk_backoff tk' ! i)) \<and>
    length (tk_backoff tk') = length (tk_backoff tk) \<and> tk_roster tk' = tk_roster tk \<and> tk_config tk' = tk_config tk"
proof (cases "tk_enabled tk")
  case False
  then show ?thesis by (simp add: sweep_def sweep_outcome_default_def judged_def)
next
  case True
  obtain so ups w' where r: "run_state (run_sweep tk e excluded quar now_ms) w = ((so, ups), w')"
    by (metis prod.exhaust)
  have "sweep_inv tk excluded quar (length (tk_roster tk)) (so, ups)"
    using run_sweep_inv [OF assms, of excluded quar e now_ms w] by (simp add: r)
  then show ?thesis using True by (simp add: sweep_def r sweep_inv_def)
qed

definition sample_ticker :: ticker where
  "sample_ticker = ticker_new (map (\<lambda>u. \<lparr>account_uuid = u, label = u, account_enabled = True\<rparr>) [''a'', ''b'', ''c''])
     refresh_config_default True"

text \<open>A world in which \<open>a\<close> cannot be refreshed and every other account is rotated.\<close>

definition sample_sweep_env :: "unit sweep_env" where
  "sample_sweep_env = \<lparr>sw_stored_expires_at = (\<lambda>a. State_Monad.return (Some 1000)),
     sw_refresh = (\<lambda>a. State_Monad.return (Some (if account_uuid a = ''a'' then Inl (HostError ClaudeBinaryNotFound)
       else Inr \<lparr>rr_outcome = RO_Refreshed True, rr_expires_at_delta_secs = Some 60, rr_re_stashed = True\<rparr>))),
     sw_take_resolved_binary = State_Monad.return None, sw_now = (\<lambda>_. 5)\<rparr>"

theorem sweep_sound_witness:
  "case res (sweep sample_sweep_env [] [''b''] 0 sample_ticker) () of (so, tk') \<Rightarrow>
     \<forall>u \<in> set (so_restored so). u \<in> set [''b'']"
  using sweep_sound [where tk = sample_ticker and e = sample_sweep_env and excluded = "[]" and quar = "[''b'']"
      and now_ms = 0 and w = "()"]
  by (auto simp: sample_ticker_def ticker_new_def split: prod.splits)

text \<open>
  The back-off of an account whose refresh keeps failing: the delay is never below the base nor above
  the larger of the cap and the base, it never shrinks as the streak grows, and within the cap it is
  exactly the base doubled once per failure.
\<close>

theorem refresh_backoff_schedule:
  assumes "REFRESH_BACKOFF_MIN_BASE \<le> base"
  shows "base \<le> refresh_backoff_delay streak base \<and>
    refresh_backoff_delay streak base \<le> max REFRESH_BACKOFF_CAP base \<and>
    refresh_backoff_delay streak base \<le> refresh_backoff_delay (Suc streak) base \<and>
    (streak \<le> REFRESH_BACKOFF_MAX_SHIFT \<longrightarrow> base * 2 ^ streak \<le> REFRESH_BACKOFF_CAP \<longrightarrow>
       refresh_backoff_delay streak base = base * 2 ^ streak)"
proof -
  have le: "base * 2 ^ min streak REFRESH_BACKOFF_MAX_SHIFT \<le> base * 2 ^ min (Suc streak) REFRESH_BACKOFF_MAX_SHIFT"
    by (intro mult_left_mono power_increasing) simp_all
  have "refresh_backoff_delay streak base \<le> refresh_backoff_delay (Suc streak) base"
    unfolding refresh_backoff_delay_def Let_def dur_checked_mul_def by (rule capped_mono [OF le])
  moreover have "REFRESH_BACKOFF_CAP \<le> DURATION_MAX"
    by (simp add: REFRESH_BACKOFF_CAP_def DURATION_MAX_def from_secs_def NANOS_PER_SEC_def)
  then have "refresh_backoff_delay streak base = base * 2 ^ streak"
    if "streak \<le> REFRESH_BACKOFF_MAX_SHIFT" "base * 2 ^ streak \<le> REFRESH_BACKOFF_CAP"
    using that by (simp add: refresh_backoff_delay_def Let_def dur_checked_mul_def)
  ultimately show ?thesis using refresh_backoff_delay_bounds [OF assms, of streak] by blast
qed

theorem refresh_backoff_schedule_witness:
  "refresh_backoff_delay 1 (from_secs 60) \<le> refresh_backoff_delay 2 (from_secs 60)"
  using refresh_backoff_schedule [of "from_secs 60" 1] by (simp add: REFRESH_BACKOFF_MIN_BASE_def numeral_2_eq_2)

section \<open>A sweep reaches every account it may\<close>

lemma sweep_account_keeps:
  "set (so_observations (fst acc)) \<subseteq> set (so_observations (fst (res (sweep_account tk e excluded quar now_ms i a acc) w)))"
  using sweep_account_swept [of tk excluded quar i a acc e now_ms w] by (auto simp: account_swept_def)

lemma sweep_cycle_observes:
  "account_uuid a \<in> ob_account_uuid ` set (so_observations (fst (res (sweep_cycle tk e q i a before acc) w)))"
  by (auto simp: sweep_cycle_def split_beta add_observation_def add_events_def Let_def split: option.splits)

lemma sweep_account_observes:
  assumes "eligible tk excluded a" "tk_backoff tk ! i = None"
  shows "account_uuid a \<in> ob_account_uuid ` set (so_observations (fst (res (sweep_account tk e excluded quar now_ms i a acc) w)))"
proof -
  have bare: "account_uuid a \<in> ob_account_uuid ` set (so_observations (add_observation
      \<lparr>ob_account_uuid = account_uuid a, ob_expires_at_ms = x, ob_refresh = None\<rparr> so))" for x so
    by (simp add: add_observation_def)
  show ?thesis
    using assms bare
    by (auto simp: sweep_account_def eligible_def sweepable_def Let_def split: prod.split intro!: sweep_cycle_observes
        simp del: image_iff)
qed

lemma sweep_loop_keeps:
  "set (so_observations (fst acc)) \<subseteq> set (so_observations (fst (res (sweep_loop tk e excluded quar now_ms k as acc) w)))"
proof (induction as arbitrary: k acc w)
  case (Cons a as)
  obtain acc' w' where s: "run_state (sweep_account tk e excluded quar now_ms k a acc) w = (acc', w')" by fastforce
  then show ?case
    using sweep_account_keeps [of acc tk e excluded quar now_ms k a w] Cons.IH [of acc' "Suc k" w'] by (auto simp: s)
qed simp

lemma sweep_loop_observes:
  assumes "a \<in> set as" "eligible tk excluded a" "\<forall>i. k \<le> i \<and> i < k + length as \<longrightarrow> tk_backoff tk ! i = None"
  shows "account_uuid a \<in> ob_account_uuid ` set (so_observations (fst (res (sweep_loop tk e excluded quar now_ms k as acc) w)))"
  using assms
proof (induction as arbitrary: k acc w)
  case (Cons b as)
  obtain acc' w' where s: "run_state (sweep_account tk e excluded quar now_ms k b acc) w = (acc', w')" by fastforce
  show ?case
  proof (cases "a = b")
    case True
    have "account_uuid a \<in> ob_account_uuid ` set (so_observations (fst acc'))"
      using sweep_account_observes [OF Cons.prems(2), of k e quar now_ms acc w] Cons.prems(3) True by (simp add: s)
    then show ?thesis
      using image_mono [OF sweep_loop_keeps [of acc' tk e excluded quar now_ms "Suc k" as w'], of ob_account_uuid]
      by (simp add: s subset_iff)
  next
    case False
    then show ?thesis using Cons.IH [of "Suc k" acc' w'] Cons.prems by (simp add: s)
  qed
qed simp

text \<open>The exclusions name at most two accounts.\<close>

lemma refresh_exclusions_length: "length (refresh_exclusions c d) \<le> MAX_SWEEP_EXCLUSIONS"
  by (simp add: refresh_exclusions_def MAX_SWEEP_EXCLUSIONS_def split: option.splits)

lemma observable_eligible:
  assumes "mechanism_is_observable roster config" "distinct (map account_uuid roster)"
    and "length excluded \<le> MAX_SWEEP_EXCLUSIONS"
  shows "\<exists>a \<in> set roster. sweepable config a \<and> account_uuid a \<notin> set excluded"
proof (rule ccontr)
  assume "\<not> ?thesis"
  then have sub: "set (map account_uuid (filter (sweepable config) roster)) \<subseteq> set excluded" by auto
  have "distinct (map account_uuid (filter (sweepable config) roster))"
    using assms(2) by (auto simp: distinct_map inj_on_def)
  then have "length (filter (sweepable config) roster) = card (set (map account_uuid (filter (sweepable config) roster)))"
    using distinct_card by fastforce
  also have "\<dots> \<le> card (set excluded)" using sub by (rule card_mono [rotated]) simp
  also have "\<dots> \<le> length excluded" by (rule card_length)
  finally show False using assms(1,3) by (simp add: mechanism_is_observable_def)
qed

text \<open>
  A refresh mechanism that is declared observable is observed: whichever accounts the daemon excludes
  (the active one and the next swap target), a sweep of a ticker with no pending back-off sees at least
  one account and puts the next sweep a full cadence away.
\<close>

theorem observable_mechanism_observed:
  assumes "mechanism_is_observable (c_roster c) (tk_config tk)" "tk_roster tk = c_roster c" "tk_enabled tk"
    and "distinct (map account_uuid (c_roster c))" "tk_backoff tk = replicate (length (c_roster c)) None"
  shows "case res (sweep e (refresh_exclusions c d) quar now_ms tk) w of (so, tk') \<Rightarrow>
    so_observations so \<noteq> [] \<and>
    (\<exists>done_at. tk_last_refresh tk' = Some done_at \<and>
       fst (until_due done_at False tk') = Some (max (from_secs (r_idle_after_secs (tk_config tk)))
          (from_secs (r_cadence_secs (tk_config tk)))))"
proof -
  obtain so ups w' where r: "run_state (run_sweep tk e (refresh_exclusions c d) quar now_ms) w = ((so, ups), w')"
    by (metis prod.exhaust)
  obtain a where "a \<in> set (c_roster c)" "eligible tk (refresh_exclusions c d) a"
    using observable_eligible [OF assms(1,4) refresh_exclusions_length] unfolding eligible_def by blast
  then have "account_uuid a \<in> ob_account_uuid ` set (so_observations so)"
    using sweep_loop_observes [of a "tk_roster tk" tk "refresh_exclusions c d" 0 e quar now_ms "(sweep_outcome_default, [])" w]
      assms(2,5) r by (simp add: run_sweep_def)
  then have "so_observations so \<noteq> []" by auto
  then show ?thesis
    using assms(3) by (simp add: sweep_def r until_due_def delay_until_due_def since_def Let_def)
qed

theorem observable_mechanism_observed_witness:
  "so_observations (fst (res (sweep sample_sweep_env (refresh_exclusions
      (sample_cfg\<lparr>c_roster := tk_roster sample_ticker\<rparr>) sample_daemon) [] 0 sample_ticker) ())) \<noteq> []"
  using observable_mechanism_observed [where c = "sample_cfg\<lparr>c_roster := tk_roster sample_ticker\<rparr>" and
      tk = sample_ticker and e = sample_sweep_env and d = sample_daemon and quar = "[]" and now_ms = 0 and w = "()"]
  by (simp add: sample_ticker_def ticker_new_def mechanism_is_observable_def sweepable_def refresh_config_default_def
      MAX_SWEEP_EXCLUSIONS_def split: prod.splits)

end
