(* ===== verification/Run_Loop.thy ===== *)
theory Run_Loop
  imports Daemon_Commands Refresh_Tick
begin

text \<open>
  The run loop of the daemon (\<open>src/daemon/run_loop.rs\<close>): boot, then rounds of one tick, the idle wait for
  the next one, and the handling of what ended the wait. The idle wait is a \<open>select!\<close> loop; here it is fed
  with one \<open>poll_input\<close> per poll of its arms, which says what time and the other processes did in between,
  whether shutdown is requested and what a control client sent. The timers of the arms are deadlines.

  The roster is a field of \<open>cfg\<close>, so a round returns the configuration it ends with.
\<close>

section \<open>Reports\<close>

definition label_at :: "status_snapshot \<Rightarrow> nat \<Rightarrow> string" where
  "label_at snap index = (if index < length (ss_accounts snap) then ar_label (ss_accounts snap ! index) else ''?'')"

definition swap_report_line :: "tick_outcome \<Rightarrow> string option" where
  "swap_report_line outcome =
     (let name = label_at (to_snapshot outcome) in
      case to_action outcome of
        Swapped from_index to_index \<Rightarrow> Some (''swapped off '' @ name from_index @ '' onto '' @ name to_index)
      | EmergencySwapped from_index to_index \<Rightarrow>
          Some (''emergency-swapped off '' @ name from_index @ '' onto '' @ name to_index @ '' (dead credential)'')
      | CanonicalAdopted to_index \<Rightarrow>
          Some (''recovered scrubbed canonical onto '' @ name to_index @ '' (was Not-logged-in)'')
      | _ \<Rightarrow> None)"

text \<open>The dash in its UTF-8 bytes.\<close>

definition EM_DASH :: string where "EM_DASH = [CHR 0xE2, CHR 0x80, CHR 0x94]"

definition unrecoverable_report :: "string \<Rightarrow> string" where
  "unrecoverable_report lbl =
     ''account '' @ lbl @ '' needs re-login '' @ EM_DASH @ '' its refresh token is dead; run: claude /login''"

text \<open>What a round writes: a line to the standard error, an acknowledgement to a waiting client.\<close>

datatype loop_output =
    LO_Report string
  | LO_SwapAck swap_ack
  | LO_CaptureAck capture_ack
  | LO_ConfigSetAck config_set_ack

section \<open>The idle wait\<close>

datatype idle =
    Idle_Shutdown
  | Idle_Elapsed
  | Idle_ManualSwapped
  | Idle_RosterReload reload_intent
  | Idle_Restored string
  | Idle_Swap swap_command
  | Idle_Capture capture_command
  | Idle_ConfigSet config_set_command
  | Idle_ExternalLogin

text \<open>
  The collaborators beyond \<open>env\<close>: the sweep, its wall clock, the read of the login watch, and the two
  parsers of the control protocol.
\<close>

record 'w seams =
  sm_sweep :: "'w sweep_env"
  sm_now_ms :: "'w \<Rightarrow> int"
  sm_read_canonical :: "('w, credential option) state"
  sm_parse :: "string \<Rightarrow> string + control_request"
  sm_parse_set :: "string \<Rightarrow> string + config_set_command"

definition EXTERNAL_LOGIN_WATCH_SECS :: nat where "EXTERNAL_LOGIN_WATCH_SECS = 15"

text \<open>What is computed before the wait and fixed during it.\<close>

record idle_plan =
  ip_snapshot :: status_snapshot
  ip_next_wait :: "duration option"
  ip_excluded :: "string list"
  ip_quarantined :: "string list"
  ip_recovery_pending :: bool
  ip_baseline :: "credential option"

definition idle_plan_of :: "cfg \<Rightarrow> ticker \<Rightarrow> tick_outcome \<Rightarrow> daemon \<Rightarrow> idle_plan" where
  "idle_plan_of c tk outcome d =
     (let excluded = refresh_exclusions c d; quar = refresh_quarantined c d in
      \<lparr>ip_snapshot = to_snapshot outcome, ip_next_wait = to_next_wait outcome, ip_excluded = excluded,
       ip_quarantined = quar, ip_recovery_pending = recovery_pending tk excluded quar,
       ip_baseline = watch_baseline (d_canonical_watch d)\<rparr>)"

text \<open>
  What the wait has collected, and its timers: the deadline of the tick once that arm was polled, and the
  deadlines of the sweep (never, where refresh is disabled) and of the login watch in this iteration.
\<close>

record idle_state =
  is_prompted :: bool
  is_wait :: "instant option"
  is_refresh_due :: "instant option option"
  is_login_due :: "instant option"
  is_restored :: "string list"
  is_observations :: "refresh_observation list"
  is_healths :: "sweep_health list"

definition idle_start :: idle_state where
  "idle_start = \<lparr>is_prompted = False, is_wait = None, is_refresh_due = None, is_login_due = None,
     is_restored = [], is_observations = [], is_healths = []\<rparr>"

text \<open>The next iteration of \<open>select!\<close>: the arms are made anew, except the pinned wait.\<close>

definition next_iteration :: "idle_state \<Rightarrow> idle_state" where
  "next_iteration ist = ist\<lparr>is_refresh_due := None, is_login_due := None\<rparr>"

datatype exchange = EX_Failed | EX_Request string bool

record 'w poll_input =
  pi_pass :: "'w \<Rightarrow> 'w"
  pi_shutdown :: bool
  pi_control :: "exchange option"
  pi_cut :: "('w \<Rightarrow> 'w) option"

definition yield_of_exchange :: "'w seams \<Rightarrow> status_snapshot \<Rightarrow> exchange \<Rightarrow> control_yield" where
  "yield_of_exchange sm snap x =
     control_yield_of (case x of
        EX_Failed \<Rightarrow> None
      | EX_Request sent peer_authenticated \<Rightarrow>
          Some (snd (serve_control (sm_parse sm) (sm_parse_set sm) sent snap peer_authenticated)))"

definition idle_of_yield :: "control_yield \<Rightarrow> idle option" where
  "idle_of_yield yielded =
     (case yielded of
        CY_Signal (Some Sig_ManualSwapped) \<Rightarrow> Some Idle_ManualSwapped
      | CY_Signal (Some (Sig_RosterReload intent)) \<Rightarrow> Some (Idle_RosterReload intent)
      | CY_Signal (Some (Sig_Restored uuid)) \<Rightarrow> Some (Idle_Restored uuid)
      | CY_Signal (Some Sig_Shutdown) \<Rightarrow> Some Idle_Shutdown
      | CY_Swap command \<Rightarrow> Some (Idle_Swap command)
      | CY_Capture command \<Rightarrow> Some (Idle_Capture command)
      | CY_ConfigSet command \<Rightarrow> Some (Idle_ConfigSet command)
      | CY_Signal None \<Rightarrow> None)"

text \<open>The result of one poll: what ended the wait, if it ended, and the ticker and timers after it.\<close>

type_synonym polled_idle = "idle option \<times> ticker \<times> idle_state"

text \<open>The sweep, unless shutdown is requested while it runs.\<close>

definition sweep_arm ::
  "'w seams \<Rightarrow> idle_plan \<Rightarrow> ('w \<Rightarrow> 'w) option \<Rightarrow> ticker \<Rightarrow> idle_state \<Rightarrow> ('w ctx, polled_idle) state" where
  "sweep_arm sm ip cut_off tk ist =
     (case cut_off of
        Some f \<Rightarrow> do { smod (cx_w_update f); State_Monad.return (Some Idle_Shutdown, tk, ist) }
      | None \<Rightarrow> do {
          now_ms \<leftarrow> asks (sm_now_ms sm);
          (so, tk') \<leftarrow> in_world (sweep (sm_sweep sm) (ip_excluded ip) (ip_quarantined ip) now_ms tk);
          emits (so_events so);
          State_Monad.return (None, tk', next_iteration (ist\<lparr>is_prompted := True,
            is_healths := is_healths ist @ [classify_sweep (List.map_filter ob_refresh (so_observations so))],
            is_restored := is_restored ist @ so_restored so,
            is_observations := is_observations ist @ so_observations so\<rparr>)) })"

definition login_arm :: "'w seams \<Rightarrow> idle_plan \<Rightarrow> ticker \<Rightarrow> idle_state \<Rightarrow> ('w ctx, polled_idle) state" where
  "login_arm sm ip tk ist = do {
     read \<leftarrow> in_world (sm_read_canonical sm);
     State_Monad.return
       (case (read, ip_baseline ip) of
          (Some current, Some base) \<Rightarrow>
            if \<not> credential_matches base current then (Some Idle_ExternalLogin, tk, ist)
            else (None, tk, next_iteration ist)
        | _ \<Rightarrow> (None, tk, next_iteration ist)) }"

text \<open>\<open>wait_after_tick\<close>; the interval is drawn when the arm is first polled.\<close>

definition wait_arm :: "cfg \<Rightarrow> 'w env \<Rightarrow> idle_plan \<Rightarrow> ticker \<Rightarrow> idle_state \<Rightarrow> instant \<Rightarrow> ('w ctx, polled_idle) state" where
  "wait_arm c e ip tk ist now = do {
     deadline \<leftarrow> (case is_wait ist of
          Some deadline \<Rightarrow> State_Monad.return deadline
        | None \<Rightarrow> do {
            interval \<leftarrow> (case ip_next_wait ip of
                Some backoff \<Rightarrow> State_Monad.return backoff
              | None \<Rightarrow> sync_val (\<lambda>d. no_events (next_subinterval (env_libm e) c d)));
            State_Monad.return (now + interval) });
     State_Monad.return (if now \<ge> deadline then Some Idle_Elapsed else None, tk, ist\<lparr>is_wait := Some deadline\<rparr>) }"

text \<open>\<open>until_due\<close> of the refresh arm, called when the arm is first polled in an iteration.\<close>

definition arm_refresh :: "instant \<Rightarrow> idle_plan \<Rightarrow> ticker \<Rightarrow> idle_state \<Rightarrow> instant option \<times> ticker" where
  "arm_refresh now ip tk ist =
     (case is_refresh_due ist of
        Some due \<Rightarrow> (due, tk)
      | None \<Rightarrow> (case until_due now (ip_recovery_pending ip \<and> \<not> is_prompted ist) tk of
            (delay, tk1) \<Rightarrow> (map_option (\<lambda>d. now + d) delay, tk1)))"

text \<open>The timer arms, in their order, when neither shutdown nor a client is there.\<close>

definition poll_timers ::
  "cfg \<Rightarrow> 'w env \<Rightarrow> 'w seams \<Rightarrow> idle_plan \<Rightarrow> ('w \<Rightarrow> 'w) option \<Rightarrow> ticker \<Rightarrow> idle_state \<Rightarrow> ('w ctx, polled_idle) state" where
  "poll_timers c e sm ip cut_off tk ist = do {
     sweep_now \<leftarrow> asks (sw_now (sm_sweep sm));
     now \<leftarrow> asks (clock_now (env_io e));
     let (refresh_due, tk1) = arm_refresh sweep_now ip tk ist;
     let ist1 = ist\<lparr>is_refresh_due := Some refresh_due\<rparr>;
     if (case refresh_due of Some due \<Rightarrow> sweep_now \<ge> due | None \<Rightarrow> False) then sweep_arm sm ip cut_off tk1 ist1
     else do {
       let login_due = (case is_login_due ist1 of Some due \<Rightarrow> due | None \<Rightarrow> now + from_secs EXTERNAL_LOGIN_WATCH_SECS);
       let ist2 = ist1\<lparr>is_login_due := Some login_due\<rparr>;
       if now \<ge> login_due then login_arm sm ip tk1 ist2
       else wait_arm c e ip tk1 ist2 now } }"

definition poll_idle ::
  "cfg \<Rightarrow> 'w env \<Rightarrow> 'w seams \<Rightarrow> idle_plan \<Rightarrow> 'w poll_input \<Rightarrow> ticker \<Rightarrow> idle_state \<Rightarrow> ('w ctx, polled_idle) state" where
  "poll_idle c e sm ip inp tk ist = do {
     smod (cx_w_update (pi_pass inp));
     if pi_shutdown inp then State_Monad.return (Some Idle_Shutdown, tk, ist)
     else (case pi_control inp of
        Some x \<Rightarrow> (case idle_of_yield (yield_of_exchange sm (ip_snapshot ip) x) of
            Some idle \<Rightarrow> State_Monad.return (Some idle, tk, ist)
          | None \<Rightarrow> State_Monad.return (None, tk, next_iteration ist))
      | None \<Rightarrow> poll_timers c e sm ip (pi_cut inp) tk ist) }"

fun idle_polls ::
  "cfg \<Rightarrow> 'w env \<Rightarrow> 'w seams \<Rightarrow> idle_plan \<Rightarrow> 'w poll_input list \<Rightarrow> ticker \<Rightarrow> idle_state \<Rightarrow> ('w ctx, polled_idle) state" where
  "idle_polls c e sm ip [] tk ist = State_Monad.return (None, tk, ist)"
| "idle_polls c e sm ip (inp # inputs) tk ist = do {
     (woken, tk1, ist1) \<leftarrow> poll_idle c e sm ip inp tk ist;
     (case woken of
        Some idle \<Rightarrow> State_Monad.return (Some idle, tk1, ist1)
      | None \<Rightarrow> idle_polls c e sm ip inputs tk1 ist1) }"

definition idle_until_next_tick ::
  "cfg \<Rightarrow> 'w env \<Rightarrow> 'w seams \<Rightarrow> tick_outcome \<Rightarrow> 'w poll_input list \<Rightarrow> ticker \<Rightarrow> ('w ctx, polled_idle) state" where
  "idle_until_next_tick c e sm outcome inputs tk = do {
     ip \<leftarrow> getd (idle_plan_of c tk outcome);
     idle_polls c e sm ip inputs tk idle_start }"

section \<open>After the wait\<close>

fun restore_all :: "cfg \<Rightarrow> string list \<Rightarrow> ('w ctx, unit) state" where
  "restore_all c [] = State_Monad.return ()"
| "restore_all c (uuid # uuids) = do { sync (apply_refresh_restore c uuid); restore_all c uuids }"

text \<open>The accounts a list of events reports as unrecoverable.\<close>

definition unrecoverable_labels :: "event list \<Rightarrow> string list" where
  "unrecoverable_labels es =
     List.map_filter (\<lambda>ev. case ev of Ev_CredentialUnrecoverable account \<Rightarrow> Some account | _ \<Rightarrow> None) es"

fun observe_all :: "cfg \<Rightarrow> refresh_observation list \<Rightarrow> ('w ctx, string list) state" where
  "observe_all c [] = State_Monad.return []"
| "observe_all c (ob # obs) = do {
     es \<leftarrow> sync_val (\<lambda>d. case apply_refresh_observation c ob d of (d', es) \<Rightarrow> (es, d', es));
     labels \<leftarrow> observe_all c obs;
     State_Monad.return (unrecoverable_labels es @ labels) }"

fun systemic_all :: "cfg \<Rightarrow> sweep_health list \<Rightarrow> ('w ctx, unit) state" where
  "systemic_all c [] = State_Monad.return ()"
| "systemic_all c (h # hs) = do { sync (note_systemic_refresh c h); systemic_all c hs }"

definition apply_post_idle :: "cfg \<Rightarrow> 'w env \<Rightarrow> idle_state \<Rightarrow> ('w ctx, string list) state" where
  "apply_post_idle c e ist = do {
     restore_all c (is_restored ist);
     unrecoverable \<leftarrow> observe_all c (is_observations ist);
     now_secs \<leftarrow> asks (env_wall_secs e);
     sync (note_health_transitions c now_secs);
     systemic_all c (is_healths ist);
     State_Monad.return unrecoverable }"

text \<open>The arms of the match on what ended the wait; \<open>None\<close> ends the loop.\<close>

definition handle_idle :: "cfg \<Rightarrow> 'w shell \<Rightarrow> idle \<Rightarrow> ('w ctx, (cfg \<times> loop_output list) option) state" where
  "handle_idle c sh idle =
     (let e = sh_env sh; stay = State_Monad.return (Some (c, [])) in
      case idle of
        Idle_Shutdown \<Rightarrow> State_Monad.return None
      | Idle_ManualSwapped \<Rightarrow> do {
          adopt_manual_swap c e;
          reprobe_active_if_dead c e;
          stay }
      | Idle_RosterReload intent \<Rightarrow> do {
          (ev, c') \<leftarrow> adopt_roster_reload c sh intent;
          emits [ev];
          State_Monad.return (Some (c', [])) }
      | Idle_Restored uuid \<Rightarrow> do { reconcile_restored c e uuid; stay }
      | Idle_Swap command \<Rightarrow> do {
          ack \<leftarrow> perform_socket_swap c e command;
          reprobe_active_if_dead c e;
          State_Monad.return (Some (c, [LO_SwapAck ack])) }
      | Idle_Capture command \<Rightarrow> do {
          (ack, ev, c') \<leftarrow> perform_socket_capture c sh command;
          emits [ev];
          State_Monad.return (Some (c', [LO_CaptureAck ack])) }
      | Idle_ConfigSet command \<Rightarrow> do {
          (ack, c') \<leftarrow> perform_config_set c sh command;
          State_Monad.return (Some (c', [LO_ConfigSetAck ack])) }
      | Idle_ExternalLogin \<Rightarrow> stay
      | Idle_Elapsed \<Rightarrow> stay)"

section \<open>The loop\<close>

datatype loop_status = LS_Returned | LS_Idling

definition tick_outputs :: "tick_outcome \<Rightarrow> loop_output list" where
  "tick_outputs outcome = (case swap_report_line outcome of Some line \<Rightarrow> [LO_Report line] | None \<Rightarrow> [])"

text \<open>
  The rounds, one list of inputs for each. The loop is still idling where the inputs of a round end before
  its wait does, or where no further round is given.
\<close>

fun loop_rounds ::
  "cfg \<Rightarrow> 'w shell \<Rightarrow> 'w seams \<Rightarrow> 'w poll_input list list \<Rightarrow> ticker \<Rightarrow> ('w ctx, loop_status \<times> cfg \<times> loop_output list) state" where
  "loop_rounds c sh sm [] tk = State_Monad.return (LS_Idling, c, [])"
| "loop_rounds c sh sm (inputs # rounds) tk = do {
     outcome \<leftarrow> tick c (sh_env sh);
     (woken, tk', ist) \<leftarrow> idle_until_next_tick c (sh_env sh) sm outcome inputs tk;
     (case woken of
        None \<Rightarrow> State_Monad.return (LS_Idling, c, tick_outputs outcome)
      | Some idle \<Rightarrow> do {
          unrecoverable \<leftarrow> apply_post_idle c (sh_env sh) ist;
          handled \<leftarrow> handle_idle c sh idle;
          let out = tick_outputs outcome @ map (\<lambda>l. LO_Report (unrecoverable_report l)) unrecoverable;
          (case handled of
             None \<Rightarrow> State_Monad.return (LS_Returned, c, out)
           | Some (c', written) \<Rightarrow> do {
               (status, c'', later) \<leftarrow> loop_rounds c' sh sm rounds tk';
               State_Monad.return (status, c'', out @ written @ later) }) }) }"

text \<open>\<open>run_loop\<close>: the boot, whose failures are only reported, then the rounds.\<close>

definition boot :: "cfg \<Rightarrow> 'w env \<Rightarrow> bool \<Rightarrow> ('w \<Rightarrow> 'w) \<Rightarrow> ('w ctx, bool) state" where
  "boot c e shutdown delay_passes = do {
     _ \<leftarrow> in_world (reconcile_on_start c e);
     _ \<leftarrow> refresh_canary c e;
     _ \<leftarrow> sync_val (\<lambda>d. no_events (startup_delay (env_libm e) d));
     if shutdown then State_Monad.return False
     else do { smod (cx_w_update delay_passes); State_Monad.return True } }"

definition run_loop ::
  "cfg \<Rightarrow> 'w shell \<Rightarrow> 'w seams \<Rightarrow> bool \<Rightarrow> ('w \<Rightarrow> 'w) \<Rightarrow> 'w poll_input list list \<Rightarrow> ticker \<Rightarrow>
   ('w ctx, loop_status \<times> cfg \<times> loop_output list) state" where
  "run_loop c sh sm shutdown delay_passes rounds tk = do {
     go \<leftarrow> boot c (sh_env sh) shutdown delay_passes;
     if go then loop_rounds c sh sm rounds tk else State_Monad.return (LS_Returned, c, []) }"

section \<open>What a round keeps\<close>

text \<open>The invariant on indices alone; the alarm part of \<open>keeps_alarm\<close> is not needed where the roster changes.\<close>

definition keeps_wf :: "cfg \<Rightarrow> ('w ctx, 'a) state \<Rightarrow> bool" where
  "keeps_wf c m \<longleftrightarrow> (\<forall>s. wf c (cx_d s) \<longrightarrow> wf c (cx_d (exec m s)))"

lemma kw_alarm: "keeps_alarm c A_Fleet m \<Longrightarrow> keeps_wf c m"
  by (auto simp: keeps_wf_def holds_alarm_def settled_def)

lemma kw_bind: "keeps_wf c m \<Longrightarrow> (\<And>x. keeps_wf c (f x)) \<Longrightarrow> keeps_wf c (State_Monad.bind m f)"
  by (simp add: keeps_wf_def split_beta)

lemma kw_simple:
  "keeps_wf c (State_Monad.return x)" "keeps_wf c (in_world m)" "keeps_wf c (asks f)" "keeps_wf c (getd g)"
  "keeps_wf c (emits es)" "keeps_wf c (smod (cx_w_update h))"
  by (simp_all add: keeps_wf_def)

lemma kw_if: "keeps_wf c m \<Longrightarrow> keeps_wf c n \<Longrightarrow> keeps_wf c (if b then m else n)"
  by simp

lemma kw_option: "keeps_wf c m \<Longrightarrow> (\<And>y. keeps_wf c (f y)) \<Longrightarrow> keeps_wf c (case x of None \<Rightarrow> m | Some y \<Rightarrow> f y)"
  by (cases x) auto

lemma kw_prod: "(\<And>y z. keeps_wf c (f y z)) \<Longrightarrow> keeps_wf c (case x of (y, z) \<Rightarrow> f y z)"
  by (cases x) auto

lemma kw_let: "(\<And>y. keeps_wf c (f y)) \<Longrightarrow> keeps_wf c (let y = x in f y)"
  by simp

lemmas kw_rules = kw_bind kw_simple kw_if kw_option kw_prod kw_let

lemma fleet_ok: "alarm_ok c A_Fleet"
  by (simp add: alarm_ok_def)

lemmas kw_steps =
  kw_alarm [OF ka_tick [OF fleet_ok]] kw_alarm [OF ka_manual_swap] kw_alarm [OF ka_reprobe [OF fleet_ok]]
  kw_alarm [OF ka_restored [OF fleet_ok]] kw_alarm [OF ka_perform_swap]
  kw_alarm [OF ha_sync [OF st_apply_restore [OF fleet_ok]]] kw_alarm [OF ha_sync [OF st_observation]]
  kw_alarm [OF ha_sync [OF st_health]] kw_alarm [OF ha_sync [OF st_systemic]]

lemma kw_draw: "keeps_wf c (sync_val (\<lambda>d. no_events (next_subinterval m c d)))" "keeps_wf c (sync_val (\<lambda>d. no_events (startup_delay m d)))"
  by (simp_all add: keeps_wf_def wf_def no_events_def next_subinterval_def next_poll_interval_def startup_delay_def
      draw_on_def Let_def split_beta)

lemma kw_poll_idle: "keeps_wf c (poll_idle c e sm ip inp tk ist)"
  unfolding poll_idle_def poll_timers_def sweep_arm_def login_arm_def wait_arm_def
  by (intro kw_rules kw_draw)

lemma kw_idle_polls: "keeps_wf c (idle_polls c e sm ip inputs tk ist)"
  by (induction inputs arbitrary: tk ist) (auto intro!: kw_rules kw_poll_idle)

lemma kw_idle_until: "keeps_wf c (idle_until_next_tick c e sm outcome inputs tk)"
  unfolding idle_until_next_tick_def by (intro kw_rules kw_idle_polls)

lemma kw_post_idle: "keeps_wf c (apply_post_idle c e ist)"
proof -
  have "keeps_wf c (restore_all c uuids)" for uuids
    by (induction uuids) (auto intro!: kw_rules kw_steps)
  moreover have "keeps_wf c (sync_val (\<lambda>d. case apply_refresh_observation c ob d of (d', es) \<Rightarrow> (es, d', es)))" for ob
    using st_observation [of c A_Fleet _ ob] by (auto simp: keeps_wf_def settled_def split_beta)
  then have "keeps_wf c (observe_all c obs)" for obs
    by (induction obs) (auto intro!: kw_rules)
  moreover have "keeps_wf c (systemic_all c hs)" for hs
    by (induction hs) (auto intro!: kw_rules kw_steps)
  ultimately show ?thesis unfolding apply_post_idle_def by (intro kw_rules kw_steps)
qed

text \<open>How the configuration may change: only its roster, which shrinks only under a mutating reload.\<close>

definition reloaded :: "bool \<Rightarrow> cfg \<Rightarrow> cfg \<Rightarrow> bool" where
  "reloaded grows c c' \<longleftrightarrow> c'\<lparr>c_roster := c_roster c\<rparr> = c \<and> (grows \<longrightarrow> length (c_roster c) \<le> length (c_roster c'))"

lemma reloaded_refl [simp]: "reloaded g c c"
  by (simp add: reloaded_def)

lemma reloaded_trans: "reloaded g c c1 \<Longrightarrow> reloaded g c1 c2 \<Longrightarrow> reloaded g c c2"
proof -
  assume "reloaded g c c1" "reloaded g c1 c2"
  then have one: "c1\<lparr>c_roster := c_roster c\<rparr> = c" and two: "c2\<lparr>c_roster := c_roster c1\<rparr> = c1"
    and len: "g \<longrightarrow> length (c_roster c) \<le> length (c_roster c2)" by (auto simp: reloaded_def)
  have "c2\<lparr>c_roster := c_roster c\<rparr> = c2\<lparr>c_roster := c_roster c1\<rparr>\<lparr>c_roster := c_roster c\<rparr>" by simp
  then show ?thesis using one two len by (simp add: reloaded_def)
qed

lemma reconcile_reloaded:
  "reconcile_roster c new intent d = (outcome, c', d') \<Longrightarrow> reloaded (intent = RI_AppendOnly) c c'"
  by (auto simp: reconcile_roster_def reloaded_def Let_def split: if_splits)

text \<open>A handled wake leaves a well-formed daemon under the configuration it returns.\<close>

definition hands_over :: "bool \<Rightarrow> cfg \<Rightarrow> ('a \<Rightarrow> cfg) \<Rightarrow> ('w ctx, 'a) state \<Rightarrow> bool" where
  "hands_over g c cfg_of m \<longleftrightarrow> (\<forall>s. reloaded g c (cfg_of (res m s)) \<and> (wf c (cx_d s) \<longrightarrow> wf (cfg_of (res m s)) (cx_d (exec m s))))"

lemma ho_after: "keeps_wf c m \<Longrightarrow> (\<And>x. hands_over g c p (f x)) \<Longrightarrow> hands_over g c p (State_Monad.bind m f)"
  by (auto simp: hands_over_def keeps_wf_def split_beta)

lemma ho_before:
  "hands_over g c q m \<Longrightarrow> (\<And>x s. p (res (f x) s) = q x \<and> cx_d (exec (f x) s) = cx_d s) \<Longrightarrow> hands_over g c p (State_Monad.bind m f)"
  by (auto simp: hands_over_def split_beta)

lemma ho_return: "p x = c \<Longrightarrow> hands_over g c p (State_Monad.return x)"
  by (simp add: hands_over_def)

lemma ho_reconcile: "(g \<Longrightarrow> intent = RI_AppendOnly) \<Longrightarrow> hands_over g c snd (reconcile c new intent)"
proof -
  assume g: "g \<Longrightarrow> intent = RI_AppendOnly"
  have "reloaded g c c' \<and> (wf c d \<longrightarrow> wf c' d')" if "reconcile_roster c new intent d = (outcome, c', d')" for outcome c' d d'
    using reconcile_reloaded [OF that] reconcile_wf [OF that] g by (auto simp: reloaded_def)
  then show ?thesis
    by (auto simp: hands_over_def reconcile_run split: prod.split)
qed

lemma ho_reload: "(g \<Longrightarrow> intent = RI_AppendOnly) \<Longrightarrow> hands_over g c snd (adopt_roster_reload c sh intent)"
  unfolding adopt_roster_reload_def Let_def
  by (auto split: option.split sum.split reconcile_outcome.split
      intro!: ho_after kw_simple ho_return ho_before [OF ho_reconcile])

lemma ho_capture: "hands_over g c (snd \<circ> snd) (perform_socket_capture c sh command)"
  unfolding perform_socket_capture_def Let_def capture_failure_def
  by (auto split: option.split sum.split capture_outcome.split
      intro!: ho_after kw_simple ho_return ho_before [OF ho_reconcile])

lemma ho_config_set: "hands_over g c snd (perform_config_set c sh command)"
  unfolding perform_config_set_def
  by (auto split: option.split sum.split fs_error.split prod.split
      intro!: ho_after kw_simple ho_return ho_before [OF ho_reconcile])

abbreviation cfg_after :: "cfg \<Rightarrow> (cfg \<times> loop_output list) option \<Rightarrow> cfg" where
  "cfg_after c handled \<equiv> (case handled of None \<Rightarrow> c | Some (c', _) \<Rightarrow> c')"

lemma ho_handle:
  assumes "g \<Longrightarrow> idle \<noteq> Idle_RosterReload RI_Mutating"
  shows "hands_over g c (cfg_after c) (handle_idle c sh idle)"
proof (cases idle)
  case (Idle_RosterReload intent)
  then have "g \<Longrightarrow> intent = RI_AppendOnly" using assms by (cases intent) auto
  then show ?thesis unfolding handle_idle_def Idle_RosterReload
    by (auto simp: Let_def intro!: ho_before [OF ho_reload])
next
  case (Idle_Capture command)
  then show ?thesis unfolding handle_idle_def
    by (auto simp: Let_def intro!: ho_before [OF ho_capture])
next
  case (Idle_ConfigSet command)
  then show ?thesis unfolding handle_idle_def
    by (auto simp: Let_def intro!: ho_before [OF ho_config_set])
qed (auto simp: handle_idle_def Let_def intro!: ho_after kw_steps kw_simple ho_return)

text \<open>A wake for a mutating reload comes from such a request of an own peer.\<close>

definition mutating_request :: "'w seams \<Rightarrow> 'w poll_input \<Rightarrow> bool" where
  "mutating_request sm inp \<longleftrightarrow> (\<exists>sent rq. pi_control inp = Some (EX_Request sent True) \<and>
     sm_parse sm (trim_end (read_control_line sent)) = Inr rq \<and> rq_cmd rq = ''roster-reload'' \<and>
     rq_intent rq = Some ''mutating'')"

lemma idle_of_yield_reload: "idle_of_yield y = Some (Idle_RosterReload i) \<longleftrightarrow> y = CY_Signal (Some (Sig_RosterReload i))"
  by (auto simp: idle_of_yield_def split: control_yield.split option.split control_signal.split)

lemma timers_wake: "res (poll_timers c e sm ip cut_off tk ist) s = (Some idle, r) \<Longrightarrow> idle \<in> {Idle_Shutdown, Idle_ExternalLogin, Idle_Elapsed}"
  by (auto simp: poll_timers_def sweep_arm_def login_arm_def wait_arm_def Let_def split_beta
      split: if_splits option.splits)

lemma poll_wake_mutating:
  assumes "res (poll_idle c e sm ip inp tk ist) s = (Some (Idle_RosterReload RI_Mutating), r)"
  shows "mutating_request sm inp"
proof (cases "pi_control inp")
  case None
  then show ?thesis using assms by (auto simp: poll_idle_def split: if_splits dest: timers_wake)
next
  case (Some x)
  then have y: "yield_of_exchange sm (ip_snapshot ip) x = CY_Signal (Some (Sig_RosterReload RI_Mutating))"
    using assms by (auto simp: poll_idle_def idle_of_yield_reload split: if_splits option.splits)
  show ?thesis
  proof (cases x)
    case EX_Failed
    then show ?thesis using y by (simp add: yield_of_exchange_def control_yield_of_def)
  next
    case (EX_Request sent auth)
    then show ?thesis using y Some reload_yield [of "sm_parse sm" "sm_parse_set sm" sent "ip_snapshot ip" RI_Mutating]
        foreign_yield [of "sm_parse sm" "sm_parse_set sm" sent "ip_snapshot ip"]
      by (cases auth) (auto simp: yield_of_exchange_def mutating_request_def)
  qed
qed

lemma polls_wake_mutating:
  "res (idle_polls c e sm ip inputs tk ist) s = (Some (Idle_RosterReload RI_Mutating), r) \<Longrightarrow>
   \<exists>inp \<in> set inputs. mutating_request sm inp"
proof (induction inputs arbitrary: tk ist s)
  case (Cons inp inputs)
  obtain woken tk1 ist1 s1 where p: "run_state (poll_idle c e sm ip inp tk ist) s = ((woken, tk1, ist1), s1)"
    by (metis surj_pair)
  show ?case
  proof (cases woken)
    case None
    then have "res (idle_polls c e sm ip inputs tk1 ist1) s1 = (Some (Idle_RosterReload RI_Mutating), r)"
      using Cons.prems p by simp
    from Cons.IH [OF this] show ?thesis by auto
  next
    case (Some idle)
    then show ?thesis using Cons.prems p poll_wake_mutating [of c e sm ip inp tk ist s "(tk1, ist1)"] by auto
  qed
qed simp

lemma rounds_keep:
  assumes "wf c (cx_d s)" "g \<Longrightarrow> \<forall>inputs \<in> set rounds. \<forall>inp \<in> set inputs. \<not> mutating_request sm inp"
    and "run_state (loop_rounds c sh sm rounds tk) s = ((status, c', out), s')"
  shows "wf c' (cx_d s') \<and> reloaded g c c'"
  using assms
proof (induction rounds arbitrary: c s tk out)
  case (Cons inputs rounds)
  obtain outcome s1 where t: "run_state (tick c (sh_env sh)) s = (outcome, s1)" by fastforce
  obtain woken tk1 ist s2 where p: "run_state (idle_until_next_tick c (sh_env sh) sm outcome inputs tk) s1 = ((woken, tk1, ist), s2)"
    by (metis surj_pair)
  have s2: "wf c (cx_d s2)"
    using Cons.prems(1) kw_steps(1) [of c "sh_env sh"] kw_idle_until [of c "sh_env sh" sm outcome inputs tk] t p
    by (metis keeps_wf_def snd_conv)
  show ?case
  proof (cases woken)
    case None
    then show ?thesis using Cons.prems(3) s2 by (simp add: t p)
  next
    case (Some idle)
    obtain labels s3 where post: "run_state (apply_post_idle c (sh_env sh) ist) s2 = (labels, s3)" by fastforce
    obtain handled s4 where h: "run_state (handle_idle c sh idle) s3 = (handled, s4)" by fastforce
    have s3: "wf c (cx_d s3)" using s2 kw_post_idle [of c "sh_env sh" ist] post by (metis keeps_wf_def snd_conv)
    have "run_state (idle_polls c (sh_env sh) sm (idle_plan_of c tk outcome (cx_d s1)) inputs tk idle_start) s1 = ((woken, tk1, ist), s2)"
      using p by (simp add: idle_until_next_tick_def)
    then have "res (idle_polls c (sh_env sh) sm (idle_plan_of c tk outcome (cx_d s1)) inputs tk idle_start) s1 = (Some idle, tk1, ist)"
      by (simp add: Some)
    then have "g \<Longrightarrow> idle \<noteq> Idle_RosterReload RI_Mutating"
      using Cons.prems(2) polls_wake_mutating by fastforce
    then have ho: "reloaded g c (cfg_after c handled)" "wf (cfg_after c handled) (cx_d s4)"
      using ho_handle [of g idle c sh] s3 h by (auto simp: hands_over_def)
    show ?thesis
    proof (cases handled)
      case None
      then show ?thesis using Cons.prems(3) ho Some by (simp add: t p post h)
    next
      case (Some r)
      obtain c1 written where r: "r = (c1, written)" by fastforce
      obtain status' c2 later s5 where l: "run_state (loop_rounds c1 sh sm rounds tk1) s4 = ((status', c2, later), s5)"
        by (metis surj_pair)
      have "c2 = c'" "s5 = s'" "status' = status"
        using Cons.prems(3) \<open>woken = Some idle\<close> Some by (simp_all add: t p post h r l)
      then have "wf c' (cx_d s') \<and> reloaded g c1 c'"
        using Cons.IH [of c1 s4 tk1 later] ho Cons.prems(2) l by (simp add: Some r)
      then show ?thesis using ho by (auto simp: Some r intro: reloaded_trans)
    qed
  qed
qed simp

lemma kw_boot: "keeps_wf c (boot c e shutdown delay_passes)"
proof -
  have "keeps_wf c (refresh_canary c e)"
    unfolding refresh_canary_def by (rule kw_alarm) (intro ka_rules st_canary)
  then show ?thesis unfolding boot_def by (intro kw_rules kw_draw)
qed

text \<open>
  C3: Over the whole life of the daemon, from boot through every round, whatever the stores, the clients and
  the clocks do and however often the roster is reloaded, every index the daemon keeps is in range of the
  roster in force at the end. Of its configuration only the roster ever changes, and it loses accounts only
  if an own client asked for a mutating reload.
\<close>

theorem run_loop_keeps_indices:
  assumes "wf c (cx_d s)" "run_state (run_loop c sh sm shutdown delay_passes rounds tk) s = ((status, c', out), s')"
  shows "wf c' (cx_d s') \<and> c'\<lparr>c_roster := c_roster c\<rparr> = c \<and>
    (length (c_roster c') < length (c_roster c) \<longrightarrow> (\<exists>inputs \<in> set rounds. \<exists>inp \<in> set inputs. mutating_request sm inp))"
proof -
  obtain go s1 where b: "run_state (boot c (sh_env sh) shutdown delay_passes) s = (go, s1)" by fastforce
  have s1: "wf c (cx_d s1)" using kw_boot [of c "sh_env sh" shutdown delay_passes] assms(1) b by (metis keeps_wf_def snd_conv)
  show ?thesis
  proof (cases go)
    case True
    then have r: "run_state (loop_rounds c sh sm rounds tk) s1 = ((status, c', out), s')"
      using assms(2) by (simp add: run_loop_def b)
    from rounds_keep [OF s1 _ r, of "\<not> (\<exists>inputs \<in> set rounds. \<exists>inp \<in> set inputs. mutating_request sm inp)"] show ?thesis
      by (auto simp: reloaded_def)
  next
    case False
    then show ?thesis using assms(2) s1 by (simp add: run_loop_def b)
  qed
qed

section \<open>The wait comes to its end\<close>

text \<open>No shutdown, no client, and no shutdown during a sweep.\<close>

definition quiet_input :: "'w poll_input \<Rightarrow> bool" where
  "quiet_input inp \<longleftrightarrow> \<not> pi_shutdown inp \<and> pi_control inp = None \<and> pi_cut inp = None"

text \<open>The timers just after a sweep or a probe of the login watch.\<close>

definition rearmed :: "instant \<Rightarrow> idle_state \<Rightarrow> bool" where
  "rearmed deadline ist \<longleftrightarrow> is_wait ist = Some deadline \<and> is_refresh_due ist = None \<and> is_login_due ist = None"

abbreviation just_swept :: "ticker \<Rightarrow> bool" where
  "just_swept tk \<equiv> tk_idle_anchor tk = None \<or> \<not> tk_enabled tk"

lemma sweep_ticker:
  "res (sweep se excluded quar now_ms tk) w = (so, tk') \<Longrightarrow> just_swept tk' \<and> tk_config tk' = tk_config tk"
  by (auto simp: sweep_def split_beta split: if_splits)

lemma arm_refresh_config: "arm_refresh now ip tk ist = (due, tk') \<Longrightarrow> tk_config tk' = tk_config tk"
  by (auto simp: arm_refresh_def until_due_def Let_def split: if_splits option.splits)

text \<open>A ticker that just swept is not due at once.\<close>

lemma arm_refresh_swept:
  assumes "arm_refresh now ip tk ist = (due, tk')" "is_refresh_due ist = None" "just_swept tk"
    and "0 < r_idle_after_secs (tk_config tk)"
  shows "\<not> (case due of Some t \<Rightarrow> now \<ge> t | None \<Rightarrow> False)"
  using assms
  by (auto simp: arm_refresh_def until_due_def delay_until_due_def Let_def since_def from_secs_def NANOS_PER_SEC_def
      split: if_splits option.splits)

lemma sweep_arm_result:
  "\<exists>tk' ist'. res (sweep_arm sm ip None tk ist) s = (None, tk', ist') \<and> is_wait ist' = is_wait ist \<and>
     is_refresh_due ist' = None \<and> is_login_due ist' = None \<and> just_swept tk' \<and> tk_config tk' = tk_config tk"
  using sweep_ticker [of "sm_sweep sm" "ip_excluded ip" "ip_quarantined ip" "sm_now_ms sm (cx_w s)" tk "cx_w s"]
  by (cases "res (sweep (sm_sweep sm) (ip_excluded ip) (ip_quarantined ip) (sm_now_ms sm (cx_w s)) tk) (cx_w s)")
    (simp add: sweep_arm_def next_iteration_def split_beta)

lemma login_arm_result:
  "\<exists>woken ist'. res (login_arm sm ip tk ist) s = (woken, tk, ist') \<and>
     (woken = Some Idle_ExternalLogin \<or> woken = None \<and> ist' = next_iteration ist)"
  by (auto simp: login_arm_def split: option.split)

lemma wait_arm_late:
  "is_wait ist = Some deadline \<Longrightarrow> deadline \<le> now \<Longrightarrow>
   res (wait_arm c e ip tk ist now) s = (Some Idle_Elapsed, tk, ist\<lparr>is_wait := Some deadline\<rparr>)"
  by (simp add: wait_arm_def)

lemma poll_quiet:
  "quiet_input inp \<Longrightarrow> run_state (poll_idle c e sm ip inp tk ist) s =
     run_state (poll_timers c e sm ip None tk ist) (cx_w_update (pi_pass inp) s)"
  by (simp add: poll_idle_def quiet_input_def)

text \<open>What a poll after the deadline can still do instead of waking: one sweep, one probe of the login watch.\<close>

lemma timers_late:
  assumes "is_wait ist = Some deadline" "deadline \<le> clock_now (env_io e) (cx_w s)"
    and "res (poll_timers c e sm ip None tk ist) s = (woken, tk', ist')"
  shows "woken \<in> {Some Idle_Elapsed, Some Idle_ExternalLogin} \<or>
    woken = None \<and> rearmed deadline ist' \<and> tk_config tk' = tk_config tk \<and> (just_swept tk' \<or> is_login_due ist \<noteq> None)"
proof -
  let ?snow = "sw_now (sm_sweep sm) (cx_w s)" and ?now = "clock_now (env_io e) (cx_w s)"
  obtain due tk1 where arm: "arm_refresh ?snow ip tk ist = (due, tk1)" by fastforce
  note config = arm_refresh_config [OF arm]
  let ?ist1 = "ist\<lparr>is_refresh_due := Some due\<rparr>"
  show ?thesis
  proof (cases "case due of Some t \<Rightarrow> ?snow \<ge> t | None \<Rightarrow> False")
    case True
    then have "res (poll_timers c e sm ip None tk ist) s = res (sweep_arm sm ip None tk1 ?ist1) s"
      by (simp add: poll_timers_def arm Let_def)
    then show ?thesis using sweep_arm_result [of sm ip tk1 ?ist1 s] assms config by (auto simp: rearmed_def)
  next
    case False
    define login_due where "login_due = (case is_login_due ist of Some t \<Rightarrow> t | None \<Rightarrow> ?now + from_secs EXTERNAL_LOGIN_WATCH_SECS)"
    let ?ist2 = "?ist1\<lparr>is_login_due := Some login_due\<rparr>"
    have r: "res (poll_timers c e sm ip None tk ist) s = res (if ?now \<ge> login_due then login_arm sm ip tk1 ?ist2 else wait_arm c e ip tk1 ?ist2 ?now) s"
      using False by (simp add: poll_timers_def arm Let_def login_due_def)
    show ?thesis
    proof (cases "?now \<ge> login_due")
      case True
      have "is_login_due ist \<noteq> None"
        using True by (cases "is_login_due ist") (auto simp: login_due_def EXTERNAL_LOGIN_WATCH_SECS_def from_secs_def NANOS_PER_SEC_def)
      then show ?thesis using login_arm_result [of sm ip tk1 ?ist2 s] r True assms config
        by (auto simp: rearmed_def next_iteration_def)
    next
      case False
      then show ?thesis using wait_arm_late [of ?ist2 deadline ?now c e ip tk1 s] r assms by simp
    qed
  qed
qed

lemma timers_swept:
  assumes "rearmed deadline ist" "just_swept tk" "0 < r_idle_after_secs (tk_config tk)"
    and "deadline \<le> clock_now (env_io e) (cx_w s)"
  shows "fst (res (poll_timers c e sm ip None tk ist) s) = Some Idle_Elapsed"
proof -
  let ?snow = "sw_now (sm_sweep sm) (cx_w s)" and ?now = "clock_now (env_io e) (cx_w s)"
  obtain due tk1 where arm: "arm_refresh ?snow ip tk ist = (due, tk1)" by fastforce
  have "\<not> (case due of Some t \<Rightarrow> ?snow \<ge> t | None \<Rightarrow> False)"
    using arm_refresh_swept [OF arm] assms by (auto simp: rearmed_def)
  moreover have "is_login_due ist = None" using assms(1) by (simp add: rearmed_def)
  moreover have "\<not> ?now \<ge> ?now + from_secs EXTERNAL_LOGIN_WATCH_SECS"
    by (simp add: EXTERNAL_LOGIN_WATCH_SECS_def from_secs_def NANOS_PER_SEC_def)
  ultimately show ?thesis using assms wait_arm_late [of _ deadline ?now c e ip tk1 s]
    by (simp add: poll_timers_def arm Let_def rearmed_def)
qed

text \<open>
  C9: The daemon always comes back to its tick. Once the deadline of the wait has passed, three polls without
  a client and without a request to shut down are enough to end it, whatever the sweep and the login watch
  do: each of them can intervene only once before the tick has its turn, provided a sweep must wait at all
  before it may run again.
\<close>

theorem wait_ends:
  assumes "length inputs \<ge> 3" "\<forall>inp \<in> set inputs. quiet_input inp \<and> (\<forall>w. deadline \<le> clock_now (env_io e) (pi_pass inp w))"
    and "is_wait ist = Some deadline" "0 < r_idle_after_secs (tk_config tk)"
  shows "fst (res (idle_polls c e sm ip inputs tk ist) s) \<in> {Some Idle_Elapsed, Some Idle_ExternalLogin}"
proof -
  let ?over = "{Some Idle_Elapsed, Some Idle_ExternalLogin}"
  have quiet: "inp \<in> set inputs \<Longrightarrow> quiet_input inp" "inp \<in> set inputs \<Longrightarrow> deadline \<le> clock_now (env_io e) (pi_pass inp w)" for inp w
    using assms(2) by auto
  obtain i1 i2 i3 rest where inputs: "inputs = i1 # i2 # i3 # rest"
    using assms(1) by (metis Suc_le_length_iff numeral_3_eq_3)
  have step: "fst (res (idle_polls c e sm ip (inp # more) tk ist) s) =
      (case res (poll_timers c e sm ip None tk ist) (cx_w_update (pi_pass inp) s) of
         (Some idle, _) \<Rightarrow> Some idle
       | (None, tk1, ist1) \<Rightarrow> fst (res (idle_polls c e sm ip more tk1 ist1)
           (exec (poll_timers c e sm ip None tk ist) (cx_w_update (pi_pass inp) s))))"
    if "inp \<in> set inputs" for inp more tk ist s
    by (simp add: poll_quiet quiet(1) [OF that] split_beta split: option.split)
  have third: "fst (res (idle_polls c e sm ip (inp # more) tk ist) s) \<in> ?over"
    if "inp \<in> set inputs" "rearmed deadline ist" "just_swept tk" "0 < r_idle_after_secs (tk_config tk)" for inp more tk ist s
    using timers_swept [OF that(2-4), of e "cx_w_update (pi_pass inp) s" c sm ip] quiet(2) [OF that(1)]
    by (cases "res (poll_timers c e sm ip None tk ist) (cx_w_update (pi_pass inp) s)")
      (simp add: step [OF that(1)] del: idle_polls.simps)
  have second: "fst (res (idle_polls c e sm ip (inp # inp' # more) tk ist) s) \<in> ?over"
    if "inp \<in> set inputs" "inp' \<in> set inputs" "rearmed deadline ist" "0 < r_idle_after_secs (tk_config tk)" for inp inp' more tk ist s
  proof -
    obtain woken tk1 ist1 where r: "res (poll_timers c e sm ip None tk ist) (cx_w_update (pi_pass inp) s) = (woken, tk1, ist1)"
      by (metis surj_pair)
    have late: "is_wait ist = Some deadline" "is_login_due ist = None" using that(3) by (auto simp: rearmed_def)
    have "woken \<in> ?over \<or> woken = None \<and> rearmed deadline ist1 \<and> tk_config tk1 = tk_config tk \<and> just_swept tk1"
      using timers_late [OF late(1) _ r] quiet(2) [OF that(1)] late(2) by auto
    then show ?thesis
      using third [OF that(2), of ist1 tk1 more "exec (poll_timers c e sm ip None tk ist) (cx_w_update (pi_pass inp) s)"] that(4)
      by (auto simp: step [OF that(1)] r simp del: idle_polls.simps)
  qed
  obtain woken tk1 ist1 where r: "res (poll_timers c e sm ip None tk ist) (cx_w_update (pi_pass i1) s) = (woken, tk1, ist1)"
    by (metis surj_pair)
  have i: "i1 \<in> set inputs" "i2 \<in> set inputs" "i3 \<in> set inputs" by (simp_all add: inputs)
  have "woken \<in> ?over \<or> woken = None \<and> rearmed deadline ist1 \<and> tk_config tk1 = tk_config tk"
    using timers_late [OF assms(3) _ r] quiet(2) [OF i(1)] by auto
  then show ?thesis
    using second [OF i(2,3), of ist1 tk1 rest "exec (poll_timers c e sm ip None tk ist) (cx_w_update (pi_pass i1) s)"] assms(4)
    by (auto simp: inputs step [OF i(1)] r simp del: idle_polls.simps)
qed

section \<open>A sample loop\<close>

definition sample_seams :: "fake_world seams" where
  "sample_seams = \<lparr>sm_sweep = \<lparr>sw_stored_expires_at = (\<lambda>_. State_Monad.return None), sw_refresh = (\<lambda>_. State_Monad.return None),
       sw_take_resolved_binary = State_Monad.return None, sw_now = (\<lambda>_. 0)\<rparr>,
     sm_now_ms = (\<lambda>_. 0), sm_read_canonical = State_Monad.return None,
     sm_parse = (\<lambda>_. Inl ''empty''), sm_parse_set = (\<lambda>_. Inl ''empty'')\<rparr>"

definition quiet_poll :: "fake_world poll_input" where
  "quiet_poll = \<lparr>pi_pass = id, pi_shutdown = False, pi_control = None, pi_cut = None\<rparr>"

theorem run_loop_keeps_indices_witness:
  "\<exists>status c' out s'. run_state (run_loop sample_cfg sample_shell sample_seams False id [[quiet_poll]] sample_ticker) sample_ctx
       = ((status, c', out), s') \<and> wf c' (cx_d s')"
proof -
  obtain status c' out s' where r: "run_state (run_loop sample_cfg sample_shell sample_seams False id [[quiet_poll]] sample_ticker) sample_ctx
       = ((status, c', out), s')" by (metis surj_pair)
  from run_loop_keeps_indices [OF sample_wf r] r show ?thesis by blast
qed

theorem wait_ends_witness:
  "fst (res (idle_polls sample_cfg sample_env sample_seams
     (idle_plan_of sample_cfg sample_ticker \<lparr>to_action = Held, to_snapshot = snapshot sample_cfg None [] 0 0 sample_daemon, to_next_wait = None\<rparr> sample_daemon)
     [quiet_poll, quiet_poll, quiet_poll] sample_ticker (idle_start\<lparr>is_wait := Some 0\<rparr>)) sample_ctx)
   \<in> {Some Idle_Elapsed, Some Idle_ExternalLogin}"
  by (rule wait_ends [where deadline = 0])
    (simp_all add: quiet_input_def quiet_poll_def idle_start_def sample_ticker_def ticker_new_def refresh_config_default_def)

end
