(* ===== verification/Files.thy ===== *)
theory Files
  imports World "HOL-Library.AList"
begin

text \<open>
  The files of the program: the owner-only and atomic writers of \<open>src/paths.rs\<close> over the policy
  functions of \<open>src/file_policy.rs\<close> (the Unix half), and the bounded acquisition of an advisory lock that
  the usage store and the configuration writer share. The system calls of the standard library are the
  fields of the record \<open>posix\<close>, each a computation over an opaque world \<open>'w\<close> that may fail; the locale
  \<open>posix_files\<close> states what they do to the files. The last section interprets it on an in-memory file
  system in which every call can be made to fail.

  A path is a normalised absolute path, a string with \<open>/\<close> between its components.
\<close>

section \<open>Paths\<close>

definition path_file_name :: "string \<Rightarrow> string" where
  "path_file_name p = rev (takeWhile (\<lambda>c. c \<noteq> CHR ''/'') (rev p))"

definition path_parent :: "string \<Rightarrow> string" where
  "path_parent p = rev (drop 1 (dropWhile (\<lambda>c. c \<noteq> CHR ''/'') (rev p)))"

definition path_join :: "string \<Rightarrow> string \<Rightarrow> string" where
  "path_join d n = d @ ''/'' @ n"

definition with_file_name :: "string \<Rightarrow> string \<Rightarrow> string" where
  "with_file_name p n = path_join (path_parent p) n"

lemma path_join_parts [simp]:
  assumes "CHR ''/'' \<notin> set n"
  shows "path_file_name (path_join d n) = n" "path_parent (path_join d n) = d"
proof -
  have "takeWhile (\<lambda>c. c \<noteq> CHR ''/'') (rev n @ CHR ''/'' # ys) = rev n"
    "dropWhile (\<lambda>c. c \<noteq> CHR ''/'') (rev n @ CHR ''/'' # ys) = CHR ''/'' # ys" for ys
    using assms by (simp_all add: takeWhile_append dropWhile_append)
  then show "path_file_name (path_join d n) = n" "path_parent (path_join d n) = d"
    by (simp_all add: path_file_name_def path_parent_def path_join_def)
qed

lemma path_join_inject [simp]: "path_join d n = path_join d m \<longleftrightarrow> n = m"
  by (simp add: path_join_def)

section \<open>System calls\<close>

record fnode =
  fn_bytes :: bytes
  fn_mode :: nat
  fn_uid :: nat

datatype flock_rc = FR_Acquired | FR_WouldBlock | FR_Interrupted | FR_Error string

text \<open>
  \<open>px_create_new\<close> is an open with \<open>create_new\<close>, \<open>px_open_append\<close> one with \<open>create\<close> and \<open>append\<close>,
  \<open>px_open_lock\<close> one with \<open>create\<close>, \<open>read\<close> and \<open>write\<close>; each takes the mode of a file it creates. \<open>px_stat\<close>
  gives the mode and the owner. \<open>px_read_dir\<close> gives the names in a directory, an entry may fail alone.
\<close>

record 'w posix =
  px_read :: "string \<Rightarrow> ('w, fs_error + bytes) state"
  px_stat :: "string \<Rightarrow> ('w, fs_error + nat \<times> nat) state"
  px_create_new :: "string \<Rightarrow> nat \<Rightarrow> ('w, fs_error + unit) state"
  px_open_append :: "string \<Rightarrow> nat \<Rightarrow> ('w, fs_error + unit) state"
  px_open_lock :: "string \<Rightarrow> nat \<Rightarrow> ('w, fs_error + unit) state"
  px_write_all :: "string \<Rightarrow> bytes \<Rightarrow> ('w, fs_error + unit) state"
  px_sync_all :: "string \<Rightarrow> ('w, fs_error + unit) state"
  px_rename :: "string \<Rightarrow> string \<Rightarrow> ('w, fs_error + unit) state"
  px_remove :: "string \<Rightarrow> ('w, fs_error + unit) state"
  px_chmod :: "string \<Rightarrow> nat \<Rightarrow> ('w, fs_error + unit) state"
  px_mkdir_all :: "string \<Rightarrow> ('w, fs_error + unit) state"
  px_read_dir :: "string \<Rightarrow> ('w, fs_error + (fs_error + string) list) state"
  px_flock :: "string \<Rightarrow> ('w, flock_rc) state"
  px_unlock :: "string \<Rightarrow> ('w, unit) state"
  px_sleep :: "duration \<Rightarrow> ('w, unit) state"
  px_instant :: "'w \<Rightarrow> instant"
  px_wall :: "'w \<Rightarrow> duration"
  px_uid :: nat

text \<open>\<open>entries.flatten()\<close>: the names that could be read. \<open>any_entry_error\<close> is the first that could not.\<close>

definition entry_names :: "(fs_error + string) list \<Rightarrow> string list" where
  "entry_names es = List.map_filter (\<lambda>e. case e of Inl _ \<Rightarrow> None | Inr n \<Rightarrow> Some n) es"

fun any_entry_error :: "(fs_error + string) list \<Rightarrow> fs_error option" where
  "any_entry_error [] = None"
| "any_entry_error (Inl e # es) = Some e"
| "any_entry_error (Inr n # es) = any_entry_error es"

text \<open>\<open>From<io::Error>\<close>, applied by \<open>?\<close>.\<close>

fun io_error :: "fs_error \<Rightarrow> error" where
  "io_error FS_NotFound = Io ''No such file or directory''"
| "io_error (FS_Other m) = Io m"

definition lift_io :: "('w, fs_error + 'a) state \<Rightarrow> ('w, 'a result) state" where
  "lift_io m = State_Monad.bind m (\<lambda>r. State_Monad.return (case r of Inl e \<Rightarrow> Inl (io_error e) | Inr a \<Rightarrow> Inr a))"

section \<open>The owner-only policy\<close>

definition DIR_MODE :: nat where "DIR_MODE = 448"
definition FILE_MODE :: nat where "FILE_MODE = 384"

text \<open>\<open>mode & 0o7777\<close> and \<open>mode & 0o777\<close> keep the low bits.\<close>

definition copy_policy :: "'w posix \<Rightarrow> string \<Rightarrow> string \<Rightarrow> ('w, unit result) state" where
  "copy_policy px src dst =
     try_bind (lift_io (px_stat px src)) (\<lambda>(mode, _). lift_io (px_chmod px dst (mode mod 4096)))"

definition owner_only_dir :: "'w posix \<Rightarrow> string \<Rightarrow> ('w, unit result) state" where
  "owner_only_dir px path = lift_io (px_chmod px path DIR_MODE)"

definition owner_is_current_user :: "'w posix \<Rightarrow> string \<Rightarrow> ('w, bool result) state" where
  "owner_is_current_user px path =
     try_bind (lift_io (px_stat px path)) (\<lambda>(_, uid). State_Monad.return (Inr (uid = px_uid px)))"

text \<open>The deviating mode; the code renders it into a message.\<close>

definition owner_only_deviation :: "'w posix \<Rightarrow> string \<Rightarrow> ('w, nat option result) state" where
  "owner_only_deviation px path =
     try_bind (lift_io (px_stat px path)) (\<lambda>(m, _).
       let mode = m mod 512 in State_Monad.return (Inr (if mode \<noteq> FILE_MODE then Some mode else None)))"

section \<open>Writers\<close>

definition ensure_private_dir :: "'w posix \<Rightarrow> string \<Rightarrow> ('w, unit result) state" where
  "ensure_private_dir px path =
     try_bind (lift_io (px_mkdir_all px path)) (\<lambda>_.
     try_bind (owner_only_dir px path) (\<lambda>_.
     try_bind (owner_is_current_user px path) (\<lambda>ours.
       State_Monad.return (if \<not> ours then Inl (HostError (ForeignOwnership path)) else Inr ()))))"

definition create_private_file :: "'w posix \<Rightarrow> string \<Rightarrow> ('w, unit result) state" where
  "create_private_file px path = lift_io (px_open_append px path FILE_MODE)"

definition tmp_of :: "string \<Rightarrow> string" where
  "tmp_of path = path @ ''.tmp''"

definition write_private_file :: "'w posix \<Rightarrow> string \<Rightarrow> bytes \<Rightarrow> ('w, unit result) state" where
  "write_private_file px path contents =
     (let tmp = tmp_of path in
      State_Monad.bind (px_remove px tmp) (\<lambda>_.
      try_bind (lift_io (px_create_new px tmp FILE_MODE)) (\<lambda>_.
      try_bind (lift_io (px_write_all px tmp contents)) (\<lambda>_.
      try_bind (lift_io (px_sync_all px tmp)) (\<lambda>_.
        lift_io (px_rename px tmp path))))))"

definition write_preserving_mode :: "'w posix \<Rightarrow> string \<Rightarrow> bytes \<Rightarrow> ('w, unit result) state" where
  "write_preserving_mode px path contents =
     (let tmp = tmp_of path in
      try_bind (lift_io (px_stat px path)) (\<lambda>_.
      State_Monad.bind (px_remove px tmp) (\<lambda>_.
      try_bind (lift_io (px_create_new px tmp FILE_MODE)) (\<lambda>_.
      try_bind (lift_io (px_write_all px tmp contents)) (\<lambda>_.
      try_bind (copy_policy px path tmp) (\<lambda>_.
      try_bind (lift_io (px_sync_all px tmp)) (\<lambda>_.
        lift_io (px_rename px tmp path))))))))"

section \<open>A lock acquired within a budget\<close>

text \<open>
  The loop of \<open>StoreLock::acquire\<close> and of \<open>ConfigWriteLock::acquire\<close>: they differ in what an interrupted
  call does, which retries at once in the one and checks the deadline first in the other (\<open>bounded\<close>).
  \<open>None\<close> is a loop that has not returned within the fuel.
\<close>

fun flock_loop ::
  "bool \<Rightarrow> duration \<Rightarrow> error \<Rightarrow> nat \<Rightarrow> 'w posix \<Rightarrow> string \<Rightarrow> instant \<Rightarrow> ('w, unit result option) state" where
  "flock_loop bounded retry busy 0 px path deadline = State_Monad.return None"
| "flock_loop bounded retry busy (Suc fuel) px path deadline =
     State_Monad.bind (px_flock px path) (\<lambda>rc.
       (case rc of
          FR_Acquired \<Rightarrow> State_Monad.return (Some (Inr ()))
        | FR_Error err \<Rightarrow> State_Monad.return (Some (Inl (Io err)))
        | FR_Interrupted \<Rightarrow>
            State_Monad.bind (sget (px_instant px)) (\<lambda>tm.
              if bounded \<and> tm \<ge> deadline then State_Monad.return (Some (Inl busy))
              else flock_loop bounded retry busy fuel px path deadline)
        | FR_WouldBlock \<Rightarrow>
            State_Monad.bind (sget (px_instant px)) (\<lambda>tm.
              if tm \<ge> deadline then State_Monad.return (Some (Inl busy))
              else State_Monad.bind (px_sleep px retry) (\<lambda>_.
                flock_loop bounded retry busy fuel px path deadline))))"

definition flock_acquire ::
  "bool \<Rightarrow> duration \<Rightarrow> error \<Rightarrow> nat \<Rightarrow> 'w posix \<Rightarrow> string \<Rightarrow> duration \<Rightarrow> ('w, unit result option) state" where
  "flock_acquire bounded retry busy fuel px path max_wait =
     State_Monad.bind (lift_io (px_open_lock px path FILE_MODE)) (\<lambda>f.
       (case f of
          Inl e \<Rightarrow> State_Monad.return (Some (Inl e))
        | Inr _ \<Rightarrow> State_Monad.bind (sget (px_instant px)) (\<lambda>tm.
            flock_loop bounded retry busy fuel px path (tm + max_wait))))"

text \<open>
  The guard is dropped, and the lock released, when the guarded operation returns. An acquisition that
  has not returned within the fuel counts as busy; \<open>flock_acquire_returns\<close> says how much fuel is enough.
\<close>

definition with_flock ::
  "('w, unit result option) state \<Rightarrow> error \<Rightarrow> 'w posix \<Rightarrow> string \<Rightarrow> ('w, 'a result) state \<Rightarrow> ('w, 'a result) state" where
  "with_flock acq busy px path body =
     State_Monad.bind acq (\<lambda>g.
       (case g of
          Some (Inr _) \<Rightarrow>
            State_Monad.bind body (\<lambda>r. State_Monad.bind (px_unlock px path) (\<lambda>_. State_Monad.return r))
        | Some (Inl e) \<Rightarrow> State_Monad.return (Inl e)
        | None \<Rightarrow> State_Monad.return (Inl busy)))"

section \<open>What the calls do to the files\<close>

definition content :: "(string \<Rightarrow> fnode option) \<Rightarrow> string \<Rightarrow> bytes option" where
  "content N p = map_option fn_bytes (N p)"

lemma triple_ex: "(\<And>x. triple (P x) m Q) \<Longrightarrow> triple (\<lambda>s. \<exists>x. P x s) m Q"
  by (auto simp: triple_def)

text \<open>
  Everything outside a set of paths is as in \<open>N\<close>. An atomic writer touches its staging file on any
  outcome, and the file it replaces only when it succeeds.
\<close>

definition same_off :: "string set \<Rightarrow> (string \<Rightarrow> fnode option) \<Rightarrow> (string \<Rightarrow> fnode option) \<Rightarrow> bool" where
  "same_off A N M \<longleftrightarrow> (\<forall>q. q \<notin> A \<longrightarrow> M q = N q)"

text \<open>
  \<open>nodes w\<close> maps the path of each regular file to its node. A call that fails changes nothing, but for a
  write, which may have appended a part of its bytes. A rename and a creation are all or nothing.
\<close>

locale posix_files =
  fixes px :: "'w posix" and nodes :: "'w \<Rightarrow> string \<Rightarrow> fnode option"
  assumes pure: "nodes (exec (px_read px p) w) = nodes w" "nodes (exec (px_stat px p) w) = nodes w"
      "nodes (exec (px_sync_all px p) w) = nodes w" "nodes (exec (px_mkdir_all px p) w) = nodes w"
      "nodes (exec (px_read_dir px p) w) = nodes w" "nodes (exec (px_flock px p) w) = nodes w"
      "nodes (exec (px_unlock px p) w) = nodes w" "nodes (exec (px_sleep px t) w) = nodes w"
    and read_bytes: "res (px_read px p) w = Inr b \<Longrightarrow> \<exists>n. nodes w p = Some n \<and> fn_bytes n = b"
    and read_absent: "res (px_read px p) w = Inl FS_NotFound \<Longrightarrow> nodes w p = None"
    and stat_mode: "res (px_stat px p) w = Inr (m, u) \<Longrightarrow> nodes w p = Some n \<Longrightarrow> m = fn_mode n \<and> u = fn_uid n"
    and create_ok: "res (px_create_new px p m) w = Inr () \<Longrightarrow> nodes w p = None \<and>
      nodes (exec (px_create_new px p m) w) = (nodes w)(p \<mapsto> \<lparr>fn_bytes = [], fn_mode = m, fn_uid = px_uid px\<rparr>)"
    and create_fails: "res (px_create_new px p m) w = Inl e \<Longrightarrow> nodes (exec (px_create_new px p m) w) = nodes w"
    and append_ok: "res (px_open_append px p m) w = Inr () \<Longrightarrow> nodes (exec (px_open_append px p m) w) =
      (case nodes w p of Some n \<Rightarrow> nodes w
       | None \<Rightarrow> (nodes w)(p \<mapsto> \<lparr>fn_bytes = [], fn_mode = m, fn_uid = px_uid px\<rparr>))"
    and append_fails: "res (px_open_append px p m) w = Inl e \<Longrightarrow> nodes (exec (px_open_append px p m) w) = nodes w"
    and open_lock_other: "q \<noteq> p \<Longrightarrow> nodes (exec (px_open_lock px p m) w) q = nodes w q"
    and write_ok: "res (px_write_all px p b) w = Inr () \<Longrightarrow> nodes w p = Some n \<Longrightarrow>
      nodes (exec (px_write_all px p b) w) = (nodes w)(p \<mapsto> n\<lparr>fn_bytes := fn_bytes n @ b\<rparr>)"
    and write_torn: "res (px_write_all px p b) w = Inl e \<Longrightarrow> nodes w p = Some n \<Longrightarrow>
      \<exists>k. nodes (exec (px_write_all px p b) w) = (nodes w)(p \<mapsto> n\<lparr>fn_bytes := fn_bytes n @ take k b\<rparr>)"
    and rename_ok: "res (px_rename px p q) w = Inr () \<Longrightarrow> \<exists>n. nodes w p = Some n \<and>
      nodes (exec (px_rename px p q) w) = (nodes w)(p := None, q \<mapsto> n)"
    and rename_fails: "res (px_rename px p q) w = Inl e \<Longrightarrow> nodes (exec (px_rename px p q) w) = nodes w"
    and remove_ok: "res (px_remove px p) w = Inr () \<Longrightarrow> nodes (exec (px_remove px p) w) = (nodes w)(p := None)"
    and remove_fails: "res (px_remove px p) w = Inl e \<Longrightarrow> nodes (exec (px_remove px p) w) = nodes w"
    and chmod_ok: "res (px_chmod px p m) w = Inr () \<Longrightarrow> nodes (exec (px_chmod px p m) w) =
      (case nodes w p of None \<Rightarrow> nodes w | Some n \<Rightarrow> (nodes w)(p \<mapsto> n\<lparr>fn_mode := m\<rparr>))"
    and chmod_fails: "res (px_chmod px p m) w = Inl e \<Longrightarrow> nodes (exec (px_chmod px p m) w) = nodes w"
    and read_dir_all: "res (px_read_dir px d) w = Inr es \<Longrightarrow> nodes w (path_join d name) \<noteq> None \<Longrightarrow>
      CHR ''/'' \<notin> set name \<Longrightarrow> name \<in> set (entry_names es) \<or> any_entry_error es \<noteq> None"
    and read_dir_names: "res (px_read_dir px d) w = Inr es \<Longrightarrow>
      distinct (entry_names es) \<and> (\<forall>f \<in> set (entry_names es). CHR ''/'' \<notin> set f)"
    and read_dir_absent: "res (px_read_dir px d) w = Inl FS_NotFound \<Longrightarrow> CHR ''/'' \<notin> set name \<Longrightarrow>
      nodes w (path_join d name) = None"
begin

text \<open>The laws as triples over the files.\<close>

abbreviation files :: "(string \<Rightarrow> fnode option) \<Rightarrow> 'w \<Rightarrow> bool" where
  "files N w \<equiv> nodes w = N"

lemma t_lift:
  assumes "triple P m (\<lambda>r s. (\<forall>e. r = Inl e \<longrightarrow> Q (Inl (io_error e)) s) \<and> (\<forall>a. r = Inr a \<longrightarrow> Q (Inr a) s))"
  shows "triple P (lift_io m) Q"
  using assms by (auto simp: triple_def lift_io_def split_beta split: sum.split)

lemma t_pure:
  assumes "\<And>w. nodes (exec m w) = nodes w"
  shows "triple (files N) m (\<lambda>r. files N)"
  using assms by (auto simp: triple_def)

lemma try_lift:
  assumes "triple P m (\<lambda>r s. (\<forall>e. r = Inl e \<longrightarrow> Q (Inl (io_error e)) s) \<and> (\<forall>a. r = Inr a \<longrightarrow> R a s))"
    and "\<And>a. triple (R a) (f a) Q"
  shows "triple P (try_bind (lift_io m) f) Q"
proof (rule triple_try)
  show "triple P (lift_io m) (\<lambda>r s. (\<forall>e. r = Inl e \<longrightarrow> Q (Inl e) s) \<and> (\<forall>a. r = Inr a \<longrightarrow> R a s))"
    by (rule t_lift, rule triple_weaken [OF assms(1)]) auto
  show "triple (\<lambda>s. (\<forall>e. Inr a = Inl e \<longrightarrow> Q (Inl e) s) \<and> (\<forall>b. Inr a = Inr b \<longrightarrow> R b s)) (f a) Q" for a
    by (rule triple_pre [OF assms(2)]) auto
qed auto

abbreviation off :: "string set \<Rightarrow> (string \<Rightarrow> fnode option) \<Rightarrow> 'w \<Rightarrow> bool" where
  "off A N w \<equiv> same_off A N (nodes w)"

lemma same_off_refl [simp]: "same_off A N N"
  by (simp add: same_off_def)

lemma same_off_upd [simp]: "same_off {p} N (M(p := x)) \<longleftrightarrow> same_off {p} N M"
  by (auto simp: same_off_def)

lemma same_off_eq: "same_off {p} N M \<Longrightarrow> M(p := x) = N(p := x)"
  by (auto simp: same_off_def fun_eq_iff)

lemma t_off_pure:
  assumes "\<And>w. nodes (exec m w) = nodes w"
  shows "triple (off A N) m (\<lambda>r. off A N)"
  using assms by (auto simp: triple_def)

lemma t_remove: "triple (off {p} N) (px_remove px p) (\<lambda>r. off {p} N)"
  using remove_ok remove_fails by (auto simp: triple_def) (metis old.unit.exhaust same_off_upd sum.exhaust)

lemma t_create:
  "triple (off {p} N) (px_create_new px p m) (\<lambda>r s. (\<forall>e. r = Inl e \<longrightarrow> off {p} N s) \<and>
     (\<forall>a. r = Inr a \<longrightarrow> files (N(p \<mapsto> \<lparr>fn_bytes = [], fn_mode = m, fn_uid = px_uid px\<rparr>)) s))"
  using create_ok create_fails by (auto simp: triple_def same_off_eq)

lemma t_px_write:
  assumes "N p = Some n"
  shows "triple (files N) (px_write_all px p b) (\<lambda>r s. (\<forall>e. r = Inl e \<longrightarrow> off {p} N s) \<and>
     (\<forall>a. r = Inr a \<longrightarrow> files (N(p \<mapsto> n\<lparr>fn_bytes := fn_bytes n @ b\<rparr>)) s))"
proof (rule tripleI, intro conjI allI impI)
  fix s r s' e assume f: "files N s" and run: "run_state (px_write_all px p b) s = (r, s')" and r: "r = Inl e"
  have "\<exists>k. nodes s' = (nodes s)(p \<mapsto> n\<lparr>fn_bytes := fn_bytes n @ take k b\<rparr>)"
    using write_torn [of p b s e n] f run r assms by simp
  then show "off {p} N s'" using f by auto
next
  fix s r s' a assume f: "files N s" and run: "run_state (px_write_all px p b) s = (r, s')" and r: "r = Inr a"
  show "files (N(p \<mapsto> n\<lparr>fn_bytes := fn_bytes n @ b\<rparr>)) s'"
    using write_ok [of p b s n] f run r assms by simp
qed

lemma t_chmod:
  assumes "N p = Some n"
  shows "triple (files N) (px_chmod px p m) (\<lambda>r s. (\<forall>e. r = Inl e \<longrightarrow> files N s) \<and>
     (\<forall>a. r = Inr a \<longrightarrow> files (N(p \<mapsto> n\<lparr>fn_mode := m\<rparr>)) s))"
  using chmod_ok chmod_fails assms by (auto simp: triple_def)

lemma t_stat:
  "triple (files N) (px_stat px p) (\<lambda>r s. files N s \<and> (\<forall>a n. r = Inr a \<longrightarrow> N p = Some n \<longrightarrow> a = (fn_mode n, fn_uid n)))"
  using stat_mode by (auto simp: triple_def pure)

lemma t_rename:
  assumes "N p = Some n"
  shows "triple (files N) (px_rename px p q) (\<lambda>r s. (\<forall>e. r = Inl e \<longrightarrow> files N s) \<and>
     (\<forall>a. r = Inr a \<longrightarrow> files (N(p := None, q \<mapsto> n)) s))"
proof (rule tripleI, intro conjI allI impI)
  fix s r s' e assume f: "files N s" and run: "run_state (px_rename px p q) s = (r, s')" and r: "r = Inl e"
  then show "files N s'" using rename_fails [of p q s e] by simp
next
  fix s r s' a assume f: "files N s" and run: "run_state (px_rename px p q) s = (r, s')" and r: "r = Inr a"
  then show "files (N(p := None, q \<mapsto> n)) s'" using rename_ok [of p q s] assms by auto
qed

lemma tmp_of_neq [simp]: "tmp_of p \<noteq> p" "p \<noteq> tmp_of p"
  by (simp_all add: tmp_of_def)

text \<open>An atomic write: the new content, owner-only, on success; on failure every file but the staging one is as before.\<close>

lemma t_write_private_file:
  "triple (off {tmp_of p} N) (write_private_file px p b) (\<lambda>r s.
     (\<forall>e. r = Inl e \<longrightarrow> off {tmp_of p} N s) \<and>
     (\<forall>a. r = Inr a \<longrightarrow>
       files (N(tmp_of p := None, p \<mapsto> \<lparr>fn_bytes = b, fn_mode = FILE_MODE, fn_uid = px_uid px\<rparr>)) s))"
  (is "triple _ _ ?Q")
proof -
  let ?t = "tmp_of p" and ?n = "\<lambda>b. \<lparr>fn_bytes = b, fn_mode = FILE_MODE, fn_uid = px_uid px\<rparr>"
  have rename: "triple (files (N(?t \<mapsto> ?n b))) (lift_io (px_rename px ?t p)) ?Q"
    by (rule t_lift, rule triple_weaken [OF t_rename [of _ _ "?n b"]]) (auto simp: same_off_def)
  have sync: "triple (files (N(?t \<mapsto> ?n b)))
      (try_bind (lift_io (px_sync_all px ?t)) (\<lambda>_. lift_io (px_rename px ?t p))) ?Q"
    by (rule try_lift [OF triple_weaken [OF t_pure] rename]) (auto simp: pure)
  have wr: "triple (files (N(?t \<mapsto> ?n [])))
      (try_bind (lift_io (px_write_all px ?t b)) (\<lambda>_. try_bind (lift_io (px_sync_all px ?t))
        (\<lambda>_. lift_io (px_rename px ?t p)))) ?Q"
    by (rule try_lift [OF triple_weaken [OF t_px_write [where N = "N(?t \<mapsto> ?n [])" and n = "?n []"]] sync]) (auto simp: same_off_def)
  show ?thesis unfolding write_private_file_def Let_def
    by (rule triple_bind [OF t_remove], rule try_lift [OF triple_weaken [OF t_create] wr]) auto
qed

text \<open>The mode-preserving write: \<open>keeps_mode p N m\<close> says that \<open>m\<close> are the permission bits of \<open>p\<close>.\<close>

definition keeps_mode :: "string \<Rightarrow> (string \<Rightarrow> fnode option) \<Rightarrow> nat \<Rightarrow> bool" where
  "keeps_mode p N m \<longleftrightarrow> (\<forall>n. N p = Some n \<longrightarrow> m = fn_mode n mod 4096)"

lemma t_write_preserving_mode:
  "triple (files N) (write_preserving_mode px p b) (\<lambda>r s.
     (\<forall>e. r = Inl e \<longrightarrow> off {tmp_of p} N s) \<and>
     (\<forall>a. r = Inr a \<longrightarrow> (\<exists>m. keeps_mode p N m \<and>
        files (N(tmp_of p := None, p \<mapsto> \<lparr>fn_bytes = b, fn_mode = m, fn_uid = px_uid px\<rparr>)) s)))"
  (is "triple _ _ ?Q")
proof -
  let ?t = "tmp_of p" and ?n = "\<lambda>b m. \<lparr>fn_bytes = b, fn_mode = m, fn_uid = px_uid px\<rparr>"
  have rename: "triple (files (N(?t \<mapsto> ?n b m))) (lift_io (px_rename px ?t p)) ?Q" if "keeps_mode p N m" for m
    by (rule t_lift, rule triple_weaken [OF t_rename [of _ _ "?n b m"]]) (use that in \<open>auto simp: same_off_def\<close>)
  have sync: "triple (\<lambda>s. \<exists>m. keeps_mode p N m \<and> files (N(?t \<mapsto> ?n b m)) s)
      (try_bind (lift_io (px_sync_all px ?t)) (\<lambda>_. lift_io (px_rename px ?t p))) ?Q"
  proof (rule triple_ex)
    show "triple (\<lambda>s. keeps_mode p N m \<and> files (N(?t \<mapsto> ?n b m)) s)
        (try_bind (lift_io (px_sync_all px ?t)) (\<lambda>_. lift_io (px_rename px ?t p))) ?Q" for m
    proof (rule triple_assume [where b = "keeps_mode p N m"])
      assume m: "keeps_mode p N m"
      show ?thesis
        by (rule try_lift [OF triple_weaken [OF t_pure] rename [OF m]]) (auto simp: pure same_off_def)
    qed simp
  qed
  let ?M = "N(?t \<mapsto> ?n b FILE_MODE)"
  have chmod: "triple (files ?M) (px_chmod px ?t m) (\<lambda>r s. (\<forall>e. r = Inl e \<longrightarrow> off {?t} N s) \<and>
      (\<forall>a. r = Inr a \<longrightarrow> files (N(?t \<mapsto> ?n b m)) s))" for m
    by (rule triple_weaken [OF t_chmod [of _ _ "?n b FILE_MODE"]]) (auto simp: same_off_def)
  have copy: "triple (files ?M) (copy_policy px p ?t) (\<lambda>r s. (\<forall>e. r = Inl e \<longrightarrow> off {?t} N s) \<and>
      (\<forall>a. r = Inr a \<longrightarrow> (\<exists>m. keeps_mode p N m \<and> files (N(?t \<mapsto> ?n b m)) s)))" (is "triple _ _ ?C")
    unfolding copy_policy_def
  proof (rule try_lift [where R = "\<lambda>a s. keeps_mode p N (fst a mod 4096) \<and> files ?M s"])
    show "triple (files ?M) (px_stat px p) (\<lambda>r s.
        (\<forall>e. r = Inl e \<longrightarrow> ?C (Inl (io_error e)) s) \<and>
        (\<forall>a. r = Inr a \<longrightarrow> keeps_mode p N (fst a mod 4096) \<and> files ?M s))"
      by (rule triple_weaken [OF t_stat]) (auto simp: same_off_def keeps_mode_def)
    fix a :: "nat \<times> nat"
    show "triple (\<lambda>s. keeps_mode p N (fst a mod 4096) \<and> files ?M s)
        (case a of (mode, _) \<Rightarrow> lift_io (px_chmod px ?t (mode mod 4096))) ?C"
    proof (rule triple_assume [where b = "keeps_mode p N (fst a mod 4096)"])
      assume "keeps_mode p N (fst a mod 4096)"
      then show ?thesis unfolding split_beta
        by (intro t_lift) (rule triple_weaken [OF chmod], auto)
    qed simp
  qed
  have wr: "triple (files (N(?t \<mapsto> ?n [] FILE_MODE)))
      (try_bind (lift_io (px_write_all px ?t b)) (\<lambda>_. try_bind (copy_policy px p ?t) (\<lambda>_.
        try_bind (lift_io (px_sync_all px ?t)) (\<lambda>_. lift_io (px_rename px ?t p))))) ?Q"
  proof (rule try_lift [OF triple_weaken [OF t_px_write [where N = "N(?t \<mapsto> ?n [] FILE_MODE)" and n = "?n [] FILE_MODE"]]])
    show "triple (files ?M) (try_bind (copy_policy px p ?t) (\<lambda>_.
        try_bind (lift_io (px_sync_all px ?t)) (\<lambda>_. lift_io (px_rename px ?t p)))) ?Q"
    proof (rule triple_try [OF copy])
      show "triple (?C (Inr a)) (try_bind (lift_io (px_sync_all px ?t)) (\<lambda>_. lift_io (px_rename px ?t p))) ?Q" for a
        by (rule triple_pre [OF sync]) simp
    qed auto
  qed (auto simp: same_off_def)
  show ?thesis unfolding write_preserving_mode_def Let_def
  proof (rule try_lift [where R = "\<lambda>_. off {?t} N"])
    show "triple (off {?t} N) (State_Monad.bind (px_remove px ?t) (\<lambda>_.
        try_bind (lift_io (px_create_new px ?t FILE_MODE)) (\<lambda>_.
        try_bind (lift_io (px_write_all px ?t b)) (\<lambda>_. try_bind (copy_policy px p ?t) (\<lambda>_.
        try_bind (lift_io (px_sync_all px ?t)) (\<lambda>_. lift_io (px_rename px ?t p))))))) ?Q" for a :: "nat \<times> nat"
      by (rule triple_bind [OF t_remove], rule try_lift [OF triple_weaken [OF t_create] wr]) auto
  qed (rule triple_weaken [OF t_stat], auto)
qed

text \<open>Both writers on the contents of the files alone.\<close>

definition writes :: "('w, unit result) state \<Rightarrow> string \<Rightarrow> bytes \<Rightarrow> bool" where
  "writes m p b \<longleftrightarrow> (\<forall>w r w'. run_state m w = (r, w') \<longrightarrow>
     (if r = Inr () then content (nodes w') p = Some b else nodes w' p = nodes w p) \<and>
     (\<forall>q. q \<noteq> p \<longrightarrow> q \<noteq> tmp_of p \<longrightarrow> nodes w' q = nodes w q))"

lemma writesI:
  assumes "\<And>w r w'. run_state m w = (r, w') \<Longrightarrow>
     (if r = Inr () then content (nodes w') p = Some b else nodes w' p = nodes w p) \<and>
     (\<forall>q. q \<noteq> p \<longrightarrow> q \<noteq> tmp_of p \<longrightarrow> nodes w' q = nodes w q)"
  shows "writes m p b"
  using assms by (simp add: writes_def)

lemma writesD:
  assumes "writes m p b" "run_state m w = (r, w')"
  shows "(if r = Inr () then content (nodes w') p = Some b else nodes w' p = nodes w p) \<and>
     (\<forall>q. q \<noteq> p \<longrightarrow> q \<noteq> tmp_of p \<longrightarrow> nodes w' q = nodes w q)"
  using assms by (simp add: writes_def)

lemma writes_private: "writes (write_private_file px p b) p b"
proof (rule writesI)
  fix w r w' assume run: "run_state (write_private_file px p b) w = (r, w')"
  have "same_off {tmp_of p} (nodes w) (nodes w)" by (simp add: same_off_def)
  from tripleD [OF t_write_private_file [of p "nodes w" b] this run]
  show "(if r = Inr () then content (nodes w') p = Some b else nodes w' p = nodes w p) \<and>
     (\<forall>q. q \<noteq> p \<longrightarrow> q \<noteq> tmp_of p \<longrightarrow> nodes w' q = nodes w q)"
    by (cases r) (auto simp: same_off_def content_def)
qed

lemma writes_preserving: "writes (write_preserving_mode px p b) p b"
proof (rule writesI)
  fix w r w' assume run: "run_state (write_preserving_mode px p b) w = (r, w')"
  from tripleD [OF t_write_preserving_mode [of "nodes w" p b] refl run]
  show "(if r = Inr () then content (nodes w') p = Some b else nodes w' p = nodes w p) \<and>
     (\<forall>q. q \<noteq> p \<longrightarrow> q \<noteq> tmp_of p \<longrightarrow> nodes w' q = nodes w q)"
    by (cases r) (auto simp: same_off_def content_def)
qed

text \<open>A private directory leaves the files alone; its path is not that of a file.\<close>

lemma t_ensure_private_dir:
  assumes "N p = None"
  shows "triple (files N) (ensure_private_dir px p) (\<lambda>r. files N)"
proof -
  have chmod: "triple (files N) (px_chmod px p m) (\<lambda>r. files N)" for m
  proof (rule tripleI)
    fix w r w' assume "files N w" "run_state (px_chmod px p m) w = (r, w')"
    then show "files N w'"
      using chmod_ok [of p m w] chmod_fails [of p m w] assms by (cases r) auto
  qed
  have mkdir: "triple (files N) (px_mkdir_all px p) (\<lambda>r. files N)" and stat: "triple (files N) (px_stat px p) (\<lambda>r. files N)"
    by (rule t_pure, simp add: pure)+
  have owner: "triple (files N) (owner_is_current_user px p) (\<lambda>r. files N)"
    unfolding owner_is_current_user_def
    by (rule try_lift [where R = "\<lambda>_. files N"], rule triple_weaken [OF stat])
      (simp_all add: triple_def split: prod.split)
  have last: "triple (files N) (try_bind (owner_is_current_user px p) (\<lambda>ours.
      State_Monad.return (if \<not> ours then Inl (HostError (ForeignOwnership p)) else Inr ()))) (\<lambda>r. files N)"
    by (rule triple_try [OF owner]) (simp_all add: triple_def)
  have "triple (files N) (try_bind (owner_only_dir px p) (\<lambda>_. try_bind (owner_is_current_user px p) (\<lambda>ours.
      State_Monad.return (if \<not> ours then Inl (HostError (ForeignOwnership p)) else Inr ())))) (\<lambda>r. files N)"
    unfolding owner_only_dir_def
    by (rule try_lift [where R = "\<lambda>_. files N"], rule triple_weaken [OF chmod]) (simp_all add: last)
  then show ?thesis unfolding ensure_private_dir_def
    by (intro try_lift [where R = "\<lambda>_. files N"] triple_weaken [OF mkdir]) simp_all
qed

lemma t_owner_only_deviation:
  assumes "N p = Some n"
  shows "triple (files N) (owner_only_deviation px p) (\<lambda>r s. files N s \<and>
    (r = Inr None \<longrightarrow> fn_mode n mod 512 = FILE_MODE))"
  unfolding owner_only_deviation_def
proof (rule try_lift [where R = "\<lambda>a s. files N s \<and> fst a = fn_mode n"])
  show "triple (files N) (px_stat px p) (\<lambda>r s.
      (\<forall>e. r = Inl e \<longrightarrow> files N s \<and> (Inl (io_error e) = Inr None \<longrightarrow> fn_mode n mod 512 = FILE_MODE)) \<and>
      (\<forall>a. r = Inr a \<longrightarrow> files N s \<and> fst a = fn_mode n))"
    by (rule triple_weaken [OF t_stat]) (use assms in auto)
qed (auto simp: triple_def Let_def split: prod.split)

text \<open>The lock file is the only one an acquisition can change.\<close>

lemma t_flock_loop: "triple (off {l} N) (flock_loop bounded retry busy n px l d) (\<lambda>_. off {l} N)"
proof (induction n)
  case (Suc n)
  let ?more = "flock_loop bounded retry busy n px l d"
  have "triple (off {l} N) (px_sleep px retry) (\<lambda>_. off {l} N)" by (rule t_off_pure) (simp add: pure)
  then have sleep: "triple (off {l} N) (State_Monad.bind (px_sleep px retry) (\<lambda>_. ?more)) (\<lambda>_. off {l} N)"
    by (rule triple_bind) (rule Suc.IH)
  have step: "keeps (off {l} N) (case rc of FR_Acquired \<Rightarrow> State_Monad.return (Some (Inr ()))
      | FR_WouldBlock \<Rightarrow> State_Monad.bind (sget (px_instant px)) (\<lambda>tm.
          if tm \<ge> d then State_Monad.return (Some (Inl busy)) else State_Monad.bind (px_sleep px retry) (\<lambda>_. ?more))
      | FR_Interrupted \<Rightarrow> State_Monad.bind (sget (px_instant px)) (\<lambda>tm.
          if bounded \<and> tm \<ge> d then State_Monad.return (Some (Inl busy)) else ?more)
      | FR_Error err \<Rightarrow> State_Monad.return (Some (Inl (Io err))))" for rc
    using sleep Suc.IH by (cases rc) (auto intro!: keeps_bind keeps_sget triple_if keeps_return)
  have "keeps (off {l} N) (px_flock px l)" by (rule t_off_pure) (simp add: pure)
  from keeps_bind [OF this step] show ?case by simp
qed (simp add: keeps_return)

lemma t_flock_acquire: "keeps (off {l} N) (flock_acquire bounded retry busy fuel px l max_wait)"
proof -
  have "keeps (off {l} N) (px_open_lock px l FILE_MODE)"
    using open_lock_other by (auto simp: triple_def same_off_def)
  then have "keeps (off {l} N) (lift_io (px_open_lock px l FILE_MODE))"
    by (intro t_lift) (erule triple_weaken, simp_all)
  then show ?thesis unfolding flock_acquire_def
    by (rule keeps_bind) (auto split: sum.split intro!: keeps_return keeps_bind keeps_sget t_flock_loop)
qed

lemma t_with_flock:
  assumes "triple (off {l} N) body (\<lambda>r s. Q r (nodes s))" "\<And>e M. same_off {l} N M \<Longrightarrow> Q (Inl e) M"
  shows "triple (off {l} N) (with_flock (flock_acquire bounded retry busy fuel px l max_wait) e px l body)
    (\<lambda>r s. Q r (nodes s))"
proof -
  have "triple (off {l} N) (State_Monad.bind body (\<lambda>r. State_Monad.bind (px_unlock px l) (\<lambda>_. State_Monad.return r)))
      (\<lambda>r s. Q r (nodes s))"
    by (rule triple_bind [OF assms(1)]) (simp add: triple_def split_beta pure)
  moreover have "triple (off {l} N) (State_Monad.return (Inl x)) (\<lambda>r s. Q r (nodes s))" for x
    using assms(2) by (auto simp: triple_def)
  ultimately show ?thesis unfolding with_flock_def
    by (intro triple_bind [OF t_flock_acquire]) (simp split: option.split sum.split)
qed

end

section \<open>How long an acquisition can take\<close>

text \<open>
  Sleeping moves the clock on; a call is interrupted only by a signal, of which \<open>sig w\<close> are still to come.
\<close>

definition flock_progress :: "'w posix \<Rightarrow> ('w \<Rightarrow> nat) \<Rightarrow> bool" where
  "flock_progress px sig \<longleftrightarrow>
     (\<forall>w t. px_instant px w + t \<le> px_instant px (exec (px_sleep px t) w) \<and> sig (exec (px_sleep px t) w) \<le> sig w) \<and>
     (\<forall>w p. px_instant px w \<le> px_instant px (exec (px_flock px p) w) \<and>
        (if res (px_flock px p) w = FR_Interrupted then sig (exec (px_flock px p) w) < sig w
         else sig (exec (px_flock px p) w) \<le> sig w)) \<and>
     (\<forall>w p m. sig (exec (px_open_lock px p m) w) \<le> sig w)"

lemma flock_loop_returns:
  assumes p: "flock_progress px sig"
  shows "deadline \<le> px_instant px w + n * retry \<Longrightarrow> Suc n + sig w \<le> fuel \<Longrightarrow>
    res (flock_loop bounded retry busy fuel px path deadline) w \<noteq> None"
proof (induction fuel arbitrary: w n)
  case (Suc fuel)
  let ?w1 = "exec (px_flock px path) w"
  have mono: "px_instant px w \<le> px_instant px ?w1" using p by (simp add: flock_progress_def)
  show ?case
  proof (cases "res (px_flock px path) w")
    case FR_Interrupted
    then have "sig ?w1 < sig w" using p by (auto simp: flock_progress_def split: if_splits)
    then have "res (flock_loop bounded retry busy fuel px path deadline) ?w1 \<noteq> None"
      using Suc.prems mono by (intro Suc.IH [of ?w1 n]) auto
    with FR_Interrupted show ?thesis by (simp add: split_beta)
  next
    case FR_WouldBlock
    then have sig: "sig ?w1 \<le> sig w" using p by (auto simp: flock_progress_def split: if_splits)
    show ?thesis
    proof (cases n)
      case 0
      then have "deadline \<le> px_instant px ?w1" using Suc.prems mono by simp
      with FR_WouldBlock show ?thesis by (simp add: split_beta)
    next
      case (Suc k)
      let ?w2 = "exec (px_sleep px retry) ?w1"
      have "px_instant px ?w1 + retry \<le> px_instant px ?w2" "sig ?w2 \<le> sig ?w1"
        using p by (simp_all add: flock_progress_def)
      then have "res (flock_loop bounded retry busy fuel px path deadline) ?w2 \<noteq> None"
        using Suc.prems mono sig Suc by (intro Suc.IH [of ?w2 k]) auto
      with FR_WouldBlock show ?thesis by (simp add: split_beta)
    qed
  qed (simp_all add: split_beta)
qed simp

section \<open>An in-memory file system\<close>

text \<open>
  The files as an association list, a clock that only sleeping moves, and a list of faults: each call
  but a read or a listing takes the next one, and fails when it is \<open>True\<close>. A write that fails has written half of
  its bytes.
\<close>

record mem_fs =
  mf_files :: "(string \<times> fnode) list"
  mf_faults :: "bool list"
  mf_time :: nat
  mf_wall :: nat

definition mem_nodes :: "mem_fs \<Rightarrow> string \<Rightarrow> fnode option" where
  "mem_nodes w = map_of (mf_files w)"

definition mem_fault :: "mem_fs \<Rightarrow> bool" where
  "mem_fault w \<longleftrightarrow> mf_faults w \<noteq> [] \<and> hd (mf_faults w)"

definition mem_call :: "(mem_fs \<Rightarrow> fs_error + 'a) \<Rightarrow> (mem_fs \<Rightarrow> mem_fs) \<Rightarrow> (mem_fs \<Rightarrow> mem_fs) \<Rightarrow> (mem_fs, fs_error + 'a) state" where
  "mem_call result effect failed = State (\<lambda>w.
     let w' = w\<lparr>mf_faults := tl (mf_faults w)\<rparr> in
     if mem_fault w then (Inl (FS_Other ''fault''), failed w')
     else (case result w' of Inl e \<Rightarrow> (Inl e, w') | Inr a \<Rightarrow> (Inr a, effect w')))"

definition mem_put :: "string \<Rightarrow> fnode \<Rightarrow> mem_fs \<Rightarrow> mem_fs" where
  "mem_put p n w = w\<lparr>mf_files := AList.update p n (mf_files w)\<rparr>"

definition mem_drop :: "string \<Rightarrow> mem_fs \<Rightarrow> mem_fs" where
  "mem_drop p w = w\<lparr>mf_files := AList.delete p (mf_files w)\<rparr>"

definition mem_edit :: "string \<Rightarrow> (fnode \<Rightarrow> fnode) \<Rightarrow> mem_fs \<Rightarrow> mem_fs" where
  "mem_edit p f w = (case mem_nodes w p of None \<Rightarrow> w | Some n \<Rightarrow> mem_put p (f n) w)"

definition mem_names :: "string \<Rightarrow> mem_fs \<Rightarrow> string list" where
  "mem_names d w = remdups (map path_file_name (filter (\<lambda>p. path_parent p = d \<and> mem_nodes w p \<noteq> None \<and>
     p = path_join d (path_file_name p)) (map fst (mf_files w))))"

definition mem_px :: "mem_fs posix" where
  "mem_px = \<lparr>
     px_read = (\<lambda>p. State (\<lambda>w. (case mem_nodes w p of None \<Rightarrow> Inl FS_NotFound | Some n \<Rightarrow> Inr (fn_bytes n), w))),
     px_stat = (\<lambda>p. mem_call (\<lambda>w. case mem_nodes w p of None \<Rightarrow> Inl FS_NotFound | Some n \<Rightarrow> Inr (fn_mode n, fn_uid n)) id id),
     px_create_new = (\<lambda>p m. mem_call
       (\<lambda>w. if mem_nodes w p = None then Inr () else Inl (FS_Other ''exists''))
       (mem_put p \<lparr>fn_bytes = [], fn_mode = m, fn_uid = 501\<rparr>) id),
     px_open_append = (\<lambda>p m. mem_call (\<lambda>_. Inr ())
       (\<lambda>w. if mem_nodes w p = None then mem_put p \<lparr>fn_bytes = [], fn_mode = m, fn_uid = 501\<rparr> w else w) id),
     px_open_lock = (\<lambda>p m. mem_call (\<lambda>_. Inr ()) id id),
     px_write_all = (\<lambda>p b. mem_call (\<lambda>_. Inr ())
       (mem_edit p (\<lambda>n. n\<lparr>fn_bytes := fn_bytes n @ b\<rparr>))
       (mem_edit p (\<lambda>n. n\<lparr>fn_bytes := fn_bytes n @ take (length b div 2) b\<rparr>))),
     px_sync_all = (\<lambda>p. mem_call (\<lambda>_. Inr ()) id id),
     px_rename = (\<lambda>p q. mem_call (\<lambda>w. if mem_nodes w p = None then Inl FS_NotFound else Inr ())
       (\<lambda>w. case mem_nodes w p of None \<Rightarrow> w | Some n \<Rightarrow> mem_put q n (mem_drop p w)) id),
     px_remove = (\<lambda>p. mem_call (\<lambda>w. if mem_nodes w p = None then Inl FS_NotFound else Inr ()) (mem_drop p) id),
     px_chmod = (\<lambda>p m. mem_call (\<lambda>_. Inr ()) (mem_edit p (\<lambda>n. n\<lparr>fn_mode := m\<rparr>)) id),
     px_mkdir_all = (\<lambda>p. mem_call (\<lambda>_. Inr ()) id id),
     px_read_dir = (\<lambda>d. State (\<lambda>w. (Inr (map Inr (mem_names d w)), w))),
     px_flock = (\<lambda>p. State (\<lambda>w. (if mem_fault w then FR_WouldBlock else FR_Acquired, w\<lparr>mf_faults := tl (mf_faults w)\<rparr>))),
     px_unlock = (\<lambda>p. State_Monad.return ()),
     px_sleep = (\<lambda>t. State (\<lambda>w. ((), w\<lparr>mf_time := mf_time w + t\<rparr>))),
     px_instant = mf_time, px_wall = mf_wall, px_uid = 501\<rparr>"

lemma mem_nodes_simps [simp]:
  "mem_nodes (w\<lparr>mf_faults := f\<rparr>) = mem_nodes w" "mem_nodes (w\<lparr>mf_time := t\<rparr>) = mem_nodes w"
  "mem_nodes (mem_put p n w) = (mem_nodes w)(p \<mapsto> n)" "mem_nodes (mem_drop p w) = (mem_nodes w)(p := None)"
  by (simp_all add: mem_nodes_def mem_put_def mem_drop_def update_conv' delete_conv')

lemma mem_nodes_edit:
  "mem_nodes (mem_edit p f w) = (case mem_nodes w p of None \<Rightarrow> mem_nodes w | Some n \<Rightarrow> (mem_nodes w)(p \<mapsto> f n))"
  by (simp add: mem_edit_def split: option.split)

lemma entry_names_map [simp]: "entry_names (map Inr xs) = xs" "any_entry_error (map Inr xs) = None"
  by (induction xs) (simp_all add: entry_names_def List.map_filter_simps)

lemma path_file_name_no_slash: "CHR ''/'' \<notin> set (path_file_name p)"
  by (auto simp: path_file_name_def dest: set_takeWhileD)

lemma mem_names_all:
  assumes "mem_nodes w (path_join d name) \<noteq> None" "CHR ''/'' \<notin> set name"
  shows "name \<in> set (mem_names d w)"
proof -
  have "path_join d name \<in> fst ` set (mf_files w)" using assms(1) by (auto simp: mem_nodes_def map_of_eq_None_iff)
  with assms show ?thesis unfolding mem_names_def by (auto intro!: image_eqI [where x = "path_join d name"])
qed

lemma mem_names_props: "distinct (mem_names d w)" "f \<in> set (mem_names d w) \<Longrightarrow> CHR ''/'' \<notin> set f"
  by (auto simp: mem_names_def path_file_name_no_slash)

interpretation mem: posix_files mem_px mem_nodes
  by unfold_locales
    (auto simp: mem_px_def mem_call_def Let_def mem_nodes_edit mem_names_all path_file_name_no_slash
      mem_names_props split: option.splits if_splits)

definition mem_empty :: mem_fs where
  "mem_empty = \<lparr>mf_files = [], mf_faults = [], mf_time = 0, mf_wall = 0\<rparr>"

section \<open>Properties\<close>

text \<open>
  C21: An atomic write leaves the file with the new content and the owner-only mode, or, on whatever failure,
  with what it held: the file is never seen half written, and no other file but the staging one changes.
\<close>

theorem write_private_file_atomic:
  assumes "posix_files px nodes" "run_state (write_private_file px path contents) w = (r, w')"
  shows "(r = Inr () \<longrightarrow> nodes w' path = Some \<lparr>fn_bytes = contents, fn_mode = FILE_MODE, fn_uid = px_uid px\<rparr> \<and>
      nodes w' (tmp_of path) = None) \<and>
    (r \<noteq> Inr () \<longrightarrow> nodes w' path = nodes w path) \<and>
    (\<forall>q. q \<noteq> path \<and> q \<noteq> tmp_of path \<longrightarrow> nodes w' q = nodes w q)"
proof -
  have "same_off {tmp_of path} (nodes w) (nodes w)" by (simp add: same_off_def)
  from tripleD [OF posix_files.t_write_private_file [OF assms(1), of path "nodes w" contents] this assms(2)]
  show ?thesis by (cases r) (auto simp: same_off_def)
qed

theorem write_private_file_atomic_witness:
  "mem_nodes (snd (run_state (write_private_file mem_px ''/a/f'' [1, 2])
     (mem_put ''/a/f'' \<lparr>fn_bytes = [9], fn_mode = 0, fn_uid = 0\<rparr> (mem_empty\<lparr>mf_faults := [False, False, True]\<rparr>)))) ''/a/f'' =
   Some \<lparr>fn_bytes = [9], fn_mode = 0, fn_uid = 0\<rparr>"
proof -
  let ?w = "mem_put ''/a/f'' \<lparr>fn_bytes = [9], fn_mode = 0, fn_uid = 0\<rparr> (mem_empty\<lparr>mf_faults := [False, False, True]\<rparr>)"
  have r: "fst (run_state (write_private_file mem_px ''/a/f'' [1, 2]) ?w) \<noteq> Inr ()"
    by (simp add: write_private_file_def run_try_bind lift_io_def split_beta mem_px_def mem_call_def Let_def
        mem_fault_def mem_empty_def mem_put_def tmp_of_def mem_nodes_def)
  obtain x w' where run: "run_state (write_private_file mem_px ''/a/f'' [1, 2]) ?w = (x, w')" by fastforce
  from write_private_file_atomic [OF mem.posix_files_axioms run] r run show ?thesis by simp
qed

text \<open>
  C33: Acquiring one of these locks returns: on a clock that sleeping moves on and with finitely many signals
  to come, the loop ends within \<open>max_wait / retry + 2\<close> rounds and one more for each signal.
\<close>

theorem flock_acquire_returns:
  assumes "flock_progress px sig" "0 < retry" "Suc (Suc (max_wait div retry)) + sig w \<le> fuel"
  shows "fst (run_state (flock_acquire bounded retry busy fuel px path max_wait) w) \<noteq> None"
proof (cases "res (lift_io (px_open_lock px path FILE_MODE)) w")
  case (Inl e)
  then show ?thesis by (simp add: flock_acquire_def split_beta)
next
  case (Inr u)
  let ?w = "exec (lift_io (px_open_lock px path FILE_MODE)) w"
  have "?w = exec (px_open_lock px path FILE_MODE) w" by (simp add: lift_io_def split_beta)
  then have "sig ?w \<le> sig w" using assms(1) by (simp add: flock_progress_def)
  moreover have "max_wait \<le> Suc (max_wait div retry) * retry"
    using dividend_less_div_times [OF assms(2), of max_wait] by simp
  ultimately have "res (flock_loop bounded retry busy fuel px path (px_instant px ?w + max_wait)) ?w \<noteq> None"
    using assms(3) by (intro flock_loop_returns [OF assms(1), of _ _ "Suc (max_wait div retry)"]) simp_all
  then show ?thesis using Inr by (simp add: flock_acquire_def split_beta)
qed

theorem flock_acquire_returns_witness:
  "fst (run_state (flock_acquire True 20000000 ConfigWriteLockBusy 252 mem_px ''/c/config.toml.lock'' (from_secs 5))
     (mem_empty\<lparr>mf_faults := [False, True, True]\<rparr>)) \<noteq> None"
proof (rule flock_acquire_returns [where sig = "\<lambda>_. 0"])
  show "flock_progress mem_px (\<lambda>_. 0)"
    by (simp add: flock_progress_def mem_px_def mem_call_def Let_def)
qed (simp_all add: from_secs_def NANOS_PER_SEC_def)

end
