(* ===== verification/Usage_Rollup.thy ===== *)
theory Usage_Rollup
  imports F64 "HOL-Library.Multiset"
begin

text \<open>
  The pure half of \<open>src/usage_store.rs\<close> and \<open>src/percentile.rs\<close>: a sample, the hourly and daily tiers of
  the rollup, how a batch of aged samples is folded into them, and the plan of one compaction pass
  (\<open>plan_roll\<close>). Times are epoch seconds on unbounded \<open>int\<close>; every \<open>u32\<close> count is a \<open>nat\<close> kept below
  \<open>2 ^ 32\<close> by the wrap of a release build (\<open>u32_wrap\<close>). A \<open>BTreeMap\<close> from a key to the list of its
  samples is an association list in ascending order of keys.
\<close>

section \<open>Samples and buckets\<close>

definition HOUR_SECS :: int where "HOUR_SECS = 3600"
definition DAY_SECS :: int where "DAY_SECS = 86400"
definition DEFAULT_RAW_WINDOW_SECS :: int where "DEFAULT_RAW_WINDOW_SECS = 14 * DAY_SECS"
definition DEFAULT_HOURLY_WINDOW_SECS :: int where "DEFAULT_HOURLY_WINDOW_SECS = 90 * DAY_SECS"
definition DEFAULT_POLL_INTERVAL_SECS :: int where "DEFAULT_POLL_INTERVAL_SECS = 300"
definition CAP_FRACTION :: f64 where "CAP_FRACTION = Fin 1"
definition P95 :: f64 where "P95 = to_f64 (95 / 100)"

record sample =
  smp_ts :: int
  smp_provider :: string
  smp_acct :: string
  smp_session :: "f64 option"
  smp_weekly :: "f64 option"
  smp_session_resets_at :: "int option"
  smp_weekly_resets_at :: "int option"
  smp_severity :: "string option"
  smp_spend :: "f64 option"

definition Sample_new :: "int \<Rightarrow> string \<Rightarrow> string \<Rightarrow> f64 option \<Rightarrow> f64 option \<Rightarrow> sample" where
  "Sample_new ts provider acct sess week =
     \<lparr>smp_ts = ts, smp_provider = provider, smp_acct = acct, smp_session = sess, smp_weekly = week,
      smp_session_resets_at = None, smp_weekly_resets_at = None, smp_severity = None, smp_spend = None\<rparr>"

definition with_resets :: "sample \<Rightarrow> int option \<Rightarrow> int option \<Rightarrow> sample" where
  "with_resets s sr wr = s\<lparr>smp_session_resets_at := sr, smp_weekly_resets_at := wr\<rparr>"

definition with_severity :: "sample \<Rightarrow> string option \<Rightarrow> sample" where
  "with_severity s sev = s\<lparr>smp_severity := sev\<rparr>"

definition with_spend :: "sample \<Rightarrow> f64 option \<Rightarrow> sample" where
  "with_spend s spend = s\<lparr>smp_spend := spend\<rparr>"

record hour_stat =
  hs_max :: f64
  hs_mean :: f64
  hs_samples :: "nat option"

record hour_bucket =
  hb_start :: int
  hb_count :: nat
  hb_session :: "hour_stat option"
  hb_weekly :: "hour_stat option"

record day_stat =
  ds_max :: f64
  ds_mean :: f64
  ds_p95 :: f64
  ds_cap_hits :: nat
  ds_samples :: "nat option"

record day_bucket =
  db_start :: int
  db_count :: nat
  db_coverage :: f64
  db_session :: "day_stat option"
  db_weekly :: "day_stat option"

record rollup =
  rolled_through_ts :: int
  hourly :: "hour_bucket list"
  daily :: "day_bucket list"

definition rollup_default :: rollup where
  "rollup_default = \<lparr>rolled_through_ts = 0, hourly = [], daily = []\<rparr>"

record retention_policy =
  raw_window_secs :: int
  hourly_window_secs :: int
  daily_window_secs :: int
  rp_poll_interval_secs :: int

definition retention_policy_default :: retention_policy where
  "retention_policy_default =
     \<lparr>raw_window_secs = DEFAULT_RAW_WINDOW_SECS, hourly_window_secs = DEFAULT_HOURLY_WINDOW_SECS,
      daily_window_secs = 0, rp_poll_interval_secs = DEFAULT_POLL_INTERVAL_SECS\<rparr>"

record roll_summary =
  rs_rolled_through_ts :: int
  rs_raw_lines :: nat

definition u32_wrap :: "nat \<Rightarrow> nat" where
  "u32_wrap n = n mod 2 ^ 32"

definition day_start :: "int \<Rightarrow> int" where "day_start ts = ts - ts mod DAY_SECS"
definition hour_start :: "int \<Rightarrow> int" where "hour_start ts = ts - ts mod HOUR_SECS"

section \<open>Statistics of a list of readings\<close>

fun f_ceil :: "f64 \<Rightarrow> f64" where
  "f_ceil (Fin a) = Fin (of_int \<lceil>a\<rceil>)"
| "f_ceil x = x"

text \<open>The rank \<open>(p * n).ceil() as usize\<close>, clamped into \<open>1..=n\<close>.\<close>

definition percentile_rank :: "f64 \<Rightarrow> nat \<Rightarrow> nat" where
  "percentile_rank p n = max 1 (min (f_as_uint U64_MAX (f_ceil (f_mul p (f_of_nat n)))) n)"

definition percentile :: "f64 list \<Rightarrow> f64 \<Rightarrow> f64" where
  "percentile xs p = (if xs = [] then Fin 0 else sort xs ! (percentile_rank p (length xs) - 1))"

definition max_of :: "f64 list \<Rightarrow> f64" where
  "max_of xs = foldl f_max NInf xs"

definition mean_of :: "f64 list \<Rightarrow> f64" where
  "mean_of xs = (if xs = [] then Fin 0 else f_div (foldl f_add (Fin 0) xs) (f_of_nat (length xs)))"

definition p95_of :: "f64 list \<Rightarrow> f64" where
  "p95_of xs = percentile xs P95"

definition hour_stat_of :: "f64 list \<Rightarrow> hour_stat option" where
  "hour_stat_of xs =
     (if xs \<noteq> [] then Some \<lparr>hs_max = max_of xs, hs_mean = mean_of xs, hs_samples = Some (u32_wrap (length xs))\<rparr>
      else None)"

definition day_stat_of :: "f64 list \<Rightarrow> day_stat" where
  "day_stat_of xs =
     \<lparr>ds_max = max_of xs, ds_mean = mean_of xs, ds_p95 = p95_of xs,
      ds_cap_hits = u32_wrap (length (filter (\<lambda>x. f_ge x CAP_FRACTION) xs)),
      ds_samples = Some (u32_wrap (length xs))\<rparr>"

definition expected_per_day :: "retention_policy \<Rightarrow> f64" where
  "expected_per_day pol = f_of_nat (nat (max (DAY_SECS div max (rp_poll_interval_secs pol) 1) 1))"

section \<open>Merging\<close>

definition weighted_mean :: "f64 \<Rightarrow> nat \<Rightarrow> f64 \<Rightarrow> nat \<Rightarrow> f64" where
  "weighted_mean a_mean a_count b_mean b_count =
     (let all = f_add (f_of_nat a_count) (f_of_nat b_count)
      in if all = Fin 0 then Fin 0
         else f_div (f_add (f_mul a_mean (f_of_nat a_count)) (f_mul b_mean (f_of_nat b_count))) all)"

fun merged_mean :: "f64 \<times> nat option \<times> nat \<Rightarrow> f64 \<times> nat option \<times> nat \<Rightarrow> f64 \<times> nat option" where
  "merged_mean (a_mean, Some n_a, a_count) (b_mean, Some n_b, b_count) =
     (weighted_mean a_mean n_a b_mean n_b, Some (u32_wrap (n_a + n_b)))"
| "merged_mean (a_mean, _, a_count) (b_mean, _, b_count) = (weighted_mean a_mean a_count b_mean b_count, None)"

fun merge_hour_stat :: "hour_stat option \<Rightarrow> nat \<Rightarrow> hour_stat option \<Rightarrow> nat \<Rightarrow> hour_stat option" where
  "merge_hour_stat None _ None _ = None"
| "merge_hour_stat (Some x) _ None _ = Some x"
| "merge_hour_stat None _ (Some x) _ = Some x"
| "merge_hour_stat (Some a) a_count (Some b) b_count =
     (case merged_mean (hs_mean a, hs_samples a, a_count) (hs_mean b, hs_samples b, b_count) of
        (mean, samples) \<Rightarrow> Some \<lparr>hs_max = f_max (hs_max a) (hs_max b), hs_mean = mean, hs_samples = samples\<rparr>)"

fun merge_day_stat :: "day_stat option \<Rightarrow> nat \<Rightarrow> day_stat option \<Rightarrow> nat \<Rightarrow> day_stat option" where
  "merge_day_stat None _ None _ = None"
| "merge_day_stat (Some x) _ None _ = Some x"
| "merge_day_stat None _ (Some x) _ = Some x"
| "merge_day_stat (Some a) a_count (Some b) b_count =
     (case merged_mean (ds_mean a, ds_samples a, a_count) (ds_mean b, ds_samples b, b_count) of
        (mean, samples) \<Rightarrow> Some \<lparr>ds_max = f_max (ds_max a) (ds_max b), ds_mean = mean,
          ds_p95 = f_max (ds_p95 a) (ds_p95 b), ds_cap_hits = u32_wrap (ds_cap_hits a + ds_cap_hits b),
          ds_samples = samples\<rparr>)"

text \<open>The first bucket with the key of the new one absorbs it; without one it is pushed at the end.\<close>

fun upsert :: "('b \<Rightarrow> int) \<Rightarrow> ('b \<Rightarrow> 'b \<Rightarrow> 'b) \<Rightarrow> 'b list \<Rightarrow> 'b \<Rightarrow> 'b list" where
  "upsert key merge [] b = [b]"
| "upsert key merge (e # es) b = (if key e = key b then merge e b # es else e # upsert key merge es b)"

definition merge_hour :: "hour_bucket \<Rightarrow> hour_bucket \<Rightarrow> hour_bucket" where
  "merge_hour e b = e\<lparr>
     hb_session := merge_hour_stat (hb_session e) (hb_count e) (hb_session b) (hb_count b),
     hb_weekly := merge_hour_stat (hb_weekly e) (hb_count e) (hb_weekly b) (hb_count b),
     hb_count := u32_wrap (hb_count e + hb_count b)\<rparr>"

definition upsert_hour :: "rollup \<Rightarrow> hour_bucket \<Rightarrow> rollup" where
  "upsert_hour r b = r\<lparr>hourly := upsert hb_start merge_hour (hourly r) b\<rparr>"

definition coverage_of :: "nat \<Rightarrow> f64 \<Rightarrow> f64" where
  "coverage_of n expected = f_min (f_div (f_of_nat n) expected) (Fin 1)"

definition merge_day :: "f64 \<Rightarrow> day_bucket \<Rightarrow> day_bucket \<Rightarrow> day_bucket" where
  "merge_day expected e b = e\<lparr>
     db_session := merge_day_stat (db_session e) (db_count e) (db_session b) (db_count b),
     db_weekly := merge_day_stat (db_weekly e) (db_count e) (db_weekly b) (db_count b),
     db_count := u32_wrap (db_count e + db_count b),
     db_coverage := coverage_of (u32_wrap (db_count e + db_count b)) expected\<rparr>"

definition upsert_day :: "rollup \<Rightarrow> day_bucket \<Rightarrow> f64 \<Rightarrow> rollup" where
  "upsert_day r b expected = r\<lparr>daily := upsert db_start (merge_day expected) (daily r) b\<rparr>"

section \<open>Folding a batch\<close>

text \<open>\<open>BTreeMap::entry(k).or_default().push(x)\<close>, and the map built from a batch in its order.\<close>

fun push_entry :: "int \<Rightarrow> 'a \<Rightarrow> (int \<times> 'a list) list \<Rightarrow> (int \<times> 'a list) list" where
  "push_entry k x [] = [(k, [x])]"
| "push_entry k x ((j, xs) # m) =
     (if k < j then (k, [x]) # (j, xs) # m
      else if k = j then (j, xs @ [x]) # m
      else (j, xs) # push_entry k x m)"

definition group_by :: "('a \<Rightarrow> int) \<Rightarrow> 'a list \<Rightarrow> (int \<times> 'a list) list" where
  "group_by key xs = fold (\<lambda>x m. push_entry (key x) x m) xs []"

definition readings :: "(sample \<Rightarrow> f64 option) \<Rightarrow> sample list \<Rightarrow> f64 list" where
  "readings d ss = List.map_filter d ss"

definition hour_bucket_of :: "int \<Rightarrow> sample list \<Rightarrow> hour_bucket" where
  "hour_bucket_of hour ss =
     \<lparr>hb_start = hour, hb_count = u32_wrap (length ss),
      hb_session = hour_stat_of (readings smp_session ss), hb_weekly = hour_stat_of (readings smp_weekly ss)\<rparr>"

definition day_bucket_of :: "f64 \<Rightarrow> int \<Rightarrow> sample list \<Rightarrow> day_bucket" where
  "day_bucket_of expected day ss =
     (let sess = readings smp_session ss; week = readings smp_weekly ss; n = u32_wrap (length ss)
      in \<lparr>db_start = day, db_count = n, db_coverage = coverage_of n expected,
          db_session = (if sess \<noteq> [] then Some (day_stat_of sess) else None),
          db_weekly = (if week \<noteq> [] then Some (day_stat_of week) else None)\<rparr>)"

definition fold_day :: "f64 \<Rightarrow> int \<times> sample list \<Rightarrow> rollup \<Rightarrow> rollup" where
  "fold_day expected = (\<lambda>(day, ss) r.
     upsert_day (fold (\<lambda>(hour, hs) r. upsert_hour r (hour_bucket_of hour hs)) (group_by (hour_start \<circ> smp_ts) ss) r)
       (day_bucket_of expected day ss) expected)"

definition fold_into_tiers :: "rollup \<Rightarrow> sample list \<Rightarrow> retention_policy \<Rightarrow> rollup" where
  "fold_into_tiers r batch pol = fold (fold_day (expected_per_day pol)) (group_by (day_start \<circ> smp_ts) batch) r"

section \<open>One compaction pass\<close>

definition day_fully_aged :: "retention_policy \<Rightarrow> int \<Rightarrow> int \<Rightarrow> bool" where
  "day_fully_aged pol now ts \<longleftrightarrow> day_start ts + DAY_SECS \<le> now - raw_window_secs pol"

definition split_aged ::
  "retention_policy \<Rightarrow> int \<Rightarrow> int \<Rightarrow> sample list \<Rightarrow> sample list \<times> sample list" where
  "split_aged pol now through samples =
     fold (\<lambda>s (retained, to_roll).
       if \<not> day_fully_aged pol now (smp_ts s) then (retained @ [s], to_roll)
       else if smp_ts s > through then (retained, to_roll @ [s])
       else (retained, to_roll)) samples ([], [])"

definition prune_and_sort :: "retention_policy \<Rightarrow> int \<Rightarrow> rollup \<Rightarrow> rollup" where
  "prune_and_sort pol now r =
     (let kept_hours = filter (\<lambda>b. hb_start b \<ge> now - hourly_window_secs pol) (hourly r);
          kept_days = (if daily_window_secs pol > 0
                       then filter (\<lambda>b. db_start b \<ge> now - daily_window_secs pol) (daily r) else daily r)
      in r\<lparr>hourly := sort_key hb_start kept_hours, daily := sort_key db_start kept_days\<rparr>)"

definition plan_roll ::
  "sample list \<Rightarrow> rollup \<Rightarrow> int \<Rightarrow> retention_policy \<Rightarrow> sample list \<times> rollup \<times> roll_summary" where
  "plan_roll samples r now pol =
     (case split_aged pol now (rolled_through_ts r) samples of
        (retained, to_roll) \<Rightarrow>
          (let raw_lines = u32_wrap (length to_roll);
               folded = (if to_roll = [] then r
                         else (fold_into_tiers r to_roll pol)\<lparr>rolled_through_ts :=
                                max (rolled_through_ts r) (Max (set (map smp_ts to_roll)))\<rparr>);
               pruned = prune_and_sort pol now folded
           in (sort_key smp_ts retained, pruned,
               \<lparr>rs_rolled_through_ts = rolled_through_ts pruned, rs_raw_lines = raw_lines\<rparr>)))"

section \<open>Percentiles\<close>

lemma percentile_rank_bounds: "0 < n \<Longrightarrow> 1 \<le> percentile_rank p n \<and> percentile_rank p n \<le> n"
  by (auto simp: percentile_rank_def)

lemma sorted_nth_count_le:
  fixes xs :: "'a::linorder list"
  assumes "sorted xs" "i < length xs"
  shows "Suc i \<le> length (filter (\<lambda>x. x \<le> xs ! i) xs)"
proof -
  have "filter (\<lambda>x. x \<le> xs ! i) (take (Suc i) xs) = take (Suc i) xs"
    using assms by (intro filter_True) (auto simp: in_set_conv_nth sorted_iff_nth_mono)
  then have "length (filter (\<lambda>x. x \<le> xs ! i) (take (Suc i) xs)) = Suc i" using assms(2) by simp
  moreover have "filter (\<lambda>x. x \<le> xs ! i) xs =
      filter (\<lambda>x. x \<le> xs ! i) (take (Suc i) xs) @ filter (\<lambda>x. x \<le> xs ! i) (drop (Suc i) xs)"
    by (metis append_take_drop_id filter_append)
  ultimately show ?thesis by simp
qed

lemma sorted_nth_count_less:
  fixes xs :: "'a::linorder list"
  assumes "sorted xs" "i < length xs"
  shows "length (filter (\<lambda>x. x < xs ! i) xs) \<le> i"
proof -
  have "filter (\<lambda>x. x < xs ! i) (drop i xs) = []"
    using assms by (auto simp: filter_empty_conv in_set_conv_nth sorted_iff_nth_mono not_less)
  then have "filter (\<lambda>x. x < xs ! i) xs = filter (\<lambda>x. x < xs ! i) (take i xs)"
    by (metis append.right_neutral append_take_drop_id filter_append)
  then show ?thesis using length_filter_le [of "\<lambda>x. x < xs ! i" "take i xs"] by simp
qed

lemma length_filter_sort: "length (filter P (sort xs)) = length (filter P xs)"
  by (metis mset_filter mset_sort size_mset)

lemma percentile_counts:
  assumes "xs \<noteq> []"
  shows "percentile xs p \<in> set xs"
    and "percentile_rank p (length xs) \<le> length (filter (\<lambda>x. x \<le> percentile xs p) xs)"
    and "length (filter (\<lambda>x. x < percentile xs p) xs) < percentile_rank p (length xs)"
proof -
  let ?i = "percentile_rank p (length xs) - 1"
  have b: "1 \<le> percentile_rank p (length xs)" "percentile_rank p (length xs) \<le> length xs"
    using percentile_rank_bounds [of "length xs" p] assms by auto
  then have i: "?i < length (sort xs)" by simp
  have v: "percentile xs p = sort xs ! ?i" using assms by (simp add: percentile_def)
  show "percentile xs p \<in> set xs" unfolding v using i by (metis nth_mem set_sort)
  show "percentile_rank p (length xs) \<le> length (filter (\<lambda>x. x \<le> percentile xs p) xs)"
    using sorted_nth_count_le [OF sorted_sort i] b unfolding v length_filter_sort by simp
  show "length (filter (\<lambda>x. x < percentile xs p) xs) < percentile_rank p (length xs)"
    using sorted_nth_count_less [OF sorted_sort i] b unfolding v length_filter_sort by simp
qed

text \<open>A value with at least the rank's number of readings at or below it bounds the percentile.\<close>

lemma percentile_le:
  assumes "xs \<noteq> []" "percentile_rank p (length xs) \<le> length (filter (\<lambda>x. x \<le> v) xs)"
  shows "percentile xs p \<le> v"
proof (rule ccontr)
  assume "\<not> percentile xs p \<le> v"
  then have "v < percentile xs p" by simp
  then have "length (filter (\<lambda>x. x \<le> v) ys) \<le> length (filter (\<lambda>x. x < percentile xs p) ys)" for ys
    by (induction ys) auto
  from this [of xs]
  have "length (filter (\<lambda>x. x \<le> v) xs) \<le> length (filter (\<lambda>x. x < percentile xs p) xs)" .
  with percentile_counts(3) [OF assms(1), of p] assms(2) show False by simp
qed

text \<open>
  The relative error of the rounding, and with it the rank of the 95th percentile: although \<open>0.95\<close> is
  not a binary fraction, the computed rank of up to \<open>2 ^ 40\<close> readings is exactly \<open>\<lceil>19 n / 20\<rceil>\<close>.
\<close>

lemma rnd_error:
  assumes "1 \<le> q"
  shows "\<bar>rnd q - q\<bar> \<le> q / 2 ^ 53"
proof -
  have q: "0 < q" using assms by simp
  have "exp2 1 = 0" by (rule exp2_unique) simp_all
  with exp2_mono [of 1 q] assms have e: "0 \<le> exp2 q" by simp
  let ?u = "2 powi ulp_exp q :: rat"
  have u: "ulp_exp q = exp2 q - 52" using e by (simp add: ulp_exp_def)
  have "rnd q - q = (of_int (rne (q / ?u)) - q / ?u) * ?u"
    using q by (simp add: rnd_def left_diff_distrib)
  then have "\<bar>rnd q - q\<bar> = \<bar>of_int (rne (q / ?u)) - q / ?u\<bar> * ?u" by (simp add: abs_mult)
  also have "\<dots> \<le> (1 / 2) * ?u" by (intro mult_right_mono rne_near) simp
  also have "?u = 2 powi exp2 q / 2 ^ 52" by (simp add: u power_int_diff)
  also have "(1 / 2) * (2 powi exp2 q / 2 ^ 52) \<le> (1 / 2) * (q / (2::rat) ^ 52)"
    using exp2_bounds [OF q] by (intro mult_left_mono divide_right_mono) simp_all
  finally show ?thesis by simp
qed

lemma P95_value: "P95 = Fin (8556839292003942 / 2 ^ 53)"
proof -
  have e: "exp2 (19 / 20) = - 1" by (rule exp2_unique) simp_all
  have "rne ((19 / 20) / 2 powi (- 53)) = 8556839292003942"
    by (rule rne_eqI) simp
  then have "rnd (95 / 100) = 8556839292003942 / 2 ^ 53"
    by (simp add: rnd_def ulp_exp_def e power_int_minus divide_simps)
  moreover have "to_f64 (95 / 100) = Fin (rnd (95 / 100))" by (rule to_f64_small) simp
  ultimately show ?thesis by (simp add: P95_def)
qed

lemma P95_rank:
  assumes n: "0 < n" "n \<le> 2 ^ 40"
  shows "percentile_rank P95 n = nat \<lceil>19 * rat_of_nat n / 20\<rceil>"
proof -
  let ?p = "8556839292003942 / 2 ^ 53 :: rat"
  let ?x = "?p * of_nat n" and ?q = "19 * rat_of_nat n / 20"
  define m where "m = \<lceil>?q\<rceil>"
  have n1: "1 \<le> rat_of_nat n" using n(1) by simp
  have n2: "rat_of_nat n \<le> 2 ^ 40"
    using n(2) by (metis of_nat_le_iff of_nat_numeral of_nat_power)
  have m: "?q \<le> of_int m" "of_int m < ?q + 1" unfolding m_def by linarith+
  have xq: "?x \<le> ?q" using n1 by (simp add: field_simps)
  have "rat_of_nat n \<le> 2 ^ 64" using n2 by simp
  then have x64: "\<bar>?x\<bar> \<le> 2 ^ 64" using n1 by simp
  have mb: "0 < m" "m \<le> 2 ^ 53"
  proof -
    have "0 < rat_of_int m" using m(1) n1 by linarith
    then show "0 < m" by simp
    have "rat_of_int m < rat_of_int (2 ^ 53)" using m(2) n2 by simp
    then show "m \<le> 2 ^ 53" by (simp only: of_int_less_iff)
  qed
  have "rnd (of_int m) = of_int m" using rnd_representable [of m 0] mb by simp
  then have up: "rnd ?x \<le> of_int m" using rnd_mono [of ?x "of_int m"] xq m(1) by simp
  have step: "of_int m - 1 + 1 / 20 \<le> ?q"
  proof -
    have "20 * rat_of_int m < 19 * of_nat n + 20" using m(2) by simp
    then have "rat_of_int (20 * m) < rat_of_int (19 * int n + 20)" by simp
    then have "20 * m < 19 * int n + 20" by (simp only: of_int_less_iff)
    then have "20 * m + 1 \<le> 19 * int n + 20" by simp
    then have "rat_of_int (20 * m + 1) \<le> rat_of_int (19 * int n + 20)" by (simp only: of_int_le_iff)
    then show ?thesis by simp
  qed
  have lo: "of_int m - 1 < rnd ?x"
  proof (cases "1 \<le> ?x")
    case True
    have "?q - ?x \<le> 1 / 2 ^ 13" using n2 by (simp add: field_simps)
    moreover have "?x / 2 ^ 53 \<le> 1 / 2 ^ 13" using n2 by (simp add: field_simps)
    moreover have "?x - ?x / 2 ^ 53 \<le> rnd ?x" using rnd_error [OF True] unfolding abs_le_iff by linarith
    moreover have "(1 / 2 ^ 13 :: rat) < 1 / 40" by simp
    ultimately show ?thesis using step by linarith
  next
    case False
    then have "?p * of_nat n < 1" by simp
    then have "rat_of_nat n < 2" using n1 by (simp add: field_simps)
    then have "n = 1" using n(1) by simp
    then have "rat_of_int m < 2" using m(2) by simp
    then have "m = 1" using mb(1) by simp
    moreover have "0 < rnd ?x"
    proof -
      have "rnd (1 / 2) = 1 / 2" using rnd_dyadic [of 1 1] by simp
      then show ?thesis using rnd_mono [of "1 / 2" ?x] \<open>n = 1\<close> by simp
    qed
    ultimately show ?thesis by simp
  qed
  have c: "\<lceil>rnd ?x\<rceil> = m" using up lo by (simp add: ceiling_eq_iff)
  have "f_of_nat n = Fin (of_nat n)"
    unfolding f_of_nat_def using to_f64_nat [of n] n(2) by simp
  then have "f_mul P95 (f_of_nat n) = Fin (rnd ?x)"
    using to_f64_small [OF x64] by (simp add: P95_value)
  then have "percentile_rank P95 n = max 1 (min (min U64_MAX (nat m)) n)"
    using c by (simp add: percentile_rank_def)
  moreover have "rat_of_int m < of_nat n + 1" using m(2) n1 by linarith
  then have "m \<le> int n" by linarith
  moreover have "min (min U64_MAX (nat m)) n = nat m" "1 \<le> nat m"
    using \<open>m \<le> int n\<close> mb n(2) by (auto simp: min_def)
  ultimately show ?thesis by (simp add: m_def)
qed

section \<open>Grouping\<close>

lemma push_entry_keys: "set (map fst (push_entry k x m)) = insert k (set (map fst m))"
  by (induction k x m rule: push_entry.induct) auto

lemma push_entry_sorted: "sorted_wrt (<) (map fst m) \<Longrightarrow> sorted_wrt (<) (map fst (push_entry k x m))"
proof (induction k x m rule: push_entry.induct)
  case (2 k x j xs m)
  then show ?case using push_entry_keys [of k x m] by (auto simp del: set_map)
qed simp

lemma push_entry_lookup:
  "sorted_wrt (<) (map fst m) \<Longrightarrow> map_of (push_entry k x m) i =
     (if i = k then Some ((case map_of m k of None \<Rightarrow> [] | Some xs \<Rightarrow> xs) @ [x]) else map_of m i)"
proof (induction k x m rule: push_entry.induct)
  case (2 k x j xs m)
  have "k < j \<Longrightarrow> map_of m k = None"
    using "2.prems" by (auto simp: map_of_eq_None_iff)
  with 2 show ?case by (auto simp: fun_eq_iff)
qed simp

lemma group_by_snoc: "group_by key (xs @ [x]) = push_entry (key x) x (group_by key xs)"
  by (simp add: group_by_def)

lemma group_by_Nil [simp]: "group_by key [] = []"
  by (simp add: group_by_def)

lemma group_by_sorted: "sorted_wrt (<) (map fst (group_by key xs))"
  by (induction xs rule: rev_induct) (simp_all add: group_by_snoc push_entry_sorted)

lemma group_by_lookup:
  "map_of (group_by key xs) k = (let g = filter (\<lambda>x. key x = k) xs in if g = [] then None else Some g)"
  by (induction xs rule: rev_induct)
    (auto simp: group_by_snoc push_entry_lookup [OF group_by_sorted] Let_def)

text \<open>
  The map of a batch lists, in ascending order of the keys that occur, the samples of each key in the
  order of the batch.
\<close>

lemma group_by_keys: "set (map fst (group_by key xs)) = set (map key xs)"
proof (induction xs rule: rev_induct)
  case (snoc x xs)
  then show ?case using push_entry_keys [of "key x" x "group_by key xs"] by (simp add: group_by_snoc)
qed simp

lemma group_by_spec:
  "group_by key xs = map (\<lambda>k. (k, filter (\<lambda>x. key x = k) xs)) (sorted_list_of_set (set (map key xs)))"
proof -
  have d: "distinct (map fst (group_by key xs))"
    using group_by_sorted strict_sorted_iff by blast
  have "snd e = filter (\<lambda>x. key x = fst e) xs" if "e \<in> set (group_by key xs)" for e
    using map_of_is_SomeI [OF d, of "fst e" "snd e"] that
    by (simp add: group_by_lookup Let_def split: if_splits)
  then have "group_by key xs = map (\<lambda>k. (k, filter (\<lambda>x. key x = k) xs)) (map fst (group_by key xs))"
    by (simp add: map_idI o_def prod_eq_iff)
  moreover have "map fst (group_by key xs) = sorted_list_of_set (set (map key xs))"
    using group_by_sorted [of key xs] group_by_keys [of key xs]
    by (metis sorted_list_of_set.idem_if_sorted_distinct strict_sorted_iff)
  ultimately show ?thesis by metis
qed

section \<open>What a fold does to each bucket\<close>

abbreviation at_key :: "('b \<Rightarrow> int) \<Rightarrow> int \<Rightarrow> 'b list \<Rightarrow> 'b option" where
  "at_key key k bs \<equiv> find (\<lambda>b. key b = k) bs"

text \<open>The bucket of a day and of an hour, \<open>None\<close> when the tier has none.\<close>

definition day_at :: "rollup \<Rightarrow> int \<Rightarrow> day_bucket option" where
  "day_at r d = at_key db_start d (daily r)"

definition hour_at :: "rollup \<Rightarrow> int \<Rightarrow> hour_bucket option" where
  "hour_at r h = at_key hb_start h (hourly r)"

definition absorb :: "('b \<Rightarrow> 'b \<Rightarrow> 'b) \<Rightarrow> 'b option \<Rightarrow> 'b \<Rightarrow> 'b" where
  "absorb merge old b = (case old of None \<Rightarrow> b | Some e \<Rightarrow> merge e b)"

lemma merge_keys [simp]: "hb_start (merge_hour e b) = hb_start e" "db_start (merge_day x e' b') = db_start e'"
  by (simp_all add: merge_hour_def merge_day_def)

lemma upsert_at:
  assumes "\<And>e. key (merge e b) = key e"
  shows "at_key key k (upsert key merge es b) =
    (if k = key b then Some (absorb merge (at_key key k es) b) else at_key key k es)"
  by (induction es) (auto simp: assms absorb_def)

lemma upsert_keys:
  assumes "\<And>e. key (merge e b) = key e"
  shows "map key (upsert key merge es b) =
    (if key b \<in> key ` set es then map key es else map key es @ [key b])"
  by (induction es) (auto simp: assms)

lemma upserts_at:
  assumes "\<And>e b. key (merge e b) = key e" "distinct (map key bs)"
  shows "at_key key k (fold (\<lambda>b es. upsert key merge es b) bs es) =
    (case at_key key k bs of None \<Rightarrow> at_key key k es | Some b \<Rightarrow> Some (absorb merge (at_key key k es) b))"
  using assms(2)
proof (induction bs arbitrary: es)
  case (Cons b bs)
  have "at_key key k bs = None" if "key b = k"
    using Cons.prems that unfolding find_None_iff by (metis distinct.simps(2) imageI list.set_map list.simps(9))
  with Cons show ?case by (auto simp: upsert_at assms(1) split: option.split)
qed simp

lemma upserts_distinct:
  assumes "\<And>e b. key (merge e b) = key e" "distinct (map key es)"
  shows "distinct (map key (fold (\<lambda>b es. upsert key merge es b) bs es))"
  using assms(2) by (induction bs arbitrary: es) (auto simp: upsert_keys assms(1))

lemma find_group:
  "at_key key k (map (\<lambda>(j, ss). f j ss) (group_by g xs)) =
     (let ss = filter (\<lambda>x. g x = k) xs in if ss = [] then None else Some (f k ss))"
  if "\<And>j ss. key (f j ss) = j"
proof -
  have "at_key key k (map (\<lambda>(j, ss). f j ss) m) = map_option (f k) (map_of m k)" for m
    by (induction m) (auto simp: that)
  then show ?thesis by (simp add: group_by_lookup Let_def)
qed

text \<open>The two tiers are folded independently of each other.\<close>

lemma fold_upsert_hour:
  "fold (\<lambda>(hour, hs) r. upsert_hour r (hour_bucket_of hour hs)) g r =
     r\<lparr>hourly := fold (\<lambda>b es. upsert hb_start merge_hour es b) (map (\<lambda>(h, hs). hour_bucket_of h hs) g) (hourly r)\<rparr>"
  by (induction g arbitrary: r) (auto simp: upsert_hour_def)

abbreviation hour_groups :: "sample list \<Rightarrow> (int \<times> sample list) list" where
  "hour_groups batch \<equiv> concat (map (\<lambda>(d, ss). group_by (hour_start \<circ> smp_ts) ss) (group_by (day_start \<circ> smp_ts) batch))"

lemma fold_days:
  "fold (fold_day e) g r = r\<lparr>
     hourly := fold (\<lambda>b es. upsert hb_start merge_hour es b)
       (map (\<lambda>(h, hs). hour_bucket_of h hs) (concat (map (\<lambda>(d, ss). group_by (hour_start \<circ> smp_ts) ss) g))) (hourly r),
     daily := fold (\<lambda>b es. upsert db_start (merge_day e) es b) (map (\<lambda>(d, ss). day_bucket_of e d ss) g) (daily r)\<rparr>"
  by (induction g arbitrary: r) (auto simp: fold_day_def fold_upsert_hour upsert_day_def)

lemma day_of_hour: "day_start (hour_start ts) = day_start ts"
proof -
  have "hour_start ts mod DAY_SECS = ts mod DAY_SECS - ts mod HOUR_SECS"
  proof -
    have "DAY_SECS = HOUR_SECS * 24" by (simp add: DAY_SECS_def HOUR_SECS_def)
    then have "ts mod DAY_SECS = HOUR_SECS * (ts div HOUR_SECS mod 24) + ts mod HOUR_SECS"
      using zmod_zmult2_eq [of 24 ts HOUR_SECS] by simp
    moreover have "hour_start ts = HOUR_SECS * (ts div HOUR_SECS)"
      by (simp add: hour_start_def minus_mod_eq_mult_div)
    then have "hour_start ts mod DAY_SECS = HOUR_SECS * (ts div HOUR_SECS mod 24)"
      using \<open>DAY_SECS = HOUR_SECS * 24\<close> mult_mod_right [of HOUR_SECS "ts div HOUR_SECS" 24] by simp
    ultimately show ?thesis by simp
  qed
  then show ?thesis by (simp add: day_start_def hour_start_def)
qed

lemma day_start_mono: "a \<le> b \<Longrightarrow> day_start a \<le> day_start b"
  by (simp add: day_start_def minus_mod_eq_mult_div DAY_SECS_def zdiv_mono1)

lemma alist_eqI:
  fixes xs ys :: "(int \<times> 'b) list"
  assumes "sorted_wrt (<) (map fst xs)" "sorted_wrt (<) (map fst ys)" "map_of xs = map_of ys"
  shows "xs = ys"
proof -
  have d: "distinct (map fst xs)" "distinct (map fst ys)"
    using assms(1,2) strict_sorted_iff by blast+
  have "(k, v) \<in> set xs \<longleftrightarrow> (k, v) \<in> set ys" for k v
    using map_of_eq_Some_iff [OF d(1)] map_of_eq_Some_iff [OF d(2)] assms(3) by metis
  then have "set xs = set ys" by auto
  moreover have "inj_on fst (set xs \<union> set xs)" using d(1) by (simp add: distinct_map)
  ultimately show ?thesis
    using assms(1,2) d map_sorted_distinct_set_unique [of fst xs ys] by (auto simp: strict_sorted_iff)
qed

lemma map_of_concat_groups:
  assumes "distinct (map fst g)" "\<And>d ss k. (d, ss) \<in> set g \<Longrightarrow> k \<in> fst ` set (G ss) \<Longrightarrow> day k = d"
  shows "map_of (concat (map (\<lambda>(d, ss). G ss) g)) k =
    (case map_of g (day k) of None \<Rightarrow> None | Some ss \<Rightarrow> map_of (G ss) k)"
  using assms
proof (induction g)
  case (Cons e g)
  obtain d ss where e: "e = (d, ss)" by (cases e)
  have IH: "map_of (concat (map (\<lambda>(d, ss). G ss) g)) k =
      (case map_of g (day k) of None \<Rightarrow> None | Some ss \<Rightarrow> map_of (G ss) k)"
    using Cons.prems by (intro Cons.IH) auto
  show ?case
  proof (cases "day k = d")
    case True
    then have "map_of g (day k) = None" using Cons.prems(1) by (simp add: e map_of_eq_None_iff)
    then show ?thesis using IH True by (simp add: e map_add_def split: option.split)
  next
    case False
    then have "map_of (G ss) k = None" using Cons.prems(2) [of d ss k] by (auto simp: e map_of_eq_None_iff)
    then show ?thesis using IH False by (simp add: e map_add_def)
  qed
qed simp

lemma sorted_concat_groups:
  fixes day :: "int \<Rightarrow> int"
  assumes "sorted_wrt (<) (map fst g)" "\<And>d ss k. (d, ss) \<in> set g \<Longrightarrow> k \<in> fst ` set (G ss) \<Longrightarrow> day k = d"
    and "\<And>ss. sorted_wrt (<) (map fst (G ss))" and "mono day"
  shows "sorted_wrt (<) (map fst (concat (map (\<lambda>(d, ss). G ss) g)))"
  using assms(1,2)
proof (induction g)
  case (Cons e g)
  obtain d ss where e: "e = (d, ss)" by (cases e)
  have IH: "sorted_wrt (<) (map fst (concat (map (\<lambda>(d, ss). G ss) g)))"
    using Cons.prems by (intro Cons.IH) auto
  have lt: "k < k'" if k: "k \<in> fst ` set (G ss)" and d': "(d', ss') \<in> set g" "k' \<in> fst ` set (G ss')" for k k' d' ss'
  proof -
    have "day k = d" "day k' = d'" using k d' Cons.prems(2) by (auto simp: e)
    moreover have "d < d'" using d'(1) Cons.prems(1) by (force simp: e)
    ultimately show ?thesis using monoD [OF assms(4), of k' k] by (meson leD leI)
  qed
  have "\<forall>x \<in> set (map fst (G ss)). \<forall>y \<in> set (map fst (concat (map (\<lambda>(d, ss). G ss) g))). x < y"
    by clarsimp (metis fst_conv image_eqI lt)
  then show ?case using IH assms(3) [of ss] by (simp add: e sorted_wrt_append)
qed simp

text \<open>Grouping by day and then by hour is grouping by hour.\<close>

lemma hour_groups_eq: "hour_groups batch = group_by (hour_start \<circ> smp_ts) batch"
proof -
  let ?G = "group_by (hour_start \<circ> smp_ts)" and ?g = "group_by (day_start \<circ> smp_ts) batch"
  have dist: "distinct (map fst ?g)" using group_by_sorted strict_sorted_iff by blast
  have day: "day_start k = d" if e: "(d, ss) \<in> set ?g" and k: "k \<in> fst ` set (?G ss)" for d ss k
  proof -
    have "map_of ?g d = Some ss" using e dist by simp
    then have ss: "ss = filter (\<lambda>x. (day_start \<circ> smp_ts) x = d) batch"
      by (simp add: group_by_lookup Let_def split: if_splits)
    have "k \<in> set (map (hour_start \<circ> smp_ts) ss)" using k group_by_keys [of "hour_start \<circ> smp_ts" ss] by simp
    then show ?thesis using day_of_hour by (auto simp: ss)
  qed
  have "map_of (hour_groups batch) k = map_of (?G batch) k" for k
  proof -
    have "filter (\<lambda>x. hour_start (smp_ts x) = k) (filter (\<lambda>x. day_start (smp_ts x) = day_start k) batch) =
        filter (\<lambda>x. hour_start (smp_ts x) = k) batch"
      using day_of_hour by (simp only: filter_filter) (metis (mono_tags, lifting))
    moreover have "filter (\<lambda>x. hour_start (smp_ts x) = k) batch = []"
      if "filter (\<lambda>x. day_start (smp_ts x) = day_start k) batch = []"
      using that day_of_hour by (auto simp: filter_empty_conv)
    moreover have "map_of (hour_groups batch) k =
        (case map_of ?g (day_start k) of None \<Rightarrow> None | Some ss \<Rightarrow> map_of (?G ss) k)"
      by (rule map_of_concat_groups [OF dist]) (rule day)
    ultimately show ?thesis by (simp add: group_by_lookup Let_def)
  qed
  moreover have "sorted_wrt (<) (map fst (hour_groups batch))"
    by (rule sorted_concat_groups [where day = day_start])
      (auto intro: group_by_sorted monoI day_start_mono dest: day)
  ultimately show ?thesis by (intro alist_eqI group_by_sorted) auto
qed

lemma fold_into_tiers_eq:
  "fold_into_tiers r batch pol = r\<lparr>
     hourly := fold (\<lambda>b es. upsert hb_start merge_hour es b)
       (map (\<lambda>(h, hs). hour_bucket_of h hs) (group_by (hour_start \<circ> smp_ts) batch)) (hourly r),
     daily := fold (\<lambda>b es. upsert db_start (merge_day (expected_per_day pol)) es b)
       (map (\<lambda>(d, ss). day_bucket_of (expected_per_day pol) d ss) (group_by (day_start \<circ> smp_ts) batch)) (daily r)\<rparr>"
  by (simp only: fold_into_tiers_def fold_days hour_groups_eq)

lemma tiers_parts:
  "hourly (fold_into_tiers r batch pol) = fold (\<lambda>b es. upsert hb_start merge_hour es b)
     (map (\<lambda>(h, hs). hour_bucket_of h hs) (group_by (hour_start \<circ> smp_ts) batch)) (hourly r)"
  "daily (fold_into_tiers r batch pol) = fold (\<lambda>b es. upsert db_start (merge_day (expected_per_day pol)) es b)
     (map (\<lambda>(d, ss). day_bucket_of (expected_per_day pol) d ss) (group_by (day_start \<circ> smp_ts) batch)) (daily r)"
  "rolled_through_ts (fold_into_tiers r batch pol) = rolled_through_ts r"
  by (simp_all add: fold_into_tiers_eq)

lemma bucket_of_keys [simp]: "hb_start (hour_bucket_of h ss) = h" "db_start (day_bucket_of e d ss') = d"
  by (simp_all add: hour_bucket_of_def day_bucket_of_def Let_def)

lemma group_map_distinct:
  assumes "\<And>j ss. key (f j ss) = j"
  shows "distinct (map key (map (\<lambda>(j, ss). f j ss) (group_by g xs)))"
proof -
  have "map key (map (\<lambda>(j, ss). f j ss) m) = map fst m" for m by (induction m) (auto simp: assms)
  then show ?thesis using group_by_sorted strict_sorted_iff by metis
qed

lemma tiers_day_at:
  "day_at (fold_into_tiers r batch pol) d =
     (let ss = filter (\<lambda>s. day_start (smp_ts s) = d) batch; e = expected_per_day pol
      in if ss = [] then day_at r d else Some (absorb (merge_day e) (day_at r d) (day_bucket_of e d ss)))"
  unfolding day_at_def fold_into_tiers_eq
  by (simp add: upserts_at [where key = db_start, OF _ group_map_distinct] find_group [where key = db_start] Let_def)

lemma tiers_hour_at:
  "hour_at (fold_into_tiers r batch pol) h =
     (let ss = filter (\<lambda>s. hour_start (smp_ts s) = h) batch
      in if ss = [] then hour_at r h else Some (absorb merge_hour (hour_at r h) (hour_bucket_of h ss)))"
  unfolding hour_at_def fold_into_tiers_eq
  by (simp add: upserts_at [where key = hb_start, OF _ group_map_distinct] find_group [where key = hb_start] Let_def)

section \<open>One pass\<close>

lemma split_aged_eq:
  "split_aged pol now through samples =
     (filter (\<lambda>s. \<not> day_fully_aged pol now (smp_ts s)) samples,
      filter (\<lambda>s. day_fully_aged pol now (smp_ts s) \<and> smp_ts s > through) samples)"
  by (induction samples rule: rev_induct) (auto simp: split_aged_def)

text \<open>The samples a pass keeps, and those it rolls; the others were rolled before.\<close>

definition in_window :: "retention_policy \<Rightarrow> int \<Rightarrow> sample list \<Rightarrow> sample list" where
  "in_window pol now samples = filter (\<lambda>s. \<not> day_fully_aged pol now (smp_ts s)) samples"

definition batch_of :: "retention_policy \<Rightarrow> int \<Rightarrow> int \<Rightarrow> sample list \<Rightarrow> sample list" where
  "batch_of pol now through samples =
     filter (\<lambda>s. day_fully_aged pol now (smp_ts s) \<and> smp_ts s > through) samples"

definition rolled_rollup :: "retention_policy \<Rightarrow> rollup \<Rightarrow> sample list \<Rightarrow> rollup" where
  "rolled_rollup pol r batch =
     (if batch = [] then r
      else (fold_into_tiers r batch pol)\<lparr>rolled_through_ts :=
             max (rolled_through_ts r) (Max (set (map smp_ts batch)))\<rparr>)"

lemma plan_roll_eq:
  "plan_roll samples r now pol =
     (let batch = batch_of pol now (rolled_through_ts r) samples;
          r' = prune_and_sort pol now (rolled_rollup pol r batch)
      in (sort_key smp_ts (in_window pol now samples), r',
          \<lparr>rs_rolled_through_ts = rolled_through_ts r', rs_raw_lines = u32_wrap (length batch)\<rparr>))"
  by (simp add: plan_roll_def split_aged_eq in_window_def batch_of_def rolled_rollup_def Let_def)

lemma prune_and_sort_through [simp]: "rolled_through_ts (prune_and_sort pol now r) = rolled_through_ts r"
  by (simp add: prune_and_sort_def Let_def)

lemma rolled_through_covers:
  "s \<in> set batch \<Longrightarrow> smp_ts s \<le> rolled_through_ts (rolled_rollup pol r batch)"
  "rolled_through_ts r \<le> rolled_through_ts (rolled_rollup pol r batch)"
  by (auto simp: rolled_rollup_def le_max_iff_disj)

lemma sort_key_again [simp]: "sort_key key (sort_key key bs) = sort_key key bs"
  by (simp add: sort_key_id_if_sorted)

lemma distinct_sort_filter: "distinct (map key bs) \<Longrightarrow> distinct (map key (sort_key key (filter P bs)))"
  by (simp add: distinct_map inj_on_def)

lemma at_key_sort:
  assumes "distinct (map key bs)"
  shows "at_key key k (sort_key key (filter P bs)) =
    (case at_key key k bs of None \<Rightarrow> None | Some b \<Rightarrow> if P b then Some b else None)"
proof -
  have one: "at_key key k xs = Some b \<longleftrightarrow> b \<in> set xs \<and> key b = k" if "distinct (map key xs)" for xs b
    using that
  proof (induction xs)
    case (Cons x xs)
    then show ?case by (auto simp: image_iff)
  qed simp
  have d: "distinct (map key (sort_key key (filter P bs)))"
    using assms by (simp add: distinct_map inj_on_def)
  have "at_key key k (sort_key key (filter P bs)) = Some b \<longleftrightarrow> at_key key k bs = Some b \<and> P b" for b
    unfolding one [OF d] one [OF assms] by auto
  note eq = this
  show ?thesis
  proof (cases "at_key key k bs")
    case None
    then have "at_key key k (sort_key key (filter P bs)) \<noteq> Some b" for b using eq [of b] by auto
    then show ?thesis using None by (cases "at_key key k (sort_key key (filter P bs))") auto
  next
    case (Some b)
    show ?thesis
    proof (cases "P b")
      case True
      then show ?thesis using eq [of b] Some by simp
    next
      case False
      then have "at_key key k (sort_key key (filter P bs)) \<noteq> Some b'" for b' using eq [of b'] Some by auto
      then show ?thesis using Some False by (cases "at_key key k (sort_key key (filter P bs))") auto
    qed
  qed
qed

lemma at_key_sort_all:
  assumes "distinct (map key bs)"
  shows "at_key key k (sort_key key bs) = at_key key k bs"
  using at_key_sort [OF assms, of k "\<lambda>_. True"] by (simp add: filter_True split: option.splits)

text \<open>
  The invariant of a rollup: one bucket per hour and per day, on hour and day boundaries, in ascending
  order; counts fit in \<open>u32\<close>.
\<close>

definition rollup_ok :: "rollup \<Rightarrow> bool" where
  "rollup_ok r \<longleftrightarrow>
     sorted_wrt (<) (map hb_start (hourly r)) \<and> sorted_wrt (<) (map db_start (daily r)) \<and>
     (\<forall>b \<in> set (hourly r). hb_start b mod HOUR_SECS = 0 \<and> hb_count b < 2 ^ 32) \<and>
     (\<forall>b \<in> set (daily r). db_start b mod DAY_SECS = 0 \<and> db_count b < 2 ^ 32)"

lemma starts_aligned [simp]: "hour_start ts mod HOUR_SECS = 0" "day_start ts mod DAY_SECS = 0"
  by (simp_all add: hour_start_def day_start_def minus_mod_eq_mult_div)

lemma u32_wrap_less [simp]: "u32_wrap n < 2 ^ 32" "u32_wrap n < 4294967296"
  by (simp_all add: u32_wrap_def)

lemma u32_wrap_id: "n < 2 ^ 32 \<Longrightarrow> u32_wrap n = n"
  by (simp add: u32_wrap_def)

lemma upserts_all:
  assumes "\<And>b. b \<in> set bs \<Longrightarrow> Q b" "\<And>e. e \<in> set es \<Longrightarrow> Q e" "\<And>e b. Q e \<Longrightarrow> Q b \<Longrightarrow> Q (merge e b)"
  shows "\<forall>x \<in> set (fold (\<lambda>b es. upsert key merge es b) bs es). Q x"
  using assms(1,2)
proof (induction bs arbitrary: es)
  case (Cons b bs)
  have "\<forall>x \<in> set (upsert key merge es b). Q x"
    using Cons.prems by (induction es) (auto intro: assms(3))
  with Cons show ?case by auto
qed auto

lemma merge_counts [simp]:
  "hb_count (merge_hour e b) = u32_wrap (hb_count e + hb_count b)"
  "db_count (merge_day x e' b') = u32_wrap (db_count e' + db_count b')"
  by (simp_all add: merge_hour_def merge_day_def)

lemma bucket_of_counts [simp]:
  "hb_count (hour_bucket_of h ss) = u32_wrap (length ss)" "db_count (day_bucket_of e d ss) = u32_wrap (length ss)"
  by (simp_all add: hour_bucket_of_def day_bucket_of_def Let_def)

lemma group_keys_image: "(k, ss) \<in> set (group_by g xs) \<Longrightarrow> k \<in> g ` set xs"
  using group_by_keys [of g xs] by (metis fst_conv image_eqI list.set_map)

lemma tiers_distinct:
  assumes "distinct (map hb_start (hourly r))" "distinct (map db_start (daily r))"
  shows "distinct (map hb_start (hourly (fold_into_tiers r batch pol)))"
    and "distinct (map db_start (daily (fold_into_tiers r batch pol)))"
  unfolding fold_into_tiers_eq using assms by (simp_all add: upserts_distinct del: map_map)

lemma tiers_buckets_ok:
  assumes "rollup_ok r"
  shows "\<forall>b \<in> set (hourly (fold_into_tiers r batch pol)). hb_start b mod HOUR_SECS = 0 \<and> hb_count b < 2 ^ 32"
    and "\<forall>b \<in> set (daily (fold_into_tiers r batch pol)). db_start b mod DAY_SECS = 0 \<and> db_count b < 2 ^ 32"
proof -
  show "\<forall>b \<in> set (hourly (fold_into_tiers r batch pol)). hb_start b mod HOUR_SECS = 0 \<and> hb_count b < 2 ^ 32"
    unfolding tiers_parts by (rule upserts_all) (use assms in \<open>auto simp: rollup_ok_def dest!: group_keys_image\<close>)
  show "\<forall>b \<in> set (daily (fold_into_tiers r batch pol)). db_start b mod DAY_SECS = 0 \<and> db_count b < 2 ^ 32"
    unfolding tiers_parts by (rule upserts_all) (use assms in \<open>auto simp: rollup_ok_def dest!: group_keys_image\<close>)
qed

lemma prune_and_sort_ok:
  assumes "distinct (map hb_start (hourly r))" "distinct (map db_start (daily r))"
    and "\<forall>b \<in> set (hourly r). hb_start b mod HOUR_SECS = 0 \<and> hb_count b < 2 ^ 32"
    and "\<forall>b \<in> set (daily r). db_start b mod DAY_SECS = 0 \<and> db_count b < 2 ^ 32"
  shows "rollup_ok (prune_and_sort pol now r)"
proof -
  have "sorted_wrt (<) (map hb_start (hourly (prune_and_sort pol now r)))"
    "sorted_wrt (<) (map db_start (daily (prune_and_sort pol now r)))"
    using distinct_sort_filter [OF assms(1)] distinct_sort_filter [OF assms(2)] assms(2)
    by (auto simp: prune_and_sort_def Let_def strict_sorted_iff distinct_map)
  then show ?thesis using assms(3,4) by (auto simp: rollup_ok_def prune_and_sort_def Let_def)
qed

lemma rollup_ok_distinct:
  "rollup_ok r \<Longrightarrow> distinct (map hb_start (hourly r)) \<and> distinct (map db_start (daily r))"
  by (simp add: rollup_ok_def strict_sorted_iff)

lemma rolled_rollup_parts:
  assumes "rollup_ok r"
  shows "distinct (map hb_start (hourly (rolled_rollup pol r batch)))"
    and "distinct (map db_start (daily (rolled_rollup pol r batch)))"
    and "\<forall>b \<in> set (hourly (rolled_rollup pol r batch)). hb_start b mod HOUR_SECS = 0 \<and> hb_count b < 2 ^ 32"
    and "\<forall>b \<in> set (daily (rolled_rollup pol r batch)). db_start b mod DAY_SECS = 0 \<and> db_count b < 2 ^ 32"
  using rollup_ok_distinct [OF assms] tiers_distinct [of r batch pol] tiers_buckets_ok [OF assms, of batch pol] assms
  by (auto simp: rolled_rollup_def rollup_ok_def)

lemma plan_keeps_ok: "rollup_ok r \<Longrightarrow> rollup_ok (prune_and_sort pol now (rolled_rollup pol r batch))"
  by (rule prune_and_sort_ok) (rule rolled_rollup_parts; assumption)+

text \<open>Pruning and sorting an already pruned and sorted rollup changes nothing.\<close>

lemma prune_and_sort_idem: "prune_and_sort pol now (prune_and_sort pol now r) = prune_and_sort pol now r"
  by (simp add: prune_and_sort_def Let_def sort_key_again)

text \<open>What is left of the day \<open>d\<close> after a pass.\<close>

lemma day_at_pruned:
  assumes "distinct (map db_start (daily r))"
  shows "day_at (prune_and_sort pol now r) d =
    (if daily_window_secs pol > 0 \<and> d < now - daily_window_secs pol then None else day_at r d)"
proof -
  have key: "day_at r d = Some b \<Longrightarrow> db_start b = d" for b
    by (auto simp: day_at_def find_Some_iff)
  show ?thesis
  proof (cases "day_at r d")
    case None
    then show ?thesis
      by (simp add: prune_and_sort_def Let_def day_at_def at_key_sort [OF assms] at_key_sort_all [OF assms])
  next
    case (Some b)
    then show ?thesis using key [OF Some]
      by (simp add: prune_and_sort_def Let_def day_at_def at_key_sort [OF assms] at_key_sort_all [OF assms])
  qed
qed

lemma hour_at_pruned:
  assumes "distinct (map hb_start (hourly r))"
  shows "hour_at (prune_and_sort pol now r) h =
    (if h < now - hourly_window_secs pol then None else hour_at r h)"
proof -
  have key: "hour_at r h = Some b \<Longrightarrow> hb_start b = h" for b
    by (auto simp: hour_at_def find_Some_iff)
  show ?thesis
  proof (cases "hour_at r h")
    case None
    then show ?thesis by (simp add: prune_and_sort_def Let_def hour_at_def at_key_sort [OF assms])
  next
    case (Some b)
    then show ?thesis using key [OF Some]
      by (simp add: prune_and_sort_def Let_def hour_at_def at_key_sort [OF assms])
  qed
qed

section \<open>Counting\<close>

lemma upsert_sum:
  assumes "\<And>e b. cnt (merge e b) = u32_wrap (cnt e + cnt b)"
    and "sum_list (map cnt es) + cnt b < 2 ^ 32"
  shows "sum_list (map cnt (upsert key merge es b)) = sum_list (map cnt es) + cnt b"
  using assms(2) by (induction es) (auto simp: assms(1) u32_wrap_id)

lemma upserts_sum:
  assumes "\<And>e b. cnt (merge e b) = u32_wrap (cnt e + cnt b)"
    and "sum_list (map cnt es) + sum_list (map cnt bs) < 2 ^ 32"
  shows "sum_list (map cnt (fold (\<lambda>b es. upsert key merge es b) bs es)) = sum_list (map cnt es) + sum_list (map cnt bs)"
  using assms(2)
proof (induction bs arbitrary: es)
  case (Cons b bs)
  have "sum_list (map cnt (upsert key merge es b)) = sum_list (map cnt es) + cnt b"
    using Cons.prems by (intro upsert_sum assms(1)) simp
  with Cons show ?case by simp
qed simp

lemma push_entry_lengths:
  "sum_list (map (\<lambda>(k, xs). length xs) (push_entry k x m)) = Suc (sum_list (map (\<lambda>(k, xs). length xs) m))"
  by (induction k x m rule: push_entry.induct) auto

lemma group_by_lengths: "sum_list (map (\<lambda>(k, xs). length xs) (group_by g xs)) = length xs"
  by (induction xs rule: rev_induct) (simp_all add: group_by_snoc push_entry_lengths)

lemma group_counts:
  assumes "length xs < 2 ^ 32" "\<And>k ss. cnt (f k ss) = u32_wrap (length ss)"
  shows "sum_list (map cnt (map (\<lambda>(k, ss). f k ss) (group_by g xs))) = length xs"
proof -
  have "length ss < 2 ^ 32" if "(k, ss) \<in> set (group_by g xs)" for k ss
  proof -
    have "length ss \<le> sum_list (map (\<lambda>(k, xs). length xs) (group_by g xs))"
      using that by (intro member_le_sum_list) (auto intro!: image_eqI [where x = "(k, ss)"])
    then show ?thesis using assms(1) by (simp add: group_by_lengths)
  qed
  then have "map cnt (map (\<lambda>(k, ss). f k ss) (group_by g xs)) = map (\<lambda>(k, xs). length xs) (group_by g xs)"
    by (auto simp: assms(2) u32_wrap_id)
  then show ?thesis by (simp only: group_by_lengths)
qed

definition samples_in_days :: "rollup \<Rightarrow> nat" where
  "samples_in_days r = sum_list (map db_count (daily r))"

lemma rolled_sum:
  assumes "samples_in_days r + length batch < 2 ^ 32"
  shows "samples_in_days (rolled_rollup pol r batch) = samples_in_days r + length batch"
proof -
  let ?bs = "map (\<lambda>(d, ss). day_bucket_of (expected_per_day pol) d ss) (group_by (day_start \<circ> smp_ts) batch)"
  have "sum_list (map db_count ?bs) = length batch"
    using assms by (intro group_counts) simp_all
  then have "samples_in_days (fold_into_tiers r batch pol) = samples_in_days r + length batch"
    unfolding samples_in_days_def tiers_parts using assms
    by (subst upserts_sum) (simp_all add: samples_in_days_def)
  then show ?thesis by (simp add: rolled_rollup_def samples_in_days_def)
qed

lemma pruned_sum:
  assumes "daily_window_secs pol \<le> 0"
  shows "samples_in_days (prune_and_sort pol now r) = samples_in_days r"
proof -
  have "sum_list (map db_count (sort_key db_start bs)) = sum_list (map db_count bs)" for bs
    by (metis mset_map mset_sort sum_mset_sum_list)
  then show ?thesis
    using assms by (simp add: samples_in_days_def prune_and_sort_def Let_def)
qed

section \<open>Merging two summaries of one day\<close>

lemma f_max_not_NaN: "a \<noteq> NaN \<Longrightarrow> f_max a b \<noteq> NaN"
  by (auto simp: f_max_def max_def)

lemma f_max_NInf: "a \<noteq> NaN \<Longrightarrow> f_max a NInf = a"
  by (cases a) (auto simp: f_max_def max_def)

lemma max_of_foldl: "a \<noteq> NaN \<Longrightarrow> foldl f_max a xs = f_max a (max_of xs)"
  by (induction xs rule: rev_induct) (simp_all add: max_of_def f_max_NInf f_max_assoc)

lemma max_of_append: "max_of (xs @ ys) = f_max (max_of xs) (max_of ys)"
proof -
  have "foldl f_max NInf xs \<noteq> NaN" by (induction xs rule: rev_induct) (simp_all add: f_max_not_NaN)
  then show ?thesis using max_of_foldl [of "max_of xs" ys] by (simp add: max_of_def)
qed

lemma ceiling_rank_sub:
  assumes "0 < n" "0 < m" "n + m \<le> 2 ^ 40"
  shows "percentile_rank P95 (n + m) \<le> percentile_rank P95 n + percentile_rank P95 m"
proof -
  have "\<lceil>19 * rat_of_nat (n + m) / 20\<rceil> \<le> \<lceil>19 * rat_of_nat n / 20\<rceil> + \<lceil>19 * rat_of_nat m / 20\<rceil>"
    by (simp add: ceiling_le_iff add_divide_distrib distrib_left) linarith
  moreover have "0 \<le> \<lceil>19 * rat_of_nat n / 20\<rceil>" "0 \<le> \<lceil>19 * rat_of_nat m / 20\<rceil>" by simp_all
  ultimately show ?thesis
    using P95_rank [of "n + m"] P95_rank [of n] P95_rank [of m] assms by (simp add: nat_add_distrib nat_le_iff)
qed

lemma p95_append_le:
  assumes "xs \<noteq> []" "ys \<noteq> []" "length xs + length ys \<le> 2 ^ 40"
  shows "p95_of (xs @ ys) \<le> max (p95_of xs) (p95_of ys)"
proof -
  let ?v = "max (p95_of xs) (p95_of ys)"
  have le: "length (filter (\<lambda>x. x \<le> a) zs) \<le> length (filter (\<lambda>x. x \<le> ?v) zs)" if "a \<le> ?v" for a :: f64 and zs
    using that by (induction zs) auto
  have "percentile_rank P95 (length (xs @ ys)) \<le> percentile_rank P95 (length xs) + percentile_rank P95 (length ys)"
    using ceiling_rank_sub [of "length xs" "length ys"] assms by simp
  also have "\<dots> \<le> length (filter (\<lambda>x. x \<le> p95_of xs) xs) + length (filter (\<lambda>x. x \<le> p95_of ys) ys)"
    unfolding p95_of_def using percentile_counts(2) assms(1,2) by (intro add_mono) blast+
  also have "\<dots> \<le> length (filter (\<lambda>x. x \<le> ?v) xs) + length (filter (\<lambda>x. x \<le> ?v) ys)"
    by (intro add_mono le) simp_all
  also have "\<dots> = length (filter (\<lambda>x. x \<le> ?v) (xs @ ys))" by simp
  finally show ?thesis using percentile_le [of "xs @ ys" P95 ?v] assms(1) unfolding p95_of_def by simp
qed

section \<open>Properties\<close>

lemma already_rolled:
  "mset samples = mset (in_window pol now samples) + mset (batch_of pol now through samples) +
     mset (filter (\<lambda>s. day_fully_aged pol now (smp_ts s) \<and> smp_ts s \<le> through) samples)"
  by (induction samples) (auto simp: in_window_def batch_of_def)

lemma batch_bounded: "length (batch_of pol now through samples) \<le> length samples"
  by (simp add: batch_of_def)

lemma rolled_not_again:
  "s \<in> set batch \<Longrightarrow> s \<notin> set (batch_of pol' now' (rolled_through_ts (rolled_rollup pol r batch)) again)"
  using rolled_through_covers(1) [of s batch pol r] by (auto simp: batch_of_def)

lemma aged_stays: "now \<le> now' \<Longrightarrow> day_fully_aged pol now ts \<Longrightarrow> day_fully_aged pol now' ts"
  by (simp add: day_fully_aged_def)

lemma crash_recovery:
  assumes "plan_roll samples r now pol = (retained, r', summary)" "sorted (map smp_ts samples)" "now \<le> now'"
  shows "plan_roll samples r' now pol = (retained, r', summary\<lparr>rs_raw_lines := 0\<rparr>) \<and>
    plan_roll samples r' now' pol = plan_roll retained r' now' pol"
proof -
  let ?batch = "batch_of pol now (rolled_through_ts r) samples"
  have ret: "retained = sort_key smp_ts (in_window pol now samples)"
    and r': "r' = prune_and_sort pol now (rolled_rollup pol r ?batch)"
    and sm: "summary = \<lparr>rs_rolled_through_ts = rolled_through_ts r', rs_raw_lines = u32_wrap (length ?batch)\<rparr>"
    using assms(1) by (auto simp: plan_roll_eq Let_def)
  have old: "smp_ts s \<le> rolled_through_ts r'" if "s \<in> set samples" "day_fully_aged pol now (smp_ts s)" for s
  proof (cases "smp_ts s \<le> rolled_through_ts r")
    case True
    then show ?thesis using rolled_through_covers(2) [of r pol ?batch] by (simp add: r')
  next
    case False
    then have "s \<in> set ?batch" using that by (simp add: batch_of_def)
    then show ?thesis using rolled_through_covers(1) [of s ?batch pol r] by (simp add: r')
  qed
  have none: "batch_of pol now (rolled_through_ts r') samples = []"
    using old unfolding batch_of_def filter_empty_conv by (meson not_less)
  have same: "plan_roll samples r' now pol = (retained, r', summary\<lparr>rs_raw_lines := 0\<rparr>)"
    by (simp add: plan_roll_eq none rolled_rollup_def u32_wrap_def ret sm)
      (simp add: r' prune_and_sort_idem)
  have id: "retained = in_window pol now samples"
    unfolding ret in_window_def using assms(2) by (intro sort_key_id_if_sorted sorted_filter)
  have "in_window pol now' retained = in_window pol now' samples"
    using aged_stays [OF assms(3)] by (auto simp: id in_window_def intro: filter_cong)
  moreover have "batch_of pol now' (rolled_through_ts r') retained = batch_of pol now' (rolled_through_ts r') samples"
    unfolding id in_window_def batch_of_def filter_filter using old by (intro filter_cong refl) (meson not_less)
  ultimately show ?thesis using same by (simp add: plan_roll_eq)
qed

text \<open>
  C34: The nearest-rank percentile is one of the readings; at least the rank's number of readings are at or
  below it and fewer are strictly below. For the 95th percentile of up to \<open>2 ^ 40\<close> readings the rank
  computed in floating point is exactly \<open>\<lceil>19 n / 20\<rceil>\<close>.
\<close>

theorem percentile_nearest_rank:
  assumes "xs \<noteq> []"
  shows "percentile xs p \<in> set xs \<and>
    1 \<le> percentile_rank p (length xs) \<and> percentile_rank p (length xs) \<le> length xs \<and>
    percentile_rank p (length xs) \<le> length (filter (\<lambda>x. x \<le> percentile xs p) xs) \<and>
    length (filter (\<lambda>x. x < percentile xs p) xs) < percentile_rank p (length xs) \<and>
    (length xs \<le> 2 ^ 40 \<longrightarrow> percentile_rank P95 (length xs) = nat \<lceil>19 * rat_of_nat (length xs) / 20\<rceil>)"
  using percentile_counts [OF assms] percentile_rank_bounds [of "length xs"] P95_rank [of "length xs"] assms
  by simp

theorem percentile_nearest_rank_witness:
  "percentile [Fin (1 / 2), Fin (1 / 4)] P95 \<in> {Fin (1 / 2), Fin (1 / 4)} \<and>
   percentile_rank P95 (length [Fin (1 / 2), Fin (1 / 4)]) = 2"
proof -
  have "\<lceil>19 * rat_of_nat 2 / 20\<rceil> = 2" by (simp add: ceiling_eq_iff)
  then show ?thesis using percentile_nearest_rank [of "[Fin (1 / 2), Fin (1 / 4)]" P95] by simp
qed

text \<open>
  Merging the summaries of two batches of one day gives the maximum, the cap hits and the number of
  readings of both batches together exactly, and a 95th percentile that is never below the true one.
\<close>

theorem merged_day_is_conservative:
  assumes "xs \<noteq> []" "ys \<noteq> []" "NaN \<notin> set xs" "NaN \<notin> set ys" "length xs + length ys < 2 ^ 32"
    and "merge_day_stat (Some (day_stat_of xs)) n (Some (day_stat_of ys)) m = Some st"
  shows "ds_max st = max_of (xs @ ys) \<and>
    ds_cap_hits st = length (filter (\<lambda>x. f_ge x CAP_FRACTION) (xs @ ys)) \<and>
    ds_samples st = Some (length (xs @ ys)) \<and> p95_of (xs @ ys) \<le> ds_p95 st"
proof -
  have fl: "length (filter P xs) + length (filter P ys) < 2 ^ 32" for P
    using assms(5) length_filter_le [of P xs] length_filter_le [of P ys] by linarith
  have "p95_of xs \<in> set xs" "p95_of ys \<in> set ys" using percentile_counts(1) assms(1,2) by (auto simp: p95_of_def)
  then have "p95_of xs \<noteq> NaN" "p95_of ys \<noteq> NaN" using assms(3,4) by metis+
  then have "f_max (p95_of xs) (p95_of ys) = max (p95_of xs) (p95_of ys)" by (simp add: f_max_def)
  then have "p95_of (xs @ ys) \<le> f_max (p95_of xs) (p95_of ys)"
    using p95_append_le [OF assms(1,2)] assms(5) by simp
  then show ?thesis using assms(5,6) fl [of "\<lambda>x. f_ge x CAP_FRACTION"]
    by (auto simp: day_stat_of_def max_of_append u32_wrap_def)
qed

theorem merged_day_is_conservative_witness:
  "\<exists>st. merge_day_stat (Some (day_stat_of [Fin 1])) 1 (Some (day_stat_of [Fin (1 / 2)])) 1 = Some st \<and>
     ds_samples st = Some 2"
proof -
  obtain st where st: "merge_day_stat (Some (day_stat_of [Fin 1])) 1 (Some (day_stat_of [Fin (1 / 2)])) 1 = Some st"
    by (simp add: split_beta)
  from merged_day_is_conservative [OF _ _ _ _ _ st] have "ds_samples st = Some 2" by simp
  with st show ?thesis by blast
qed

text \<open>
  C20: One pass, bucket by bucket: the buckets of a day and of an hour after \<open>plan_roll\<close> are what they were,
  merged with the summary of the newly aged samples of exactly that day or hour, and gone when they have
  left the retention window. The retained samples are those of days inside the raw window, in order.
  The invariant of the rollup is kept.
\<close>

theorem plan_roll_by_bucket:
  assumes "rollup_ok r"
  shows "case plan_roll samples r now pol of (retained, r', summary) \<Rightarrow>
    (let batch = batch_of pol now (rolled_through_ts r) samples; e = expected_per_day pol;
         ds = filter (\<lambda>s. day_start (smp_ts s) = d) batch; hs = filter (\<lambda>s. hour_start (smp_ts s) = h) batch
     in rollup_ok r' \<and> retained = sort_key smp_ts (in_window pol now samples) \<and>
        day_at r' d = (if daily_window_secs pol > 0 \<and> d < now - daily_window_secs pol then None
          else if ds = [] then day_at r d
          else Some (absorb (merge_day e) (day_at r d) (day_bucket_of e d ds))) \<and>
        hour_at r' h = (if h < now - hourly_window_secs pol then None
          else if hs = [] then hour_at r h
          else Some (absorb merge_hour (hour_at r h) (hour_bucket_of h hs))))"
proof -
  let ?batch = "batch_of pol now (rolled_through_ts r) samples"
  note parts = rolled_rollup_parts [OF assms, of pol ?batch]
  have "day_at (rolled_rollup pol r ?batch) d = day_at (fold_into_tiers r ?batch pol) d"
    "hour_at (rolled_rollup pol r ?batch) h = hour_at (fold_into_tiers r ?batch pol) h"
    by (auto simp: rolled_rollup_def day_at_def hour_at_def fold_into_tiers_def)
  then show ?thesis
    using plan_keeps_ok [OF assms, of pol now ?batch] day_at_pruned [OF parts(2), of pol now d]
      hour_at_pruned [OF parts(1), of pol now h]
    by (simp add: plan_roll_eq Let_def tiers_day_at tiers_hour_at)
qed


text \<open>Two days of samples, the older one aged out: its bucket appears, and only its sample is rolled.\<close>

definition sample_day :: "int \<Rightarrow> sample" where
  "sample_day ts = Sample_new ts ''claude'' ''a'' (Some (Fin (1 / 2))) None"

definition two_day_policy :: retention_policy where
  "two_day_policy = retention_policy_default\<lparr>raw_window_secs := DAY_SECS\<rparr>"

lemmas sample_run = sample_day_def Sample_new_def two_day_policy_def retention_policy_default_def
  batch_of_def in_window_def day_fully_aged_def day_start_def hour_start_def rollup_default_def
  DAY_SECS_def HOUR_SECS_def DEFAULT_HOURLY_WINDOW_SECS_def

theorem plan_roll_by_bucket_witness:
  "rollup_ok rollup_default \<and>
   day_at (fst (snd (plan_roll [sample_day 100, sample_day 259200] rollup_default 259200 two_day_policy))) 0 =
     Some (day_bucket_of (expected_per_day two_day_policy) 0 [sample_day 100])"
proof
  show ok: "rollup_ok rollup_default" by (simp add: rollup_ok_def rollup_default_def)
  show "day_at (fst (snd (plan_roll [sample_day 100, sample_day 259200] rollup_default 259200 two_day_policy))) 0 =
      Some (day_bucket_of (expected_per_day two_day_policy) 0 [sample_day 100])"
    using plan_roll_by_bucket [OF ok, where samples = "[sample_day 100, sample_day 259200]" and now = 259200
        and pol = two_day_policy and d = 0 and h = 0]
    by (simp add: split_beta Let_def sample_run absorb_def day_at_def split: if_splits)
qed


text \<open>
  A crash after the rollup was written and before the raw file was rewritten does no harm: a pass over
  the old raw samples with the new rollup rolls nothing and gives the same files, and a later pass gives
  what it would have given without the crash.
\<close>

theorem crash_between_writes:
  assumes "plan_roll samples r now pol = (retained, r', summary)" "sorted (map smp_ts samples)" "now \<le> now'"
  shows "plan_roll samples r' now pol = (retained, r', summary\<lparr>rs_raw_lines := 0\<rparr>) \<and>
    plan_roll samples r' now' pol = plan_roll retained r' now' pol"
  by (rule crash_recovery [OF assms])

theorem crash_between_writes_witness:
  "\<exists>ret r' summary. plan_roll [sample_day 100, sample_day 259200] rollup_default 259200 two_day_policy = (ret, r', summary) \<and>
     plan_roll [sample_day 100, sample_day 259200] r' 345600 two_day_policy = plan_roll ret r' 345600 two_day_policy"
proof -
  obtain ret r' summary where
    p: "plan_roll [sample_day 100, sample_day 259200] rollup_default 259200 two_day_policy = (ret, r', summary)"
    by (metis surj_pair)
  from crash_between_writes [OF p, of 345600] p show ?thesis
    by (simp add: sample_day_def Sample_new_def)
qed

end
