(* ===== verification/Usage_Store.thy ===== *)
theory Usage_Store
  imports Files Usage_Rollup Usage Config
begin

text \<open>
  The stateful half of \<open>src/usage_store.rs\<close>: the store lock, the append of a sample, the reads of the raw
  file and of the rollup, and the compaction pass that rewrites both under the lock, the rollup first;
  \<open>StatsConfig::retention_policy\<close> of \<open>src/config.rs\<close>; and the two collectors of \<open>src/daemon.rs\<close> that call
  the store. The JSON library is the record \<open>codec\<close>.
\<close>

section \<open>Encoding\<close>

text \<open>
  \<open>enc_sample\<close> and \<open>dec_sample\<close> are \<open>serde_json\<close> on one sample, \<open>enc_file\<close> writes the wrapped rollup,
  \<open>dec_format\<close> reads the \<open>format\<close> key of a file, \<open>dec_file\<close> and \<open>dec_bare\<close> a wrapped and a bare rollup; a
  failed parse gives its line and column.
\<close>

record codec =
  enc_sample :: "sample \<Rightarrow> bytes"
  dec_sample :: "bytes \<Rightarrow> sample option"
  enc_file :: "nat \<Rightarrow> rollup \<Rightarrow> bytes"
  dec_format :: "bytes \<Rightarrow> (nat \<times> nat) + nat option"
  dec_file :: "bytes \<Rightarrow> (nat \<times> nat) + rollup"
  dec_bare :: "bytes \<Rightarrow> (nat \<times> nat) + rollup"

definition NEWLINE_BYTE :: "8 word" where "NEWLINE_BYTE = 10"

definition f_finite :: "f64 \<Rightarrow> bool" where
  "f_finite x \<longleftrightarrow> x \<noteq> NaN \<and> x \<noteq> PInf \<and> x \<noteq> NInf"

definition serialize_err :: error where
  "serialize_err = StoreError (UsageStoreSerialize ''a usage value was not a finite number'')"

fun serialize_finite_fraction :: "f64 option \<Rightarrow> unit result" where
  "serialize_finite_fraction None = Inr ()"
| "serialize_finite_fraction (Some x) = (if f_finite x then Inr () else Inl serialize_err)"

text \<open>\<open>serde_json::to_vec(sample)\<close>: the fields are serialized in order and the first error wins.\<close>

definition sample_to_vec :: "codec \<Rightarrow> sample \<Rightarrow> bytes result" where
  "sample_to_vec cd s =
     and_then (serialize_finite_fraction (smp_session s)) (\<lambda>_.
     and_then (serialize_finite_fraction (smp_weekly s)) (\<lambda>_. Inr (enc_sample cd s)))"

text \<open>\<open>bytes.split(|&b| b == b'\n')\<close>.\<close>

fun split_on :: "'a \<Rightarrow> 'a list \<Rightarrow> 'a list list" where
  "split_on sep [] = [[]]"
| "split_on sep (x # xs) =
     (if x = sep then [] # split_on sep xs
      else (case split_on sep xs of [] \<Rightarrow> [[x]] | l # ls \<Rightarrow> (x # l) # ls))"

definition parse_samples :: "codec \<Rightarrow> bytes \<Rightarrow> sample list" where
  "parse_samples cd b =
     fold (\<lambda>r samples. if r = [] then samples
       else (case dec_sample cd r of Some s \<Rightarrow> samples @ [s] | None \<Rightarrow> samples)) (split_on NEWLINE_BYTE b) []"

definition ROLLUP_FORMAT :: nat where "ROLLUP_FORMAT = 2"

definition malformed :: "nat \<times> nat \<Rightarrow> error" where
  "malformed p = StoreError (UsageRollupMalformed (fst p) (snd p))"

definition parse_rollup :: "codec \<Rightarrow> bytes \<Rightarrow> rollup result" where
  "parse_rollup cd b =
     (case dec_format cd b of
        Inl p \<Rightarrow> Inl (malformed p)
      | Inr (Some found) \<Rightarrow>
          if found = ROLLUP_FORMAT then (case dec_file cd b of Inl p \<Rightarrow> Inl (malformed p) | Inr r \<Rightarrow> Inr r)
          else if found > ROLLUP_FORMAT then Inl (StoreError (UsageRollupNewerFormat found ROLLUP_FORMAT))
          else (case dec_bare cd b of Inl p \<Rightarrow> Inl (malformed p) | Inr r \<Rightarrow> Inr r)
      | Inr None \<Rightarrow> (case dec_bare cd b of Inl p \<Rightarrow> Inl (malformed p) | Inr r \<Rightarrow> Inr r))"

section \<open>The store lock\<close>

definition STORE_LOCK_MAX_WAIT :: duration where "STORE_LOCK_MAX_WAIT = from_secs 2"
definition STORE_LOCK_RETRY :: duration where "STORE_LOCK_RETRY = 20000000"

definition store_lock_path :: "string \<Rightarrow> string" where
  "store_lock_path samples_path = with_file_name samples_path ''usage.lock''"

definition store_lock_acquire :: "nat \<Rightarrow> 'w posix \<Rightarrow> string \<Rightarrow> duration \<Rightarrow> ('w, unit result option) state" where
  "store_lock_acquire fuel px path max_wait = flock_acquire False STORE_LOCK_RETRY UsageStoreBusy fuel px path max_wait"

definition with_store_lock :: "nat \<Rightarrow> 'w posix \<Rightarrow> string \<Rightarrow> ('w, 'a result) state \<Rightarrow> ('w, 'a result) state" where
  "with_store_lock fuel px samples_path body =
     with_flock (store_lock_acquire fuel px (store_lock_path samples_path) STORE_LOCK_MAX_WAIT) UsageStoreBusy
       px (store_lock_path samples_path) body"

section \<open>Operations\<close>

definition append_sample :: "nat \<Rightarrow> 'w posix \<Rightarrow> codec \<Rightarrow> string \<Rightarrow> sample \<Rightarrow> ('w, unit result) state" where
  "append_sample fuel px cd samples_path s =
     with_store_lock fuel px samples_path
       (try_bind (State_Monad.return (sample_to_vec cd s)) (\<lambda>line.
        try_bind (create_private_file px samples_path) (\<lambda>_.
          lift_io (px_write_all px samples_path (line @ [NEWLINE_BYTE])))))"

definition read_samples :: "'w posix \<Rightarrow> codec \<Rightarrow> string \<Rightarrow> ('w, sample list result) state" where
  "read_samples px cd samples_path = State_Monad.bind (px_read px samples_path) (\<lambda>r. State_Monad.return
     (case r of
        Inr b \<Rightarrow> Inr (parse_samples cd b)
      | Inl FS_NotFound \<Rightarrow> Inr []
      | Inl (FS_Other m) \<Rightarrow> Inl (Io m)))"

definition read_rollup :: "'w posix \<Rightarrow> codec \<Rightarrow> string \<Rightarrow> ('w, rollup result) state" where
  "read_rollup px cd rollup_path = State_Monad.bind (px_read px rollup_path) (\<lambda>r. State_Monad.return
     (case r of
        Inr b \<Rightarrow> parse_rollup cd b
      | Inl FS_NotFound \<Rightarrow> Inr rollup_default
      | Inl (FS_Other m) \<Rightarrow> Inl (Io m)))"

fun samples_to_vec :: "codec \<Rightarrow> sample list \<Rightarrow> bytes result" where
  "samples_to_vec cd [] = Inr []"
| "samples_to_vec cd (s # ss) =
     and_then (sample_to_vec cd s) (\<lambda>line.
     and_then (samples_to_vec cd ss) (\<lambda>rest. Inr (line @ [NEWLINE_BYTE] @ rest)))"

definition write_samples :: "'w posix \<Rightarrow> codec \<Rightarrow> string \<Rightarrow> sample list \<Rightarrow> ('w, unit result) state" where
  "write_samples px cd samples_path samples =
     try_bind (State_Monad.return (samples_to_vec cd samples)) (\<lambda>buf. write_private_file px samples_path buf)"

text \<open>\<open>rollup_path.exists()\<close> is a \<open>metadata\<close> call that succeeds.\<close>

definition write_rollup :: "'w posix \<Rightarrow> codec \<Rightarrow> string \<Rightarrow> rollup \<Rightarrow> ('w, unit result) state" where
  "write_rollup px cd rollup_path r =
     (let b = enc_file cd ROLLUP_FORMAT r in
      State_Monad.bind (px_stat px rollup_path) (\<lambda>ex.
        (case ex of
           Inr _ \<Rightarrow> write_preserving_mode px rollup_path b
         | Inl _ \<Rightarrow> write_private_file px rollup_path b)))"

definition compact_and_roll ::
  "nat \<Rightarrow> 'w posix \<Rightarrow> codec \<Rightarrow> string \<Rightarrow> string \<Rightarrow> int \<Rightarrow> retention_policy \<Rightarrow> ('w, roll_summary result) state" where
  "compact_and_roll fuel px cd samples_path rollup_path now pol =
     with_store_lock fuel px samples_path
       (try_bind (read_samples px cd samples_path) (\<lambda>samples.
        try_bind (read_rollup px cd rollup_path) (\<lambda>r.
          case plan_roll samples r now pol of
            (retained, r', summary) \<Rightarrow>
              try_bind (write_rollup px cd rollup_path r') (\<lambda>_.
              try_bind (write_samples px cd samples_path retained) (\<lambda>_.
                State_Monad.return (Inr summary))))))"

section \<open>The callers\<close>

text \<open>A \<open>u64\<close> span cast to \<open>i64\<close> wraps; the validated spans are far below \<open>2 ^ 63\<close>.\<close>

definition u64_as_i64 :: "nat \<Rightarrow> int" where
  "u64_as_i64 n = (if n \<le> nat I64_MAX then int n else int n - 2 ^ 64)"

definition retention_policy_of :: "stats_config \<Rightarrow> int \<Rightarrow> retention_policy" where
  "retention_policy_of sc poll_interval_secs =
     \<lparr>raw_window_secs = u64_as_i64 (s_raw_retention_secs sc), hourly_window_secs = u64_as_i64 (s_hourly_retention_secs sc),
      daily_window_secs = u64_as_i64 (s_daily_retention_secs sc), rp_poll_interval_secs = poll_interval_secs\<rparr>"

definition USAGE_PROVIDER :: string where "USAGE_PROVIDER = ''claude''"

text \<open>The daemon's collector of one poll: nothing is stored for a failed poll, and a failed append is only logged.\<close>

definition append_sample_for_poll ::
  "nat \<Rightarrow> 'w posix \<Rightarrow> codec \<Rightarrow> string \<Rightarrow> string \<Rightarrow> polled_reading result \<Rightarrow> int \<Rightarrow> ('w, unit) state" where
  "append_sample_for_poll fuel px cd samples_path account_label polled now =
     (case polled of
        Inl _ \<Rightarrow> State_Monad.return ()
      | Inr reading \<Rightarrow>
          State_Monad.bind (append_sample fuel px cd samples_path
            (with_spend (with_severity (with_resets
              (Sample_new now USAGE_PROVIDER account_label (session (pr_usage reading)) (weekly (pr_usage reading)))
              (session_resets_at (pr_usage reading)) (weekly_resets_at (pr_usage reading)))
              (pr_severity reading)) None)) (\<lambda>_. State_Monad.return ()))"

definition record_usage_sample ::
  "nat \<Rightarrow> 'w posix \<Rightarrow> codec \<Rightarrow> string option \<Rightarrow> string \<Rightarrow> polled_reading result \<Rightarrow> int \<Rightarrow> ('w, unit) state" where
  "record_usage_sample fuel px cd samples_path account_label polled now =
     (case samples_path of
        None \<Rightarrow> State_Monad.return ()
      | Some path \<Rightarrow> append_sample_for_poll fuel px cd path account_label polled now)"

section \<open>What the two files hold\<close>

definition samples_in :: "codec \<Rightarrow> bytes option \<Rightarrow> sample list" where
  "samples_in cd b = (case b of None \<Rightarrow> [] | Some x \<Rightarrow> parse_samples cd x)"

definition rollup_in :: "codec \<Rightarrow> bytes option \<Rightarrow> rollup result" where
  "rollup_in cd b = (case b of None \<Rightarrow> Inr rollup_default | Some x \<Rightarrow> parse_rollup cd x)"

text \<open>
  What a pass may do to the files, from \<open>N\<close> to \<open>M\<close> with the result \<open>r\<close>: nothing, and fail; or write the
  planned rollup and fail before the raw file changed; or write both, and succeed.
\<close>

definition compaction_outcome ::
  "codec \<Rightarrow> string \<Rightarrow> string \<Rightarrow> int \<Rightarrow> retention_policy \<Rightarrow> (string \<Rightarrow> fnode option) \<Rightarrow> roll_summary result \<Rightarrow>
   (string \<Rightarrow> fnode option) \<Rightarrow> bool" where
  "compaction_outcome cd sp rp now pol N r M \<longleftrightarrow>
     (M sp = N sp \<and> M rp = N rp \<and> \<not> is_ok r) \<or>
     (\<exists>r0 ret r1 sm. rollup_in cd (content N rp) = Inr r0 \<and>
        plan_roll (samples_in cd (content N sp)) r0 now pol = (ret, r1, sm) \<and>
        content M rp = Some (enc_file cd ROLLUP_FORMAT r1) \<and>
        (M sp = N sp \<and> \<not> is_ok r \<or>
         (\<exists>buf. samples_to_vec cd ret = Inr buf \<and> content M sp = Some buf \<and> r = Inr sm)))"

text \<open>The two files, their staging files and the lock file are different files.\<close>

definition store_paths :: "string \<Rightarrow> string \<Rightarrow> bool" where
  "store_paths sp rp \<longleftrightarrow> distinct [sp, rp, store_lock_path sp] \<and> sp \<noteq> tmp_of rp \<and> rp \<noteq> tmp_of sp"

context posix_files
begin

lemma read_samples_run:
  assumes "run_state (read_samples px cd p) w = (r, w')"
  shows "nodes w' = nodes w \<and> (\<forall>xs. r = Inr xs \<longrightarrow> xs = samples_in cd (content (nodes w) p))"
  using assms read_bytes [of p w] read_absent [of p w]
  by (auto simp: read_samples_def split_beta pure samples_in_def content_def split: sum.splits fs_error.splits)

lemma read_rollup_run:
  assumes "run_state (read_rollup px cd p) w = (r, w')"
  shows "nodes w' = nodes w \<and> (\<forall>x. r = Inr x \<longrightarrow> rollup_in cd (content (nodes w) p) = Inr x)"
  using assms read_bytes [of p w] read_absent [of p w]
  by (auto simp: read_rollup_def split_beta pure rollup_in_def content_def split: sum.splits fs_error.splits)

lemma writes_rollup: "writes (write_rollup px cd p r) p (enc_file cd ROLLUP_FORMAT r)"
proof (rule writesI)
  fix w x w' assume run: "run_state (write_rollup px cd p r) w = (x, w')"
  let ?b = "enc_file cd ROLLUP_FORMAT r" and ?w = "exec (px_stat px p) w"
  have same: "nodes ?w = nodes w" by (rule pure)
  have "run_state (write_preserving_mode px p ?b) ?w = (x, w') \<or> run_state (write_private_file px p ?b) ?w = (x, w')"
    using run by (auto simp: write_rollup_def Let_def split_beta split: sum.splits)
  then show "(if x = Inr () then content (nodes w') p = Some ?b else nodes w' p = nodes w p) \<and>
      (\<forall>q. q \<noteq> p \<longrightarrow> q \<noteq> tmp_of p \<longrightarrow> nodes w' q = nodes w q)"
    using writesD [OF writes_private, of p ?b ?w] writesD [OF writes_preserving, of p ?b ?w] same by metis
qed

lemma write_samples_run:
  assumes "run_state (write_samples px cd p ss) w = (r, w')"
  shows "(if r = Inr () then \<exists>buf. samples_to_vec cd ss = Inr buf \<and> content (nodes w') p = Some buf else nodes w' p = nodes w p) \<and>
    (\<forall>q. q \<noteq> p \<longrightarrow> q \<noteq> tmp_of p \<longrightarrow> nodes w' q = nodes w q)"
proof (cases "samples_to_vec cd ss")
  case (Inl e)
  then show ?thesis using assms by (auto simp: write_samples_def run_try_bind)
next
  case (Inr buf)
  then have "run_state (write_private_file px p buf) w = (r, w')"
    using assms by (simp add: write_samples_def run_try_bind)
  from writesD [OF writes_private this] Inr show ?thesis by auto
qed

lemma t_compact_body:
  assumes "store_paths sp rp"
  shows "triple (off {store_lock_path sp} N)
    (try_bind (read_samples px cd sp) (\<lambda>samples.
     try_bind (read_rollup px cd rp) (\<lambda>r.
       case plan_roll samples r now pol of
         (retained, r', summary) \<Rightarrow>
           try_bind (write_rollup px cd rp r') (\<lambda>_.
           try_bind (write_samples px cd sp retained) (\<lambda>_.
             State_Monad.return (Inr summary))))))
    (\<lambda>r s. compaction_outcome cd sp rp now pol N r (nodes s))"
proof (rule tripleI)
  fix w x w'
  assume N: "off {store_lock_path sp} N w" and run: "run_state (try_bind (read_samples px cd sp) (\<lambda>samples.
     try_bind (read_rollup px cd rp) (\<lambda>r.
       case plan_roll samples r now pol of
         (retained, r', summary) \<Rightarrow>
           try_bind (write_rollup px cd rp r') (\<lambda>_.
           try_bind (write_samples px cd sp retained) (\<lambda>_.
             State_Monad.return (Inr summary)))))) w = (x, w')"
  have paths: "sp \<noteq> rp" "sp \<noteq> tmp_of rp" "rp \<noteq> tmp_of sp" and eq: "nodes w sp = N sp" "nodes w rp = N rp"
    using assms N by (auto simp: store_paths_def same_off_def)
  let ?no = "\<lambda>v. nodes v sp = N sp \<and> nodes v rp = N rp"
  obtain r1 w1 where s1: "run_state (read_samples px cd sp) w = (r1, w1)" by fastforce
  note rs = read_samples_run [OF s1]
  show "compaction_outcome cd sp rp now pol N x (nodes w')"
  proof (cases r1)
    case (Inl e)
    then show ?thesis using run s1 rs eq by (auto simp: run_try_bind compaction_outcome_def)
  next
    case samples: (Inr samples)
    obtain r2 w2 where s2: "run_state (read_rollup px cd rp) w1 = (r2, w2)" by fastforce
    note rr = read_rollup_run [OF s2]
    show ?thesis
    proof (cases r2)
      case (Inl e)
      then show ?thesis using run s1 s2 rs rr eq samples by (auto simp: run_try_bind compaction_outcome_def)
    next
      case roll: (Inr r0)
      obtain ret rl sm where plan: "plan_roll samples r0 now pol = (ret, rl, sm)" by (metis surj_pair)
      have known: "rollup_in cd (content N rp) = Inr r0" "plan_roll (samples_in cd (content N sp)) r0 now pol = (ret, rl, sm)"
        using rs rr samples roll eq plan by (auto simp: content_def)
      obtain r3 w3 where s3: "run_state (write_rollup px cd rp rl) w2 = (r3, w3)" by fastforce
      have wr: "if r3 = Inr () then content (nodes w3) rp = Some (enc_file cd ROLLUP_FORMAT rl) else nodes w3 rp = nodes w2 rp"
        "nodes w3 sp = nodes w2 sp"
        using writesD [OF writes_rollup s3] paths by auto
      show ?thesis
      proof (cases r3)
        case (Inl e)
        then show ?thesis using run s1 s2 s3 rs rr eq samples roll plan wr
          by (auto simp: run_try_bind compaction_outcome_def)
      next
        case (Inr u)
        obtain r4 w4 where s4: "run_state (write_samples px cd sp ret) w3 = (r4, w4)" by fastforce
        note ws = write_samples_run [OF s4]
        have "nodes w4 rp = nodes w3 rp" using ws paths by auto
        then have rp: "content (nodes w4) rp = Some (enc_file cd ROLLUP_FORMAT rl)"
          using wr Inr by (simp add: content_def)
        have x: "x = (case r4 of Inl e \<Rightarrow> Inl e | Inr _ \<Rightarrow> Inr sm)" "w' = w4"
          using run s1 s2 s3 s4 samples roll plan Inr by (auto simp: run_try_bind split: sum.splits)
        have "nodes w4 sp = N sp \<and> \<not> is_ok x \<or> (\<exists>buf. samples_to_vec cd ret = Inr buf \<and> content (nodes w4) sp = Some buf \<and> x = Inr sm)"
          using ws wr rs rr eq x by (cases r4) auto
        then show ?thesis unfolding compaction_outcome_def x(2) using known rp by blast
      qed
    qed
  qed
qed

lemma t_compact:
  assumes "store_paths sp rp"
  shows "triple (files N) (compact_and_roll fuel px cd sp rp now pol) (\<lambda>r s. compaction_outcome cd sp rp now pol N r (nodes s))"
proof -
  have "same_off {store_lock_path sp} N M \<Longrightarrow> compaction_outcome cd sp rp now pol N (Inl e) M" for M e
    using assms by (auto simp: compaction_outcome_def store_paths_def same_off_def)
  note stop = this
  show ?thesis unfolding compact_and_roll_def with_store_lock_def store_lock_acquire_def
    by (rule triple_pre, rule t_with_flock, rule t_compact_body [OF assms], erule stop) simp
qed

end

section \<open>Lines\<close>

definition record_of :: "codec \<Rightarrow> bytes \<Rightarrow> sample option" where
  "record_of cd r = (if r = [] then None else dec_sample cd r)"

lemma parse_samples_eq: "parse_samples cd b = List.map_filter (record_of cd) (split_on NEWLINE_BYTE b)"
proof -
  have "fold (\<lambda>r samples. if r = [] then samples
      else (case dec_sample cd r of Some s \<Rightarrow> samples @ [s] | None \<Rightarrow> samples)) ls acc =
      acc @ List.map_filter (record_of cd) ls" for ls acc
    by (induction ls arbitrary: acc) (auto simp: List.map_filter_simps record_of_def split: option.split)
  then show ?thesis by (simp add: parse_samples_def)
qed

lemma split_on_ne [simp]: "split_on sep xs \<noteq> []"
  by (induction sep xs rule: split_on.induct) (auto split: list.split)

lemma split_on_sep: "split_on sep (xs @ sep # ys) = split_on sep xs @ split_on sep ys"
proof (induction sep xs rule: split_on.induct)
  case (2 sep x xs)
  then show ?case by (cases "split_on sep xs") auto
qed simp

lemma split_on_id: "sep \<notin> set xs \<Longrightarrow> split_on sep xs = [xs]"
  by (induction sep xs rule: split_on.induct) auto

lemma map_filter_append: "List.map_filter f (xs @ ys) = List.map_filter f xs @ List.map_filter f ys"
  by (simp add: List.map_filter_def)

lemma parse_line: "parse_samples cd (xs @ NEWLINE_BYTE # ys) = parse_samples cd xs @ parse_samples cd ys"
  by (simp add: parse_samples_eq split_on_sep map_filter_append)

lemma parse_Nil [simp]: "parse_samples cd [] = []"
  by (simp add: parse_samples_eq record_of_def List.map_filter_simps)

lemma parse_one: "NEWLINE_BYTE \<notin> set r \<Longrightarrow> parse_samples cd r = (case record_of cd r of None \<Rightarrow> [] | Some s \<Rightarrow> [s])"
  by (simp add: parse_samples_eq split_on_id List.map_filter_simps split: option.split)

text \<open>A file whose last line is complete: what is appended is read on its own.\<close>

definition complete_lines :: "bytes \<Rightarrow> bool" where
  "complete_lines b \<longleftrightarrow> b = [] \<or> last b = NEWLINE_BYTE"

lemma parse_complete: "complete_lines b \<Longrightarrow> parse_samples cd (b @ ys) = parse_samples cd b @ parse_samples cd ys"
proof (cases "b = []")
  case False
  moreover assume "complete_lines b"
  ultimately have b: "b = butlast b @ [NEWLINE_BYTE]"
    using append_butlast_last_id [of b] by (simp add: complete_lines_def)
  have "parse_samples cd (b @ ys) = parse_samples cd (butlast b @ NEWLINE_BYTE # ys)"
    using b by (metis append.assoc append_Cons append_Nil)
  moreover have "parse_samples cd b = parse_samples cd (butlast b @ NEWLINE_BYTE # [])" using b by simp
  ultimately show ?thesis by (simp only: parse_line parse_Nil append_Nil2)
qed simp

text \<open>What the JSON library does for one sample: its line reads back, and contains no line break.\<close>

definition round_trips :: "codec \<Rightarrow> sample \<Rightarrow> bool" where
  "round_trips cd s \<longleftrightarrow> dec_sample cd (enc_sample cd s) = Some s \<and> enc_sample cd s \<noteq> [] \<and> NEWLINE_BYTE \<notin> set (enc_sample cd s)"

definition finite_fractions :: "sample \<Rightarrow> bool" where
  "finite_fractions s \<longleftrightarrow> (\<forall>x. smp_session s = Some x \<longrightarrow> f_finite x) \<and> (\<forall>x. smp_weekly s = Some x \<longrightarrow> f_finite x)"

lemma parse_enc: "round_trips cd s \<Longrightarrow> parse_samples cd (enc_sample cd s) = [s]"
  by (simp add: parse_one record_of_def round_trips_def)

lemma sample_to_vec_ok: "sample_to_vec cd s = (if finite_fractions s then Inr (enc_sample cd s) else Inl serialize_err)"
  by (cases "smp_session s"; cases "smp_weekly s")
    (auto simp: sample_to_vec_def finite_fractions_def and_then_def)

lemma parse_samples_to_vec:
  "samples_to_vec cd ss = Inr buf \<Longrightarrow> \<forall>s \<in> set ss. round_trips cd s \<Longrightarrow> parse_samples cd buf = ss"
proof (induction ss arbitrary: buf)
  case (Cons s ss)
  obtain rest where rest: "samples_to_vec cd ss = Inr rest" "buf = enc_sample cd s @ NEWLINE_BYTE # rest"
    using Cons.prems(1) by (auto simp: and_then_def sample_to_vec_ok split: sum.splits if_splits)
  then show ?case using Cons by (simp add: parse_line parse_enc)
qed simp

lemma samples_to_vec_finite: "\<forall>s \<in> set ss. finite_fractions s \<Longrightarrow> \<exists>buf. samples_to_vec cd ss = Inr buf"
  by (induction ss) (auto simp: and_then_def sample_to_vec_ok)

context posix_files
begin

lemma append_sample_run:
  assumes "store_lock_path sp \<noteq> sp" "run_state (append_sample fuel px cd sp s) w = (r, w')"
  shows "\<exists>n. content (nodes w') sp \<in> {content (nodes w) sp, Some ((case content (nodes w) sp of None \<Rightarrow> [] | Some b \<Rightarrow> b) @ take n (enc_sample cd s @ [NEWLINE_BYTE]))} \<and>
     (r = Inr () \<longrightarrow> finite_fractions s \<and>
        content (nodes w') sp = Some ((case content (nodes w) sp of None \<Rightarrow> [] | Some b \<Rightarrow> b) @ enc_sample cd s @ [NEWLINE_BYTE]))"
proof -
  let ?l = "store_lock_path sp" and ?line = "enc_sample cd s @ [NEWLINE_BYTE]"
  let ?old = "\<lambda>N. (case content N sp of None \<Rightarrow> [] | Some b \<Rightarrow> b)"
  let ?Q = "\<lambda>N r M. \<exists>n. content M sp \<in> {content N sp, Some (?old N @ take n ?line)} \<and>
     (r = Inr () \<longrightarrow> finite_fractions s \<and> content M sp = Some (?old N @ ?line))"
  let ?N = "nodes w"
  have keep: "?Q ?N (Inl e) M" if "same_off {?l} ?N M" for M e
    using that assms(1) by (auto simp: same_off_def content_def)
  have body: "triple (off {?l} ?N) (try_bind (State_Monad.return (sample_to_vec cd s)) (\<lambda>line.
      try_bind (create_private_file px sp) (\<lambda>_. lift_io (px_write_all px sp (line @ [NEWLINE_BYTE])))))
      (\<lambda>r s. ?Q ?N r (nodes s))"
  proof (rule tripleI)
    fix v x v'
    assume v: "off {?l} ?N v" and run: "run_state (try_bind (State_Monad.return (sample_to_vec cd s)) (\<lambda>line.
      try_bind (create_private_file px sp) (\<lambda>_. lift_io (px_write_all px sp (line @ [NEWLINE_BYTE]))))) v = (x, v')"
    have vsp: "nodes v sp = ?N sp" using v assms(1) by (auto simp: same_off_def)
    show "?Q ?N x (nodes v')"
    proof (cases "finite_fractions s")
      case False
      then show ?thesis using run keep [OF v] by (auto simp: run_try_bind sample_to_vec_ok)
    next
      case fin: True
      let ?v1 = "exec (px_open_append px sp FILE_MODE) v"
      show ?thesis
      proof (cases "res (px_open_append px sp FILE_MODE) v")
        case (Inl e)
        then have "nodes ?v1 = nodes v" "v' = ?v1" "\<exists>e. x = Inl e"
          using run fin append_fails [of sp FILE_MODE v e]
          by (auto simp: run_try_bind sample_to_vec_ok create_private_file_def lift_io_def split_beta)
        then show ?thesis using vsp by (auto simp: content_def)
      next
        case (Inr u)
        then have "nodes ?v1 = (case nodes v sp of Some n \<Rightarrow> nodes v
            | None \<Rightarrow> (nodes v)(sp \<mapsto> \<lparr>fn_bytes = [], fn_mode = FILE_MODE, fn_uid = px_uid px\<rparr>))"
          using append_ok [of sp FILE_MODE v] by simp
        then obtain n where n: "nodes ?v1 sp = Some n" "fn_bytes n = ?old ?N"
          by (cases "nodes w sp") (simp_all add: content_def vsp)
        let ?v2 = "exec (px_write_all px sp ?line) ?v1"
        have end_state: "v' = ?v2" "x = (case res (px_write_all px sp ?line) ?v1 of Inl e \<Rightarrow> Inl (io_error e) | Inr a \<Rightarrow> Inr a)"
          using run fin Inr by (auto simp: run_try_bind sample_to_vec_ok create_private_file_def lift_io_def split_beta)
        show ?thesis
        proof (cases "res (px_write_all px sp ?line) ?v1")
          case (Inl e)
          from write_torn [OF this n(1)] show ?thesis using end_state Inl n by (auto simp: content_def)
        next
          case (Inr a)
          then have "content (nodes ?v2) sp = Some (?old ?N @ ?line)"
            using write_ok [of sp ?line ?v1 n] n by (simp add: content_def)
          then show ?thesis using end_state Inr fin by (intro exI [of _ "length ?line"]) simp
        qed
      qed
    qed
  qed
  have "triple (files ?N) (append_sample fuel px cd sp s) (\<lambda>r s. ?Q ?N r (nodes s))"
    unfolding append_sample_def with_store_lock_def store_lock_acquire_def
    by (rule triple_pre, rule t_with_flock, rule body, erule keep) simp
  from tripleD [OF this refl assms(2)] show ?thesis .
qed

end

section \<open>Properties\<close>

text \<open>
  C16: The rollup is written before the raw file is truncated: a compaction pass changes nothing and fails, or
  writes exactly the planned rollup and fails with the raw samples still in place, or writes the planned
  rollup and the retained samples and succeeds. No other outcome exists, whatever fails.
\<close>

theorem compaction_writes_rollup_first:
  assumes "posix_files px nodes" "store_paths sp rp"
    and "run_state (compact_and_roll fuel px cd sp rp now pol) w = (r, w')"
  shows "compaction_outcome cd sp rp now pol (nodes w) r (nodes w')"
  by (rule tripleD [OF posix_files.t_compact [OF assms(1,2)] refl assms(3)])

definition store_sp :: string where "store_sp = ''/s/usage-samples.jsonl''"
definition store_rp :: string where "store_rp = ''/s/usage-rollup.json''"

lemma store_paths_sample: "store_paths store_sp store_rp"
  by (simp add: store_paths_def store_sp_def store_rp_def tmp_of_def store_lock_path_def with_file_name_def
      path_join_def path_parent_def)

text \<open>A codec for one sample, and for every rollup of one shape.\<close>

definition one_sample :: sample where
  "one_sample = Sample_new 1000 ''claude'' ''a'' (Some (Fin (1 / 2))) None"

definition tiny_codec :: codec where
  "tiny_codec = \<lparr>enc_sample = (\<lambda>_. [1, 2]), dec_sample = (\<lambda>b. if b = [1, 2] then Some one_sample else None),
     enc_file = (\<lambda>_ _. [7]), dec_format = (\<lambda>b. if b = [7] then Inr (Some 2) else Inl (1, 1)),
     dec_file = (\<lambda>_. Inr rollup_default), dec_bare = (\<lambda>_. Inl (1, 1))\<rparr>"

theorem compaction_writes_rollup_first_witness:
  "\<exists>r w'. run_state (compact_and_roll 1 mem_px tiny_codec store_sp store_rp 5 retention_policy_default) mem_empty = (r, w') \<and>
     compaction_outcome tiny_codec store_sp store_rp 5 retention_policy_default (\<lambda>_. None) r (mem_nodes w')"
proof -
  obtain r w' where run:
    "run_state (compact_and_roll 1 mem_px tiny_codec store_sp store_rp 5 retention_policy_default) mem_empty = (r, w')"
    by fastforce
  from compaction_writes_rollup_first [OF mem.posix_files_axioms store_paths_sample run] run show ?thesis
    by (simp add: mem_nodes_def mem_empty_def)
qed


lemma first_plan: "plan_roll [] rollup_default 5 retention_policy_default =
    ([], rollup_default, \<lparr>rs_rolled_through_ts = 0, rs_raw_lines = 0\<rparr>)"
  by (simp add: plan_roll_def split_aged_def rollup_default_def prune_and_sort_def u32_wrap_def Let_def)

lemmas mem_run = mem_px_def mem_call_def mem_fault_def mem_empty_def mem_nodes_def mem_put_def mem_drop_def
  mem_edit_def Let_def lift_io_def split_beta run_try_bind

lemma first_pass:
  "content (mem_nodes (snd (run_state (compact_and_roll 1 mem_px tiny_codec store_sp store_rp 5 retention_policy_default) mem_empty))) store_rp
     = Some [7]"
proof -
  have neq: "store_rp \<noteq> store_sp" "store_rp \<noteq> tmp_of store_sp" "tmp_of store_sp \<noteq> store_rp" "store_sp \<noteq> store_rp"
    using store_paths_sample by (auto simp: store_paths_def)
  have plan: "plan_roll [] rollup_default 5 retention_policy_default =
      ([], rollup_default, \<lparr>rs_rolled_through_ts = 0, rs_raw_lines = 0\<rparr>)" by (rule first_plan)
  show ?thesis
    by (simp add: compact_and_roll_def with_store_lock_def with_flock_def store_lock_acquire_def flock_acquire_def
        read_samples_def read_rollup_def write_rollup_def write_samples_def write_private_file_def content_def
        tiny_codec_def neq plan mem_run)
qed




text \<open>
  C31: An append that succeeds adds its sample after those already there; one that fails adds it or leaves the
  samples as they were, since no proper prefix of a JSON object parses.
\<close>

theorem append_sample_adds:
  assumes "posix_files px nodes" "store_lock_path sp \<noteq> sp" "round_trips cd s"
    and "complete_lines (case content (nodes w) sp of None \<Rightarrow> [] | Some b \<Rightarrow> b)"
    and "\<forall>n < length (enc_sample cd s). dec_sample cd (take n (enc_sample cd s)) = None"
    and "run_state (append_sample fuel px cd sp s) w = (r, w')"
  shows "samples_in cd (content (nodes w') sp) \<in>
      {samples_in cd (content (nodes w) sp), samples_in cd (content (nodes w) sp) @ [s]} \<and>
    (r = Inr () \<longrightarrow> samples_in cd (content (nodes w') sp) = samples_in cd (content (nodes w) sp) @ [s])"
proof -
  let ?old = "case content (nodes w) sp of None \<Rightarrow> [] | Some b \<Rightarrow> b" and ?e = "enc_sample cd s"
  have old: "samples_in cd (content (nodes w) sp) = parse_samples cd ?old"
    by (simp add: samples_in_def split: option.split)
  have add: "samples_in cd (Some (?old @ x)) = parse_samples cd ?old @ parse_samples cd x" for x
    using parse_complete [OF assms(4)] by (simp add: samples_in_def)
  have full: "parse_samples cd (?e @ [NEWLINE_BYTE]) = [s]"
    using parse_line [of cd ?e "[]"] parse_enc [OF assms(3)] by simp
  have part: "parse_samples cd (take n (?e @ [NEWLINE_BYTE])) \<in> {[], [s]}" for n
  proof (cases "n < length ?e")
    case True
    then have "NEWLINE_BYTE \<notin> set (take n ?e)" using assms(3) by (auto simp: round_trips_def dest: in_set_takeD)
    then show ?thesis using True assms(5) by (simp add: parse_one record_of_def split: option.split)
  next
    case False
    then have "take n (?e @ [NEWLINE_BYTE]) = ?e \<or> take n (?e @ [NEWLINE_BYTE]) = ?e @ [NEWLINE_BYTE]"
      by (cases "n - length ?e") auto
    then show ?thesis using full parse_enc [OF assms(3)] by auto
  qed
  obtain n where n: "content (nodes w') sp \<in> {content (nodes w) sp, Some (?old @ take n (?e @ [NEWLINE_BYTE]))}"
    "r = Inr () \<longrightarrow> content (nodes w') sp = Some (?old @ ?e @ [NEWLINE_BYTE])"
    using posix_files.append_sample_run [OF assms(1,2,6)] by blast
  have "r = Inr () \<Longrightarrow> samples_in cd (content (nodes w') sp) = samples_in cd (content (nodes w) sp) @ [s]"
    using n(2) add [of "?e @ [NEWLINE_BYTE]"] full old by simp
  moreover have "samples_in cd (content (nodes w') sp) \<in>
      {samples_in cd (content (nodes w) sp), samples_in cd (content (nodes w) sp) @ [s]}"
    using n(1) add [of "take n (?e @ [NEWLINE_BYTE])"] part [of n] old by auto
  ultimately show ?thesis by blast
qed

theorem append_sample_adds_witness:
  "samples_in tiny_codec (content (mem_nodes (snd (run_state (append_sample 9 mem_px tiny_codec store_sp one_sample) mem_empty))) store_sp)
     \<in> {[], [one_sample]}"
proof -
  obtain r w' where run: "run_state (append_sample 9 mem_px tiny_codec store_sp one_sample) mem_empty = (r, w')" by fastforce
  have "store_lock_path store_sp \<noteq> store_sp" using store_paths_sample by (auto simp: store_paths_def)
  from append_sample_adds [OF mem.posix_files_axioms this _ _ _ run] run show ?thesis
    by (simp add: tiny_codec_def round_trips_def NEWLINE_BYTE_def complete_lines_def content_def mem_nodes_def mem_empty_def
        samples_in_def take_Cons' split: nat.split)
qed



end
