(* ===== verification/Decimal.thy ===== *)
theory Decimal
  imports Text
begin

text \<open>
  Decimal numbers as Rust's formatter prints them and \<open>str::parse\<close> reads them, and the splitting of
  strings that the readers of names, instants and log lines use. A string is the list of its UTF-8 bytes.
\<close>

section \<open>Splitting\<close>

definition strip_prefix :: "string \<Rightarrow> string \<Rightarrow> string option" where
  "strip_prefix p s = (if take (length p) s = p then Some (drop (length p) s) else None)"

definition strip_suffix :: "string \<Rightarrow> string \<Rightarrow> string option" where
  "strip_suffix p s = map_option rev (strip_prefix (rev p) (rev s))"

fun split_once :: "char \<Rightarrow> string \<Rightarrow> (string \<times> string) option" where
  "split_once sep [] = None"
| "split_once sep (c # cs) =
     (if c = sep then Some ([], cs) else map_option (\<lambda>(a, b). (c # a, b)) (split_once sep cs))"

section \<open>Numbers\<close>

definition parse_u32 :: "string \<Rightarrow> nat option" where
  "parse_u32 s = (case parse_u64 s of Some n \<Rightarrow> if n \<le> U32_MAX then Some n else None | None \<Rightarrow> None)"

text \<open>\<open>i64::from_str\<close>: an optional sign, then at least one digit.\<close>

definition parse_i64 :: "string \<Rightarrow> int option" where
  "parse_i64 s =
     (case s of
        c # ds \<Rightarrow>
          if c = CHR ''-'' then
            (if ds = [] then None
             else case digits_value 0 ds of
               Some n \<Rightarrow> if int n \<le> I64_MAX + 1 then Some (- int n) else None | None \<Rightarrow> None)
          else (case parse_u64 s of
               Some n \<Rightarrow> if int n \<le> I64_MAX then Some (int n) else None | None \<Rightarrow> None)
      | [] \<Rightarrow> None)"

text \<open>\<open>format!("{:0w$}", n)\<close>: decimal, padded with zeros to at least \<open>w\<close> digits.\<close>

definition digit_char :: "nat \<Rightarrow> char" where
  "digit_char d = char_of (48 + d)"

fun decimal :: "nat \<Rightarrow> string" where
  "decimal n = (if n < 10 then [digit_char n] else decimal (n div 10) @ [digit_char (n mod 10)])"

declare decimal.simps [simp del]

definition zero_padded :: "nat \<Rightarrow> nat \<Rightarrow> string" where
  "zero_padded w n = replicate (w - length (decimal n)) (CHR ''0'') @ decimal n"

definition show_int :: "int \<Rightarrow> string" where
  "show_int n = (if n < 0 then CHR ''-'' # decimal (nat (- n)) else decimal (nat n))"

section \<open>Printed numbers are read back\<close>

lemma digit_value_char: "d < 10 \<Longrightarrow> digit_value (digit_char d) = Some d"
  by (simp add: digit_value_def digit_char_def)

lemma digit_char_plain: "d < 10 \<Longrightarrow> digit_char d \<noteq> CHR ''+'' \<and> digit_char d \<noteq> CHR ''.'' \<and> digit_char d \<noteq> CHR ''/''"
proof -
  assume d: "d < 10"
  have "of_char (digit_char d) = 48 + d" using d by (simp add: digit_char_def)
  then show ?thesis using d by auto
qed

lemma digits_value_append: "digits_value acc (xs @ ys) = Option.bind (digits_value acc xs) (\<lambda>a. digits_value a ys)"
  by (induction acc xs rule: digits_value.induct) (auto split: option.split)

lemma digits_value_decimal: "n \<le> U64_MAX \<Longrightarrow> digits_value 0 (decimal n) = Some n"
proof (induction n rule: decimal.induct)
  case (1 n)
  show ?case
  proof (cases "n < 10")
    case True
    with 1 show ?thesis by (simp add: decimal.simps [of n] digit_value_char)
  next
    case False
    then have "digits_value 0 (decimal (n div 10)) = Some (n div 10)" using 1 by simp
    then show ?thesis using False 1(2)
      by (simp add: decimal.simps [of n] digits_value_append digit_value_char)
  qed
qed

lemma digits_value_zeros: "digits_value 0 (replicate k (CHR ''0'') @ s) = digits_value 0 s"
  by (induction k) (simp_all add: digit_value_def)

lemma decimal_length: "n < 10 ^ w \<Longrightarrow> 0 < w \<Longrightarrow> length (decimal n) \<le> w"
proof (induction w arbitrary: n)
  case (Suc w)
  show ?case
  proof (cases "n < 10")
    case False
    then have w: "0 < w" using Suc.prems by (cases w) auto
    have "n div 10 < 10 ^ w" using Suc.prems by (simp add: div_less_iff_less_mult mult.commute)
    from Suc.IH [OF this w] show ?thesis using False by (simp add: decimal.simps [of n])
  qed (simp add: decimal.simps)
qed simp

lemma decimal_digits: "set (decimal n) \<subseteq> digit_char ` {..<10}"
proof (induction n rule: decimal.induct)
  case (1 n)
  then show ?case by (cases "n < 10") (auto simp: decimal.simps [of n])
qed

lemma zero_padded_digits: "set (zero_padded w n) \<subseteq> digit_char ` {..<10}"
proof -
  have "CHR ''0'' = digit_char 0" by code_simp
  then show ?thesis using decimal_digits [of n] by (auto simp: zero_padded_def)
qed

lemma zero_padded_length: "n < 10 ^ w \<Longrightarrow> 0 < w \<Longrightarrow> length (zero_padded w n) = w"
  using decimal_length [of n w] by (simp add: zero_padded_def)

lemma zero_padded_not_Nil: "zero_padded w n \<noteq> []"
proof -
  have "decimal n \<noteq> []" by (cases "n < 10") (simp_all add: decimal.simps [of n])
  then show ?thesis by (simp add: zero_padded_def)
qed

lemma zero_padded_plain: "c \<in> set (zero_padded w n) \<Longrightarrow> c \<noteq> CHR ''+'' \<and> c \<noteq> CHR ''.'' \<and> c \<noteq> CHR ''/''"
proof -
  assume "c \<in> set (zero_padded w n)"
  then obtain d where "d < 10" "c = digit_char d" using zero_padded_digits [of w n] by auto
  then show ?thesis using digit_char_plain by simp
qed

lemma parse_zero_padded: "n \<le> U64_MAX \<Longrightarrow> parse_u64 (zero_padded w n) = Some n"
proof -
  assume n: "n \<le> U64_MAX"
  obtain c cs where s: "zero_padded w n = c # cs" using zero_padded_not_Nil by (cases "zero_padded w n") auto
  then have "c \<noteq> CHR ''+''" using zero_padded_plain [of c w n] by simp
  then have "parse_u64 (zero_padded w n) = digits_value 0 (zero_padded w n)" by (simp add: parse_u64_def s)
  then show ?thesis using n by (simp add: zero_padded_def digits_value_zeros digits_value_decimal)
qed

lemma split_once_at: "sep \<notin> set a \<Longrightarrow> split_once sep (a @ sep # b) = Some (a, b)"
  by (induction a) auto

lemma split_onceD: "split_once sep s = Some (a, b) \<Longrightarrow> s = a @ sep # b"
  by (induction sep s arbitrary: a rule: split_once.induct) (auto split: if_splits)

lemma strip_prefix_append [simp]: "strip_prefix p (p @ s) = Some s"
  by (simp add: strip_prefix_def)

lemma strip_suffix_append [simp]: "strip_suffix p (s @ p) = Some s"
  by (simp add: strip_suffix_def)

lemma strip_prefixD: "strip_prefix p s = Some t \<Longrightarrow> s = p @ t"
  by (auto simp: strip_prefix_def split: if_splits) (metis append_take_drop_id)

lemma strip_suffixD: "strip_suffix p s = Some t \<Longrightarrow> s = t @ p"
  unfolding strip_suffix_def by (auto dest!: strip_prefixD) (metis rev_append rev_rev_ident)

lemma digits_value_plain: "digits_value acc s = Some v \<Longrightarrow> CHR ''/'' \<notin> set s"
  by (induction acc s rule: digits_value.induct) (auto simp: digit_value_def split: option.splits if_splits)

lemma digits_value_bound: "digits_value acc s = Some v \<Longrightarrow> v < (acc + 1) * 10 ^ length s"
proof (induction acc s rule: digits_value.induct)
  case (2 acc c cs)
  obtain d where d: "digit_value c = Some d" "digits_value (acc * 10 + d) cs = Some v" "acc * 10 + d \<le> U64_MAX"
    using 2(2) by (auto split: option.splits if_splits)
  have "d < 10" using d(1) by (auto simp: digit_value_def Let_def split: if_splits)
  then have "(acc * 10 + d + 1) * 10 ^ length cs \<le> (acc * 10 + 10) * 10 ^ length cs" by (intro mult_right_mono) auto
  also have "(acc * 10 + 10) * 10 ^ length cs = (acc + 1) * 10 ^ length (c # cs)" by (simp add: algebra_simps)
  finally show ?case using 2(1) [OF d(1,3,2)] by linarith
qed simp

lemma parse_u64_bound:
  assumes "parse_u64 s = Some v"
  shows "v < 10 ^ length s" "CHR ''/'' \<notin> set s"
proof -
  obtain ds where ds: "digits_value 0 ds = Some v" "s = ds \<or> s = CHR ''+'' # ds"
    using assms unfolding parse_u64_def Let_def by (cases s) (force split: if_splits)+
  have le: "(10::nat) ^ length ds \<le> 10 ^ length s" using ds(2) by auto
  have "v < 10 ^ length ds" using digits_value_bound [OF ds(1)] by simp
  from this le show "v < 10 ^ length s" by (rule less_le_trans)
  show "CHR ''/'' \<notin> set s" using ds(2) digits_value_plain [OF ds(1)] by auto
qed


end
