(* ===== verification/Roster_Backup.thy ===== *)
theory Roster_Backup
  imports Files Config Decimal "HOL-Library.Product_Lexorder" "HOL-Library.Multiset"
begin

text \<open>
  \<open>src/roster_backup.rs\<close>, the ring of the newest rosters that saving the configuration keeps, and its one
  writer: \<open>Config::save_to\<close> of \<open>src/config/render.rs\<close> under the lock of \<open>src/config/write_lock.rs\<close>. The
  rendered text of the configuration is an argument of the save; the TOML library is the one of \<open>Config\<close>.
\<close>

section \<open>Names and stamps\<close>

definition RING_DEPTH :: nat where "RING_DEPTH = 3"
definition RING_DIR :: string where "RING_DIR = ''backups''"
definition NAME_PREFIX :: string where "NAME_PREFIX = ''config.''"
definition NAME_SUFFIX :: string where "NAME_SUFFIX = ''.toml''"
definition TMP_SUFFIX :: string where "TMP_SUFFIX = ''.tmp''"
definition SECS_DIGITS :: nat where "SECS_DIGITS = 11"
definition NANOS_DIGITS :: nat where "NANOS_DIGITS = 9"

text \<open>Seconds and nanoseconds since the epoch, ordered lexicographically.\<close>

type_synonym stamp = "nat \<times> nat"

definition ring_dir :: "string \<Rightarrow> string" where
  "ring_dir config_path = path_join (path_parent config_path) RING_DIR"

definition stamp_of :: "string \<Rightarrow> stamp option" where
  "stamp_of name =
     Option.bind (Option.bind (strip_prefix NAME_PREFIX name) (strip_suffix NAME_SUFFIX)) (\<lambda>body.
     Option.bind (split_once (CHR ''.'') body) (\<lambda>(secs, nanos).
       if length secs \<noteq> SECS_DIGITS \<or> length nanos \<noteq> NANOS_DIGITS then None
       else Option.bind (parse_u64 secs) (\<lambda>s. Option.bind (parse_u32 nanos) (\<lambda>n. Some (s, n)))))"

fun file_name :: "stamp \<Rightarrow> string" where
  "file_name (secs, nanos) =
     NAME_PREFIX @ zero_padded SECS_DIGITS secs @ ''.'' @ zero_padded NANOS_DIGITS nanos @ NAME_SUFFIX"

fun next_after :: "stamp \<Rightarrow> stamp" where
  "next_after (secs, nanos) = (if nanos + 1 = 1000000000 then (secs + 1, 0) else (secs, nanos + 1))"

definition representable :: "stamp \<Rightarrow> stamp result" where
  "representable stamp =
     (if fst stamp \<ge> 10 ^ SECS_DIGITS
      then Inl (Io ''roster backup stamp could not be read back'') else Inr stamp)"

section \<open>Reading text\<close>

text \<open>\<open>str::from_utf8\<close>: the well-formed byte sequences of the Unicode standard.\<close>

abbreviation continuation :: "8 word \<Rightarrow> bool" where
  "continuation b \<equiv> 0x80 \<le> b \<and> b \<le> 0xBF"

fun utf8_valid :: "bytes \<Rightarrow> bool" where
  "utf8_valid [] = True"
| "utf8_valid (a # s) =
     (if a \<le> 0x7F then utf8_valid s
      else if 0xC2 \<le> a \<and> a \<le> 0xDF then (case s of b # s' \<Rightarrow> continuation b \<and> utf8_valid s' | _ \<Rightarrow> False)
      else if 0xE0 \<le> a \<and> a \<le> 0xEF then
        (case s of b # c # s' \<Rightarrow>
           (if a = 0xE0 then 0xA0 else 0x80) \<le> b \<and> b \<le> (if a = 0xED then 0x9F else 0xBF) \<and>
           continuation c \<and> utf8_valid s'
         | _ \<Rightarrow> False)
      else if 0xF0 \<le> a \<and> a \<le> 0xF4 then
        (case s of b # c # d # s' \<Rightarrow>
           (if a = 0xF0 then 0x90 else 0x80) \<le> b \<and> b \<le> (if a = 0xF4 then 0x8F else 0xBF) \<and>
           continuation c \<and> continuation d \<and> utf8_valid s'
         | _ \<Rightarrow> False)
      else False)"

definition text_of :: "bytes \<Rightarrow> string" where
  "text_of b = map (\<lambda>x. char_of (unat x)) b"

definition bytes_of :: "string \<Rightarrow> bytes" where
  "bytes_of s = map (\<lambda>c. of_nat (of_char c)) s"

definition read_to_string :: "'w posix \<Rightarrow> string \<Rightarrow> ('w, fs_error + string) state" where
  "read_to_string px path = State_Monad.bind (px_read px path) (\<lambda>r. State_Monad.return
     (case r of
        Inl e \<Rightarrow> Inl e
      | Inr b \<Rightarrow> if utf8_valid b then Inr (text_of b) else Inl (FS_Other ''stream did not contain valid UTF-8'')))"

section \<open>The ring\<close>

text \<open>The first entry that cannot be read ends the scan.\<close>

definition scan :: "'w posix \<Rightarrow> string \<Rightarrow> ('w, (string \<times> stamp) list result) state" where
  "scan px dir = State_Monad.bind (px_read_dir px dir) (\<lambda>r. State_Monad.return
     (case r of
        Inl FS_NotFound \<Rightarrow> Inr []
      | Inl (FS_Other m) \<Rightarrow> Inl (Io m)
      | Inr entries \<Rightarrow>
          (case any_entry_error entries of
             Some e \<Rightarrow> Inl (io_error e)
           | None \<Rightarrow> Inr (List.map_filter
               (\<lambda>name. map_option (\<lambda>st. (path_join dir name, st)) (stamp_of name)) (entry_names entries)))))"

definition unwrap_or_default :: "'a list result \<Rightarrow> 'a list" where
  "unwrap_or_default r = (case r of Inl _ \<Rightarrow> [] | Inr xs \<Rightarrow> xs)"

text \<open>\<open>sort_unstable_by_key(Reverse)\<close>; entries of one stamp are kept in their order.\<close>

definition newest_first :: "(string \<times> stamp) list \<Rightarrow> (string \<times> stamp) list" where
  "newest_first found = rev (sort_key snd (rev found))"

definition stamp_now :: "'w posix \<Rightarrow> 'w \<Rightarrow> stamp" where
  "stamp_now px w = (px_wall px w div NANOS_PER_SEC, px_wall px w mod NANOS_PER_SEC)"

definition clamp_stamp :: "stamp \<Rightarrow> stamp list \<Rightarrow> stamp" where
  "clamp_stamp stamp existing =
     (if existing = [] then stamp
      else let newest = Max (set existing) in if stamp \<le> newest then next_after newest else stamp)"

definition stamp_for :: "'w posix \<Rightarrow> string \<Rightarrow> ('w, stamp) state" where
  "stamp_for px dir =
     State_Monad.bind (sget (stamp_now px)) (\<lambda>stamp.
     State_Monad.bind (scan px dir) (\<lambda>found.
       State_Monad.return (clamp_stamp stamp (map snd (unwrap_or_default found)))))"

definition qualifying_contents :: "'w posix \<Rightarrow> toml \<Rightarrow> string \<Rightarrow> ('w, string option) state" where
  "qualifying_contents px toml config_path = State_Monad.bind (read_to_string px config_path) (\<lambda>r. State_Monad.return
     (case r of
        Inl _ \<Rightarrow> None
      | Inr text \<Rightarrow>
          (case parse_config toml text of
             Inl _ \<Rightarrow> None
           | Inr config \<Rightarrow> if cf_roster config \<noteq> [] then Some text else None)))"

fun remove_each :: "'w posix \<Rightarrow> string list \<Rightarrow> ('w, unit) state" where
  "remove_each px [] = State_Monad.return ()"
| "remove_each px (p # ps) = State_Monad.bind (px_remove px p) (\<lambda>_. remove_each px ps)"

definition abandoned_temp :: "stamp \<Rightarrow> string \<Rightarrow> bool" where
  "abandoned_temp newest name =
     (case Option.bind (strip_suffix TMP_SUFFIX name) stamp_of of None \<Rightarrow> False | Some stamp \<Rightarrow> stamp < newest)"

definition sweep_abandoned_temps :: "'w posix \<Rightarrow> string \<Rightarrow> stamp \<Rightarrow> ('w, unit) state" where
  "sweep_abandoned_temps px dir newest =
     State_Monad.bind (px_read_dir px dir) (\<lambda>r.
       (case r of
          Inl _ \<Rightarrow> State_Monad.return ()
        | Inr entries \<Rightarrow> remove_each px (map (path_join dir) (filter (abandoned_temp newest) (entry_names entries)))))"

definition prune :: "'w posix \<Rightarrow> string \<Rightarrow> ('w, unit) state" where
  "prune px dir =
     State_Monad.bind (scan px dir) (\<lambda>r.
       let found = newest_first (unwrap_or_default r) in
       State_Monad.bind (remove_each px (map fst (drop RING_DEPTH found))) (\<lambda>_.
         (case found of
            [] \<Rightarrow> State_Monad.return ()
          | (_, newest) # _ \<Rightarrow> sweep_abandoned_temps px dir newest)))"

text \<open>A retention is the path of the entry just written.\<close>

definition commit :: "'w posix \<Rightarrow> string \<Rightarrow> ('w, unit) state" where
  "commit px target = prune px (path_parent target)"

definition roll_back :: "'w posix \<Rightarrow> string \<Rightarrow> ('w, unit) state" where
  "roll_back px target = State_Monad.bind (px_remove px target) (\<lambda>_. State_Monad.return ())"

text \<open>The entry is written owner-only and its mode read back before the save goes on.\<close>

definition write_verified :: "'w posix \<Rightarrow> string \<Rightarrow> bytes \<Rightarrow> ('w, string option result) state" where
  "write_verified px target contents =
     try_bind (write_private_file px target contents) (\<lambda>_.
     try_bind (owner_only_deviation px target) (\<lambda>deviation.
       (case deviation of
          Some _ \<Rightarrow> State_Monad.bind (px_remove px target) (\<lambda>_. State_Monad.return
            (Inl (Io ''refusing this roster write: the backup did not read back as owner-only'')))
        | None \<Rightarrow> State_Monad.return (Inr (Some target)))))"

definition retain_if_qualifying :: "'w posix \<Rightarrow> toml \<Rightarrow> string \<Rightarrow> ('w, string option result) state" where
  "retain_if_qualifying px toml config_path =
     State_Monad.bind (qualifying_contents px toml config_path) (\<lambda>q.
       (case q of
          None \<Rightarrow> State_Monad.return (Inr None)
        | Some contents \<Rightarrow>
            (let dir = ring_dir config_path in
             try_bind (ensure_private_dir px dir) (\<lambda>_.
             State_Monad.bind (stamp_for px dir) (\<lambda>st.
             try_bind (State_Monad.return (representable st)) (\<lambda>stamp.
             write_verified px (path_join dir (file_name stamp)) (bytes_of contents)))))))"

record retained =
  rt_path :: string
  rt_taken_at :: stamp
  rt_accounts :: "nat option"

text \<open>\<open>Config::load_backup(&path).ok().map(|c| c.roster.len())\<close>.\<close>

definition load_backup :: "'w posix \<Rightarrow> toml \<Rightarrow> string \<Rightarrow> ('w, config result) state" where
  "load_backup px toml path =
     State_Monad.bind (read_to_string px path) (\<lambda>r. State_Monad.return (load_config toml path r))"

fun describe_each :: "'w posix \<Rightarrow> toml \<Rightarrow> (string \<times> stamp) list \<Rightarrow> ('w, retained list) state" where
  "describe_each px toml [] = State_Monad.return []"
| "describe_each px toml ((path, st) # found) =
     State_Monad.bind (load_backup px toml path) (\<lambda>c.
     State_Monad.bind (describe_each px toml found) (\<lambda>rest.
       State_Monad.return (\<lparr>rt_path = path, rt_taken_at = st,
         rt_accounts = (case c of Inl _ \<Rightarrow> None | Inr cfg \<Rightarrow> Some (length (cf_roster cfg)))\<rparr> # rest)))"

definition list_retained :: "'w posix \<Rightarrow> toml \<Rightarrow> string \<Rightarrow> ('w, retained list result) state" where
  "list_retained px toml config_path =
     try_bind (scan px (ring_dir config_path)) (\<lambda>stamps.
     State_Monad.bind (describe_each px toml (newest_first stamps)) (\<lambda>rs. State_Monad.return (Inr rs)))"

section \<open>Saving the configuration\<close>

definition CONFIG_WRITE_LOCK_MAX_WAIT :: duration where "CONFIG_WRITE_LOCK_MAX_WAIT = from_secs 5"
definition CONFIG_WRITE_LOCK_RETRY :: duration where "CONFIG_WRITE_LOCK_RETRY = 20000000"

definition config_lock_path :: "string \<Rightarrow> string" where
  "config_lock_path config_path = config_path @ ''.lock''"

definition config_lock_acquire :: "nat \<Rightarrow> 'w posix \<Rightarrow> string \<Rightarrow> duration \<Rightarrow> ('w, unit result option) state" where
  "config_lock_acquire fuel px path max_wait =
     flock_acquire True CONFIG_WRITE_LOCK_RETRY ConfigWriteLockBusy fuel px path max_wait"

definition save_under_lock :: "'w posix \<Rightarrow> toml \<Rightarrow> string \<Rightarrow> string \<Rightarrow> ('w, unit result) state" where
  "save_under_lock px toml rendered path =
     try_bind (retain_if_qualifying px toml path) (\<lambda>retention.
     State_Monad.bind (write_private_file px path (bytes_of rendered)) (\<lambda>r.
       (case r of
          Inr _ \<Rightarrow>
            State_Monad.bind (case retention of Some t \<Rightarrow> commit px t | None \<Rightarrow> State_Monad.return ())
              (\<lambda>_. State_Monad.return (Inr ()))
        | Inl err \<Rightarrow>
            State_Monad.bind (case retention of Some t \<Rightarrow> roll_back px t | None \<Rightarrow> State_Monad.return ())
              (\<lambda>_. State_Monad.return (Inl err)))))"

definition save_to_within ::
  "nat \<Rightarrow> 'w posix \<Rightarrow> toml \<Rightarrow> string \<Rightarrow> string \<Rightarrow> duration \<Rightarrow> ('w, unit result) state" where
  "save_to_within fuel px toml rendered path lock_budget =
     try_bind (ensure_private_dir px (path_parent path)) (\<lambda>_.
     with_flock (config_lock_acquire fuel px (config_lock_path path) lock_budget) ConfigWriteLockBusy
       px (config_lock_path path)
       (save_under_lock px toml rendered path))"

definition save_to :: "nat \<Rightarrow> 'w posix \<Rightarrow> toml \<Rightarrow> string \<Rightarrow> string \<Rightarrow> ('w, unit result) state" where
  "save_to fuel px toml rendered path = save_to_within fuel px toml rendered path CONFIG_WRITE_LOCK_MAX_WAIT"

section \<open>Names read back\<close>

lemma stamp_of_file_name_lemma:
  assumes "secs < 10 ^ 11" "nanos < 10 ^ 9"
  shows "stamp_of (file_name (secs, nanos)) = Some (secs, nanos)"
proof -
  let ?a = "zero_padded SECS_DIGITS secs" and ?b = "zero_padded NANOS_DIGITS nanos"
  have "file_name (secs, nanos) = NAME_PREFIX @ ((?a @ CHR ''.'' # ?b) @ NAME_SUFFIX)" by simp
  moreover have "CHR ''.'' \<notin> set ?a" using zero_padded_plain by blast
  moreover have "length ?a = SECS_DIGITS" "length ?b = NANOS_DIGITS"
    using assms by (intro zero_padded_length; simp add: SECS_DIGITS_def NANOS_DIGITS_def)+
  moreover have "parse_u64 ?a = Some secs" "parse_u32 ?b = Some nanos"
    using assms by (simp_all add: parse_zero_padded parse_u32_def)
  ultimately show ?thesis
    by (simp add: stamp_of_def split_once_at del: file_name.simps append_assoc)
qed

text \<open>A name with a stamp contains no slash, and its numbers fit.\<close>

lemma stamp_of_bounds:
  assumes "stamp_of name = Some (s, n)"
  shows "s < 10 ^ 11" "n < 10 ^ 9" "CHR ''/'' \<notin> set name"
proof -
  obtain secs nanos where name: "name = NAME_PREFIX @ (secs @ CHR ''.'' # nanos) @ NAME_SUFFIX"
    and l: "length secs = SECS_DIGITS" "length nanos = NANOS_DIGITS"
    and v: "parse_u64 secs = Some s" "parse_u32 nanos = Some n"
    using assms unfolding stamp_of_def
    by (auto simp: bind_eq_Some_conv dest!: strip_prefixD strip_suffixD split_onceD split: if_splits)
  have "parse_u64 nanos = Some n" using v(2) by (auto simp: parse_u32_def split: option.splits if_splits)
  then show "s < 10 ^ 11" "n < 10 ^ 9" "CHR ''/'' \<notin> set name"
    using parse_u64_bound [OF v(1)] parse_u64_bound [of nanos n] l
    unfolding name
    by (auto simp: SECS_DIGITS_def NANOS_DIGITS_def NAME_PREFIX_def NAME_SUFFIX_def)
qed

lemma next_after_greater: "snd st < 10 ^ 9 \<Longrightarrow> st < next_after st \<and> snd (next_after st) < 10 ^ 9"
  by (cases st) (auto simp: less_prod_def)

lemma clamp_stamp_above:
  assumes "e \<in> set existing"
  shows "e < clamp_stamp st existing \<or> (\<exists>x \<in> set existing. \<not> snd x < 10 ^ 9)"
proof (cases "\<exists>x \<in> set existing. \<not> snd x < 10 ^ 9")
  case False
  have m: "Max (set existing) \<in> set existing" using assms by (intro Max_in) auto
  have e: "e \<le> Max (set existing)" using assms by simp
  have "Max (set existing) < next_after (Max (set existing))"
    using next_after_greater False m by blast
  then show ?thesis using assms e by (auto simp: clamp_stamp_def Let_def not_le)
qed simp

section \<open>What the ring operations do to the files\<close>

text \<open>The backup \<open>p\<close> of the configuration \<open>cp\<close>, taken at \<open>st\<close>.\<close>

definition backup_at :: "string \<Rightarrow> string \<Rightarrow> stamp \<Rightarrow> bool" where
  "backup_at cp p st \<longleftrightarrow> (\<exists>name. p = path_join (ring_dir cp) name \<and> stamp_of name = Some st)"

text \<open>The ring directory can be listed and holds regular files only.\<close>

definition ring_readable :: "'w posix \<Rightarrow> ('w \<Rightarrow> string \<Rightarrow> fnode option) \<Rightarrow> string \<Rightarrow> bool" where
  "ring_readable px nodes dir \<longleftrightarrow> (\<forall>w. \<exists>es. res (px_read_dir px dir) w = Inr es \<and> any_entry_error es = None \<and>
     (\<forall>name \<in> set (entry_names es). nodes w (path_join dir name) \<noteq> None))"

lemma newest_first_set [simp]: "set (newest_first found) = set found"
  by (simp add: newest_first_def)

lemma newest_first_sorted: "sorted_wrt (\<ge>) (map snd (newest_first found))"
  by (simp add: newest_first_def sorted_wrt_rev flip: rev_map)

lemma newest_first_distinct: "distinct (map fst (newest_first found)) \<longleftrightarrow> distinct (map fst found)"
proof -
  have "mset (map fst (newest_first found)) = mset (map fst found)"
    unfolding newest_first_def by simp
  then show ?thesis by (metis mset_eq_imp_distinct_iff)
qed

lemma map_filter_set: "x \<in> set (List.map_filter f ys) \<longleftrightarrow> (\<exists>y \<in> set ys. f y = Some x)"
  by (induction ys) (auto simp: List.map_filter_simps split: option.split)

lemma backup_unique: "backup_at cp p st \<Longrightarrow> backup_at cp p st' \<Longrightarrow> st = st'"
  by (auto simp: backup_at_def)

context posix_files
begin

lemma scan_pure: "nodes (exec (scan px dir) w) = nodes w"
  by (simp add: scan_def split_beta pure)

lemma scan_found:
  assumes "ring_readable px nodes (ring_dir cp)"
  shows "\<exists>found. res (scan px (ring_dir cp)) w = Inr found \<and> distinct (map fst found) \<and>
    (\<forall>p st. (p, st) \<in> set found \<longleftrightarrow> backup_at cp p st \<and> nodes w p \<noteq> None)"
proof -
  let ?d = "ring_dir cp"
  obtain es where es: "res (px_read_dir px ?d) w = Inr es" "any_entry_error es = None"
    "\<forall>name \<in> set (entry_names es). nodes w (path_join ?d name) \<noteq> None"
    using assms unfolding ring_readable_def by blast
  let ?f = "\<lambda>name. map_option (\<lambda>st. (path_join ?d name, st)) (stamp_of name)"
  let ?found = "List.map_filter ?f (entry_names es)"
  have "res (scan px ?d) w = Inr ?found" using es by (simp add: scan_def split_beta)
  moreover have "distinct (map fst (List.map_filter ?f names))" if "distinct names" for names
    using that by (induction names) (auto simp: List.map_filter_simps map_filter_set image_iff split: option.split)
  then have "distinct (map fst ?found)" using read_dir_names [OF es(1)] by blast
  moreover have "(p, st) \<in> set ?found \<longleftrightarrow> backup_at cp p st \<and> nodes w p \<noteq> None" for p st
  proof
    assume "(p, st) \<in> set ?found"
    then show "backup_at cp p st \<and> nodes w p \<noteq> None"
      using es(3) by (auto simp: map_filter_set backup_at_def)
  next
    assume b: "backup_at cp p st \<and> nodes w p \<noteq> None"
    then obtain name where n: "p = path_join ?d name" "stamp_of name = Some st" unfolding backup_at_def by blast
    obtain x y where "st = (x, y)" by (cases st)
    then have "CHR ''/'' \<notin> set name" using stamp_of_bounds(3) [of name x y] n(2) by simp
    then have "name \<in> set (entry_names es)" using read_dir_all [OF es(1)] b n(1) es(2) by auto
    then show "(p, st) \<in> set ?found" unfolding map_filter_set using n by (intro bexI [of _ name]) simp_all
  qed
  ultimately show ?thesis by blast
qed

lemma remove_each_nodes:
  "nodes (exec (remove_each px ps) w) q \<in> {nodes w q, None} \<and>
   (q \<notin> set ps \<longrightarrow> nodes (exec (remove_each px ps) w) q = nodes w q)"
proof (induction ps arbitrary: w)
  case (Cons p ps)
  let ?w = "exec (px_remove px p) w"
  have "nodes ?w q \<in> {nodes w q, None} \<and> (q \<noteq> p \<longrightarrow> nodes ?w q = nodes w q)"
    using remove_ok [of p w] remove_fails [of p w] by (cases "res (px_remove px p) w") auto
  then show ?case using Cons.IH [of ?w] by (auto simp: split_beta)
qed simp

lemma sweep_nodes:
  "nodes (exec (sweep_abandoned_temps px dir newest) w) q \<in> {nodes w q, None} \<and>
   (\<not> (\<exists>name. q = path_join dir name \<and> abandoned_temp newest name) \<longrightarrow>
      nodes (exec (sweep_abandoned_temps px dir newest) w) q = nodes w q)"
proof (cases "res (px_read_dir px dir) w")
  case (Inl e)
  then show ?thesis by (simp add: sweep_abandoned_temps_def split_beta pure)
next
  case (Inr es)
  let ?ps = "map (path_join dir) (filter (abandoned_temp newest) (entry_names es))"
  have "nodes (exec (remove_each px ?ps) (exec (px_read_dir px dir) w)) q \<in> {nodes w q, None} \<and>
      (q \<notin> set ?ps \<longrightarrow> nodes (exec (remove_each px ?ps) (exec (px_read_dir px dir) w)) q = nodes w q)"
    using remove_each_nodes [of ?ps "exec (px_read_dir px dir) w" q] by (simp add: pure)
  then show ?thesis using Inr by (auto simp: sweep_abandoned_temps_def split_beta)
qed

text \<open>
  Pruning removes files only, and of the backups only those that are not among the three newest.
\<close>

lemma prune_nodes:
  assumes "ring_readable px nodes (ring_dir cp)"
  shows "nodes (exec (prune px (ring_dir cp)) w) q \<in> {nodes w q, None}"
    and "backup_at cp q st \<Longrightarrow> nodes (exec (prune px (ring_dir cp)) w) q \<noteq> nodes w q \<Longrightarrow>
      \<exists>ps. distinct ps \<and> length ps = 3 \<and> (\<forall>p \<in> set ps. p \<noteq> q \<and> (\<exists>st'. backup_at cp p st' \<and> st \<le> st') \<and>
        nodes w p \<noteq> None \<and> nodes (exec (prune px (ring_dir cp)) w) p = nodes w p)"
    and "(\<forall>name. q \<noteq> path_join (ring_dir cp) name) \<Longrightarrow> nodes (exec (prune px (ring_dir cp)) w) q = nodes w q"
proof -
  let ?d = "ring_dir cp"
  obtain found0 where s: "res (scan px ?d) w = Inr found0" "distinct (map fst found0)"
    "\<forall>p st. (p, st) \<in> set found0 \<longleftrightarrow> backup_at cp p st \<and> nodes w p \<noteq> None"
    using scan_found [OF assms] by blast
  define found where "found = newest_first found0"
  let ?stale = "map fst (drop RING_DEPTH found)"
  let ?w0 = "exec (scan px ?d) w"
  let ?w1 = "exec (remove_each px ?stale) ?w0"
  let ?w2 = "exec (prune px ?d) w"
  have mem: "(p, st) \<in> set found \<longleftrightarrow> backup_at cp p st \<and> nodes w p \<noteq> None" for p st
    using spec [OF spec [OF s(3)], of p st] by (simp add: found_def del: split_paired_All)
  have dist: "distinct (map fst found)" using s(2) by (simp add: found_def newest_first_distinct)
  have w2: "?w2 = (case found of [] \<Rightarrow> ?w1 | (_, newest) # _ \<Rightarrow> exec (sweep_abandoned_temps px ?d newest) ?w1)"
    using s(1) by (simp add: prune_def split_beta Let_def found_def unwrap_or_default_def split: list.split)
  have w1: "nodes ?w1 q \<in> {nodes w q, None} \<and> (q \<notin> set ?stale \<longrightarrow> nodes ?w1 q = nodes w q)" for q
    using remove_each_nodes [of ?stale ?w0 q] by (simp add: scan_pure)
  have sw: "nodes ?w2 q \<in> {nodes ?w1 q, None} \<and>
      ((\<forall>name. q = path_join ?d name \<longrightarrow> strip_suffix TMP_SUFFIX name = None) \<longrightarrow> nodes ?w2 q = nodes ?w1 q)" for q
  proof (cases found)
    case Nil
    then have "?w2 = ?w1" using w2 by simp
    then show ?thesis by simp
  next
    case (Cons e es)
    then have e: "?w2 = exec (sweep_abandoned_temps px ?d (snd e)) ?w1" using w2 by (simp split: prod.split)
    have na: "\<not> (\<exists>name. q = path_join ?d name \<and> abandoned_temp (snd e) name)"
      if "\<forall>name. q = path_join ?d name \<longrightarrow> strip_suffix TMP_SUFFIX name = None"
      using that by (auto simp: abandoned_temp_def)
    note n = sweep_nodes [of ?d "snd e" ?w1 q]
    show ?thesis unfolding e
      by (rule conjI, rule n [THEN conjunct1], rule impI, rule n [THEN conjunct2, THEN mp], erule na)
  qed
  show "nodes ?w2 q \<in> {nodes w q, None}" using w1 [of q] sw [of q] by auto
  have plain: "strip_suffix TMP_SUFFIX name = None" if "stamp_of name = Some st" for name st
  proof (rule ccontr)
    assume "strip_suffix TMP_SUFFIX name \<noteq> None"
    then obtain t where t: "name = t @ TMP_SUFFIX" by (auto dest: strip_suffixD)
    from that obtain u where "name = u @ NAME_SUFFIX"
      by (auto simp: stamp_of_def bind_eq_Some_conv dest!: strip_prefixD strip_suffixD)
    then show False using t by (simp add: TMP_SUFFIX_def NAME_SUFFIX_def)
  qed
  have kept: "nodes ?w2 p = nodes w p" if "backup_at cp p st" "p \<notin> set ?stale" for p st
  proof -
    from that(1) obtain name where p: "p = path_join ?d name" "stamp_of name = Some st"
      unfolding backup_at_def by blast
    then have "nodes ?w2 p = nodes ?w1 p" using sw [of p] plain [OF p(2)] by auto
    then show ?thesis using w1 [of p] that(2) by simp
  qed
  show "\<exists>ps. distinct ps \<and> length ps = 3 \<and> (\<forall>p \<in> set ps. p \<noteq> q \<and> (\<exists>st'. backup_at cp p st' \<and> st \<le> st') \<and>
        nodes w p \<noteq> None \<and> nodes ?w2 p = nodes w p)"
    if b: "backup_at cp q st" and gone: "nodes ?w2 q \<noteq> nodes w q"
  proof -
    have q: "q \<in> set ?stale" using kept [OF b] gone by blast
    then obtain k where k: "k < length (map fst (drop 3 found))" "map fst (drop 3 found) ! k = q"
      unfolding in_set_conv_nth RING_DEPTH_def by blast
    define i where "i = 3 + k"
    have i: "i < length found" "3 \<le> i" "fst (found ! i) = q" using k by (simp_all add: i_def)
    let ?ps = "map fst (take 3 found)"
    have split: "map fst found = ?ps @ ?stale" unfolding RING_DEPTH_def by (simp flip: map_append)
    have "distinct ?ps" "set ?ps \<inter> set ?stale = {}" using dist unfolding split by auto
    moreover have "length ?ps = 3" using i by simp
    moreover have "p \<noteq> q \<and> (\<exists>st'. backup_at cp p st' \<and> st \<le> st') \<and> nodes w p \<noteq> None \<and> nodes ?w2 p = nodes w p"
      if p: "p \<in> set ?ps" for p
    proof -
      obtain j where j: "j < 3" "fst (found ! j) = p" using p i by (auto simp: in_set_conv_nth)
      have jf: "(p, snd (found ! j)) \<in> set found" using j i by (metis less_le_trans less_trans nth_mem prod.collapse)
      have "snd (found ! i) \<le> snd (found ! j)"
        using newest_first_sorted [of found0] i j by (auto simp: found_def sorted_wrt_iff_nth_less)
      moreover have "(q, snd (found ! i)) \<in> set found" using i by (metis nth_mem prod.collapse)
      then have "snd (found ! i) = st" using mem backup_unique [OF b] by metis
      ultimately have le: "st \<le> snd (found ! j)" by simp
      have nm: "p \<notin> set ?stale" "p \<noteq> q" using \<open>set ?ps \<inter> set ?stale = {}\<close> p q by blast+
      have bp: "backup_at cp p (snd (found ! j))" "nodes w p \<noteq> None" using mem jf by blast+
      show ?thesis using le nm bp kept [OF bp(1) nm(1)] by blast
    qed
    ultimately show ?thesis by blast
  qed
  show "nodes ?w2 q = nodes w q" if other: "\<forall>name. q \<noteq> path_join ?d name"
  proof -
    have "q \<notin> set ?stale"
    proof
      assume "q \<in> set ?stale"
      then obtain st where "(q, st) \<in> set found" by (auto dest: in_set_dropD)
      then show False using mem other by (auto simp: backup_at_def)
    qed
    then show ?thesis using w1 [of q] sw [of q] other by auto
  qed
qed

end

section \<open>Saving\<close>

text \<open>A configuration path names a file in a directory.\<close>

definition config_path_ok :: "string \<Rightarrow> bool" where
  "config_path_ok cp \<longleftrightarrow> (\<exists>d f. cp = path_join d f \<and> CHR ''/'' \<notin> set f)"

lemma config_paths_differ:
  assumes "config_path_ok cp" "CHR ''/'' \<notin> set sfx"
  shows "cp @ sfx \<noteq> path_join (ring_dir cp) name"
proof
  assume e: "cp @ sfx = path_join (ring_dir cp) name"
  obtain d f where cp: "cp = path_join d f" "CHR ''/'' \<notin> set f" using assms(1) by (auto simp: config_path_ok_def)
  have "path_parent cp = d" using cp by simp
  then have "f @ sfx = RING_DIR @ ''/'' @ name" using e cp(1) by (simp add: ring_dir_def path_join_def)
  then have "CHR ''/'' \<in> set (f @ sfx)" by simp
  then show False using cp(2) assms(2) by simp
qed

lemma config_files_differ:
  assumes "config_path_ok cp" "backup_at cp q st"
  shows "q \<noteq> cp" "q \<noteq> tmp_of cp" "q \<noteq> config_lock_path cp"
proof -
  obtain name where q: "q = path_join (ring_dir cp) name" using assms(2) unfolding backup_at_def by blast
  note d = config_paths_differ [OF assms(1), where name = name, folded q, symmetric]
  show "q \<noteq> cp" using d [of "[]"] by simp
  show "q \<noteq> tmp_of cp" using d [of "''.tmp''"] by (simp add: tmp_of_def)
  show "q \<noteq> config_lock_path cp" using d [of "''.lock''"] by (simp add: config_lock_path_def)
qed

text \<open>The replaced file is worth keeping: it parses, and its roster has an account.\<close>

definition qualifies :: "toml \<Rightarrow> bytes option \<Rightarrow> bool" where
  "qualifies toml c \<longleftrightarrow> (\<exists>b cfg. c = Some b \<and> utf8_valid b \<and> parse_config toml (text_of b) = Inr cfg \<and> cf_roster cfg \<noteq> [])"

definition config_readable :: "'w posix \<Rightarrow> ('w \<Rightarrow> string \<Rightarrow> fnode option) \<Rightarrow> string \<Rightarrow> bool" where
  "config_readable px nodes cp \<longleftrightarrow> (\<forall>w. nodes w cp \<noteq> None \<longrightarrow> (\<exists>b. res (px_read px cp) w = Inr b))"

lemma bytes_of_text_of [simp]: "bytes_of (text_of b) = b"
proof -
  have "of_nat (of_char (char_of (unat x) :: char)) = x" for x :: "8 word"
    using unsigned_less [of x, where 'a = nat] by simp
  then show ?thesis by (simp add: bytes_of_def text_of_def map_idI)
qed

text \<open>The configuration and its backups are as they were.\<close>

definition ring_same :: "string \<Rightarrow> (string \<Rightarrow> fnode option) \<Rightarrow> (string \<Rightarrow> fnode option) \<Rightarrow> bool" where
  "ring_same cp N M \<longleftrightarrow> M cp = N cp \<and> (\<forall>q st. backup_at cp q st \<and> N q \<noteq> None \<longrightarrow> M q = N q)"

lemma same_off_mono: "same_off A N M \<Longrightarrow> A \<subseteq> B \<Longrightarrow> same_off B N M"
  by (auto simp: same_off_def)

lemma ring_same_off:
  assumes "config_path_ok cp" "backup_at cp t st" "N t = None" "same_off {t, tmp_of t, tmp_of cp} N M"
  shows "ring_same cp N M"
proof -
  obtain name where t: "t = path_join (ring_dir cp) name" using assms(2) unfolding backup_at_def by blast
  have "cp \<noteq> t" "cp \<noteq> tmp_of t"
    using config_paths_differ [OF assms(1), of "[]" name] config_paths_differ [OF assms(1), of "[]" "name @ ''.tmp''"]
    by (simp_all add: t tmp_of_def path_join_def)
  moreover have "q \<noteq> t \<and> q \<noteq> tmp_of t" if "backup_at cp q s" "N q \<noteq> None" for q s
  proof
    show "q \<noteq> t" using that(2) assms(3) by metis
    from that(1) obtain m where m: "q = path_join (ring_dir cp) m" "stamp_of m = Some s" unfolding backup_at_def by blast
    then have "\<exists>u. m = u @ NAME_SUFFIX"
      by (auto simp: stamp_of_def bind_eq_Some_conv dest!: strip_prefixD strip_suffixD)
    then have "m \<noteq> name @ ''.tmp''" by (auto simp: NAME_SUFFIX_def)
    then show "q \<noteq> tmp_of t" using m(1) by (simp add: t tmp_of_def path_join_def)
  qed
  moreover have "q \<noteq> tmp_of cp" if "backup_at cp q s" for q s
    by (rule config_files_differ(2) [OF assms(1) that])
  moreover have "cp \<noteq> tmp_of cp" by (simp add: tmp_of_def)
  ultimately have "cp \<notin> {t, tmp_of t, tmp_of cp}" "\<And>q s. backup_at cp q s \<Longrightarrow> N q \<noteq> None \<Longrightarrow> q \<notin> {t, tmp_of t, tmp_of cp}"
    by blast+
  then show ?thesis using assms(4) unfolding ring_same_def same_off_def by blast
qed

lemma ring_sameD: "ring_same cp N M \<Longrightarrow> backup_at cp q st \<Longrightarrow> N q \<noteq> None \<Longrightarrow> M q = N q"
  unfolding ring_same_def by blast

text \<open>
  What a save may do, from \<open>N\<close> to \<open>M\<close>: a successful one leaves the new text, with the replaced file in the
  ring as its newest backup when that file qualified, and drops only backups with three at least as new
  beside them; without a qualifying file it drops none. A failed one leaves the file and every backup.
\<close>

definition save_outcome :: "toml \<Rightarrow> nat \<Rightarrow> string \<Rightarrow> string \<Rightarrow> (string \<Rightarrow> fnode option) \<Rightarrow> unit result \<Rightarrow> (string \<Rightarrow> fnode option) \<Rightarrow> bool" where
  "save_outcome toml uid cp rendered N r M \<longleftrightarrow>
     (if r = Inr () then
        content M cp = Some (bytes_of rendered) \<and>
        (if qualifies toml (content N cp)
         then (\<exists>q st b. backup_at cp q st \<and> content N cp = Some b \<and>
                 M q = Some \<lparr>fn_bytes = b, fn_mode = FILE_MODE, fn_uid = uid\<rparr> \<and>
                 (\<forall>q' st'. backup_at cp q' st' \<and> N q' \<noteq> None \<longrightarrow> st' < st)) \<and>
              (\<forall>q st. backup_at cp q st \<and> N q \<noteq> None \<and> M q \<noteq> N q \<longrightarrow>
                 (\<exists>ps. distinct ps \<and> length ps = 3 \<and> (\<forall>p \<in> set ps. p \<noteq> q \<and> M p \<noteq> None \<and> (\<exists>st'. backup_at cp p st' \<and> st \<le> st'))))
         else (\<forall>q st. backup_at cp q st \<and> N q \<noteq> None \<longrightarrow> M q = N q))
      else ring_same cp N M)"

lemma save_outcome_retained:
  assumes "qualifies toml (content N cp)" "content N cp = Some b" "backup_at cp t st"
    and "content M cp = Some (bytes_of rendered)" "M t = Some \<lparr>fn_bytes = b, fn_mode = FILE_MODE, fn_uid = uid\<rparr>"
    and "\<forall>q st'. backup_at cp q st' \<and> N q \<noteq> None \<longrightarrow> st' < st"
    and "\<And>q s. backup_at cp q s \<Longrightarrow> N q \<noteq> None \<Longrightarrow> M q \<noteq> N q \<Longrightarrow>
      \<exists>ps. distinct ps \<and> length ps = 3 \<and> (\<forall>p \<in> set ps. p \<noteq> q \<and> M p \<noteq> None \<and> (\<exists>s'. backup_at cp p s' \<and> s \<le> s'))"
  shows "save_outcome toml uid cp rendered N (Inr ()) M"
proof -
  have "\<exists>q st b. backup_at cp q st \<and> content N cp = Some b \<and>
      M q = Some \<lparr>fn_bytes = b, fn_mode = FILE_MODE, fn_uid = uid\<rparr> \<and>
      (\<forall>q' st'. backup_at cp q' st' \<and> N q' \<noteq> None \<longrightarrow> st' < st)"
    using assms(2,3,5,6) by blast
  moreover have "\<forall>q st. backup_at cp q st \<and> N q \<noteq> None \<and> M q \<noteq> N q \<longrightarrow>
      (\<exists>ps. distinct ps \<and> length ps = 3 \<and> (\<forall>p \<in> set ps. p \<noteq> q \<and> M p \<noteq> None \<and> (\<exists>st'. backup_at cp p st' \<and> st \<le> st')))"
    using assms(7) by blast
  ultimately show ?thesis unfolding save_outcome_def using assms(1,4) by (simp only: simp_thms if_True)
qed

context posix_files
begin

lemma qualifying_run:
  assumes "config_readable px nodes cp" "run_state (qualifying_contents px toml cp) w = (q, w')"
  shows "nodes w' = nodes w \<and>
    (case q of None \<Rightarrow> \<not> qualifies toml (content (nodes w) cp)
     | Some text \<Rightarrow> qualifies toml (content (nodes w) cp) \<and> content (nodes w) cp = Some (bytes_of text))"
proof (cases "res (px_read px cp) w")
  case (Inl e)
  then have "nodes w cp = None" using assms(1) unfolding config_readable_def by fastforce
  then show ?thesis using assms(2) Inl
    by (auto simp: qualifying_contents_def read_to_string_def split_beta pure qualifies_def content_def)
next
  case (Inr b)
  then have c: "content (nodes w) cp = Some b" using read_bytes [of cp w b] by (auto simp: content_def)
  show ?thesis using assms(2) Inr
    by (auto simp: qualifying_contents_def read_to_string_def split_beta pure qualifies_def c split: sum.splits if_splits)
qed

lemma stamp_for_above:
  assumes "ring_readable px nodes (ring_dir cp)" "run_state (stamp_for px (ring_dir cp)) w = (st, w')"
  shows "nodes w' = nodes w \<and> snd st < 10 ^ 9 \<and> (\<forall>q st'. backup_at cp q st' \<and> nodes w q \<noteq> None \<longrightarrow> st' < st)"
proof -
  obtain found where f: "res (scan px (ring_dir cp)) w = Inr found"
    "\<forall>p st. (p, st) \<in> set found \<longleftrightarrow> backup_at cp p st \<and> nodes w p \<noteq> None"
    using scan_found [OF assms(1)] by blast
  have st: "st = clamp_stamp (stamp_now px w) (map snd found)" and w': "nodes w' = nodes w"
    using assms(2) f(1) by (auto simp: stamp_for_def split_beta unwrap_or_default_def scan_pure)
  have small: "snd x < 10 ^ 9" if "x \<in> set (map snd found)" for x
  proof -
    from that obtain p where "(p, x) \<in> set found" by (metis imageE list.set_map prod.collapse)
    then obtain name where "stamp_of name = Some (fst x, snd x)" using f(2) unfolding backup_at_def by (metis prod.collapse)
    then show ?thesis by (rule stamp_of_bounds(2))
  qed
  have above: "x < st" if "x \<in> set (map snd found)" for x
    using clamp_stamp_above [OF that, of "stamp_now px w"] small unfolding st by blast
  have "snd (stamp_now px w) < 10 ^ 9" by (simp add: stamp_now_def NANOS_PER_SEC_def)
  moreover have "snd (next_after (Max (set (map snd found)))) < 10 ^ 9" if "map snd found \<noteq> []"
  proof -
    have "Max (set (map snd found)) \<in> set (map snd found)" using that by (intro Max_in) auto
    then show ?thesis using next_after_greater small by blast
  qed
  ultimately have "snd st < 10 ^ 9" unfolding st clamp_stamp_def Let_def by (simp split: if_split)
  moreover have "st' < st" if "backup_at cp q st'" "nodes w q \<noteq> None" for q st'
  proof -
    have "(q, st') \<in> set found" using f(2) that by blast
    then show ?thesis by (intro above) force
  qed
  ultimately show ?thesis using w' by blast
qed

lemma write_verified_run:
  assumes "nodes w t = None" "run_state (write_verified px t b) w = (r, w')"
  shows "case r of
      Inr v \<Rightarrow> v = Some t \<and> nodes w' = (nodes w)(tmp_of t := None, t \<mapsto> \<lparr>fn_bytes = b, fn_mode = FILE_MODE, fn_uid = px_uid px\<rparr>)
    | Inl e \<Rightarrow> same_off {t, tmp_of t} (nodes w) (nodes w')"
proof -
  let ?n = "\<lparr>fn_bytes = b, fn_mode = FILE_MODE, fn_uid = px_uid px\<rparr>"
  obtain r1 w1 where s1: "run_state (write_private_file px t b) w = (r1, w1)" by fastforce
  note wr = tripleD [OF t_write_private_file [of t "nodes w" b] same_off_refl s1]
  obtain r2 w2 where s2: "run_state (owner_only_deviation px t) w1 = (r2, w2)" by fastforce
  let ?w3 = "exec (px_remove px t) w2"
  show ?thesis
  proof (cases r1)
    case (Inl e)
    then show ?thesis using wr assms(2) s1 by (auto simp: write_verified_def run_try_bind same_off_def)
  next
    case (Inr u)
    then have w1: "nodes w1 = (nodes w)(tmp_of t := None, t \<mapsto> ?n)" using wr by simp
    then have w2: "nodes w2 = nodes w1"
      using tripleD [OF t_owner_only_deviation [of "nodes w1" t ?n] refl s2] by simp
    have w3: "same_off {t, tmp_of t} (nodes w) (nodes w2)" "same_off {t, tmp_of t} (nodes w) (nodes ?w3)"
      using remove_ok [of t w2] remove_fails [of t w2] w1 w2
      by (cases "res (px_remove px t) w2"; auto simp: same_off_def)+
    have "(r, w') = (case r2 of Inl e \<Rightarrow> (Inl e, w2) | Inr None \<Rightarrow> (Inr (Some t), w2)
        | Inr (Some d) \<Rightarrow> (Inl (Io ''refusing this roster write: the backup did not read back as owner-only''), ?w3))"
      using assms(2) s1 s2 Inr by (auto simp: write_verified_def run_try_bind split_beta split: sum.splits option.splits)
    then show ?thesis using w1 w2 w3 by (auto split: sum.splits option.splits)
  qed
qed

lemma retain_run:
  assumes "config_path_ok cp" "ring_readable px nodes (ring_dir cp)" "config_readable px nodes cp"
    and "nodes w (ring_dir cp) = None" "run_state (retain_if_qualifying px toml cp) w = (r, w')"
  shows "case r of
      Inl e \<Rightarrow> ring_same cp (nodes w) (nodes w')
    | Inr None \<Rightarrow> \<not> qualifies toml (content (nodes w) cp) \<and> nodes w' = nodes w
    | Inr (Some t) \<Rightarrow> qualifies toml (content (nodes w) cp) \<and> path_parent t = ring_dir cp \<and> nodes w t = None \<and>
        (\<exists>st b. backup_at cp t st \<and> content (nodes w) cp = Some b \<and>
           nodes w' = (nodes w)(tmp_of t := None, t \<mapsto> \<lparr>fn_bytes = b, fn_mode = FILE_MODE, fn_uid = px_uid px\<rparr>) \<and>
           (\<forall>q st'. backup_at cp q st' \<and> nodes w q \<noteq> None \<longrightarrow> st' < st))"
proof -
  let ?d = "ring_dir cp" and ?N = "nodes w"
  obtain q w1 where s1: "run_state (qualifying_contents px toml cp) w = (q, w1)" by fastforce
  obtain r2 w2 where s2: "run_state (ensure_private_dir px ?d) w1 = (r2, w2)" by fastforce
  obtain st w3 where s3: "run_state (stamp_for px ?d) w2 = (st, w3)" by fastforce
  let ?t = "path_join ?d (file_name st)"
  note q = qualifying_run [OF assms(3) s1]
  have w2: "nodes w2 = ?N"
    using tripleD [OF t_ensure_private_dir [of "nodes w1" ?d] refl s2] assms(4) q by simp
  note above = stamp_for_above [OF assms(2) s3]
  have w3: "nodes w3 = ?N" using above w2 by simp
  have same: "ring_same cp ?N ?N" by (simp add: ring_same_def)
  show ?thesis
  proof (cases "q = None \<or> (\<exists>e. r2 = Inl e) \<or> fst st \<ge> 10 ^ SECS_DIGITS")
    case True
    then show ?thesis using assms(5) s1 s2 s3 q w2 w3 same
      by (cases q; cases r2) (auto simp: retain_if_qualifying_def run_try_bind Let_def representable_def)
  next
    case False
    then obtain body u where ok: "q = Some body" "r2 = Inr u" "fst st < 10 ^ SECS_DIGITS" by (cases r2) auto
    have named: "stamp_of (file_name st) = Some st"
      using stamp_of_file_name_lemma [of "fst st" "snd st"] above ok(3) by (simp add: SECS_DIGITS_def)
    have bt: "backup_at cp ?t st" using named by (auto simp: backup_at_def)
    have slash: "CHR ''/'' \<notin> set (file_name st)" using stamp_of_bounds(3) [of "file_name st" "fst st" "snd st"] named by simp
    have fresh: "?N ?t = None" using above bt w2 by (metis less_irrefl)
    have run: "run_state (write_verified px ?t (bytes_of body)) w3 = (r, w')"
      using assms(5) s1 s2 s3 ok by (simp add: retain_if_qualifying_def run_try_bind Let_def representable_def)
    have same': "ring_same cp ?N (nodes w')" if "same_off {?t, tmp_of ?t} ?N (nodes w')"
      by (rule ring_same_off [where N = "nodes w", OF assms(1) bt fresh]) (rule same_off_mono [OF that], auto)
    note ran = write_verified_run [OF _ run, unfolded w3, OF fresh]
    show ?thesis
    proof (cases r)
      case (Inr v)
      then have v: "v = Some ?t" "nodes w' = ?N(tmp_of ?t := None, ?t \<mapsto>
          \<lparr>fn_bytes = bytes_of body, fn_mode = FILE_MODE, fn_uid = px_uid px\<rparr>)"
        using ran by simp_all
      have "qualifies toml (content ?N cp)" "content ?N cp = Some (bytes_of body)"
        using q unfolding ok(1) option.case by blast+
      moreover have "\<forall>q st'. backup_at cp q st' \<and> ?N q \<noteq> None \<longrightarrow> st' < st" using above w2 by metis
      moreover have "path_parent ?t = ?d" using slash by simp
      ultimately show ?thesis unfolding Inr v(1) sum.case option.case using fresh bt v(2) by blast
    qed (use ran same' in auto)
  qed
qed

text \<open>The steps of a save under the lock.\<close>

lemma save_fails:
  assumes "config_path_ok cp" "backup_at cp t st" "nodes w t = None"
    and "nodes w1 = (nodes w)(tmp_of t := None, t \<mapsto> n)" "same_off {tmp_of cp} (nodes w1) (nodes w2)"
    and "run_state (roll_back px t) w2 = (u, w')"
  shows "ring_same cp (nodes w) (nodes w')"
proof -
  have "w' = exec (px_remove px t) w2" using assms(6) by (simp add: roll_back_def split_beta)
  then have "nodes w' = nodes w2 \<or> nodes w' = (nodes w2)(t := None)"
    using remove_ok [of t w2] remove_fails [of t w2] by (cases "res (px_remove px t) w2") auto
  then have "same_off {t, tmp_of t, tmp_of cp} (nodes w) (nodes w')"
    using assms(4,5) by (auto simp: same_off_def)
  then show ?thesis by (rule ring_same_off [where N = "nodes w", OF assms(1-3)])
qed

lemma save_commits:
  assumes "config_path_ok cp" "ring_readable px nodes (ring_dir cp)"
    and t: "backup_at cp t st" "nodes w t = None" "path_parent t = ring_dir cp"
    and newest: "\<forall>q st'. backup_at cp q st' \<and> nodes w q \<noteq> None \<longrightarrow> st' < st"
    and w2: "nodes w2 = (nodes w)(tmp_of t := None, t \<mapsto> n, tmp_of cp := None, cp \<mapsto> c)"
    and run: "run_state (commit px t) w2 = (u, w')"
  shows "nodes w' cp = Some c" "nodes w' t = Some n"
    and "backup_at cp q s \<Longrightarrow> nodes w q \<noteq> None \<Longrightarrow> nodes w' q \<noteq> nodes w q \<Longrightarrow>
      \<exists>ps. distinct ps \<and> length ps = 3 \<and> (\<forall>p \<in> set ps. p \<noteq> q \<and> nodes w' p \<noteq> None \<and> (\<exists>s'. backup_at cp p s' \<and> s \<le> s'))"
proof -
  have w': "nodes w' = nodes (exec (prune px (ring_dir cp)) w2)" using run t(3) by (simp add: commit_def)
  note pruned = prune_nodes [OF assms(2), where w = w2, folded w']
  note cp = config_files_differ [OF assms(1)]
  have "\<forall>name. cp \<noteq> path_join (ring_dir cp) name" using config_paths_differ [OF assms(1), of "[]"] by simp
  from pruned(3) [OF this] show "nodes w' cp = Some c" using w2 by simp
  have same: "ring_same cp (nodes w) ((nodes w)(tmp_of t := None, t \<mapsto> n, tmp_of cp := None))"
    by (rule ring_same_off [where N = "nodes w", OF assms(1) t(1,2)]) (auto simp: same_off_def)
  have old: "nodes w2 q = nodes w q" if "backup_at cp q s" "nodes w q \<noteq> None" for q s
    using ring_sameD [OF same that] cp(1) [OF that(1)] unfolding w2 by simp
  have new: "nodes w2 t = Some n" using cp(1,2) [OF t(1)] w2 by auto
  have only: "nodes w q \<noteq> None" if "backup_at cp q s" "nodes w2 q \<noteq> None" "q \<noteq> t" for q s
    using that cp(1) [OF that(1)] unfolding w2 by (auto split: if_splits)
  show "nodes w' t = Some n"
  proof (rule ccontr)
    assume "nodes w' t \<noteq> Some n"
    then obtain ps where ps: "length ps = (3::nat)"
      "\<forall>p \<in> set ps. p \<noteq> t \<and> (\<exists>st'. backup_at cp p st' \<and> st \<le> st') \<and> nodes w2 p \<noteq> None"
      using pruned(2) [OF t(1)] new by auto
    then obtain p st' where "p \<noteq> t" "backup_at cp p st'" "st \<le> st'" "nodes w2 p \<noteq> None"
      by (cases ps) auto
    then show False using newest only by (metis leD)
  qed
  show "\<exists>ps. distinct ps \<and> length ps = 3 \<and> (\<forall>p \<in> set ps. p \<noteq> q \<and> nodes w' p \<noteq> None \<and> (\<exists>s'. backup_at cp p s' \<and> s \<le> s'))"
    if "backup_at cp q s" "nodes w q \<noteq> None" "nodes w' q \<noteq> nodes w q"
  proof -
    have "nodes w' q \<noteq> nodes w2 q" using old [OF that(1,2)] that(3) by simp
    from pruned(2) [OF that(1) this] obtain ps where "distinct ps" "length ps = 3"
      "\<forall>p \<in> set ps. p \<noteq> q \<and> (\<exists>st'. backup_at cp p st' \<and> s \<le> st') \<and> nodes w2 p \<noteq> None \<and> nodes w' p = nodes w2 p"
      by blast
    then show ?thesis by (intro exI [of _ ps]) (metis (no_types))
  qed
qed

text \<open>The part of a save that runs under the lock.\<close>

lemma save_body_run:
  assumes "config_path_ok cp" "ring_readable px nodes (ring_dir cp)" "config_readable px nodes cp"
    and "nodes w (ring_dir cp) = None" "run_state (save_under_lock px toml rendered cp) w = (r, w')"
  shows "save_outcome toml (px_uid px) cp rendered (nodes w) r (nodes w')"
proof -
  obtain r1 w1 where s1: "run_state (retain_if_qualifying px toml cp) w = (r1, w1)" by fastforce
  obtain r2 w2 where s2: "run_state (write_private_file px cp (bytes_of rendered)) w1 = (r2, w2)" by fastforce
  note kept = retain_run [OF assms(1-4) s1]
  note wr = tripleD [OF t_write_private_file [of cp "nodes w1" "bytes_of rendered"] same_off_refl s2]
  consider (failed) e where "r1 = Inl e" | (none) "r1 = Inr None" | (some) t where "r1 = Inr (Some t)"
    by (cases r1; metis option.exhaust)
  then show ?thesis
  proof cases
    case failed
    then have "r = Inl e" "w' = w1" using assms(5) s1 by (simp_all add: save_under_lock_def run_try_bind)
    then show ?thesis using kept failed by (simp add: save_outcome_def)
  next
    case none
    have plain: "q \<noteq> cp \<and> q \<noteq> tmp_of cp" if "backup_at cp q st" for q st
      using config_files_differ [OF assms(1) that] by simp
    have "r = r2 \<and> w' = w2"
      using assms(5) s1 s2 none by (cases r2; simp add: save_under_lock_def run_try_bind)
    then have r: "r = r2" "w' = w2" by blast+
    show ?thesis
    proof (cases r2)
      case (Inl e)
      then have "ring_same cp (nodes w) (nodes w2)"
        using wr kept none plain unfolding ring_same_def same_off_def by (auto simp: tmp_of_neq)
      then show ?thesis unfolding r Inl by (simp add: save_outcome_def)
    next
      case (Inr u)
      then have w2: "nodes w2 = (nodes w)(tmp_of cp := None, cp \<mapsto>
          \<lparr>fn_bytes = bytes_of rendered, fn_mode = FILE_MODE, fn_uid = px_uid px\<rparr>)"
        using wr kept none by simp
      have "\<forall>q st. backup_at cp q st \<and> nodes w q \<noteq> None \<longrightarrow> nodes w2 q = nodes w q"
      proof (intro allI impI)
        fix q st assume "backup_at cp q st \<and> nodes w q \<noteq> None"
        then have "q \<noteq> cp \<and> q \<noteq> tmp_of cp" using plain by blast
        then show "nodes w2 q = nodes w q" unfolding w2 by simp
      qed
      moreover have "content (nodes w2) cp = Some (bytes_of rendered)" "\<not> qualifies toml (content (nodes w) cp)"
        using w2 kept none by (simp_all add: content_def)
      ultimately show ?thesis unfolding r Inr by (simp add: save_outcome_def)
    qed
  next
    case some
    then obtain st b where t: "qualifies toml (content (nodes w) cp)" "path_parent t = ring_dir cp" "nodes w t = None"
      "backup_at cp t st" "content (nodes w) cp = Some b"
      "nodes w1 = (nodes w)(tmp_of t := None, t \<mapsto> \<lparr>fn_bytes = b, fn_mode = FILE_MODE, fn_uid = px_uid px\<rparr>)"
      "\<forall>q st'. backup_at cp q st' \<and> nodes w q \<noteq> None \<longrightarrow> st' < st"
      using kept by auto
    show ?thesis
    proof (cases r2)
      case (Inl e)
      obtain u w3 where s3: "run_state (roll_back px t) w2 = (u, w3)" by (cases "run_state (roll_back px t) w2") blast
      have "r = Inl e" "w' = w3" using assms(5) s1 s2 s3 some Inl by (simp_all add: save_under_lock_def run_try_bind)
      moreover have "ring_same cp (nodes w) (nodes w3)"
        using wr Inl by (intro save_fails [OF assms(1) t(4,3,6) _ s3]) simp
      ultimately show ?thesis by (simp add: save_outcome_def)
    next
      case (Inr v)
      obtain u w3 where s3: "run_state (commit px t) w2 = (u, w3)" by (cases "run_state (commit px t) w2") blast
      have r: "r = Inr ()" "w' = w3" using assms(5) s1 s2 s3 some Inr by (simp_all add: save_under_lock_def run_try_bind)
      have w2: "nodes w2 = (nodes w)(tmp_of t := None, t \<mapsto> \<lparr>fn_bytes = b, fn_mode = FILE_MODE, fn_uid = px_uid px\<rparr>,
          tmp_of cp := None, cp \<mapsto> \<lparr>fn_bytes = bytes_of rendered, fn_mode = FILE_MODE, fn_uid = px_uid px\<rparr>)"
        using wr Inr t(6) by simp
      note c = save_commits [OF assms(1,2) t(4,3,2,7) w2 s3]
      have "content (nodes w3) cp = Some (bytes_of rendered)" using c(1) by (simp add: content_def)
      then show ?thesis unfolding r by (rule save_outcome_retained [OF t(1,5,4) _ c(2) t(7) c(3)])
    qed
  qed
qed

lemma save_outcome_off:
  assumes "config_path_ok cp" "same_off {config_lock_path cp} N N'" "save_outcome toml uid cp rendered N' r M"
  shows "save_outcome toml uid cp rendered N r M"
proof -
  have "cp \<noteq> config_lock_path cp" by (simp add: config_lock_path_def)
  then have cp: "N' cp = N cp" using assms(2) by (simp add: same_off_def)
  have "N' q = N q" if "backup_at cp q st" for q st
    using config_files_differ(3) [OF assms(1) that] assms(2) by (simp add: same_off_def)
  then have "(backup_at cp q st \<and> N' q \<noteq> None) = (backup_at cp q st \<and> N q \<noteq> None)"
    "(backup_at cp q st \<and> N' q \<noteq> None \<and> M q \<noteq> N' q) = (backup_at cp q st \<and> N q \<noteq> None \<and> M q \<noteq> N q)"
    "(backup_at cp q st \<and> N' q \<noteq> None \<longrightarrow> M q = N' q) = (backup_at cp q st \<and> N q \<noteq> None \<longrightarrow> M q = N q)" for q st
    by metis+
  then show ?thesis using assms(3) unfolding save_outcome_def ring_same_def content_def cp by (simp only:)
qed

lemma t_save_to_within:
  assumes "config_path_ok cp" "ring_readable px nodes (ring_dir cp)" "config_readable px nodes cp"
    and "N (ring_dir cp) = None" "N (path_parent cp) = None"
  shows "triple (files N) (save_to_within fuel px toml rendered cp budget)
    (\<lambda>r s. save_outcome toml (px_uid px) cp rendered N r (nodes s))"
proof -
  let ?l = "config_lock_path cp" and ?Q = "\<lambda>r M. save_outcome toml (px_uid px) cp rendered N r M"
  have failed: "?Q (Inl e) M" if "same_off {?l} N M" for e M
    by (rule save_outcome_off [OF assms(1) that]) (simp add: save_outcome_def ring_same_def)
  obtain d f where "cp = path_join d f" "CHR ''/'' \<notin> set f" using assms(1) by (auto simp: config_path_ok_def)
  then have "ring_dir cp \<noteq> ?l"
    by (auto simp: ring_dir_def config_lock_path_def path_join_def RING_DIR_def dest!: arg_cong [where f = rev])
  then have dir: "nodes s (ring_dir cp) = None" if "off {?l} N s" for s
    using that assms(4) by (simp add: same_off_def)
  have "triple (off {?l} N) (save_under_lock px toml rendered cp) (\<lambda>r s. ?Q r (nodes s))"
  proof (rule tripleI)
    fix s r s' assume s: "off {?l} N s" and run: "run_state (save_under_lock px toml rendered cp) s = (r, s')"
    show "?Q r (nodes s')"
      by (rule save_outcome_off [OF assms(1) s save_body_run [OF assms(1-3) dir [OF s] run]])
  qed
  then have "triple (off {?l} N) (with_flock (config_lock_acquire fuel px ?l budget) ConfigWriteLockBusy px ?l
      (save_under_lock px toml rendered cp)) (\<lambda>r s. ?Q r (nodes s))"
    unfolding config_lock_acquire_def by (rule t_with_flock) (rule failed)
  then show ?thesis unfolding save_to_within_def
    by (intro triple_try [OF t_ensure_private_dir [where N = N, OF assms(5)]]) (simp_all add: failed triple_pre)
qed

end

text \<open>
  An entry whose mode cannot be read back is refused, and stays in the ring: the error is returned before
  the entry is removed.
\<close>

lemma unverified_backup_stays:
  assumes "posix_files px nodes" "run_state (write_private_file px t b) w = (Inr u, w1)"
    and "fst (run_state (px_stat px t) w1) = Inl e" "run_state (write_verified px t b) w = (r, w')"
  shows "r = Inl (io_error e)" "nodes w' t = Some \<lparr>fn_bytes = b, fn_mode = FILE_MODE, fn_uid = px_uid px\<rparr>"
proof -
  have w1: "nodes w1 t = Some \<lparr>fn_bytes = b, fn_mode = FILE_MODE, fn_uid = px_uid px\<rparr>"
    using tripleD [OF posix_files.t_write_private_file [OF assms(1), of t "nodes w" b] _ assms(2)]
    by (simp add: same_off_def)
  have "(r, w') = (Inl (io_error e), snd (run_state (px_stat px t) w1))"
    using assms(2-4) by (simp add: write_verified_def owner_only_deviation_def lift_io_def run_try_bind split_beta)
  then show "r = Inl (io_error e)" "nodes w' t = Some \<lparr>fn_bytes = b, fn_mode = FILE_MODE, fn_uid = px_uid px\<rparr>"
    using w1 posix_files.pure(2) [OF assms(1), of t w1] by simp_all
qed

section \<open>Properties\<close>

text \<open>
  The name of an entry gives back its stamp, and the staging file a crash leaves beside it is taken for
  abandoned exactly when the ring holds a newer entry.
\<close>

theorem backup_name_round_trip:
  assumes "secs < 10 ^ SECS_DIGITS" "nanos < 10 ^ NANOS_DIGITS"
  shows "stamp_of (file_name (secs, nanos)) = Some (secs, nanos) \<and>
    (abandoned_temp newest (path_file_name (tmp_of (path_join dir (file_name (secs, nanos))))) \<longleftrightarrow> (secs, nanos) < newest)"
proof -
  let ?f = "file_name (secs, nanos)"
  have s: "stamp_of ?f = Some (secs, nanos)"
    using assms stamp_of_file_name_lemma [of secs nanos] by (simp add: SECS_DIGITS_def NANOS_DIGITS_def)
  have "CHR ''/'' \<notin> set (?f @ ''.tmp'')" using stamp_of_bounds(3) [OF s] by simp
  then have "path_file_name (path_join dir (?f @ ''.tmp'')) = ?f @ ''.tmp''" by (rule path_join_parts(1))
  moreover have "tmp_of (path_join dir ?f) = path_join dir (?f @ ''.tmp'')" by (simp add: tmp_of_def path_join_def)
  moreover have "strip_suffix TMP_SUFFIX (?f @ ''.tmp'') = Some ?f"
    unfolding TMP_SUFFIX_def by (rule strip_suffix_append)
  ultimately show ?thesis using s by (simp add: abandoned_temp_def del: file_name.simps)
qed

theorem backup_name_round_trip_witness:
  "stamp_of (file_name (1767225600, 42)) = Some (1767225600, 42) \<and>
   abandoned_temp (1767225600, 43) (path_file_name (tmp_of (path_join ''/c/backups'' (file_name (1767225600, 42)))))"
  using backup_name_round_trip [of 1767225600 42 "(1767225600, 43)" "''/c/backups''"]
  by (simp add: SECS_DIGITS_def NANOS_DIGITS_def del: file_name.simps)

text \<open>
  C19: Saving the configuration over a file with accounts keeps that file as the newest backup and drops only
  backups that have three at least as new beside them; over any other file it drops none; a save that
  fails, for whatever reason and however the host misbehaves, leaves the file and every backup as they were.
\<close>

theorem save_keeps_good_rosters:
  assumes "posix_files px nodes" "config_path_ok cp"
    and "ring_readable px nodes (ring_dir cp)" "config_readable px nodes cp"
    and "nodes w (ring_dir cp) = None" "nodes w (path_parent cp) = None"
    and "run_state (save_to_within fuel px toml rendered cp budget) w = (r, w')"
  shows "save_outcome toml (px_uid px) cp rendered (nodes w) r (nodes w')"
  by (rule tripleD [OF posix_files.t_save_to_within [where N = "nodes w", OF assms(1-6)] refl assms(7)])

definition sample_save_world :: mem_fs where
  "sample_save_world = mem_put ''/c/config.toml'' \<lparr>fn_bytes = bytes_of ''ok'', fn_mode = FILE_MODE, fn_uid = 501\<rparr>
     (mem_put ''/c/backups/config.00000000009.000000007.toml'' \<lparr>fn_bytes = [], fn_mode = FILE_MODE, fn_uid = 501\<rparr> mem_empty)"

theorem save_keeps_good_rosters_witness:
  "\<exists>r w'. run_state (save_to_within 252 mem_px sample_toml ''new'' ''/c/config.toml'' 0) sample_save_world = (r, w') \<and>
     save_outcome sample_toml 501 ''/c/config.toml'' ''new'' (mem_nodes sample_save_world) r (mem_nodes w')"
proof -
  let ?cp = "''/c/config.toml''"
  obtain r w' where run: "run_state (save_to_within 252 mem_px sample_toml ''new'' ?cp 0) sample_save_world = (r, w')"
    by fastforce
  have parts: "path_parent ?cp = ''/c''" "ring_dir ?cp = ''/c/backups''"
    by (simp_all add: path_parent_def ring_dir_def path_join_def RING_DIR_def)
  have "config_path_ok ?cp"
    unfolding config_path_ok_def by (intro exI [of _ "''/c''"] exI [of _ "''config.toml''"]) (simp add: path_join_def)
  moreover have "ring_readable mem_px mem_nodes d" for d
    unfolding ring_readable_def by (auto simp: mem_px_def mem_names_def)
  moreover have "config_readable mem_px mem_nodes ?cp"
    unfolding config_readable_def by (auto simp: mem_px_def)
  moreover have "mem_nodes sample_save_world ''/c/backups'' = None" "mem_nodes sample_save_world ''/c'' = None"
    by (simp_all add: sample_save_world_def mem_empty_def mem_nodes_def mem_put_def)
  moreover have "px_uid mem_px = 501" by (simp add: mem_px_def)
  ultimately show ?thesis
    using save_keeps_good_rosters [OF mem.posix_files_axioms _ _ _ _ _ run] run by (auto simp: parts)
qed

end
