(* ===== verification/Calendar.thy ===== *)
theory Calendar
  imports Decimal
begin

text \<open>
  Instants as text: \<open>rfc3339\<close> of \<open>src/observability.rs\<close>, which stamps every log line, and
  \<open>epoch_from_rfc3339\<close> of \<open>src/usage.rs\<close>, which reads such instants back, over the arithmetic of the
  proleptic Gregorian calendar (years start in March, eras have 400 years). Days and seconds are
  unbounded integers.
\<close>

section \<open>Civil dates\<close>

definition is_leap_year :: "int \<Rightarrow> bool" where
  "is_leap_year year \<longleftrightarrow> year mod 4 = 0 \<and> (year mod 100 \<noteq> 0 \<or> year mod 400 = 0)"

definition days_in_month :: "int \<Rightarrow> nat \<Rightarrow> nat" where
  "days_in_month year month =
     (if month \<in> {1, 3, 5, 7, 8, 10, 12} then 31
      else if month \<in> {4, 6, 9, 11} then 30
      else if month = 2 then (if is_leap_year year then 29 else 28)
      else 0)"

text \<open>Rust's \<open>/\<close> truncates; the numerators are adjusted by the code so that it floors.\<close>

definition era_of :: "int \<Rightarrow> int" where
  "era_of z = (if z \<ge> 0 then z div 146097 else - ((146096 - z) div 146097))"

definition civil_from_days :: "int \<Rightarrow> int \<times> nat \<times> nat" where
  "civil_from_days z0 =
     (let z = z0 + 719468;
          era = era_of z;
          doe = z - era * 146097;
          yoe = (doe - doe div 1460 + doe div 36524 - doe div 146096) div 365;
          year = yoe + era * 400;
          doy = doe - (365 * yoe + yoe div 4 - yoe div 100);
          mp = (5 * doy + 2) div 153;
          day = doy - (153 * mp + 2) div 5 + 1;
          month = (if mp < 10 then mp + 3 else mp - 9)
      in (if month \<le> 2 then year + 1 else year, nat month, nat day))"

definition days_from_civil :: "int \<Rightarrow> nat \<Rightarrow> nat \<Rightarrow> int" where
  "days_from_civil year0 month day =
     (let year = (if month \<le> 2 then year0 - 1 else year0);
          era = (if year \<ge> 0 then year div 400 else - ((399 - year) div 400));
          yoe = year - era * 400;
          doy = (153 * (if month > 2 then int month - 3 else int month + 9) + 2) div 5 + (int day - 1);
          doe = yoe * 365 + yoe div 4 - yoe div 100 + doy
      in era * 146097 + doe - 719468)"

section \<open>Printing an instant\<close>

text \<open>An instant is its whole seconds since the epoch; one before the epoch prints as the epoch.\<close>

definition rfc3339 :: "int \<Rightarrow> string" where
  "rfc3339 ts =
     (let secs = max 0 ts;
          days = secs div 86400;
          rem = nat (secs mod 86400);
          hour = rem div 3600; minute = rem mod 3600 div 60; second = rem mod 60
      in case civil_from_days days of (year, month, day) \<Rightarrow>
        zero_padded 4 (nat year) @ ''-'' @ zero_padded 2 month @ ''-'' @ zero_padded 2 day @ ''T'' @
        zero_padded 2 hour @ '':'' @ zero_padded 2 minute @ '':'' @ zero_padded 2 second @ ''Z'')"

section \<open>Reading an instant\<close>

fun split_char :: "char \<Rightarrow> string \<Rightarrow> string list" where
  "split_char sep [] = [[]]"
| "split_char sep (c # cs) =
     (if c = sep then [] # split_char sep cs
      else case split_char sep cs of p # ps \<Rightarrow> (c # p) # ps | [] \<Rightarrow> [[c]])"

text \<open>\<open>rest.rfind(['+', '-'])\<close>, as the two parts the code goes on with.\<close>

definition rsplit_sign :: "string \<Rightarrow> (string \<times> string) option" where
  "rsplit_sign s =
     (let tl = rev (takeWhile (\<lambda>c. c \<noteq> CHR ''+'' \<and> c \<noteq> CHR ''-'') (rev s))
      in if length tl = length s then None
         else Some (take (length s - length tl - 1) s, drop (length s - length tl - 1) s))"

definition split_offset :: "string \<Rightarrow> (string \<times> int) option" where
  "split_offset s =
     (if s \<noteq> [] \<and> (last s = CHR ''Z'' \<or> last s = CHR ''z'') then Some (butlast s, 0)
      else case rsplit_sign s of
        None \<Rightarrow> Some (s, 0)
      | Some (time, tz0) \<Rightarrow>
          (let sign = (if hd tz0 = CHR ''-'' then - 1 else 1); tz = tl tz0 in
           Option.bind
             (case split_once (CHR '':'') tz of
                Some (h, m) \<Rightarrow> Option.bind (parse_i64 h) (\<lambda>hours. Option.bind (parse_i64 m) (\<lambda>minutes. Some (hours, minutes)))
              | None \<Rightarrow>
                  if length tz = 4
                  then Option.bind (parse_i64 (take 2 tz)) (\<lambda>hours. Option.bind (parse_i64 (drop 2 tz)) (\<lambda>minutes. Some (hours, minutes)))
                  else Option.bind (parse_i64 tz) (\<lambda>hours. Some (hours, 0)))
             (\<lambda>(hours, minutes). Some (time, sign * (hours * 3600 + minutes * 60)))))"

text \<open>\<open>parts.next()?.parse().ok()?\<close> for each of three fields, and nothing after them.\<close>

definition epoch_from_rfc3339 :: "string \<Rightarrow> int option" where
  "epoch_from_rfc3339 s =
     Option.bind (case split_once (CHR ''T'') s of Some p \<Rightarrow> Some p | None \<Rightarrow> split_once (CHR '' '') s) (\<lambda>(date, rest).
     (case split_char (CHR ''-'') date of
        y # m # d # more_date \<Rightarrow>
          Option.bind (parse_i64 y) (\<lambda>year. Option.bind (parse_u32 m) (\<lambda>month. Option.bind (parse_u32 d) (\<lambda>day.
            if more_date \<noteq> [] \<or> \<not> (0 \<le> year \<and> year \<le> 9999) \<or> \<not> (1 \<le> month \<and> month \<le> 12) \<or>
               \<not> (1 \<le> day \<and> day \<le> days_in_month year month) then None
            else Option.bind (split_offset rest) (\<lambda>(time0, offset_secs).
              (case split_char (CHR '':'') (hd (split_char (CHR ''.'') time0)) of
                 h # mi # more_time \<Rightarrow>
                   Option.bind (parse_i64 h) (\<lambda>hour. Option.bind (parse_i64 mi) (\<lambda>minute.
                   Option.bind (parse_i64 (case more_time of sec # _ \<Rightarrow> sec | [] \<Rightarrow> ''0'')) (\<lambda>second.
                     if length more_time > 1 \<or> \<not> (0 \<le> hour \<and> hour \<le> 23) \<or> \<not> (0 \<le> minute \<and> minute \<le> 59) \<or>
                        \<not> (0 \<le> second \<and> second \<le> 60) then None
                     else Some (days_from_civil year month day * 86400 + hour * 3600 + minute * 60 + second - offset_secs))))
               | _ \<Rightarrow> None)))))
      | _ \<Rightarrow> None))"

section \<open>The calendar is a bijection\<close>

lemma era_floor: "era_of z = z div 146097"
proof -
  have *: "146096 - z = (146096 - z mod 146097) + (- (z div 146097)) * 146097"
    using div_mult_mod_eq [of z 146097] by linarith
  have "(146096 - z) div 146097 = - (z div 146097) + (146096 - z mod 146097) div 146097"
    unfolding * by (rule div_mult_self1) simp
  moreover have "0 \<le> z mod 146097" "z mod 146097 < 146097" by simp_all
  then have "(146096 - z mod 146097) div 146097 = 0" by (intro div_pos_pos_trivial) simp_all
  ultimately show ?thesis by (simp add: era_of_def)
qed

text \<open>The year of an era, from its centuries \<open>q\<close>, four-year cycles \<open>k\<close> and days \<open>t\<close>.\<close>

definition year_of :: "int \<Rightarrow> int" where
  "year_of doe = (doe - doe div 1460 + doe div 36524 - doe div 146096) div 365"

definition year_start :: "int \<Rightarrow> int" where
  "year_start yoe = 365 * yoe + yoe div 4 - yoe div 100"

lemma era_decomposed:
  fixes doe :: int
  assumes "0 \<le> doe" "doe < 146096"
  obtains q k t :: int where "doe = 36524 * q + 1461 * k + t" "0 \<le> q" "q \<le> 3" "0 \<le> k" "k \<le> 24" "0 \<le> t" "t \<le> 1460"
    "k = 24 \<longrightarrow> t \<le> 1459"
proof
  let ?r = "doe mod 36524"
  show "doe = 36524 * (doe div 36524) + 1461 * (?r div 1461) + ?r mod 1461"
    using div_mult_mod_eq [of doe 36524] div_mult_mod_eq [of ?r 1461] by linarith
  have r: "0 \<le> ?r" "?r < 36524" by simp_all
  show "0 \<le> doe div 36524" "doe div 36524 \<le> 3" using assms by simp_all
  show "0 \<le> ?r div 1461" "?r div 1461 \<le> 24" "0 \<le> ?r mod 1461" "?r mod 1461 \<le> 1460"
    using r pos_mod_bound [of 1461 ?r] by simp_all
  show "?r div 1461 = 24 \<longrightarrow> ?r mod 1461 \<le> 1459"
    using r div_mult_mod_eq [of ?r 1461] by linarith
qed

lemma year_of_parts:
  fixes doe q k t :: int
  assumes d: "doe = 36524 * q + 1461 * k + t" and b: "0 \<le> q" "q \<le> 3" "0 \<le> k" "k \<le> 24" "0 \<le> t" "t \<le> 1460"
    "k = 24 \<longrightarrow> t \<le> 1459"
  shows "year_of doe = 100 * q + 4 * k + min 3 (t div 365)"
proof -
  let ?e = "(24 * q + k + t) div 1460"
  have "doe = (24 * q + k + t) + (25 * q + k) * 1460" using d by simp
  then have a: "doe div 1460 = 25 * q + k + ?e" by simp
  have "doe = (1461 * k + t) + q * 36524" using d by simp
  moreover have "(1461 * k + t) div 36524 = 0" using b by (intro div_pos_pos_trivial) (cases "k = 24"; simp)+
  ultimately have c: "doe div 36524 = q" by simp
  have f: "doe div 146096 = 0" using b d by (intro div_pos_pos_trivial) (cases "k = 24"; simp)+
  have "doe - doe div 1460 + doe div 36524 - doe div 146096 = (t - ?e) + (100 * q + 4 * k) * 365"
    using a c f d by simp
  then have y: "year_of doe = 100 * q + 4 * k + (t - ?e) div 365" unfolding year_of_def by simp
  have e: "0 \<le> ?e" "?e \<le> 1" using b by simp_all
  have "(t - ?e) div 365 = min 3 (t div 365)"
  proof (cases "?e = 0")
    case True
    then have "t < 1460" using b by (simp add: div_eq_0_iff)
    then have "t div 365 \<le> 3" by simp
    then show ?thesis using True by simp
  next
    case False
    then have e1: "?e = 1" using e by simp
    have "1460 \<le> 24 * q + k + t"
    proof (rule ccontr)
      assume "\<not> 1460 \<le> 24 * q + k + t"
      then have "?e = 0" using b by (intro div_pos_pos_trivial) simp_all
      then show False using False by simp
    qed
    then have "1364 \<le> t" using b by linarith
    then have "(t - 1) div 365 = 3" "3 \<le> t div 365" using b by simp_all
    then show ?thesis using e1 by simp
  qed
  then show ?thesis using y by simp
qed

lemma year_start_parts:
  fixes q k j :: int
  assumes "0 \<le> q" "0 \<le> k" "k \<le> 24" "0 \<le> j" "j \<le> 3"
  shows "year_start (100 * q + 4 * k + j) = 36524 * q + 1461 * k + 365 * j"
proof -
  have "(100 * q + 4 * k + j) div 4 = (j + (25 * q + k) * 4) div 4" by (simp add: algebra_simps)
  moreover have "(j + (25 * q + k) * 4) div 4 = 25 * q + k" using assms by simp
  moreover have "(100 * q + 4 * k + j) div 100 = ((4 * k + j) + q * 100) div 100" by (simp add: algebra_simps)
  moreover have "((4 * k + j) + q * 100) div 100 = q" using assms by simp
  ultimately show ?thesis by (simp add: year_start_def)
qed

definition leap_year_of_era :: "int \<Rightarrow> bool" where
  "leap_year_of_era yoe \<longleftrightarrow> (yoe + 1) mod 4 = 0 \<and> ((yoe + 1) mod 100 \<noteq> 0 \<or> yoe = 399)"

lemma day_of_year:
  assumes "0 \<le> doe" "doe < 146097"
  shows "0 \<le> year_of doe \<and> year_of doe \<le> 399 \<and> 0 \<le> doe - year_start (year_of doe) \<and>
    doe - year_start (year_of doe) \<le> 365 \<and> (doe - year_start (year_of doe) = 365 \<longrightarrow> leap_year_of_era (year_of doe))"
proof (cases "doe = 146096")
  case True
  then show ?thesis by (simp add: year_of_def year_start_def leap_year_of_era_def)
next
  case False
  then have "doe < 146096" using assms(2) by simp
  then obtain q k t :: int where d: "doe = 36524 * q + 1461 * k + t" "0 \<le> q" "q \<le> 3" "0 \<le> k" "k \<le> 24" "0 \<le> t" "t \<le> 1460"
    "k = 24 \<longrightarrow> t \<le> 1459"
    using era_decomposed [OF assms(1)] by metis
  let ?j = "min 3 (t div 365)"
  have j: "0 \<le> ?j" "?j \<le> 3" using d by simp_all
  note y = year_of_parts [OF d]
  have doy: "doe - year_start (year_of doe) = t - 365 * ?j"
    unfolding y year_start_parts [OF d(2,4,5) j] using d(1) by simp
  have t: "t = 365 * (t div 365) + t mod 365" "0 \<le> t mod 365" "t mod 365 < 365" by simp_all
  have "0 \<le> t - 365 * ?j" "t - 365 * ?j \<le> 365" "t - 365 * ?j = 365 \<longrightarrow> t = 1460"
    using t d(7) by (cases "t div 365 \<le> 3"; linarith)+
  moreover have "leap_year_of_era (year_of doe)" if "t = 1460"
  proof -
    have k: "k \<le> 23" using that d(5,8) by linarith
    have e: "year_of doe + 1 = (4 * k + 4) + q * 100" using y that by simp
    have "(4 * k + 4) mod 100 = 4 * k + 4" using k d(4) by (intro mod_pos_pos_trivial) simp_all
    then have "(year_of doe + 1) mod 100 \<noteq> 0" unfolding e using d(4) by simp
    moreover have "year_of doe + 1 = (k + 1 + q * 25) * 4" using e by simp
    then have "(year_of doe + 1) mod 4 = 0" by (metis mod_mult_self2_is_0)
    ultimately show ?thesis by (simp add: leap_year_of_era_def)
  qed
  moreover have "0 \<le> year_of doe" "year_of doe \<le> 399" unfolding y using d j by simp_all
  ultimately show ?thesis unfolding doy by blast
qed

text \<open>The months of a year that starts in March, day by day.\<close>

definition month_of_day :: "int \<Rightarrow> int \<times> int" where
  "month_of_day doy =
     (let mp = (5 * doy + 2) div 153 in (if mp < 10 then mp + 3 else mp - 9, doy - (153 * mp + 2) div 5 + 1))"

definition month_ok :: "int \<Rightarrow> bool" where
  "month_ok doy \<longleftrightarrow>
     (case month_of_day doy of (m, d) \<Rightarrow>
        1 \<le> m \<and> m \<le> 12 \<and> 1 \<le> d \<and> nat d \<le> days_in_month 2000 (nat m) \<and>
        (153 * (if m > 2 then m - 3 else m + 9) + 2) div 5 + (d - 1) = doy \<and> (m = 2 \<and> d = 29 \<longrightarrow> doy = 365))"

lemma month_of_day_ok:
  assumes "0 \<le> doy" "doy \<le> 365"
  shows "month_ok doy"
proof -
  define mp where "mp = (5 * doy + 2) div 153"
  have b: "153 * mp \<le> 5 * doy + 2" "5 * doy + 2 \<le> 153 * mp + 152"
    unfolding mp_def by presburger+
  then have "0 \<le> mp" "mp \<le> 11" using assms by linarith+
  then have "mp = 0 \<or> mp = 1 \<or> mp = 2 \<or> mp = 3 \<or> mp = 4 \<or> mp = 5 \<or> mp = 6 \<or> mp = 7 \<or>
      mp = 8 \<or> mp = 9 \<or> mp = 10 \<or> mp = 11" by arith
  then show ?thesis
    using b assms unfolding month_ok_def month_of_day_def mp_def [symmetric] Let_def
    by (elim disjE; simp add: days_in_month_def is_leap_year_def; presburger)
qed

lemma mod_era:
  fixes y e :: int
  shows "(y + e * 400) mod 4 = y mod 4" "(y + e * 400) mod 100 = y mod 100" "(y + e * 400) mod 400 = y mod 400"
proof -
  have "y + e * 400 = y + (e * 100) * 4" "y + e * 400 = y + (e * 4) * 100" by simp_all
  then show "(y + e * 400) mod 4 = y mod 4" "(y + e * 400) mod 100 = y mod 100" "(y + e * 400) mod 400 = y mod 400"
    by (metis mod_mult_self1)+
qed

lemma leap_after_era:
  assumes "leap_year_of_era yoe" "0 \<le> yoe" "yoe \<le> 399"
  shows "is_leap_year (yoe + era * 400 + 1)"
proof -
  have e: "yoe + era * 400 + 1 = (yoe + 1) + era * 400" by simp
  show ?thesis using assms unfolding is_leap_year_def e mod_era leap_year_of_era_def by auto
qed

lemma days_in_month_2000: "days_in_month 2000 m = (if m = 2 then 29 else days_in_month y m)"
  by (simp add: days_in_month_def is_leap_year_def)

lemma year_era_floor: "(if y \<ge> 0 then y div 400 else - ((399 - y) div 400)) = y div (400::int)"
proof -
  have *: "399 - y = (399 - y mod 400) + (- (y div 400)) * 400"
    using div_mult_mod_eq [of y 400] by linarith
  have "(399 - y) div 400 = - (y div 400) + (399 - y mod 400) div 400"
    unfolding * by (rule div_mult_self1) simp
  moreover have "0 \<le> y mod 400" "y mod 400 < 400" by simp_all
  then have "(399 - y mod 400) div 400 = 0" by (intro div_pos_pos_trivial) simp_all
  ultimately show ?thesis by simp
qed

lemma civil_from_days_eq:
  "civil_from_days z =
     (let era = (z + 719468) div 146097; doe = (z + 719468) mod 146097; yoe = year_of doe in
      case month_of_day (doe - year_start yoe) of (m, d) \<Rightarrow>
        (if m \<le> 2 then yoe + era * 400 + 1 else yoe + era * 400, nat m, nat d))"
  unfolding civil_from_days_def era_floor Let_def minus_div_mult_eq_mod year_of_def year_start_def month_of_day_def
  by (simp only: prod.case)

lemma civil_from_days_lemma:
  assumes "civil_from_days z = (y, m, d)"
  shows "1 \<le> m" "m \<le> 12" "1 \<le> d" "d \<le> days_in_month y m" "days_from_civil y m d = z"
proof -
  define era where "era = (z + 719468) div 146097"
  define doe where "doe = (z + 719468) mod 146097"
  define yoe where "yoe = year_of doe"
  define doy where "doy = doe - year_start yoe"
  obtain m' d' where md: "month_of_day doy = (m', d')" by fastforce
  have z: "z + 719468 = doe + era * 146097" unfolding doe_def era_def by (simp add: div_mult_mod_eq)
  have b: "0 \<le> yoe" "yoe \<le> 399" "0 \<le> doy" "doy \<le> 365" "doy = 365 \<longrightarrow> leap_year_of_era yoe"
    using day_of_year [of doe] unfolding yoe_def doy_def doe_def by simp_all
  have ok: "1 \<le> m'" "m' \<le> 12" "1 \<le> d'" "nat d' \<le> days_in_month 2000 (nat m')"
    "(153 * (if m' > 2 then m' - 3 else m' + 9) + 2) div 5 + (d' - 1) = doy" "m' = 2 \<and> d' = 29 \<longrightarrow> doy = 365"
    using month_of_day_ok [OF b(3,4)] unfolding month_ok_def md by simp_all
  have "civil_from_days z = (if m' \<le> 2 then yoe + era * 400 + 1 else yoe + era * 400, nat m', nat d')"
    unfolding civil_from_days_eq Let_def
    unfolding doe_def [symmetric] era_def [symmetric] yoe_def [symmetric] doy_def [symmetric] md by simp
  then have y: "y = (if m' \<le> 2 then yoe + era * 400 + 1 else yoe + era * 400)" "m = nat m'" "d = nat d'"
    using assms by simp_all
  show "1 \<le> m" "m \<le> 12" "1 \<le> d" using ok y by simp_all
  show "d \<le> days_in_month y m"
  proof (cases "m = 2")
    case True
    then have m2: "m' = 2" using ok(1) y(2) by simp
    show ?thesis
    proof (cases "d' = 29")
      case True
      then have "is_leap_year y" using leap_after_era [OF _ b(1,2)] ok(6) b(5) m2 y(1) by simp
      then show ?thesis using True \<open>m = 2\<close> y(3) by (simp add: days_in_month_def)
    next
      case False
      have "nat d' \<le> 29" using ok(4) m2 by (simp add: days_in_month_def is_leap_year_def)
      then have "d \<le> 28" using False ok(3) y(3) by linarith
      then show ?thesis using \<open>m = 2\<close> by (simp add: days_in_month_def)
    qed
  next
    case False
    then show ?thesis using ok(4) y days_in_month_2000 [of "nat m'" y] by simp
  qed
  have le: "m \<le> 2 \<longleftrightarrow> m' \<le> 2" "m > 2 \<longleftrightarrow> m' > 2" using y(2) by (simp_all add: nat_le_iff not_le [symmetric])
  have year: "(if m \<le> 2 then y - 1 else y) = yoe + era * 400" using y(1) le by simp
  have era: "(yoe + era * 400) div 400 = era" using b by simp
  have i: "int m = m'" "int d = d'" using ok(1,3) y(2,3) by simp_all
  have d: "(153 * (if m > 2 then int m - 3 else int m + 9) + 2) div 5 + (int d - 1) = doy"
    unfolding le i by (rule ok(5))
  have s: "yoe * 365 + yoe div 4 - yoe div 100 = year_start yoe" by (simp add: year_start_def)
  have "z = era * 146097 + (year_start yoe + doy) - 719468" using z by (simp add: doy_def)
  then show "days_from_civil y m d = z"
    unfolding days_from_civil_def Let_def year year_era_floor era d add_diff_cancel_right' s by simp
qed

text \<open>The years of four digits: the seconds before the year 10000.\<close>

definition YEAR_10000 :: int where "YEAR_10000 = 253402300800"

lemma civil_year_range:
  assumes "0 \<le> z" "z < 2932897" "civil_from_days z = (y, m, d)"
  shows "0 \<le> y" "y \<le> 9999"
proof -
  define era where "era = (z + 719468) div 146097"
  define doe where "doe = (z + 719468) mod 146097"
  define yoe where "yoe = year_of doe"
  obtain m' d' where md: "month_of_day (doe - year_start yoe) = (m', d')" by fastforce
  have z: "z + 719468 = doe + era * 146097" unfolding doe_def era_def by (simp add: div_mult_mod_eq)
  have doe: "0 \<le> doe" "doe < 146097" unfolding doe_def by simp_all
  note b = day_of_year [OF doe, folded yoe_def]
  have y: "y = (if m' \<le> 2 then yoe + era * 400 + 1 else yoe + era * 400)"
    using assms(3) unfolding civil_from_days_eq Let_def
    unfolding doe_def [symmetric] era_def [symmetric] yoe_def [symmetric] md by simp
  have e: "4 \<le> era" "era \<le> 24" using z doe assms(1,2) by linarith+
  show "0 \<le> y" using y e b by simp
  have "m' > 2" if "era = 24" "yoe = 399"
  proof -
    have "doe - year_start yoe \<le> 305" using that z assms(2) by (simp add: year_start_def)
    then have "(5 * (doe - year_start yoe) + 2) div 153 \<le> 1527 div 153" by (intro zdiv_mono1) simp_all
    then have "(5 * (doe - year_start yoe) + 2) div 153 < 10" by simp
    then show ?thesis using md b unfolding month_of_day_def by (auto simp: Let_def)
  qed
  then show "y \<le> 9999" using y e b by (cases "era = 24"; cases "yoe = 399") auto
qed

section \<open>Printed instants are read back\<close>

lemma split_char_one: "sep \<notin> set a \<Longrightarrow> split_char sep a = [a]"
  by (induction a) auto

lemma split_char_at: "sep \<notin> set a \<Longrightarrow> split_char sep (a @ sep # b) = a # split_char sep b"
  by (induction a) auto

lemma zero_padded_no: "c \<notin> digit_char ` {..<10} \<Longrightarrow> c \<notin> set (zero_padded w n)"
  using zero_padded_digits by blast

lemma zero_padded_chars:
  "CHR ''-'' \<notin> set (zero_padded w n)" "CHR '':'' \<notin> set (zero_padded w n)"
  "CHR ''.'' \<notin> set (zero_padded w n)" "CHR ''T'' \<notin> set (zero_padded w n)"
proof -
  have "of_char (digit_char d) < (58 :: nat) \<and> 48 \<le> (of_char (digit_char d) :: nat)" if "d < 10" for d
    using that by (simp add: digit_char_def)
  then have c: "48 \<le> (of_char c :: nat) \<and> of_char c < (58 :: nat)" if "c \<in> set (zero_padded w n)" for c
    using that zero_padded_digits [of w n] by (metis imageE lessThan_iff subsetD)
  show "CHR ''-'' \<notin> set (zero_padded w n)" "CHR '':'' \<notin> set (zero_padded w n)"
    "CHR ''.'' \<notin> set (zero_padded w n)" "CHR ''T'' \<notin> set (zero_padded w n)"
    using c by (fastforce simp: of_char_Char)+
qed

lemma parse_i64_zero_padded: "int n \<le> I64_MAX \<Longrightarrow> parse_i64 (zero_padded w n) = Some (int n)"
proof -
  assume n: "int n \<le> I64_MAX"
  obtain c cs where s: "zero_padded w n = c # cs" using zero_padded_not_Nil by (cases "zero_padded w n") auto
  then have "c \<noteq> CHR ''-''" using zero_padded_chars(1) [of w n] by auto
  moreover have "parse_u64 (c # cs) = Some n" using parse_zero_padded [of n w] n unfolding s by simp
  ultimately show ?thesis using n unfolding parse_i64_def s by simp
qed

lemma parse_u32_zero_padded: "n \<le> U32_MAX \<Longrightarrow> parse_u32 (zero_padded w n) = Some n"
  by (simp add: parse_u32_def parse_zero_padded)

lemma split_offset_Z: "split_offset (t @ ''Z'') = Some (t, 0)"
  by (simp add: split_offset_def)

lemma epoch_of_parts:
  assumes "y \<le> 9999" "1 \<le> m" "m \<le> 12" "1 \<le> d" "d \<le> days_in_month (int y) m" "h \<le> 23" "mi \<le> 59" "s \<le> 60"
  shows "epoch_from_rfc3339 (zero_padded 4 y @ ''-'' @ zero_padded 2 m @ ''-'' @ zero_padded 2 d @ ''T'' @
      zero_padded 2 h @ '':'' @ zero_padded 2 mi @ '':'' @ zero_padded 2 s @ ''Z'') =
    Some (days_from_civil (int y) m d * 86400 + int h * 3600 + int mi * 60 + int s)"
proof -
  let ?d = "zero_padded 4 y @ CHR ''-'' # zero_padded 2 m @ CHR ''-'' # zero_padded 2 d"
  let ?t = "zero_padded 2 h @ CHR '':'' # zero_padded 2 mi @ CHR '':'' # zero_padded 2 s"
  have "CHR ''T'' \<notin> set ?d" using zero_padded_chars(4) by auto
  then have a: "split_once (CHR ''T'') (?d @ CHR ''T'' # ?t @ ''Z'') = Some (?d, ?t @ ''Z'')" by (rule split_once_at)
  have b: "split_char (CHR ''-'') ?d = [zero_padded 4 y, zero_padded 2 m, zero_padded 2 d]"
    by (simp add: split_char_at split_char_one zero_padded_chars)
  have c: "split_char (CHR '':'') ?t = [zero_padded 2 h, zero_padded 2 mi, zero_padded 2 s]"
    by (simp add: split_char_at split_char_one zero_padded_chars)
  have "CHR ''.'' \<notin> set ?t" using zero_padded_chars(3) by auto
  then have e: "split_char (CHR ''.'') ?t = [?t]" by (rule split_char_one)
  have o: "split_offset (?t @ ''Z'') = Some (?t, 0)" by (rule split_offset_Z)
  have "d \<le> 31" using assms(5) by (auto simp: days_in_month_def split: if_splits)
  then have p: "parse_i64 (zero_padded 4 y) = Some (int y)" "parse_u32 (zero_padded 2 m) = Some m"
    "parse_u32 (zero_padded 2 d) = Some d" "parse_i64 (zero_padded 2 h) = Some (int h)"
    "parse_i64 (zero_padded 2 mi) = Some (int mi)" "parse_i64 (zero_padded 2 s) = Some (int s)"
    using assms by (simp_all add: parse_i64_zero_padded parse_u32_zero_padded)
  have "zero_padded 4 y @ ''-'' @ zero_padded 2 m @ ''-'' @ zero_padded 2 d @ ''T'' @
      zero_padded 2 h @ '':'' @ zero_padded 2 mi @ '':'' @ zero_padded 2 s @ ''Z'' = ?d @ CHR ''T'' # ?t @ ''Z''" by simp
  then show ?thesis
    using assms unfolding epoch_from_rfc3339_def by (simp only: a b c e o p option.case bind.bind_lunit prod.case list.case list.sel) simp
qed

lemma rfc3339_read_back:
  assumes "ts < YEAR_10000"
  shows "epoch_from_rfc3339 (rfc3339 ts) = Some (max 0 ts)"
proof -
  define secs where "secs = max 0 ts"
  obtain y m d where c: "civil_from_days (secs div 86400) = (y, m, d)" by (metis prod.exhaust)
  have s: "0 \<le> secs" "secs < 253402300800" using assms by (auto simp: secs_def YEAR_10000_def)
  then have "0 \<le> secs div 86400" "secs div 86400 < 2932897" by (simp, linarith)
  from civil_year_range [OF this c] have y: "0 \<le> y" "y \<le> 9999" by simp_all
  note v = civil_from_days_lemma [OF c]
  define r where "r = nat (secs mod 86400)"
  have r: "r < 86400" "int r = secs mod 86400" by (simp_all add: r_def)
  have "r mod 3600 mod 60 = r mod 60" by (simp add: mod_mod_cancel)
  then have "r = r div 3600 * 3600 + r mod 3600 div 60 * 60 + r mod 60"
    using div_mult_mod_eq [of r 3600] div_mult_mod_eq [of "r mod 3600" 60] by linarith
  then have "int r = int (r div 3600) * 3600 + int (r mod 3600 div 60) * 60 + int (r mod 60)"
    by (metis (mono_tags) of_nat_add of_nat_mult of_nat_numeral)
  then have secs: "secs = secs div 86400 * 86400 + int (r div 3600) * 3600 + int (r mod 3600 div 60) * 60 + int (r mod 60)"
    using div_mult_mod_eq [of secs 86400] r(2) by linarith
  have "r div 3600 < 24" "r mod 3600 div 60 < 60" "r mod 60 < 60"
    using r(1) by (simp_all add: div_less_iff_less_mult)
  then have small: "r div 3600 \<le> 23" "r mod 3600 div 60 \<le> 59" "r mod 60 \<le> 60" by simp_all
  have "rfc3339 ts = zero_padded 4 (nat y) @ ''-'' @ zero_padded 2 m @ ''-'' @ zero_padded 2 d @ ''T'' @
      zero_padded 2 (r div 3600) @ '':'' @ zero_padded 2 (r mod 3600 div 60) @ '':'' @ zero_padded 2 (r mod 60) @ ''Z''"
    unfolding rfc3339_def Let_def secs_def [symmetric] r_def [symmetric] c by simp
  also have "epoch_from_rfc3339 \<dots> =
      Some (days_from_civil (int (nat y)) m d * 86400 + int (r div 3600) * 3600 + int (r mod 3600 div 60) * 60 + int (r mod 60))"
    using v(1-4) y small by (intro epoch_of_parts) simp_all
  also have "int (nat y) = y" using y by simp
  finally have "epoch_from_rfc3339 (rfc3339 ts) = Some secs" unfolding v(5) using secs by simp
  then show ?thesis by (simp add: secs_def)
qed

text \<open>
  C40: The instant a log line is stamped with is read back as it was, up to the year 9999; one before the epoch
  is read back as the epoch.
\<close>

theorem rfc3339_round_trip:
  assumes "ts < YEAR_10000"
  shows "epoch_from_rfc3339 (rfc3339 ts) = Some (max 0 ts)"
  using assms by (rule rfc3339_read_back)

theorem rfc3339_round_trip_witness:
  "epoch_from_rfc3339 (rfc3339 1709164800) = Some 1709164800 \<and> epoch_from_rfc3339 (rfc3339 (- 5)) = Some 0"
  using rfc3339_round_trip [of 1709164800] rfc3339_round_trip [of "- 5"] by (simp add: YEAR_10000_def)

end
