(* ===== verification/Log_Line.thy ===== *)
theory Log_Line
  imports Observability Calendar
begin

text \<open>
  \<open>Event::to_log_line\<close> of \<open>src/observability.rs\<close>: every event as one line of \<open>key=val\<close> fields, and the
  escaping of free-form values. An arm of the code that formats
  \<open>"ts={ts} event=NAME k1={v1} k2={v2}"\<close> is here the name of the event and the list of its fields;
  an optional field is absent from the list when the code formats the empty string.
\<close>

section \<open>Characters\<close>

text \<open>
  The characters of a UTF-8 string, each as its bytes: a byte and the continuation bytes that its leading
  bits announce.
\<close>

definition cont_byte :: "char \<Rightarrow> bool" where
  "cont_byte c \<longleftrightarrow> (let n = (of_char c :: nat) in 128 \<le> n \<and> n < 192)"

definition announced :: "char \<Rightarrow> nat" where
  "announced c = (let n = (of_char c :: nat) in if n < 192 then 0 else if n < 224 then 1 else if n < 240 then 2 else 3)"

function utf8_chars :: "string \<Rightarrow> string list" where
  "utf8_chars [] = []"
| "utf8_chars (c # cs) =
     (let tl = take (announced c) (takeWhile cont_byte cs) in (c # tl) # utf8_chars (drop (length tl) cs))"
  by pat_completeness auto
termination by (relation "measure length") auto

text \<open>\<open>char::is_control\<close>: the category Cc, and \<open>char::is_whitespace\<close>: the property White_Space.\<close>

definition is_control :: "string \<Rightarrow> bool" where
  "is_control ch \<longleftrightarrow>
     (case ch of
        [c] \<Rightarrow> (let n = (of_char c :: nat) in n < 32 \<or> n = 127)
      | [a, c] \<Rightarrow> of_char a = (194 :: nat) \<and> (let n = (of_char c :: nat) in 128 \<le> n \<and> n < 160)
      | _ \<Rightarrow> False)"

definition is_whitespace :: "string \<Rightarrow> bool" where
  "is_whitespace ch \<longleftrightarrow> ch \<in> set white_space"

section \<open>Escaping\<close>

definition upper_hex :: "nat \<Rightarrow> char" where
  "upper_hex n = (if n < 10 then char_of (48 + n) else char_of (55 + n))"

definition percent_byte :: "char \<Rightarrow> string" where
  "percent_byte c = (let n = (of_char c :: nat) in [CHR ''%'', upper_hex (n div 16), upper_hex (n mod 16)])"

definition percent_encode :: "(string \<Rightarrow> bool) \<Rightarrow> string \<Rightarrow> string" where
  "percent_encode needs_encoding raw =
     concat (map (\<lambda>ch. if needs_encoding ch then concat (map percent_byte ch) else ch) (utf8_chars raw))"

definition path_value :: "string \<Rightarrow> string" where
  "path_value path = percent_encode (\<lambda>ch. ch = ''%'' \<or> is_whitespace ch) path"

definition single_line :: "string \<Rightarrow> string" where
  "single_line line = (if \<exists>ch \<in> set (utf8_chars line). is_control ch then percent_encode is_control line else line)"

section \<open>Values\<close>

text \<open>
  \<open>format!("{:.k$}", x)\<close>: the nearest decimal with \<open>k\<close> places, the even one on a tie. (Zeros are not
  told apart, so a negative zero prints as zero.)
\<close>

fun fmt_fixed :: "nat \<Rightarrow> f64 \<Rightarrow> string" where
  "fmt_fixed k NaN = ''NaN''"
| "fmt_fixed k PInf = ''inf''"
| "fmt_fixed k NInf = ''-inf''"
| "fmt_fixed k (Fin q) =
     (let n = nat (rne (\<bar>q\<bar> * 10 ^ k)) in
      (if q < 0 then ''-'' else []) @ decimal (n div 10 ^ k) @
      (if k = 0 then [] else CHR ''.'' # zero_padded k (n mod 10 ^ k)))"

definition show_bool :: "bool \<Rightarrow> string" where
  "show_bool b = (if b then ''true'' else ''false'')"

text \<open>\<open>ms / 1000\<close> on \<open>i64\<close> truncates.\<close>

definition ms_to_secs :: "int \<Rightarrow> int" where
  "ms_to_secs ms = (if ms \<ge> 0 then ms div 1000 else - ((- ms) div 1000))"

type_synonym fields = "(string \<times> string) list"

definition opt_field :: "string \<Rightarrow> ('a \<Rightarrow> string) \<Rightarrow> 'a option \<Rightarrow> fields" where
  "opt_field k f v = (case v of None \<Rightarrow> [] | Some x \<Rightarrow> [(k, f x)])"

definition flag_field :: "string \<Rightarrow> bool \<Rightarrow> fields" where
  "flag_field k b = (if b then [(k, ''true'')] else [])"

section \<open>The fields of the events\<close>

definition projection_fields :: "swap_projection option \<Rightarrow> fields" where
  "projection_fields projection =
     (case projection of
        None \<Rightarrow> []
      | Some p \<Rightarrow> [(''projected'', fmt_fixed 2 (projected_pct p)), (''rate'', fmt_fixed 6 (sp_rate_pct_per_sec p)),
          (''horizon'', decimal (horizon_secs p)), (''ceiling'', fmt_fixed 2 (sp_ceiling_pct p))])"

definition swap_fields :: "string \<Rightarrow> string \<Rightarrow> swap_reason \<Rightarrow> nat option \<Rightarrow> swap_projection option \<Rightarrow> fields" where
  "swap_fields from_acct to_acct reason session_pct projection =
     [(''from'', from_acct), (''to'', to_acct), (''reason'', swap_reason_as_str reason)] @
     opt_field ''session_pct'' decimal session_pct @
     flag_field ''late'' (case session_pct of Some pct \<Rightarrow> pct \<ge> 100 | None \<Rightarrow> False) @
     projection_fields projection"

definition hold_fields :: "string \<Rightarrow> swap_reason \<Rightarrow> int option \<Rightarrow> fields" where
  "hold_fields hold cause resets_at =
     [(''hold'', hold), (''cause'', swap_reason_as_str cause)] @ opt_field ''resets_at'' rfc3339 resets_at"

definition rotated_field :: "refresh_event_outcome \<Rightarrow> fields" where
  "rotated_field out = opt_field ''rotated'' show_bool (refresh_rotated out)"

definition refresh_outcome_as_str :: "refresh_event_outcome \<Rightarrow> string" where
  "refresh_outcome_as_str out = refresh_kind_as_str (refresh_kind out)"

definition refresh_fields ::
  "string \<Rightarrow> refresh_event_outcome \<Rightarrow> int option \<Rightarrow> int option \<Rightarrow> refresh_event_reason option \<Rightarrow> nat option \<Rightarrow> fields" where
  "refresh_fields account out expires_before expires_after reason backoff_secs =
     [(''account'', account), (''outcome'', refresh_outcome_as_str out)] @
     opt_field ''expires_before'' (\<lambda>ms. rfc3339 (ms_to_secs ms)) expires_before @
     opt_field ''expires_after'' (\<lambda>ms. rfc3339 (ms_to_secs ms)) expires_after @
     rotated_field out @
     opt_field ''reason'' refresh_event_reason_as_str reason @
     opt_field ''backoff_secs'' decimal backoff_secs @
     (case (expires_before, expires_after) of
        (Some before_ms, Some after_ms) \<Rightarrow> [(''window_secs'', show_int (ms_to_secs (after_ms - before_ms)))]
      | _ \<Rightarrow> [])"

definition triggered_fields :: "string \<Rightarrow> string \<Rightarrow> refresh_event_outcome \<Rightarrow> fields" where
  "triggered_fields account trigger out =
     [(''account'', account), (''trigger'', trigger), (''outcome'', refresh_outcome_as_str out)] @ rotated_field out"

definition import_fields :: "nat \<Rightarrow> nat \<Rightarrow> nat \<Rightarrow> nat \<Rightarrow> fields" where
  "import_fields imported skipped overwritten failed =
     [(''accounts'', decimal (imported + skipped + overwritten + failed)),
      (''outcome'', import_rollup_as_str (import_rollup_from_counts imported skipped overwritten failed)),
      (''imported'', decimal imported), (''skipped'', decimal skipped), (''overwritten'', decimal overwritten),
      (''failed'', decimal failed)]"

definition backoff_fields :: "string \<Rightarrow> backoff_class \<Rightarrow> nat \<Rightarrow> nat option \<Rightarrow> nat \<Rightarrow> fields" where
  "backoff_fields account cls consecutive retry_after_secs backoff_secs =
     [(''acct'', account), (''class'', backoff_class_as_str cls), (''consecutive'', decimal consecutive),
      (''backoff_secs'', decimal backoff_secs)] @
     opt_field ''retry_after_secs'' decimal retry_after_secs"

definition velocity_fields :: "string \<Rightarrow> int option \<Rightarrow> int option \<Rightarrow> nat \<Rightarrow> fields" where
  "velocity_fields account session_delta_pct weekly_delta_pct elapsed_secs =
     (let minutes = f_div (f_of_nat elapsed_secs) (Fin 60);
          rate = (\<lambda>delta. fmt_fixed 2 (f_div (Fin (of_int delta)) minutes))
      in [(''acct'', account)] @
         opt_field ''session_pct_per_min'' rate session_delta_pct @
         opt_field ''weekly_pct_per_min'' rate weekly_delta_pct @
         [(''elapsed_secs'', decimal elapsed_secs)] @
         opt_field ''session_delta_pct'' show_int session_delta_pct @
         opt_field ''weekly_delta_pct'' show_int weekly_delta_pct)"

definition blind_window_fields ::
  "string \<Rightarrow> nat \<Rightarrow> nat option \<Rightarrow> nat option \<Rightarrow> bool \<Rightarrow> blind_velocity option \<Rightarrow> nat option \<Rightarrow> fields" where
  "blind_window_fields account duration_secs session_pct session_at_recovery near_limit velocity high_water =
     [(''acct'', account), (''duration_secs'', decimal duration_secs)] @
     opt_field ''session_pct'' decimal session_pct @
     opt_field ''session_at_recovery'' decimal session_at_recovery @
     [(''near_limit'', show_bool near_limit)] @
     (case velocity of
        None \<Rightarrow> []
      | Some v \<Rightarrow> [(''rate'', fmt_fixed 6 (bv_rate_pct_per_sec v)), (''inflation'', fmt_fixed 2 (bv_inflation v)),
          (''ceiling'', fmt_fixed 2 (bv_ceiling_pct v))]) @
     opt_field ''session_high_water_pct'' decimal high_water"

definition burn_field :: "string \<Rightarrow> nat option \<Rightarrow> nat option \<Rightarrow> fields" where
  "burn_field key anchor recovered =
     (case (anchor, recovered) of
        (Some a, Some r) \<Rightarrow> [(key, show_int (int r - int a))]
      | _ \<Rightarrow> [])"

definition blind_exit_fields ::
  "string \<Rightarrow> nat \<Rightarrow> nat option \<Rightarrow> nat option \<Rightarrow> nat option \<Rightarrow> nat option \<Rightarrow> bool \<Rightarrow> bool \<Rightarrow> bool \<Rightarrow> fields" where
  "blind_exit_fields account duration_secs session_pct session_at_recovery weekly_pct weekly_at_recovery
     was_active swapped_away near_limit =
     [(''acct'', account), (''duration_secs'', decimal duration_secs)] @
     burn_field ''session_burn_pct'' session_pct session_at_recovery @
     burn_field ''weekly_burn_pct'' weekly_pct weekly_at_recovery @
     opt_field ''session_pct'' decimal session_pct @
     opt_field ''session_at_recovery'' decimal session_at_recovery @
     opt_field ''weekly_pct'' decimal weekly_pct @
     opt_field ''weekly_at_recovery'' decimal weekly_at_recovery @
     [(''was_active'', show_bool was_active), (''swapped_away'', show_bool swapped_away),
      (''near_limit'', show_bool near_limit)]"

definition blind_enter_fields :: "string \<Rightarrow> nat option \<Rightarrow> nat option \<Rightarrow> bool \<Rightarrow> bool \<Rightarrow> fields" where
  "blind_enter_fields account session_pct weekly_pct was_active near_limit =
     [(''acct'', account)] @ opt_field ''session_pct'' decimal session_pct @ opt_field ''weekly_pct'' decimal weekly_pct @
     [(''was_active'', show_bool was_active), (''near_limit'', show_bool near_limit)]"

definition expiry_observed_fields :: "string \<Rightarrow> expiry_provenance \<Rightarrow> int option \<Rightarrow> int \<Rightarrow> bool option \<Rightarrow> fields" where
  "expiry_observed_fields account provenance before_secs after_secs grant_replaced =
     [(''acct'', account), (''provenance'', expiry_provenance_as_str provenance)] @
     opt_field ''before'' rfc3339 before_secs @ [(''after'', rfc3339 after_secs)] @
     opt_field ''delta_secs'' (\<lambda>b. show_int (i64_sat (after_secs - b))) before_secs @
     opt_field ''grant_replaced'' show_bool grant_replaced"

definition reload_fields ::
  "roster_reload_outcome \<Rightarrow> nat option \<Rightarrow> nat option \<Rightarrow> roster_reload_reason option \<Rightarrow> fields" where
  "reload_fields out previous incoming reason =
     [(''outcome'', roster_reload_outcome_as_str out)] @ opt_field ''previous'' decimal previous @
     opt_field ''incoming'' decimal incoming @ opt_field ''reason'' roster_reload_reason_as_str reason"

text \<open>\<open>env!("CARGO_PKG_VERSION")\<close>\<close>

definition CARGO_PKG_VERSION :: string where "CARGO_PKG_VERSION = ''0.1.0''"
definition BUILD_FIELD_UNAVAILABLE :: string where "BUILD_FIELD_UNAVAILABLE = ''unavailable''"

definition build_fields :: "string option \<Rightarrow> nat option \<Rightarrow> int option \<Rightarrow> fields" where
  "build_fields exe exe_size exe_mtime =
     [(''version'', CARGO_PKG_VERSION),
      (''exe'', case exe of Some path \<Rightarrow> path_value path | None \<Rightarrow> BUILD_FIELD_UNAVAILABLE),
      (''exe_size'', case exe_size of Some n \<Rightarrow> decimal n | None \<Rightarrow> BUILD_FIELD_UNAVAILABLE),
      (''exe_mtime'', case exe_mtime of
         Some t \<Rightarrow> if t \<ge> 0 then rfc3339 t else BUILD_FIELD_UNAVAILABLE | None \<Rightarrow> BUILD_FIELD_UNAVAILABLE)]"

primrec event_name :: "event \<Rightarrow> string" where
  "event_name (Ev_Swap x1 x2 x3 x4 x5) = ''swap''"
| "event_name (Ev_ReStash x1) = ''restash''"
| "event_name (Ev_AllExhausted x1 x2 x3) = ''all_exhausted''"
| "event_name Ev_AllExhaustedCleared = ''all_exhausted_cleared''"
| "event_name (Ev_ActiveDeadNoTarget x1 x2 x3) = ''active_dead_no_target''"
| "event_name Ev_ActiveDeadNoTargetCleared = ''active_dead_no_target_cleared''"
| "event_name (Ev_FleetRunwayLow x1 x2 x3 x4) = ''fleet_runway_low''"
| "event_name Ev_FleetRunwayRecovered = ''fleet_runway_recovered''"
| "event_name (Ev_Monitor401 x1 x2) = ''monitor_401''"
| "event_name (Ev_CredentialDead x1) = ''credential_dead''"
| "event_name (Ev_EmergencySwap x1 x2) = ''emergency_swap''"
| "event_name (Ev_CredentialRestored x1) = ''credential_restored''"
| "event_name (Ev_CanonicalScrubbed x1) = ''canonical_scrubbed''"
| "event_name (Ev_CanonicalRestored x1) = ''canonical_restored''"
| "event_name (Ev_CanonicalRecovered x1) = ''canonical_recovered''"
| "event_name (Ev_CanonicalRecoveryExhausted x1) = ''canonical_recovery_exhausted''"
| "event_name (Ev_CanaryDrift x1 x2 x3) = ''canary_drift''"
| "event_name (Ev_CanaryUnparseableCanonical x1) = ''canary_unparseable_canonical''"
| "event_name (Ev_CanaryOnlineProbe x1 x2) = ''canary_online_probe''"
| "event_name (Ev_CanaryAmbiguous x1) = ''canary_ambiguous''"
| "event_name Ev_CanaryCleared = ''canary_cleared''"
| "event_name (Ev_CredentialUnrecoverable x1) = ''credential_unrecoverable''"
| "event_name Ev_KeychainLockedWait = ''keychain_locked_wait''"
| "event_name (Ev_UsageScopeFail x1) = ''usage_scope_fail''"
| "event_name (Ev_PollRefresh x1 x2 x3) = ''poll_refresh''"
| "event_name (Ev_KeepWarm x1 x2 x3) = ''keep_warm''"
| "event_name (Ev_RefreshSystemicFailure x1) = ''refresh_systemic_failure''"
| "event_name Ev_RefreshSystemicRecovered = ''refresh_systemic_recovered''"
| "event_name Ev_RefreshPreflightUnresolved = ''refresh_preflight_unresolved''"
| "event_name (Ev_CredentialHealth x1 x2) = ''credential_health''"
| "event_name (Ev_UsageRollup x1 x2) = ''usage_rollup''"
| "event_name (Ev_UsageGap x1 x2) = ''usage_gap''"
| "event_name (Ev_UncapturedLogin x1) = ''uncaptured_login''"
| "event_name (Ev_UsageBackoff x1 x2 x3 x4 x5) = ''usage_backoff''"
| "event_name (Ev_UsageBackoffCleared x1) = ''usage_backoff_cleared''"
| "event_name (Ev_ExhaustedSlowPoll x1 x2) = ''exhausted_slow_poll''"
| "event_name (Ev_ExhaustedSlowPollCleared x1) = ''exhausted_slow_poll_cleared''"
| "event_name (Ev_NearLimitPollCoverage x1 x2 x3) = ''near_limit_poll_coverage''"
| "event_name (Ev_UsageVelocity x1 x2 x3 x4) = ''usage_velocity''"
| "event_name (Ev_BlindWindow x1 x2 x3 x4 x5 x6 x7) = ''blind_window''"
| "event_name (Ev_BlindEnter x1 x2 x3 x4 x5) = ''blind_enter''"
| "event_name (Ev_BlindExit x1 x2 x3 x4 x5 x6 x7 x8 x9) = ''blind_exit''"
| "event_name (Ev_BlindGateEligible x1 x2 x3 x4) = ''blind_gate_eligible''"
| "event_name (Ev_BlindPreemptReserveHold x1 x2 x3) = ''blind_preempt_reserve_hold''"
| "event_name (Ev_RetryAfterWalk x1 x2 x3 x4) = ''retry_after_walk''"
| "event_name (Ev_CredentialExpiryHorizon x1 x2 x3 x4) = ''credential_expiry_horizon''"
| "event_name (Ev_CredentialExpiryObserved x1 x2 x3 x4 x5) = ''credential_expiry_observed''"
| "event_name (Ev_ObservationGapEnter x1 x2 x3 x4) = ''observation_gap_enter''"
| "event_name (Ev_ObservationGapExit x1 x2 x3 x4) = ''observation_gap_exit''"
| "event_name (Ev_RosterReload x1 x2 x3 x4) = ''roster_reload''"
| "event_name (Ev_Capture x1 x2) = ''capture''"
| "event_name (Ev_Login x1 x2) = ''login''"
| "event_name (Ev_Refresh x1 x2 x3 x4 x5 x6) = ''refresh''"
| "event_name (Ev_RefreshBinaryResolved x1) = ''refresh_binary_resolved''"
| "event_name (Ev_PlaintextFallback x1) = ''plaintext_fallback''"
| "event_name (Ev_Export x1 x2 x3) = ''export''"
| "event_name (Ev_Import x1 x2 x3 x4) = ''import''"
| "event_name (Ev_DaemonBuild x1 x2 x3) = ''daemon_build''"

primrec log_fields :: "event \<Rightarrow> fields" where
  "log_fields (Ev_Swap f t r p j) = swap_fields f t r p j"
| "log_fields (Ev_ReStash a) = [(''account'', a)]"
| "log_fields (Ev_AllExhausted h c r) = hold_fields h c r"
| "log_fields Ev_AllExhaustedCleared = []"
| "log_fields (Ev_ActiveDeadNoTarget h c r) = hold_fields h c r"
| "log_fields Ev_ActiveDeadNoTargetCleared = []"
| "log_fields (Ev_FleetRunwayLow r t n m) =
     [(''runway_secs'', show_int r), (''threshold_secs'', show_int t), (''counted'', decimal n), (''observed'', decimal m)]"
| "log_fields Ev_FleetRunwayRecovered = []"
| "log_fields (Ev_Monitor401 a n) = [(''account'', a), (''consecutive'', decimal n)]"
| "log_fields (Ev_CredentialDead a) = [(''account'', a)]"
| "log_fields (Ev_EmergencySwap f t) = [(''from'', f), (''to'', t)]"
| "log_fields (Ev_CredentialRestored a) = [(''account'', a)]"
| "log_fields (Ev_CanonicalScrubbed a) = (''mode'', ''scrub'') # opt_field ''account'' id a"
| "log_fields (Ev_CanonicalRestored a) = opt_field ''account'' id a"
| "log_fields (Ev_CanonicalRecovered a) = [(''account'', a)]"
| "log_fields (Ev_CanonicalRecoveryExhausted a) = opt_field ''account'' id a"
| "log_fields (Ev_CanaryDrift d m b) = [(''displayed'', d), (''matched'', m)] @ flag_field ''overridden'' b"
| "log_fields (Ev_CanaryUnparseableCanonical b) = flag_field ''overridden'' b"
| "log_fields (Ev_CanaryOnlineProbe v b) = (''verdict'', v) # flag_field ''refused'' b"
| "log_fields (Ev_CanaryAmbiguous n) = [(''count'', decimal n)]"
| "log_fields Ev_CanaryCleared = []"
| "log_fields (Ev_CredentialUnrecoverable a) = [(''account'', a)]"
| "log_fields Ev_KeychainLockedWait = []"
| "log_fields (Ev_UsageScopeFail a) = [(''account'', a), (''status'', ''403'')]"
| "log_fields (Ev_PollRefresh a t out) = triggered_fields a (poll_refresh_trigger_as_str t) out"
| "log_fields (Ev_KeepWarm a t out) = triggered_fields a (keep_warm_trigger_as_str t) out"
| "log_fields (Ev_RefreshSystemicFailure n) = [(''consecutive'', decimal n)]"
| "log_fields Ev_RefreshSystemicRecovered = []"
| "log_fields Ev_RefreshPreflightUnresolved = []"
| "log_fields (Ev_CredentialHealth a s) = [(''account'', a), (''state'', credential_health_as_str s)]"
| "log_fields (Ev_UsageRollup t n) = [(''rolled_through'', rfc3339 t), (''raw_lines'', decimal n)]"
| "log_fields (Ev_UsageGap a t) = [(''acct'', a), (''since'', rfc3339 t)]"
| "log_fields (Ev_UncapturedLogin a) = opt_field ''acct'' id a"
| "log_fields (Ev_UsageBackoff a c n r b) = backoff_fields a c n r b"
| "log_fields (Ev_UsageBackoffCleared a) = [(''acct'', a)]"
| "log_fields (Ev_ExhaustedSlowPoll a w) = [(''acct'', a), (''window_secs'', decimal w)]"
| "log_fields (Ev_ExhaustedSlowPollCleared a) = [(''acct'', a)]"
| "log_fields (Ev_NearLimitPollCoverage a s c) =
     [(''acct'', a), (''sub_interval_secs'', fmt_fixed 2 s), (''cap_secs'', decimal c)]"
| "log_fields (Ev_UsageVelocity a s w e) = velocity_fields a s w e"
| "log_fields (Ev_BlindWindow a d s r n v h) = blind_window_fields a d s r n v h"
| "log_fields (Ev_BlindEnter a s w x n) = blind_enter_fields a s w x n"
| "log_fields (Ev_BlindExit a d s sr w wr x y n) = blind_exit_fields a d s sr w wr x y n"
| "log_fields (Ev_BlindGateEligible a v b s) =
     [(''acct'', a), (''viable_target'', show_bool v), (''blind_secs'', decimal b), (''session_pct'', decimal s)]"
| "log_fields (Ev_BlindPreemptReserveHold a r b) =
     [(''acct'', a), (''retry_after_secs'', decimal r), (''blind_secs'', decimal b)]"
| "log_fields (Ev_RetryAfterWalk a n w r) =
     [(''acct'', a), (''swaps'', decimal n), (''window_secs'', decimal w), (''retry_after_secs'', decimal r)]"
| "log_fields (Ev_CredentialExpiryHorizon a s t h) =
     [(''acct'', a), (''state'', expiry_horizon_as_str s), (''expires_at'', rfc3339 t), (''horizon_secs'', decimal h)]"
| "log_fields (Ev_CredentialExpiryObserved a p b t g) = expiry_observed_fields a p b t g"
| "log_fields (Ev_ObservationGapEnter a e t x) =
     [(''acct'', a), (''elapsed_secs'', decimal e), (''threshold_secs'', decimal t), (''was_active'', show_bool x)]"
| "log_fields (Ev_ObservationGapExit a e x y) =
     [(''acct'', a), (''elapsed_secs'', decimal e), (''was_active'', show_bool x), (''swapped_away'', show_bool y)]"
| "log_fields (Ev_RosterReload out p n r) = reload_fields out p n r"
| "log_fields (Ev_Capture a out) = opt_field ''account'' id a @ [(''outcome'', capture_event_outcome_as_str out)]"
| "log_fields (Ev_Login a out) = opt_field ''account'' id a @ [(''outcome'', login_event_outcome_as_str out)]"
| "log_fields (Ev_Refresh a out b f r k) = refresh_fields a out b f r k"
| "log_fields (Ev_RefreshBinaryResolved path) = [(''path'', path_value path)]"
| "log_fields (Ev_PlaintextFallback act) = [(''action'', plaintext_fallback_action_as_str act)]"
| "log_fields (Ev_Export n enc m) =
     [(''accounts'', decimal n), (''encrypted'', show_bool enc), (''mode'', export_mode_as_str m)]"
| "log_fields (Ev_Import i s v f) = import_fields i s v f"
| "log_fields (Ev_DaemonBuild exe sz t) = build_fields exe sz t"

section \<open>The line\<close>

definition render_field :: "string \<times> string \<Rightarrow> string" where
  "render_field f = '' '' @ fst f @ ''='' @ snd f"

definition to_log_line :: "int \<Rightarrow> event \<Rightarrow> string" where
  "to_log_line ts e =
     single_line (''ts='' @ rfc3339 ts @ '' event='' @ event_name e @ concat (map render_field (log_fields e)))"

text \<open>\<open>EventLog::emit\<close> appends the line and a newline; the log is what was appended.\<close>

definition log_text :: "(int \<times> event) list \<Rightarrow> string" where
  "log_text es = concat (map (\<lambda>(ts, e). to_log_line ts e @ [CHR 0x0A]) es)"

end
