(* ===== verification/Log_Readers.thy ===== *)
theory Log_Readers
  imports Log_Line
begin

text \<open>
  The readers of the event log: \<open>last_swap_at\<close> and \<open>last_refresh_outcomes\<close> of \<open>src/observability.rs\<close>,
  which find an event by its position in the line, and \<open>parse_swap_events\<close> of \<open>src/usage_stats.rs\<close>,
  which splits a line at white space. What they read is compared with what \<open>to_log_line\<close> wrote.
\<close>

section \<open>Splitting text\<close>

text \<open>\<open>str::lines\<close>\<close>

definition strip_cr :: "string \<Rightarrow> string" where
  "strip_cr l = (case strip_suffix [CHR 0x0D] l of Some l' \<Rightarrow> l' | None \<Rightarrow> l)"

definition rust_lines :: "string \<Rightarrow> string list" where
  "rust_lines s =
     (let ps = split_char (CHR 0x0A) s
      in map strip_cr (butlast ps) @ (if last ps = [] then [] else [last ps]))"

text \<open>\<open>line.splitn(3, ' ')\<close>\<close>

definition splitn3 :: "char \<Rightarrow> string \<Rightarrow> string list" where
  "splitn3 sep s =
     (case split_once sep s of
        None \<Rightarrow> [s]
      | Some (a, r) \<Rightarrow> (case split_once sep r of None \<Rightarrow> [a, r] | Some (b, r') \<Rightarrow> [a, b, r']))"

text \<open>\<open>str::rsplit_once\<close>, at the last occurrence.\<close>

fun rsplit_once :: "string \<Rightarrow> string \<Rightarrow> (string \<times> string) option" where
  "rsplit_once p [] = (if p = [] then Some ([], []) else None)"
| "rsplit_once p (c # cs) =
     (case rsplit_once p cs of
        Some (a, b) \<Rightarrow> Some (c # a, b)
      | None \<Rightarrow> map_option (\<lambda>b. ([], b)) (strip_prefix p (c # cs)))"

text \<open>\<open>str::split_whitespace\<close>: the maximal runs of characters that are not white space.\<close>

fun white_runs :: "string list \<Rightarrow> string list" where
  "white_runs [] = [[]]"
| "white_runs (ch # chs) =
     (if is_whitespace ch then [] # white_runs chs
      else case white_runs chs of w # ws \<Rightarrow> (ch @ w) # ws | [] \<Rightarrow> [ch])"

definition split_whitespace :: "string \<Rightarrow> string list" where
  "split_whitespace s = filter (\<lambda>w. w \<noteq> []) (white_runs (utf8_chars s))"

section \<open>The readers\<close>

definition is_swap_line :: "string \<Rightarrow> bool" where
  "is_swap_line line \<longleftrightarrow>
     (case split_char (CHR '' '') line of
        _ # e # _ \<Rightarrow> e = ''event=swap'' \<or> e = ''event=emergency_swap''
      | _ \<Rightarrow> False)"

text \<open>The text is absent when the file cannot be read.\<close>

definition last_swap_at :: "string option \<Rightarrow> int option" where
  "last_swap_at contents =
     Option.bind contents (\<lambda>text0.
     Option.bind (find is_swap_line (rev (rust_lines text0))) (\<lambda>line.
     Option.bind (strip_prefix ''ts='' line) (\<lambda>rest.
     Option.bind (epoch_from_rfc3339 (hd (split_char (CHR '' '') rest))) (\<lambda>epoch.
       if epoch \<ge> 0 then Some epoch else None))))"

definition refresh_outcome_of :: "string \<Rightarrow> (string \<times> refresh_event_outcome_kind) option" where
  "refresh_outcome_of line =
     (case splitn3 (CHR '' '') line of
        _ # e # third \<Rightarrow>
          if e \<noteq> ''event=refresh'' then None
          else (case third of
            [] \<Rightarrow> None
          | r # _ \<Rightarrow>
              Option.bind (strip_prefix ''account='' r) (\<lambda>rest.
              Option.bind (rsplit_once '' outcome='' rest) (\<lambda>(handle, after).
              Option.bind (refresh_kind_from_token (hd (split_char (CHR '' '') after))) (\<lambda>k. Some (handle, k)))))
      | _ \<Rightarrow> None)"

definition last_refresh_outcomes :: "string option \<Rightarrow> string \<rightharpoonup> refresh_event_outcome_kind" where
  "last_refresh_outcomes contents =
     (case contents of
        None \<Rightarrow> Map.empty
      | Some text0 \<Rightarrow>
          fold (\<lambda>line m. case refresh_outcome_of line of None \<Rightarrow> m | Some (h, k) \<Rightarrow> m(h \<mapsto> k))
            (rust_lines text0) Map.empty)"

datatype swap_kind = SK_Session | SK_Weekly | SK_Manual | SK_Forced | SK_Emergency | SK_Preempt

record swap_event =
  se_ts :: int
  se_from :: string
  se_to :: string
  se_kind :: swap_kind

definition line_fields :: "string \<Rightarrow> string \<rightharpoonup> string" where
  "line_fields line =
     fold (\<lambda>token m. case split_once (CHR ''='') token of Some (k, v) \<Rightarrow> m(k \<mapsto> v) | None \<Rightarrow> m)
       (split_whitespace line) Map.empty"

definition reason_kind :: "string option \<Rightarrow> swap_kind option" where
  "reason_kind r =
     (case r of
        None \<Rightarrow> None
      | Some v \<Rightarrow>
          if v = ''session'' then Some SK_Session
          else if v = ''weekly'' then Some SK_Weekly
          else if v = ''manual'' then Some SK_Manual
          else if v = ''forced'' then Some SK_Forced
          else if v = ''blind_preempt'' then Some SK_Preempt
          else if v = ''velocity_preempt'' then Some SK_Preempt
          else None)"

definition swap_event_of :: "(string \<rightharpoonup> string) \<Rightarrow> swap_event option" where
  "swap_event_of f =
     Option.bind (if f ''event'' = Some ''swap'' then reason_kind (f ''reason'')
                  else if f ''event'' = Some ''emergency_swap'' then Some SK_Emergency else None) (\<lambda>kind.
     (case (f ''ts'', f ''from'', f ''to'') of
        (Some ts_raw, Some fr, Some t) \<Rightarrow>
          Option.bind (epoch_from_rfc3339 ts_raw) (\<lambda>ts. Some \<lparr>se_ts = ts, se_from = fr, se_to = t, se_kind = kind\<rparr>)
      | _ \<Rightarrow> None))"

definition parse_swap_events :: "string \<Rightarrow> swap_event list" where
  "parse_swap_events text0 = List.map_filter (\<lambda>line. swap_event_of (line_fields line)) (rust_lines text0)"

section \<open>Characters of appended strings\<close>

lemma utf8_chars_concat: "concat (utf8_chars s) = s"
proof (induction s rule: utf8_chars.induct)
  case (2 c cs)
  let ?tl = "take (announced c) (takeWhile cont_byte cs)"
  have "?tl @ (drop (announced c) (takeWhile cont_byte cs) @ dropWhile cont_byte cs) = cs"
    by (metis append.assoc append_take_drop_id takeWhile_dropWhile_id)
  then have "?tl @ drop (length ?tl) cs = cs" by (metis append_eq_conv_conj)
  then show ?case using 2 by (simp add: Let_def)
qed simp

lemma takeWhile_append_stop: "b = [] \<or> \<not> P (hd b) \<Longrightarrow> takeWhile P (a @ b) = takeWhile P a"
  by (induction a) (cases b; auto)+

lemma utf8_chars_append:
  assumes "b = [] \<or> \<not> cont_byte (hd b)"
  shows "utf8_chars (a @ b) = utf8_chars a @ utf8_chars b"
proof (induction a rule: utf8_chars.induct)
  case (2 c cs)
  have t: "takeWhile cont_byte (cs @ b) = takeWhile cont_byte cs"
    using assms by (rule takeWhile_append_stop)
  let ?tl = "take (announced c) (takeWhile cont_byte cs)"
  have "length ?tl \<le> length cs" using length_takeWhile_le [of cont_byte cs] by simp
  then show ?case using 2 t by (simp add: Let_def)
qed simp

section \<open>A line is one line\<close>

definition ascii_text :: "string \<Rightarrow> bool" where
  "ascii_text s \<longleftrightarrow> (\<forall>c \<in> set s. 32 \<le> (of_char c :: nat) \<and> of_char c < (127 :: nat))"

lemma ascii_text_Nil [simp]: "ascii_text []"
  by (simp add: ascii_text_def)

lemma ascii_text_Cons [simp]:
  "ascii_text (c # s) \<longleftrightarrow> 32 \<le> (of_char c :: nat) \<and> of_char c < (127 :: nat) \<and> ascii_text s"
  by (simp add: ascii_text_def)

lemma ascii_text_append [simp]: "ascii_text (a @ b) \<longleftrightarrow> ascii_text a \<and> ascii_text b"
  by (auto simp: ascii_text_def)

lemma utf8_chars_low: "\<forall>c \<in> set s. of_char c < (128 :: nat) \<Longrightarrow> utf8_chars s = map (\<lambda>c. [c]) s"
  by (induction s) (simp_all add: announced_def Let_def)

lemma utf8_chars_ascii: "ascii_text s \<Longrightarrow> utf8_chars s = map (\<lambda>c. [c]) s"
  by (rule utf8_chars_low) (auto simp: ascii_text_def)

lemma encode_append:
  "b = [] \<or> \<not> cont_byte (hd b) \<Longrightarrow> percent_encode f (a @ b) = percent_encode f a @ percent_encode f b"
  by (simp add: percent_encode_def utf8_chars_append)

lemma encode_ascii: "ascii_text s \<Longrightarrow> percent_encode is_control s = s"
  unfolding percent_encode_def by (simp add: utf8_chars_ascii)
    (induction s; auto simp: ascii_text_def is_control_def Let_def)

lemma hd_space: "\<not> cont_byte (CHR '' '')" "announced (CHR '' '') = 0"
  by code_simp+

lemma encode_space: "percent_encode is_control (CHR '' '' # s) = CHR '' '' # percent_encode is_control s"
  by (simp add: percent_encode_def hd_space is_control_def)

text \<open>A control-free prefix of a line is kept as it is.\<close>

lemma single_line_prefix:
  assumes "ascii_text p" "f = [] \<or> hd f = CHR '' ''"
  obtains f' where "single_line (p @ f) = p @ f'" "f' = [] \<or> hd f' = CHR '' ''"
proof (cases "\<exists>ch \<in> set (utf8_chars (p @ f)). is_control ch")
  case False
  then have "single_line (p @ f) = p @ f" by (simp add: single_line_def)
  then show ?thesis using that assms(2) by blast
next
  case True
  then have "single_line (p @ f) = percent_encode is_control (p @ f)" by (simp add: single_line_def)
  also have "\<dots> = p @ percent_encode is_control f"
    using assms hd_space(1) by (subst encode_append) (auto simp: encode_ascii)
  finally have "single_line (p @ f) = p @ percent_encode is_control f" .
  moreover have "percent_encode is_control f = [] \<or> hd (percent_encode is_control f) = CHR '' ''"
    using assms(2) by (cases f) (auto simp: percent_encode_def hd_space is_control_def)
  ultimately show ?thesis by (rule that)
qed

lemma single_line_plain: "\<forall>ch \<in> set (utf8_chars s). \<not> is_control ch \<Longrightarrow> single_line s = s"
  by (auto simp: single_line_def)

lemma utf8_char_tail: "ch \<in> set (utf8_chars s) \<Longrightarrow> \<exists>c tl. ch = c # tl \<and> (tl = [] \<or> 0 < announced c) \<and> (\<forall>x \<in> set tl. cont_byte x)"
proof (induction s rule: utf8_chars.induct)
  case (2 c cs)
  let ?tl = "take (announced c) (takeWhile cont_byte cs)"
  have "\<forall>x \<in> set ?tl. cont_byte x" by (metis in_set_takeD set_takeWhileD)
  then show ?case using 2 by (auto simp: Let_def)
qed simp

lemma percent_byte_ascii: "ascii_text (percent_byte c)"
proof -
  have h: "ascii_text [upper_hex n]" if "n < 16" for n
    using that by (auto simp: ascii_text_def upper_hex_def)
  have "(of_char c :: nat) < 256" by (rule nat_of_char_less_256)
  then have "(of_char c :: nat) div 16 < 16" "(of_char c :: nat) mod 16 < 16" by (simp_all add: div_less_iff_less_mult)
  then show ?thesis using h unfolding percent_byte_def Let_def by (auto simp: ascii_text_def)
qed

lemma single_line_no_control:
  assumes "c \<in> set (single_line s)"
  shows "32 \<le> (of_char c :: nat) \<and> of_char c \<noteq> (127 :: nat)"
proof -
  have char: "32 \<le> (of_char c :: nat) \<and> of_char c \<noteq> (127 :: nat)"
    if "ch \<in> set (utf8_chars s)" "\<not> is_control ch" "c \<in> set ch" for ch
  proof -
    from utf8_char_tail [OF that(1)] obtain d tl where d: "ch = d # tl" "tl = [] \<or> 0 < announced d" "\<forall>x \<in> set tl. cont_byte x"
      by blast
    show ?thesis
    proof (cases "c = d \<and> tl = []")
      case True
      then show ?thesis using that(2) d(1) by (auto simp: is_control_def Let_def)
    next
      case False
      then have "cont_byte c \<or> (c = d \<and> 0 < announced d)" using that(3) d by auto
      then show ?thesis by (auto simp: cont_byte_def announced_def Let_def split: if_splits)
    qed
  qed
  show ?thesis
  proof (cases "\<exists>ch \<in> set (utf8_chars s). is_control ch")
    case False
    then have "c \<in> set (concat (utf8_chars s))" using assms by (simp add: single_line_def utf8_chars_concat)
    then obtain ch where "ch \<in> set (utf8_chars s)" "c \<in> set ch" unfolding set_concat by blast
    then show ?thesis using char False by blast
  next
    case True
    then have "c \<in> set (percent_encode is_control s)" using assms by (simp add: single_line_def)
    then obtain ch where ch: "ch \<in> set (utf8_chars s)"
      "c \<in> set (if is_control ch then concat (map percent_byte ch) else ch)"
      unfolding percent_encode_def set_concat set_map by blast
    show ?thesis
    proof (cases "is_control ch")
      case True
      then obtain x where "c \<in> set (percent_byte x)" using ch(2) by auto
      then show ?thesis using percent_byte_ascii [of x] by (auto simp: ascii_text_def)
    qed (use ch char in auto)
  qed
qed

lemma utf8_chars_prefix: "ascii_text p \<Longrightarrow> utf8_chars (p @ s) = map (\<lambda>c. [c]) p @ utf8_chars s"
  by (induction p) (simp_all add: ascii_text_def announced_def Let_def)

lemma log_line_char:
  "c \<in> set (to_log_line ts e) \<Longrightarrow> 32 \<le> (of_char c :: nat) \<and> of_char c \<noteq> (127 :: nat)"
  unfolding to_log_line_def by (rule single_line_no_control)

lemma split_char_lines:
  "\<forall>l \<in> set ls. sep \<notin> set l \<Longrightarrow> split_char sep (concat (map (\<lambda>l. l @ [sep]) ls)) = ls @ [[]]"
  by (induction ls) (auto simp: split_char_at)

lemma strip_cr_id: "CHR 0x0D \<notin> set l \<Longrightarrow> strip_cr l = l"
  by (auto simp: strip_cr_def split: option.split dest!: strip_suffixD)

lemma rust_lines_log: "rust_lines (log_text es) = map (\<lambda>(ts, e). to_log_line ts e) es"
proof -
  let ?ls = "map (\<lambda>(ts, e). to_log_line ts e) es"
  have c: "CHR 0x0A \<notin> set l \<and> CHR 0x0D \<notin> set l" if "l \<in> set ?ls" for l
    using that log_line_char by fastforce
  have "log_text es = concat (map (\<lambda>l. l @ [CHR 0x0A]) ?ls)"
    by (simp add: log_text_def comp_def case_prod_unfold)
  moreover have "\<forall>l \<in> set ?ls. CHR 0x0A \<notin> set l" using c by blast
  ultimately have "split_char (CHR 0x0A) (log_text es) = ?ls @ [[]]" by (simp only: split_char_lines)
  moreover have "map strip_cr ?ls = ?ls" using c by (intro map_idI strip_cr_id) blast
  ultimately show ?thesis by (simp only: rust_lines_def Let_def butlast_snoc last_snoc refl if_True append_Nil2)
qed

text \<open>
  C35: every event is one line of the log: split into lines, the log gives back the line of each event, in order,
  whatever line breaks, carriage returns or other control characters the labels and paths in the events hold.
\<close>

theorem one_line_per_event: "rust_lines (log_text es) = map (\<lambda>(ts, e). to_log_line ts e) es"
  by (rule rust_lines_log)

section \<open>The first two fields\<close>

lemma digit_char_ascii: "d < 10 \<Longrightarrow> ascii_text [digit_char d] \<and> digit_char d \<noteq> CHR '' ''"
proof -
  assume d: "d < 10"
  have n: "of_char (digit_char d) = 48 + d" using d by (simp add: digit_char_def)
  then have "digit_char d \<noteq> CHR '' ''" by auto
  with n d show ?thesis by (simp add: ascii_text_def)
qed

lemma zero_padded_ascii: "ascii_text (zero_padded w n)" "CHR '' '' \<notin> set (zero_padded w n)"
proof -
  have c: "ascii_text [c] \<and> c \<noteq> CHR '' ''" if "c \<in> set (zero_padded w n)" for c
  proof -
    from that zero_padded_digits [of w n] obtain d where "d < 10" "c = digit_char d" by auto
    then show ?thesis using digit_char_ascii by simp
  qed
  then show "ascii_text (zero_padded w n)" by (auto simp: ascii_text_def)
  show "CHR '' '' \<notin> set (zero_padded w n)" using c by blast
qed

lemma rfc3339_ascii: "ascii_text (rfc3339 ts)" "CHR '' '' \<notin> set (rfc3339 ts)"
proof -
  obtain y m d where c: "civil_from_days (max 0 ts div 86400) = (y, m, d)" by (rule prod_cases3)
  obtain h mi s where r: "rfc3339 ts = zero_padded 4 (nat y) @ ''-'' @ zero_padded 2 m @ ''-'' @ zero_padded 2 d @ ''T'' @
      zero_padded 2 h @ '':'' @ zero_padded 2 mi @ '':'' @ zero_padded 2 s @ ''Z''"
    unfolding rfc3339_def Let_def c prod.case by blast
  show "ascii_text (rfc3339 ts)" "CHR '' '' \<notin> set (rfc3339 ts)"
    unfolding r by (simp_all add: zero_padded_ascii)
qed

definition EVENT_NAMES :: "string list" where
  "EVENT_NAMES =
     [''swap'', ''restash'', ''all_exhausted'', ''all_exhausted_cleared'', ''active_dead_no_target'',
      ''active_dead_no_target_cleared'', ''fleet_runway_low'', ''fleet_runway_recovered'', ''monitor_401'',
      ''credential_dead'', ''emergency_swap'', ''credential_restored'', ''canonical_scrubbed'',
      ''canonical_restored'', ''canonical_recovered'', ''canonical_recovery_exhausted'', ''canary_drift'',
      ''canary_unparseable_canonical'', ''canary_online_probe'', ''canary_ambiguous'', ''canary_cleared'',
      ''credential_unrecoverable'', ''keychain_locked_wait'', ''usage_scope_fail'', ''poll_refresh'',
      ''keep_warm'', ''refresh_systemic_failure'', ''refresh_systemic_recovered'',
      ''refresh_preflight_unresolved'', ''credential_health'', ''usage_rollup'', ''usage_gap'',
      ''uncaptured_login'', ''usage_backoff'', ''usage_backoff_cleared'', ''exhausted_slow_poll'',
      ''exhausted_slow_poll_cleared'', ''near_limit_poll_coverage'', ''usage_velocity'', ''blind_window'',
      ''blind_enter'', ''blind_exit'', ''blind_gate_eligible'', ''blind_preempt_reserve_hold'',
      ''retry_after_walk'', ''credential_expiry_horizon'', ''credential_expiry_observed'',
      ''observation_gap_enter'', ''observation_gap_exit'', ''roster_reload'', ''capture'', ''login'',
      ''refresh'', ''refresh_binary_resolved'', ''plaintext_fallback'', ''export'', ''import'',
      ''daemon_build'']"

lemma event_name_in: "event_name e \<in> set EVENT_NAMES"
  by (cases e) (simp_all add: EVENT_NAMES_def)

lemma event_names_ascii:
  "\<forall>s \<in> set EVENT_NAMES. ascii_text s \<and> CHR '' '' \<notin> set s \<and> CHR ''='' \<notin> set s"
  by code_simp

lemma event_name_ascii: "ascii_text (event_name e)" "CHR '' '' \<notin> set (event_name e)" "CHR ''='' \<notin> set (event_name e)"
  using event_name_in event_names_ascii by blast+

definition head_text :: "int \<Rightarrow> event \<Rightarrow> string" where
  "head_text ts e = ''ts='' @ rfc3339 ts @ '' event='' @ event_name e"

lemma head_text_ascii: "ascii_text (head_text ts e)"
  by (simp add: head_text_def rfc3339_ascii event_name_ascii)

lemma fields_start: "concat (map render_field fs) = [] \<or> hd (concat (map render_field fs)) = CHR '' ''"
  by (cases fs) (simp_all add: render_field_def)

lemma log_line_head:
  obtains f where "to_log_line ts e = head_text ts e @ f" "f = [] \<or> hd f = CHR '' ''"
proof -
  have "to_log_line ts e = single_line (head_text ts e @ concat (map render_field (log_fields e)))"
    by (simp add: to_log_line_def head_text_def)
  with single_line_prefix [OF head_text_ascii fields_start] that show ?thesis by metis
qed

lemma split_char_head:
  assumes "f = [] \<or> hd f = sep" "sep \<notin> set a"
  obtains r where "split_char sep (a @ f) = a # r"
  using assms by (cases f) (auto simp: split_char_one split_char_at)

lemma log_line_split:
  obtains r where "split_char (CHR '' '') (to_log_line ts e) = (''ts='' @ rfc3339 ts) # (''event='' @ event_name e) # r"
proof -
  obtain f where f: "to_log_line ts e = head_text ts e @ f" "f = [] \<or> hd f = CHR '' ''" by (rule log_line_head)
  have a: "CHR '' '' \<notin> set (''ts='' @ rfc3339 ts)" and b: "CHR '' '' \<notin> set (''event='' @ event_name e)"
    using rfc3339_ascii event_name_ascii by auto
  have "to_log_line ts e = (''ts='' @ rfc3339 ts) @ CHR '' '' # (''event='' @ event_name e) @ f"
    by (simp add: f(1) head_text_def)
  then have "split_char (CHR '' '') (to_log_line ts e)
      = (''ts='' @ rfc3339 ts) # split_char (CHR '' '') ((''event='' @ event_name e) @ f)"
    by (simp only: split_char_at [OF a])
  moreover obtain r where "split_char (CHR '' '') ((''event='' @ event_name e) @ f) = (''event='' @ event_name e) # r"
    using split_char_head [OF f(2) b] .
  ultimately show ?thesis using that by simp
qed

section \<open>The last swap\<close>

definition is_swap_event :: "event \<Rightarrow> bool" where
  "is_swap_event e \<longleftrightarrow> (\<exists>f t r p j. e = Ev_Swap f t r p j) \<or> (\<exists>f t. e = Ev_EmergencySwap f t)"

lemma is_swap_event_name: "is_swap_event e \<longleftrightarrow> event_name e = ''swap'' \<or> event_name e = ''emergency_swap''"
  by (cases e) (simp_all add: is_swap_event_def)

lemma is_swap_line_log: "is_swap_line (to_log_line ts e) \<longleftrightarrow> is_swap_event e"
proof -
  obtain r where "split_char (CHR '' '') (to_log_line ts e) = (''ts='' @ rfc3339 ts) # (''event='' @ event_name e) # r"
    by (rule log_line_split)
  then show ?thesis by (simp add: is_swap_line_def is_swap_event_name)
qed

lemma find_map: "find P (map f xs) = map_option f (find (P \<circ> f) xs)"
  by (induction xs) auto

lemma stamp_of_line:
  assumes "0 \<le> ts" "ts < YEAR_10000"
  shows "Option.bind (strip_prefix ''ts='' (to_log_line ts e)) (\<lambda>rest.
     Option.bind (epoch_from_rfc3339 (hd (split_char (CHR '' '') rest))) (\<lambda>epoch.
       if epoch \<ge> 0 then Some epoch else None)) = Some ts"
proof -
  obtain f where f: "to_log_line ts e = head_text ts e @ f" by (rule log_line_head) blast
  have s: "strip_prefix ''ts='' (to_log_line ts e) = Some (rfc3339 ts @ CHR '' '' # ''event='' @ event_name e @ f)"
    by (simp add: f head_text_def strip_prefix_def)
  have h: "hd (split_char (CHR '' '') (rfc3339 ts @ CHR '' '' # ''event='' @ event_name e @ f)) = rfc3339 ts"
    by (simp only: split_char_at [OF rfc3339_ascii(2)] list.sel)
  show ?thesis using assms by (simp only: s bind.bind_lunit h rfc3339_read_back) simp
qed

text \<open>
  C36: the cool-down gate reads from the log exactly the instant of the last swap that was logged, normal or
  emergency, whatever text the labels of any event hold; a log without one answers none.
\<close>

theorem last_swap_read_back:
  assumes "\<forall>(ts, e) \<in> set es. 0 \<le> ts \<and> ts < YEAR_10000"
  shows "last_swap_at (Some (log_text es)) = map_option fst (find (\<lambda>(ts, e). is_swap_event e) (rev es))"
proof -
  let ?P = "\<lambda>(ts, e). is_swap_event e"
  have p: "is_swap_line \<circ> (\<lambda>(ts, e). to_log_line ts e) = ?P" by (auto simp: fun_eq_iff is_swap_line_log)
  have f: "find is_swap_line (rev (rust_lines (log_text es))) =
      map_option (\<lambda>(ts, e). to_log_line ts e) (find ?P (rev es))"
    by (simp add: rust_lines_log rev_map find_map p)
  show ?thesis
  proof (cases "find ?P (rev es)")
    case None
    then show ?thesis by (simp add: last_swap_at_def f)
  next
    case (Some x)
    obtain ts e where x: "x = (ts, e)" by (cases x)
    have "x \<in> set es" using Some by (auto simp: find_Some_iff intro: nth_mem) (metis length_rev nth_mem set_rev)
    then have "0 \<le> ts" "ts < YEAR_10000" using assms x by auto
    from stamp_of_line [OF this, of e] show ?thesis
      by (simp only: last_swap_at_def bind.bind_lunit f Some x option.map prod.case fst_conv)
  qed
qed

theorem last_swap_read_back_witness:
  "last_swap_at (Some (log_text [(40, Ev_EmergencySwap ''a'' ''b''), (90, Ev_Monitor401 ''a event=swap c'' 1)])) = Some 40"
  using last_swap_read_back [of "[(40, Ev_EmergencySwap ''a'' ''b''), (90, Ev_Monitor401 ''a event=swap c'' 1)]"]
  by (simp add: YEAR_10000_def is_swap_event_def)

end
