(* ===== verification/Log_Fields.thy ===== *)
theory Log_Fields
  imports Log_Readers
begin

text \<open>
  The log readers that look at the fields of a line. \<open>last_refresh_outcomes\<close> finds the account of a refresh
  line between \<open>account=\<close> and the last \<open>outcome=\<close>, so it reads every handle back whole;
  \<open>parse_swap_events\<close> splits the line at white space and keeps the last value of a key, so it reads back what
  was logged only when no value has white space in it, and a label that has some can make it read a swap that
  never happened.
\<close>

section \<open>Lines without control characters\<close>

definition control_free :: "string \<Rightarrow> bool" where
  "control_free s \<longleftrightarrow> (\<forall>ch \<in> set (utf8_chars s). \<not> is_control ch)"

lemma control_free_prefix: "ascii_text p \<Longrightarrow> control_free (p @ s) \<longleftrightarrow> control_free s"
proof -
  assume p: "ascii_text p"
  then have "\<not> is_control [c]" if "c \<in> set p" for c
    using that by (auto simp: ascii_text_def is_control_def Let_def)
  then show ?thesis using p by (auto simp: control_free_def utf8_chars_prefix)
qed

lemma control_free_ascii: "ascii_text p \<Longrightarrow> control_free p"
  using control_free_prefix [of p "[]"] by (simp add: control_free_def)

lemma control_free_append:
  "b = [] \<or> hd b = CHR '' '' \<Longrightarrow> control_free a \<Longrightarrow> control_free b \<Longrightarrow> control_free (a @ b)"
  using hd_space(1) by (auto simp: control_free_def utf8_chars_append)

lemma single_line_free: "control_free s \<Longrightarrow> single_line s = s"
  by (simp add: control_free_def single_line_plain)

definition key_text :: "string \<Rightarrow> bool" where
  "key_text k \<longleftrightarrow> ascii_text k \<and> CHR '' '' \<notin> set k \<and> CHR ''='' \<notin> set k \<and> k \<noteq> ''event'' \<and> k \<noteq> ''ts''"

lemma render_field_pair [simp]: "render_field (k, v) = CHR '' '' # k @ CHR ''='' # v"
  by (simp add: render_field_def)

lemma control_free_fields:
  "\<forall>(k, v) \<in> set fs. key_text k \<and> control_free v \<Longrightarrow> control_free (concat (map render_field fs))"
proof (induction fs)
  case (Cons f fs)
  obtain k v where f: "f = (k, v)" by (cases f)
  have k: "ascii_text ('' '' @ k @ ''='')" using Cons.prems f by (simp add: key_text_def)
  have "control_free (v @ concat (map render_field fs))"
    using Cons f fields_start by (intro control_free_append) auto
  then have "control_free (('' '' @ k @ ''='') @ v @ concat (map render_field fs))"
    by (simp only: control_free_prefix [OF k])
  then show ?case by (simp add: f)
qed (simp add: control_free_def)

lemma log_line_plain:
  assumes "\<forall>(k, v) \<in> set (log_fields e). key_text k \<and> control_free v"
  shows "to_log_line ts e = head_text ts e @ concat (map render_field (log_fields e))"
proof -
  have "control_free (head_text ts e @ concat (map render_field (log_fields e)))"
    using control_free_fields [OF assms] head_text_ascii by (simp add: control_free_prefix)
  from single_line_free [OF this] show ?thesis by (simp add: to_log_line_def head_text_def)
qed

section \<open>The refresh reader\<close>

lemma rsplit_once_skip:
  "CHR '' '' \<notin> set w \<Longrightarrow> rsplit_once (CHR '' '' # p) s = None \<Longrightarrow> rsplit_once (CHR '' '' # p) (w @ s) = None"
  by (induction w) (auto simp: strip_prefix_def split: option.split)

lemma key_not_prefix:
  assumes "CHR ''='' \<notin> set k" "CHR ''='' \<notin> set p" "k \<noteq> p"
  shows "strip_prefix (p @ [CHR ''='']) (k @ CHR ''='' # z) = None"
proof (rule ccontr)
  assume "strip_prefix (p @ [CHR ''='']) (k @ CHR ''='' # z) \<noteq> None"
  then obtain t where "k @ CHR ''='' # z = p @ CHR ''='' # t" by (auto dest!: strip_prefixD)
  then have "split_once (CHR ''='') (k @ CHR ''='' # z) = split_once (CHR ''='') (p @ CHR ''='' # t)" by simp
  then show False using assms by (simp add: split_once_at)
qed

lemma strip_prefix_Cons [simp]: "strip_prefix (c # p) (c # s) = strip_prefix p s"
  by (simp add: strip_prefix_def)

lemma rsplit_once_fields:
  assumes "\<forall>(k, v) \<in> set fs. key_text k \<and> CHR '' '' \<notin> set v \<and> k \<noteq> p" "CHR ''='' \<notin> set p"
  shows "rsplit_once (CHR '' '' # p @ [CHR ''='']) (concat (map render_field fs)) = None"
  using assms(1)
proof (induction fs)
  case (Cons f fs)
  let ?z = "concat (map render_field fs)"
  obtain k v where f: "f = (k, v)" by (cases f)
  have k: "key_text k" "CHR '' '' \<notin> set (k @ CHR ''='' # v)" "k \<noteq> p" using Cons.prems f by (auto simp: key_text_def)
  have "rsplit_once (CHR '' '' # p @ [CHR ''='']) ?z = None" using Cons by simp
  then have "rsplit_once (CHR '' '' # p @ [CHR ''='']) ((k @ CHR ''='' # v) @ ?z) = None"
    using k(2) by (intro rsplit_once_skip)
  moreover have "strip_prefix (p @ [CHR ''='']) (k @ CHR ''='' # v @ ?z) = None"
    using k assms(2) by (intro key_not_prefix) (auto simp: key_text_def)
  ultimately show ?case by (simp add: f)
qed simp

lemma rsplit_once_last:
  "rsplit_once (c # p) (p @ b) = None \<Longrightarrow> rsplit_once (c # p) (a @ c # p @ b) = Some (a, b)"
proof (induction a)
  case (Cons x a)
  then show ?case by simp
qed simp

definition plain_value :: "string \<Rightarrow> bool" where
  "plain_value v \<longleftrightarrow> ascii_text v \<and> CHR '' '' \<notin> set v"

lemma plain_decimal [simp]: "plain_value (decimal n)"
proof -
  have "ascii_text [c] \<and> c \<noteq> CHR '' ''" if "c \<in> set (decimal n)" for c
  proof -
    from that decimal_digits [of n] obtain d where "d < 10" "c = digit_char d" by auto
    then show ?thesis using digit_char_ascii by simp
  qed
  then show ?thesis by (auto simp: plain_value_def ascii_text_def)
qed

lemma plain_show_int [simp]: "plain_value (show_int n)"
  using plain_decimal [of "nat (- n)"] plain_decimal [of "nat n"] by (auto simp: show_int_def plain_value_def)

lemma plain_rfc3339 [simp]: "plain_value (rfc3339 t)"
  by (simp add: plain_value_def rfc3339_ascii)

lemma plain_bool [simp]: "plain_value (show_bool b)"
  by (simp add: plain_value_def show_bool_def)

lemma plain_reason [simp]: "plain_value (refresh_event_reason_as_str r)"
  by (cases r) (simp_all add: plain_value_def)

lemma plain_refresh_outcome [simp]: "plain_value (refresh_outcome_as_str out)"
  unfolding refresh_outcome_as_str_def by (cases "refresh_kind out") (simp_all add: plain_value_def)

lemma opt_field_set: "(k, v) \<in> set (opt_field key f x) \<longleftrightarrow> (\<exists>y. x = Some y \<and> k = key \<and> v = f y)"
  by (cases x) (auto simp: opt_field_def)

lemma refresh_fields_tail:
  obtains fs where
    "refresh_fields a out b f r k = (''account'', a) # (''outcome'', refresh_outcome_as_str out) # fs"
    "\<forall>(k, v) \<in> set fs. key_text k \<and> plain_value v \<and> k \<noteq> ''outcome''"
proof -
  let ?fs = "opt_field ''expires_before'' (\<lambda>ms. rfc3339 (ms_to_secs ms)) b @
     opt_field ''expires_after'' (\<lambda>ms. rfc3339 (ms_to_secs ms)) f @ rotated_field out @
     opt_field ''reason'' refresh_event_reason_as_str r @ opt_field ''backoff_secs'' decimal k @
     (case (b, f) of
        (Some before_ms, Some after_ms) \<Rightarrow> [(''window_secs'', show_int (ms_to_secs (after_ms - before_ms)))]
      | _ \<Rightarrow> [])"
  have "refresh_fields a out b f r k = (''account'', a) # (''outcome'', refresh_outcome_as_str out) # ?fs"
    by (simp add: refresh_fields_def)
  moreover have "\<forall>(k, v) \<in> set ?fs. key_text k \<and> plain_value v \<and> k \<noteq> ''outcome''"
    by (auto simp: opt_field_set rotated_field_def key_text_def split: option.splits)
  ultimately show ?thesis by (rule that)
qed

lemma control_free_plain: "plain_value v \<Longrightarrow> control_free v"
  by (simp add: plain_value_def control_free_ascii)

lemma splitn3_two: "CHR '' '' \<notin> set a \<Longrightarrow> CHR '' '' \<notin> set b \<Longrightarrow> splitn3 (CHR '' '') (a @ CHR '' '' # b @ CHR '' '' # c) = [a, b, c]"
  by (simp add: splitn3_def split_once_at)

lemma split_once_none: "sep \<notin> set a \<Longrightarrow> split_once sep a = None"
  by (induction a) auto

lemma splitn3_head:
  assumes "CHR '' '' \<notin> set a" "CHR '' '' \<notin> set b" "f = [] \<or> hd f = CHR '' ''"
  obtains r where "splitn3 (CHR '' '') (a @ CHR '' '' # b @ f) = a # b # r"
proof (cases f)
  case Nil
  then show ?thesis using assms that [of "[]"] by (simp add: splitn3_def split_once_at split_once_none)
next
  case (Cons x c)
  then show ?thesis using assms that [of "[c]"] by (simp add: splitn3_two)
qed

lemma head_parts: "CHR '' '' \<notin> set (''ts='' @ rfc3339 ts)" "CHR '' '' \<notin> set (''event='' @ event_name e)"
  using rfc3339_ascii event_name_ascii by auto

lemma other_lines: "event_name e \<noteq> ''refresh'' \<Longrightarrow> refresh_outcome_of (to_log_line ts e) = None"
proof -
  assume e: "event_name e \<noteq> ''refresh''"
  obtain f where f: "to_log_line ts e = head_text ts e @ f" "f = [] \<or> hd f = CHR '' ''" by (rule log_line_head)
  have l: "to_log_line ts e = (''ts='' @ rfc3339 ts) @ CHR '' '' # (''event='' @ event_name e) @ f"
    by (simp add: f(1) head_text_def)
  obtain r where "splitn3 (CHR '' '') (to_log_line ts e) = (''ts='' @ rfc3339 ts) # (''event='' @ event_name e) # r"
    unfolding l by (rule splitn3_head [OF head_parts f(2)])
  then show ?thesis using e by (simp add: refresh_outcome_of_def)
qed

lemma refresh_line:
  assumes "control_free a"
  shows "refresh_outcome_of (to_log_line ts (Ev_Refresh a out b f r k)) = Some (a, refresh_kind out)"
proof -
  let ?e = "Ev_Refresh a out b f r k" and ?tok = "refresh_outcome_as_str out"
  obtain fs where fs: "log_fields ?e = (''account'', a) # (''outcome'', ?tok) # fs"
      "\<forall>(k, v) \<in> set fs. key_text k \<and> plain_value v \<and> k \<noteq> ''outcome''"
    using refresh_fields_tail [of a out b f r k] by auto
  let ?z = "concat (map render_field fs)"
  have k: "key_text ''account''" "key_text ''outcome''" by (simp_all add: key_text_def)
  have "\<forall>(k, v) \<in> set (log_fields ?e). key_text k \<and> control_free v"
    unfolding fs(1) using fs(2) assms k control_free_plain by auto
  from log_line_plain [OF this]
  have "to_log_line ts ?e = (''ts='' @ rfc3339 ts) @ CHR '' '' # ''event=refresh'' @ CHR '' '' #
      (''account='' @ a @ '' outcome='' @ ?tok @ ?z)"
    unfolding fs(1) by (simp add: head_text_def)
  then have s: "splitn3 (CHR '' '') (to_log_line ts ?e) =
      [''ts='' @ rfc3339 ts, ''event=refresh'', ''account='' @ a @ '' outcome='' @ ?tok @ ?z]"
    using splitn3_two [OF head_parts(1) [of ts], of "''event=refresh''"] by simp
  have "rsplit_once '' outcome='' ?z = None"
    using rsplit_once_fields [of fs "''outcome''"] fs(2) by (auto simp: plain_value_def)
  then have "rsplit_once '' outcome='' ((''outcome='' @ ?tok) @ ?z) = None"
    using plain_refresh_outcome [of out] by (intro rsplit_once_skip) (auto simp: plain_value_def)
  then have o: "rsplit_once '' outcome='' (a @ '' outcome='' @ ?tok @ ?z) = Some (a, ?tok @ ?z)"
    using rsplit_once_last [of "CHR '' ''" "''outcome=''" "?tok @ ?z" a] by simp
  obtain y where y: "split_char (CHR '' '') (?tok @ ?z) = ?tok # y"
    using split_char_head [OF fields_start [of fs]] plain_refresh_outcome [of out] by (metis plain_value_def)
  have "strip_prefix ''account='' (''account='' @ a @ '' outcome='' @ ?tok @ ?z) = Some (a @ '' outcome='' @ ?tok @ ?z)"
    by (rule strip_prefix_append)
  moreover have "refresh_kind_from_token ?tok = Some (refresh_kind out)"
    by (simp add: refresh_outcome_as_str_def)
  ultimately show ?thesis
    unfolding refresh_outcome_of_def s
    by (simp only: list.case refl not_True_eq_False if_False bind.bind_lunit o prod.case y list.sel)
qed

text \<open>What a refresh event says of its account.\<close>

definition refresh_of_event :: "event \<Rightarrow> (string \<times> refresh_event_outcome_kind) option" where
  "refresh_of_event e = (case e of Ev_Refresh a out b f r k \<Rightarrow> Some (a, refresh_kind out) | _ \<Rightarrow> None)"

text \<open>The newest refresh outcome of every account, from the events themselves.\<close>

definition logged_outcomes :: "(int \<times> event) list \<Rightarrow> string \<rightharpoonup> refresh_event_outcome_kind" where
  "logged_outcomes es =
     fold (\<lambda>(ts, e) m. case refresh_of_event e of None \<Rightarrow> m | Some (h, k) \<Rightarrow> m(h \<mapsto> k)) es Map.empty"

lemma refresh_of_line:
  assumes "case refresh_of_event e of Some (a, _) \<Rightarrow> control_free a | None \<Rightarrow> True"
  shows "refresh_outcome_of (to_log_line ts e) = refresh_of_event e"
proof (cases "\<exists>a out b f r k. e = Ev_Refresh a out b f r k")
  case True
  then show ?thesis using assms by (auto simp: refresh_of_event_def refresh_line)
next
  case False
  then have "event_name e \<noteq> ''refresh'' \<and> refresh_of_event e = None"
    by (cases e) (simp_all add: refresh_of_event_def)
  then show ?thesis by (simp add: other_lines)
qed

text \<open>
  C37: the offline list reads back, for every account, the newest refresh outcome that was logged for it and
  nothing else, even when a handle holds spaces, equals signs or the text of a field: only control characters,
  which the writer escapes, are excluded, and only in the handles of refresh events.
\<close>

theorem refresh_outcomes_read_back:
  assumes "\<forall>(ts, e) \<in> set es. case refresh_of_event e of Some (a, _) \<Rightarrow> control_free a | None \<Rightarrow> True"
  shows "last_refresh_outcomes (Some (log_text es)) = logged_outcomes es"
proof -
  let ?upd = "\<lambda>x m. case x of None \<Rightarrow> m | Some (h, k) \<Rightarrow> m(h \<mapsto> k)"
  have "fold (\<lambda>line m. ?upd (refresh_outcome_of line) m) (map (\<lambda>(ts, e). to_log_line ts e) es) m =
      fold (\<lambda>(ts, e) m. ?upd (refresh_of_event e) m) es m" for m
    using assms
  proof (induction es arbitrary: m)
    case (Cons x es)
    obtain ts e where x: "x = (ts, e)" by (cases x)
    have "refresh_outcome_of (to_log_line ts e) = refresh_of_event e"
      using Cons.prems x by (intro refresh_of_line) simp
    then show ?case using Cons by (simp add: x)
  qed simp
  then show ?thesis by (simp only: last_refresh_outcomes_def option.case rust_lines_log logged_outcomes_def)
qed

theorem refresh_outcomes_read_back_witness:
  "last_refresh_outcomes (Some (log_text
     [(40, Ev_Refresh ''my work outcome=refreshed x'' REO_Dead None None None None),
      (50, Ev_ReStash ''my work event=refresh'')])) = [''my work outcome=refreshed x'' \<mapsto> REK_Dead]"
  using refresh_outcomes_read_back [of "[(40, Ev_Refresh ''my work outcome=refreshed x'' REO_Dead None None None None),
      (50, Ev_ReStash ''my work event=refresh'')]"]
  by (simp add: refresh_of_event_def control_free_ascii logged_outcomes_def)

section \<open>The swap parser\<close>

definition white_free :: "string \<Rightarrow> bool" where
  "white_free s \<longleftrightarrow> (\<forall>ch \<in> set (utf8_chars s). \<not> is_control ch \<and> \<not> is_whitespace ch)"

lemma ascii_char_white: "ascii_text [c] \<Longrightarrow> c \<noteq> CHR '' '' \<Longrightarrow> \<not> is_control [c] \<and> \<not> is_whitespace [c]"
  by (auto simp: is_control_def is_whitespace_def white_space_def Let_def)

lemma white_free_prefix:
  assumes "ascii_text p" "CHR '' '' \<notin> set p"
  shows "white_free (p @ s) \<longleftrightarrow> white_free s"
proof -
  have "\<not> is_control [c] \<and> \<not> is_whitespace [c]" if "c \<in> set p" for c
    using that assms by (intro ascii_char_white) (auto simp: ascii_text_def)
  then show ?thesis using assms by (auto simp: white_free_def utf8_chars_prefix)
qed

lemma white_free_plain: "plain_value v \<Longrightarrow> white_free v"
  using white_free_prefix [of v "[]"] by (simp add: plain_value_def white_free_def)

lemma white_free_control: "white_free v \<Longrightarrow> control_free v"
  by (simp add: white_free_def control_free_def)

lemma white_runs_at:
  "\<forall>ch \<in> set chs. \<not> is_whitespace ch \<Longrightarrow> is_whitespace sp \<Longrightarrow> white_runs (chs @ sp # rest) = concat chs # white_runs rest"
  by (induction chs) auto

lemma white_runs_one: "\<forall>ch \<in> set chs. \<not> is_whitespace ch \<Longrightarrow> white_runs chs = [concat chs]"
  by (induction chs) auto

lemma is_whitespace_space: "is_whitespace [CHR '' '']"
  by (simp add: is_whitespace_def white_space_def)

lemma utf8_chars_space: "utf8_chars (CHR '' '' # s) = [CHR '' ''] # utf8_chars s"
  by (simp add: hd_space)

lemma split_whitespace_at:
  "white_free w \<Longrightarrow> w \<noteq> [] \<Longrightarrow> split_whitespace (w @ CHR '' '' # s) = w # split_whitespace s"
proof -
  assume w: "white_free w" "w \<noteq> []"
  have "utf8_chars (w @ CHR '' '' # s) = utf8_chars w @ [CHR '' ''] # utf8_chars s"
    using hd_space(1) by (subst utf8_chars_append) (simp_all add: utf8_chars_space del: utf8_chars.simps)
  then show ?thesis using w
    by (simp add: split_whitespace_def white_free_def white_runs_at is_whitespace_space utf8_chars_concat
        del: utf8_chars.simps)
qed

lemma split_whitespace_one: "white_free w \<Longrightarrow> w \<noteq> [] \<Longrightarrow> split_whitespace w = [w]"
  by (simp add: split_whitespace_def white_free_def white_runs_one utf8_chars_concat)

lemma split_whitespace_fields:
  assumes "white_free w" "w \<noteq> []" "\<forall>(k, v) \<in> set fs. key_text k \<and> white_free v"
  shows "split_whitespace (w @ concat (map render_field fs)) = w # map (\<lambda>(k, v). k @ CHR ''='' # v) fs"
  using assms
proof (induction fs arbitrary: w)
  case (Cons f fs)
  obtain k v where f: "f = (k, v)" by (cases f)
  have k: "ascii_text (k @ ''='')" "CHR '' '' \<notin> set (k @ ''='')" "white_free v"
    using Cons.prems f by (simp_all add: key_text_def)
  have "white_free ((k @ ''='') @ v)" using white_free_prefix [OF k(1,2)] k(3) by blast
  then have "split_whitespace ((k @ CHR ''='' # v) @ concat (map render_field fs)) =
      (k @ CHR ''='' # v) # map (\<lambda>(k, v). k @ CHR ''='' # v) fs"
    using Cons.prems by (intro Cons.IH) simp_all
  then show ?case using split_whitespace_at [OF Cons.prems(1,2)] by (simp add: f)
qed (simp add: split_whitespace_one)

definition fields_map :: "fields \<Rightarrow> string \<rightharpoonup> string" where
  "fields_map fs = fold (\<lambda>(k, v) m. m(k \<mapsto> v)) fs Map.empty"

lemma tokens_map:
  assumes "\<forall>(k, v) \<in> set fs. CHR ''='' \<notin> set k"
  shows "fold (\<lambda>token m. case split_once (CHR ''='') token of Some (k, v) \<Rightarrow> m(k \<mapsto> v) | None \<Rightarrow> m)
      (map (\<lambda>(k, v). k @ CHR ''='' # v) fs) m0 = fold (\<lambda>(k, v) m. m(k \<mapsto> v)) fs m0"
  using assms
proof (induction fs arbitrary: m0)
  case (Cons f fs)
  then show ?case by (cases f) (simp add: split_once_at del: fun_upd_apply)
qed simp

lemma line_fields_log:
  assumes "\<forall>(k, v) \<in> set (log_fields e). key_text k \<and> white_free v"
  shows "line_fields (to_log_line ts e) =
    fields_map ((''ts'', rfc3339 ts) # (''event'', event_name e) # log_fields e)"
proof -
  let ?fs = "log_fields e" and ?z = "concat (map render_field (log_fields e))"
  have l: "to_log_line ts e = (''ts='' @ rfc3339 ts) @ CHR '' '' # (''event='' @ event_name e) @ ?z"
    using log_line_plain [of e ts] assms white_free_control by (auto simp: head_text_def)
  have a: "white_free (''ts='' @ rfc3339 ts)" and b: "white_free (''event='' @ event_name e)"
    using plain_rfc3339 [of ts] event_name_ascii [of e] by (intro white_free_plain; simp add: plain_value_def)+
  have "split_whitespace ((''event='' @ event_name e) @ ?z) = (''event='' @ event_name e) # map (\<lambda>(k, v). k @ CHR ''='' # v) ?fs"
    using b assms by (intro split_whitespace_fields) simp_all
  then have "split_whitespace (to_log_line ts e) =
      map (\<lambda>(k, v). k @ CHR ''='' # v) ((''ts'', rfc3339 ts) # (''event'', event_name e) # ?fs)"
    unfolding l using split_whitespace_at [OF a] by simp
  moreover have "\<forall>(k, v) \<in> set ((''ts'', rfc3339 ts) # (''event'', event_name e) # ?fs). CHR ''='' \<notin> set k"
    using assms by (auto simp: key_text_def)
  ultimately show ?thesis unfolding line_fields_def fields_map_def by (simp only: tokens_map)
qed

text \<open>The swap an event is.\<close>

definition kind_of_reason :: "swap_reason \<Rightarrow> swap_kind" where
  "kind_of_reason r =
     (case r of
        SR_Session \<Rightarrow> SK_Session | SR_Weekly \<Rightarrow> SK_Weekly | SR_Manual \<Rightarrow> SK_Manual | SR_Forced \<Rightarrow> SK_Forced
      | SR_BlindPreempt \<Rightarrow> SK_Preempt | SR_VelocityPreempt \<Rightarrow> SK_Preempt)"

definition swap_of_event :: "int \<Rightarrow> event \<Rightarrow> swap_event option" where
  "swap_of_event ts e =
     (case e of
        Ev_Swap f t r p j \<Rightarrow> Some \<lparr>se_ts = ts, se_from = f, se_to = t, se_kind = kind_of_reason r\<rparr>
      | Ev_EmergencySwap f t \<Rightarrow> Some \<lparr>se_ts = ts, se_from = f, se_to = t, se_kind = SK_Emergency\<rparr>
      | _ \<Rightarrow> None)"

section \<open>The keys of the fields\<close>

definition FIELD_KEYS :: "string list" where
  "FIELD_KEYS =
     [''account'', ''accounts'', ''acct'', ''action'', ''after'', ''backoff_secs'', ''before'',
      ''blind_secs'', ''cap_secs'', ''cause'', ''ceiling'', ''class'', ''consecutive'', ''count'',
      ''counted'', ''delta_secs'', ''displayed'', ''duration_secs'', ''elapsed_secs'', ''encrypted'',
      ''exe'', ''exe_mtime'', ''exe_size'', ''expires_after'', ''expires_at'', ''expires_before'',
      ''failed'', ''from'', ''grant_replaced'', ''hold'', ''horizon'', ''horizon_secs'', ''imported'',
      ''incoming'', ''inflation'', ''late'', ''matched'', ''mode'', ''near_limit'', ''observed'',
      ''outcome'', ''overridden'', ''overwritten'', ''path'', ''previous'', ''projected'', ''provenance'',
      ''rate'', ''raw_lines'', ''reason'', ''refused'', ''resets_at'', ''retry_after_secs'',
      ''rolled_through'', ''rotated'', ''runway_secs'', ''session_at_recovery'', ''session_burn_pct'',
      ''session_delta_pct'', ''session_high_water_pct'', ''session_pct'', ''session_pct_per_min'', ''since'',
      ''skipped'', ''state'', ''status'', ''sub_interval_secs'', ''swapped_away'', ''swaps'',
      ''threshold_secs'', ''to'', ''trigger'', ''verdict'', ''version'', ''viable_target'', ''was_active'',
      ''weekly_at_recovery'', ''weekly_burn_pct'', ''weekly_delta_pct'', ''weekly_pct'',
      ''weekly_pct_per_min'', ''window_secs'']"

lemma field_keys_text: "\<forall>k \<in> set FIELD_KEYS. key_text k"
  by code_simp

lemmas key_texts [simp] = field_keys_text [unfolded FIELD_KEYS_def, simplified]

definition keys_ok :: "fields \<Rightarrow> bool" where
  "keys_ok fs \<longleftrightarrow> (\<forall>f \<in> set fs. key_text (fst f))"

lemma keys_ok_simps [simp]:
  "keys_ok []" "keys_ok ((k, v) # fs) \<longleftrightarrow> key_text k \<and> keys_ok fs" "keys_ok (xs @ ys) \<longleftrightarrow> keys_ok xs \<and> keys_ok ys"
  by (auto simp: keys_ok_def)

lemma keys_ok_opt [simp]: "key_text k \<Longrightarrow> keys_ok (opt_field k f x)" "key_text k \<Longrightarrow> keys_ok (flag_field k b)"
  by (simp_all add: opt_field_def flag_field_def split: option.split)

lemma keys_ok_parts [simp]:
  "keys_ok (swap_fields f t r p j)" "keys_ok (hold_fields h c x)" "keys_ok (triggered_fields a tr out)"
  "keys_ok (import_fields i s v w)" "keys_ok (backoff_fields a cl n ra b)" "keys_ok (velocity_fields a sd wd el)"
  "keys_ok (blind_window_fields a d sp sr nl bv hw)" "keys_ok (blind_enter_fields a sp wp wa nl)"
  "keys_ok (blind_exit_fields a d sp sr wp wr wa sw nl)" "keys_ok (expiry_observed_fields a pr b4 af gr)"
  "keys_ok (reload_fields ro pv ic rr)" "keys_ok (refresh_fields a out b4m afm rs bk)" "keys_ok (build_fields ex es em)"
  by (simp_all add: swap_fields_def projection_fields_def hold_fields_def triggered_fields_def rotated_field_def
      import_fields_def backoff_fields_def velocity_fields_def blind_window_fields_def blind_enter_fields_def
      blind_exit_fields_def burn_field_def expiry_observed_fields_def reload_fields_def refresh_fields_def
      build_fields_def Let_def split: option.split)

lemma log_fields_keys: "keys_ok (log_fields e)"
  by (cases e) simp_all

section \<open>What the swap parser reads\<close>

lemma fields_map_append: "fst ` set ys \<inter> {k} = {} \<Longrightarrow> fields_map (xs @ ys) k = fields_map xs k"
proof (induction ys rule: rev_induct)
  case (snoc y ys)
  then have "fields_map (xs @ ys) k = fields_map xs k" "k \<noteq> fst y" by auto
  then show ?case unfolding fields_map_def append_assoc [symmetric] fold_append
    by (simp add: case_prod_unfold)
qed simp

lemma event_key:
  assumes "keys_ok fs"
  shows "fields_map ((''ts'', s) # (''event'', n) # fs) ''ts'' = Some s"
    "fields_map ((''ts'', s) # (''event'', n) # fs) ''event'' = Some n"
proof -
  have "fst ` set fs \<inter> {''ts''} = {}" "fst ` set fs \<inter> {''event''} = {}"
    using assms by (auto simp: keys_ok_def key_text_def)
  then show "fields_map ((''ts'', s) # (''event'', n) # fs) ''ts'' = Some s"
    "fields_map ((''ts'', s) # (''event'', n) # fs) ''event'' = Some n"
    using fields_map_append [of fs _ "[(''ts'', s), (''event'', n)]"] by (simp_all add: fields_map_def)
qed

definition values_white_free :: "event \<Rightarrow> bool" where
  "values_white_free e \<longleftrightarrow> (\<forall>(k, v) \<in> set (log_fields e). white_free v)"

lemma line_fields_free:
  "values_white_free e \<Longrightarrow> line_fields (to_log_line ts e) =
    fields_map ((''ts'', rfc3339 ts) # (''event'', event_name e) # log_fields e)"
  using log_fields_keys [of e] by (intro line_fields_log) (auto simp: values_white_free_def keys_ok_def)

lemma kind_read_back: "reason_kind (Some (swap_reason_as_str r)) = Some (kind_of_reason r)"
  by (cases r) (simp_all add: reason_kind_def kind_of_reason_def)

lemma swap_tail:
  obtains fs where "swap_fields f t r p j = [(''from'', f), (''to'', t), (''reason'', swap_reason_as_str r)] @ fs"
    "fst ` set fs \<inter> {''ts'', ''event'', ''from'', ''to'', ''reason''} = {}"
  by (rule that [of "drop 3 (swap_fields f t r p j)"])
    (auto simp: swap_fields_def projection_fields_def opt_field_set flag_field_def split: option.splits)

lemma swap_of_line:
  assumes "0 \<le> ts" "ts < YEAR_10000" "values_white_free e"
  shows "swap_event_of (line_fields (to_log_line ts e)) = swap_of_event ts e"
proof -
  let ?m = "fields_map ((''ts'', rfc3339 ts) # (''event'', event_name e) # log_fields e)"
  note ev = event_key [OF log_fields_keys [of e], of "rfc3339 ts" "event_name e"]
  have ts: "epoch_from_rfc3339 (rfc3339 ts) = Some ts" using assms rfc3339_read_back [of ts] by simp
  consider (swap) f t r p j where "e = Ev_Swap f t r p j" | (emergency) f t where "e = Ev_EmergencySwap f t"
    | (other) "\<not> is_swap_event e" unfolding is_swap_event_def by blast
  then have "swap_event_of ?m = swap_of_event ts e"
  proof cases
    case swap
    obtain fs where fs: "swap_fields f t r p j = [(''from'', f), (''to'', t), (''reason'', swap_reason_as_str r)] @ fs"
      "fst ` set fs \<inter> {''ts'', ''event'', ''from'', ''to'', ''reason''} = {}" by (rule swap_tail)
    let ?h = "[(''ts'', rfc3339 ts), (''event'', ''swap''), (''from'', f), (''to'', t), (''reason'', swap_reason_as_str r)]"
    have m: "?m = fields_map (?h @ fs)" by (simp add: swap fs(1))
    have "?m k = fields_map ?h k" if "k \<in> {''from'', ''to'', ''reason''}" for k
      unfolding m using fs(2) that by (intro fields_map_append) blast
    then have "?m ''from'' = Some f" "?m ''to'' = Some t" "?m ''reason'' = Some (swap_reason_as_str r)"
      by (simp_all add: fields_map_def)
    then show ?thesis using ev by (simp add: swap_event_of_def swap swap_of_event_def kind_read_back ts)
  next
    case emergency
    have "?m ''from'' = Some f" "?m ''to'' = Some t" by (simp_all add: emergency fields_map_def)
    then show ?thesis using ev by (simp add: swap_event_of_def emergency swap_of_event_def ts)
  next
    case other
    then have "event_name e \<noteq> ''swap''" "event_name e \<noteq> ''emergency_swap''" by (simp_all add: is_swap_event_name)
    moreover have "swap_of_event ts e = None" using other by (cases e) (simp_all add: swap_of_event_def is_swap_event_def)
    ultimately show ?thesis using ev(2) by (simp add: swap_event_of_def)
  qed
  then show ?thesis using assms(3) by (simp add: line_fields_free)
qed

text \<open>
  C38: when no value in the log has white space or control characters in it, the swap parser of the statistics
  reads back exactly the swaps that were logged, in their order, each with its instant, its two accounts and its
  kind, the two preemptive reasons folded into one.
\<close>

theorem parse_swap_events_exact:
  assumes "\<forall>(ts, e) \<in> set es. 0 \<le> ts \<and> ts < YEAR_10000 \<and> values_white_free e"
  shows "parse_swap_events (log_text es) = List.map_filter (\<lambda>(ts, e). swap_of_event ts e) es"
proof -
  have "List.map_filter (\<lambda>line. swap_event_of (line_fields line)) (map (\<lambda>(ts, e). to_log_line ts e) es) =
      List.map_filter (\<lambda>(ts, e). swap_of_event ts e) es"
    using assms
  proof (induction es)
    case (Cons x es)
    obtain ts e where x: "x = (ts, e)" by (cases x)
    have "swap_event_of (line_fields (to_log_line ts e)) = swap_of_event ts e"
      using Cons.prems x by (intro swap_of_line) auto
    then show ?case using Cons by (simp add: x List.map_filter_def)
  qed (simp add: List.map_filter_def)
  then show ?thesis by (simp only: parse_swap_events_def rust_lines_log)
qed

theorem parse_swap_events_exact_witness:
  "parse_swap_events (log_text [(40, Ev_Swap ''a'' ''b'' SR_VelocityPreempt (Some 97) None), (90, Ev_ReStash ''b'')]) =
    [\<lparr>se_ts = 40, se_from = ''a'', se_to = ''b'', se_kind = SK_Preempt\<rparr>]"
  using parse_swap_events_exact [of "[(40, Ev_Swap ''a'' ''b'' SR_VelocityPreempt (Some 97) None), (90, Ev_ReStash ''b'')]"]
  by (simp add: YEAR_10000_def values_white_free_def swap_fields_def projection_fields_def opt_field_def flag_field_def
      white_free_plain plain_value_def [of "''a''"] plain_value_def [of "''b''"] plain_value_def [of "''velocity_preempt''"]
      swap_of_event_def kind_of_reason_def List.map_filter_def)

lemma split_whitespace_words:
  assumes "plain_value w" "w \<noteq> []" "\<forall>w \<in> set ws. plain_value w \<and> w \<noteq> []"
  shows "split_whitespace (w @ concat (map (\<lambda>w. CHR '' '' # w) ws)) = w # ws"
  using assms
  by (induction ws arbitrary: w) (simp_all add: split_whitespace_at split_whitespace_one white_free_plain)

lemma parse_one_line:
  assumes "swap_event_of (line_fields (to_log_line ts e)) = Some s"
  shows "parse_swap_events (log_text [(ts, e)]) = [s]"
  using assms by (simp add: parse_swap_events_def rust_lines_log List.map_filter_def)

text \<open>
  C39: a label with a space in it, which the configuration accepts, is not read back whole by the swap parser: the
  account \<open>Work Account\<close> of a logged swap becomes \<open>Work\<close>. And a label that spells fields makes the parser read a
  swap from a line that logs none, while the positional reader of the cool-down gate is not misled.
\<close>

theorem labels_with_spaces_mislead:
  assumes "0 \<le> ts" "ts < YEAR_10000"
  shows "parse_swap_events (log_text [(ts, Ev_Swap ''Work Account'' ''b'' SR_Session None None)]) =
      [\<lparr>se_ts = ts, se_from = ''Work'', se_to = ''b'', se_kind = SK_Session\<rparr>] \<and>
    parse_swap_events (log_text [(ts, Ev_ReStash ''x event=swap reason=manual from=a to=b'')]) =
      [\<lparr>se_ts = ts, se_from = ''a'', se_to = ''b'', se_kind = SK_Manual\<rparr>] \<and>
    last_swap_at (Some (log_text [(ts, Ev_ReStash ''x event=swap reason=manual from=a to=b'')])) = None"
proof (intro conjI)
  have ts: "epoch_from_rfc3339 (rfc3339 ts) = Some ts" using assms rfc3339_read_back [of ts] by simp
  let ?w = "''ts='' @ rfc3339 ts" and ?sp = "\<lambda>ws. concat (map (\<lambda>w. CHR '' '' # w) ws)"
  have w: "plain_value ?w" "?w \<noteq> []" using plain_rfc3339 [of ts] by (simp_all add: plain_value_def)
  let ?a = "Ev_Swap ''Work Account'' ''b'' SR_Session None None"
  let ?as = "[''event=swap'', ''from=Work'', ''Account'', ''to=b'', ''reason=session'']"
  have "to_log_line ts ?a = ?w @ ?sp ?as"
    by (subst log_line_plain) (simp_all add: swap_fields_def projection_fields_def opt_field_def flag_field_def
        control_free_ascii head_text_def)
  moreover have "split_whitespace (?w @ ?sp ?as) = ?w # ?as"
    by (intro split_whitespace_words w) (simp add: plain_value_def)
  ultimately have "split_whitespace (to_log_line ts ?a) = ?w # ?as" by (simp only:)
  then show "parse_swap_events (log_text [(ts, ?a)]) =
      [\<lparr>se_ts = ts, se_from = ''Work'', se_to = ''b'', se_kind = SK_Session\<rparr>]"
    by (intro parse_one_line) (simp add: line_fields_def swap_event_of_def reason_kind_def ts)
  let ?b = "Ev_ReStash ''x event=swap reason=manual from=a to=b''"
  let ?bs = "[''event=restash'', ''account=x'', ''event=swap'', ''reason=manual'', ''from=a'', ''to=b'']"
  have "to_log_line ts ?b = ?w @ ?sp ?bs"
    by (subst log_line_plain) (simp_all add: control_free_ascii head_text_def)
  moreover have "split_whitespace (?w @ ?sp ?bs) = ?w # ?bs"
    by (intro split_whitespace_words w) (simp add: plain_value_def)
  ultimately have "split_whitespace (to_log_line ts ?b) = ?w # ?bs" by (simp only:)
  then show "parse_swap_events (log_text [(ts, ?b)]) =
      [\<lparr>se_ts = ts, se_from = ''a'', se_to = ''b'', se_kind = SK_Manual\<rparr>]"
    by (intro parse_one_line) (simp add: line_fields_def swap_event_of_def reason_kind_def ts)
  show "last_swap_at (Some (log_text [(ts, ?b)])) = None"
    by (simp add: last_swap_at_def rust_lines_log is_swap_line_log is_swap_event_def)
qed

theorem labels_with_spaces_mislead_witness:
  "parse_swap_events (log_text [(90, Ev_ReStash ''x event=swap reason=manual from=a to=b'')]) =
    [\<lparr>se_ts = 90, se_from = ''a'', se_to = ''b'', se_kind = SK_Manual\<rparr>]"
  using labels_with_spaces_mislead [of 90] by (simp add: YEAR_10000_def)

end
