(* ===== verification/Spec2Isabelle.thy ===== *)
theory Spec2Isabelle
  imports Timing Swap_Policy Systemic_Refresh Selection Relief Refresh_Engine Digest Expiry Canary Run_Loop Usage_Store Roster_Backup Log_Fields
begin

text \<open>
  A verification development for \<open>sessiometer\<close> (\<open>src/src\<close>): a daemon that polls the usage of several
  accounts of a command-line tool and, when the active account nears its limit, swaps the canonical
  credential for that of an account with headroom.

  The parts and how they interact. The daemon (\<open>daemon.rs\<close>, \<open>daemon/*.rs\<close>) ticks: it polls one account
  (\<open>usage.rs\<close>), folds the reading or the failure into that account's state (\<open>daemon/records.rs\<close>), and decides
  (\<open>swap.rs\<close>) whether to swap and where to (\<open>daemon/selection.rs\<close>). A swap runs behind a canary
  (\<open>canary.rs\<close>) and a file lock, and moves credentials between the canonical item (\<open>keychain.rs\<close>) and the
  stash (\<open>stash.rs\<close>). A quarantined or idle account is refreshed in isolation (\<open>refresh.rs\<close>), on a schedule
  (\<open>refresh_tick.rs\<close>) that runs inside the idle wait between two ticks (\<open>daemon/run_loop.rs\<close>). In the same wait
  the daemon serves a control socket (\<open>daemon/socket.rs\<close>): its clients read the status, and ask it to swap,
  to capture the account that is logged in, to change the configuration or to reload the roster
  (\<open>daemon/commands.rs\<close>). The \<open>use\<close> command (\<open>use_account.rs\<close>) delegates to a running daemon or swaps itself.
  What happens is written down twice: every event as a line of the event log (\<open>observability.rs\<close>), which the
  cool-down gate, the offline list and the statistics read back, and every reading as a sample of the usage store
  (\<open>usage_store.rs\<close>), which is compacted into hourly and daily tiers. Saving the configuration
  (\<open>config/render.rs\<close>) keeps the replaced file in a ring of backups (\<open>roster_backup.rs\<close>).

  Theories, in the order of the imports:
  \<^item> \<open>Prelude\<close>: saturating machine arithmetic, instants and durations (whole nanoseconds on \<open>nat\<close>), and a
    program logic (triples) for the state monad of the library.
  \<^item> \<open>F64\<close>: binary64 as exact rationals with NaN and infinities and round-to-nearest-even; the sign of zero
    is not kept (no modelled operation tells the zeros apart).
  \<^item> \<open>Timing\<close> (\<open>timing.rs\<close>): SplitMix64 on 64-bit words, the \<open>Rng\<close> interface as a locale, the strategies.
  \<^item> \<open>Errors\<close>, \<open>Observability\<close> (\<open>error.rs\<close>, \<open>observability.rs\<close>): the error variants and the event vocabulary.
  \<^item> \<open>Usage\<close> (\<open>usage.rs\<close>, \<open>daemon/classify.rs\<close>): readings and their classification.
  \<^item> \<open>Swap_Policy\<close> (\<open>swap.rs\<close>): the decision, the thresholds, the high water and the stale-low correction.
  \<^item> \<open>Latch\<close>, \<open>Systemic_Refresh\<close> (\<open>systemic_refresh.rs\<close>): raised/cleared alarms as a locale, and its instance.
  \<^item> \<open>Records\<close> (\<open>daemon/records.rs\<close>): the per-account state and the blind-window gates.
  \<^item> \<open>Selection\<close> (\<open>daemon/selection.rs\<close>): viability and ranking of targets, over a comparator locale.
  \<^item> \<open>Relief\<close> (\<open>daemon.rs\<close>): which blocked account returns first, the slow-poll window, operator swaps.
  \<^item> \<open>World\<close>: the credential stores, the state file, the lock and the clock as an interface \<open>io\<close> with the
    laws \<open>vault\<close>, interpreted on the repository's in-memory fakes; attribution of a credential.
  \<^item> \<open>Swap_Engine\<close> (\<open>swap.rs\<close>): the swap sequence, adoption of a target, the single-writer lock.
  \<^item> \<open>Refresh_Engine\<close> (\<open>refresh.rs\<close>): back-dating and judging a credential, the compare-and-swap re-stash.
  \<^item> \<open>Digest\<close> (\<open>sha256.rs\<close>, \<open>hex.rs\<close>): SHA-256, the hex codec and the values derived from a digest.
  \<^item> \<open>Expiry\<close> (\<open>daemon/snapshot.rs\<close>): credential health, expiry horizons and cohorts.
  \<^item> \<open>Canary\<close> (\<open>canary.rs\<close>): the check before every swap.
  \<^item> \<open>Text\<close> (\<open>duration.rs\<close>): trimming, numbers and spans; \<open>Config\<close> (\<open>config.rs\<close>, \<open>config/validate.rs\<close>,
    \<open>config/settings.rs\<close>, \<open>config/load.rs\<close>): the configuration, its validation and its edits.
  \<^item> \<open>Capture\<close> (\<open>capture.rs\<close>, \<open>witness.rs\<close>): an account joins the roster, by capture or by login.
  \<^item> \<open>Daemon_State\<close> (\<open>daemon.rs\<close>): the records \<open>cfg\<close>, \<open>env\<close> and \<open>daemon\<close>, the monad of the daemon, the
    invariant \<open>wf\<close> on its indices.
  \<^item> \<open>Daemon_Fold\<close> (\<open>daemon/refresh_fold.rs\<close>, \<open>daemon/snapshot_build.rs\<close>): quarantine and recovery, refresh
    outcomes, expiry observations, health transitions.
  \<^item> \<open>Daemon_Poll\<close>, \<open>Daemon_Observe\<close> (\<open>daemon.rs\<close>): the poll schedule and the back-off; velocity, blind
    episodes, landings, gaps, divergence, the fleet warning.
  \<^item> \<open>Daemon_Canonical\<close> (\<open>daemon/canonical.rs\<close>, \<open>daemon/keep_warm.rs\<close>): the watch of the canonical credential.
  \<^item> \<open>Daemon_Decide\<close> (\<open>daemon.rs\<close>): \<open>decide_action\<close> with its paths, the view of the next swap.
  \<^item> \<open>Snapshot\<close> (\<open>daemon/snapshot.rs\<close>, \<open>daemon/snapshot_build.rs\<close>): what the daemon publishes.
  \<^item> \<open>Daemon_Tick\<close> (\<open>daemon.rs\<close>): \<open>tick\<close>; \<open>Daemon_Alarms\<close>: its invariants, the index invariant and the
    alternation of eight alarms over every history, by one relation (\<open>settled\<close>) per step and one predicate
    on computations (\<open>keeps_alarm\<close>) with a rule per monad operation.
  \<^item> \<open>Refresh_Tick\<close> (\<open>refresh_tick.rs\<close>): the periodic refresh, its sweeps and its back-off ledger.
  \<^item> \<open>Control\<close> (\<open>daemon/socket.rs\<close>): the control protocol.
  \<^item> \<open>Use_Account\<close> (\<open>use_account.rs\<close>): the operator's swap, over a locale of its collaborators.
  \<^item> \<open>Daemon_Commands\<close> (\<open>daemon/commands.rs\<close>): the commands the daemon carries out and the roster reload.
  \<^item> \<open>Run_Loop\<close> (\<open>daemon/run_loop.rs\<close>): boot and the rounds of tick, idle wait and handling. The wait is a
    \<open>select!\<close> loop; the model is given, poll by poll, what the world and the clients did, and its timers are
    deadlines compared with the clock. A request is parsed and answered by \<open>Control\<close>, so what a client may
    cause is what the protocol lets through.
  \<^item> \<open>Decimal\<close>, \<open>Calendar\<close> (\<open>usage.rs\<close>, \<open>observability.rs\<close>): numbers, splitting and instants as text.
  \<^item> \<open>Log_Line\<close> (\<open>observability.rs\<close>): every event as its log line; \<open>Log_Readers\<close> and \<open>Log_Fields\<close>
    (\<open>observability.rs\<close>, \<open>usage_stats.rs\<close>): the readers of the log, by the position of a field and by its key.
  \<^item> \<open>Files\<close> (\<open>paths.rs\<close>, \<open>file_policy.rs\<close>): owner-only and atomic writes and the bounded file lock, over an
    interface of system calls with the laws \<open>posix_files\<close>, interpreted on an in-memory file system.
  \<^item> \<open>Usage_Rollup\<close> and \<open>Usage_Store\<close> (\<open>usage_store.rs\<close>, \<open>percentile.rs\<close>): samples, the tiers and the plan of
    a compaction pass; the files, their lock, the torn tail and the recovery after a crash.
  \<^item> \<open>Roster_Backup\<close> (\<open>roster_backup.rs\<close>, \<open>config/render.rs\<close>, \<open>config/write_lock.rs\<close>): the save of the
    configuration under its lock, with the ring of backups.

  How the theorems compose. The contract \<open>vault\<close> of the stores is the base of every statement on
  credentials: the swap, the adoption, the capture, the login, the \<open>use\<close> command and the socket command all
  rest on the same triples. The invariant \<open>wf\<close> holds for the initial daemon and is carried through every
  tick, command, reload and round. The status snapshot connects daemon and clients: what \<open>use\<close> reads off
  it agrees with the daemon's own verdict. The contract \<open>posix_files\<close> is the base of the statements on files:
  the store and the backup ring state what is on disk after every failure. The log readers are compared with
  the log writer over every list of events: \<open>one_line_per_event\<close> gives the lines back, and each reader the part
  of the events it looks for.

  Bounds and fuel. The fuelled loops are the waits for the swap lock and for the file locks of the store and
  of the configuration; the fuel is the number of retries that fit in the wait, and \<open>swap_lock_acquire_returns\<close>
  and \<open>flock_acquire_returns\<close> show it is enough. Every other loop is structural.
  The run loop and its idle wait run for as long as they are given inputs; \<open>wait_ends\<close> shows how few end a
  wait. Arithmetic on \<open>i64\<close> time stamps is exact on \<open>int\<close>; saturating operations are written out. A string is
  the list of its UTF-8 bytes.

  Not modelled: the command-line front end and the printed tables (\<open>cli.rs\<close>), the statistics and reliability
  reports but for their log reader (\<open>stats.rs\<close>, \<open>usage_stats.rs\<close>, \<open>reliability.rs\<close>), the migration archive
  (\<open>migration.rs\<close>), the commented text of a rendered configuration (\<open>config/render.rs\<close>), the service and the
  diagnostic log lines, the browser login and the process spawning of a refresh. They are input and output or
  renderings of the modelled data. Of the modelled components, the wording of messages, the encodings of
  \<open>serde\<close> and \<open>toml\<close>, and the streams of the socket are parameters or left out, as each theory says.
\<close>

end
